(* ===== verification/Prelude.thy ===== *)
theory Prelude
  imports Main "HOL-Library.Word" "HOL-Library.Char_ord" "HOL-Library.List_Lexorder"
begin

text \<open>
  What the components share: the machine integers of the code, fallible results and
  the state-and-error computations of the virtual machine, decimal printing, binary
  search and a few facts about lists.

  A Rust \<open>Result<A, E>\<close> is a value of \<open>'e + 'a\<close> with \<open>Inl\<close> the error. A Rust
  \<open>str\<close> is the list of its UTF-8 bytes, so \<open>length\<close> is \<open>str::len\<close> and the order
  of HOL-Library's \<open>List_Lexorder\<close> over \<open>Char_ord\<close> is \<open>str::cmp\<close>. A \<open>u32\<close> used as
  an index is a \<open>nat\<close> cast with \<open>as_u32\<close>, which wraps as the cast in the code does.
  The target is a 64-bit platform: \<open>usize\<close> and \<open>u64\<close> have the same range, so the
  conversions from \<open>u32\<close> to \<open>usize\<close> and from \<open>usize\<close> to \<open>u64\<close> cannot fail.
\<close>

named_theorems result_simps \<open>case analysis of fallible computations\<close>
named_theorems run_intros \<open>rules that push an invariant through a stateful computation\<close>

section \<open>Machine integers\<close>

type_synonym u8 = "8 word"
type_synonym u32 = "32 word"
type_synonym u64 = "64 word"
type_synonym i64 = "64 word"

definition u32_max :: nat where
  "u32_max = 2 ^ 32 - 1"

definition usize_max :: nat where
  "usize_max = 2 ^ 64 - 1"

definition as_u32 :: "nat \<Rightarrow> nat" where
  "as_u32 n = n mod 2 ^ 32"

lemma as_u32_small: "n \<le> u32_max \<Longrightarrow> as_u32 n = n"
  by (simp add: as_u32_def u32_max_def)

text \<open>\<open>usize::checked_add\<close>, and \<open>checked_add\<close>/\<open>checked_mul\<close> on \<open>u64\<close> amounts.\<close>

definition checked_add_usize :: "nat \<Rightarrow> nat \<Rightarrow> nat option" where
  "checked_add_usize a b = (if a + b \<le> usize_max then Some (a + b) else None)"

definition checked_mul_usize :: "nat \<Rightarrow> nat \<Rightarrow> nat option" where
  "checked_mul_usize a b = (if a * b \<le> usize_max then Some (a * b) else None)"

text \<open>The limit as an integer, so that the kernel can evaluate it.\<close>

lemma checked_add_usize_code [code]:
  "checked_add_usize a b = (if int (a + b) \<le> 18446744073709551615 then Some (a + b) else None)"
  by (auto simp: checked_add_usize_def usize_max_def)

lemma checked_add_usize_eq_Some [simp]:
  "checked_add_usize a b = Some c \<longleftrightarrow> c = a + b \<and> a + b \<le> usize_max"
  by (auto simp: checked_add_usize_def)

lemma checked_mul_usize_eq_Some [simp]:
  "checked_mul_usize a b = Some c \<longleftrightarrow> c = a * b \<and> a * b \<le> usize_max"
  by (auto simp: checked_mul_usize_def)

text \<open>
  Signed 64-bit arithmetic: \<open>i64_of\<close> is \<open>Some\<close> exactly on the integers an \<open>i64\<close> holds,
  and the checked operations compute the exact result first.
\<close>

definition i64_of :: "int \<Rightarrow> i64 option" where
  "i64_of n = (if - (2 ^ 63) \<le> n \<and> n < 2 ^ 63 then Some (word_of_int n) else None)"

definition i64_checked_add :: "i64 \<Rightarrow> i64 \<Rightarrow> i64 option" where
  "i64_checked_add a b = i64_of (sint a + sint b)"

definition i64_checked_sub :: "i64 \<Rightarrow> i64 \<Rightarrow> i64 option" where
  "i64_checked_sub a b = i64_of (sint a - sint b)"

definition i64_checked_mul :: "i64 \<Rightarrow> i64 \<Rightarrow> i64 option" where
  "i64_checked_mul a b = i64_of (sint a * sint b)"

text \<open>Division of the code's integers truncates towards zero.\<close>

definition trunc_div :: "int \<Rightarrow> int \<Rightarrow> int" where
  "trunc_div a b = sgn a * sgn b * (\<bar>a\<bar> div \<bar>b\<bar>)"

definition i64_checked_div :: "i64 \<Rightarrow> i64 \<Rightarrow> i64 option" where
  "i64_checked_div a b = (if b = 0 then None else i64_of (trunc_div (sint a) (sint b)))"

definition i64_checked_neg :: "i64 \<Rightarrow> i64 option" where
  "i64_checked_neg a = i64_of (- sint a)"

lemma sint_i64_of: "i64_of n = Some w \<Longrightarrow> sint w = n"
proof -
  assume "i64_of n = Some w"
  then have w: "w = word_of_int n" and n: "- (2 ^ 63) \<le> n" "n < 2 ^ 63"
    by (auto simp: i64_of_def split: if_splits)
  have "sint (word_of_int n :: 64 word) = signed_take_bit 63 n"
    by (simp add: signed_of_int)
  also have "\<dots> = n"
    using n by (simp add: signed_take_bit_int_eq_self)
  finally show "sint w = n" using w by simp
qed

lemma i64_of_None_iff: "i64_of n = None \<longleftrightarrow> n < - (2 ^ 63) \<or> 2 ^ 63 \<le> n"
  by (auto simp: i64_of_def)

section \<open>Fallible results\<close>

fun rbind :: "'e + 'a \<Rightarrow> ('a \<Rightarrow> 'e + 'b) \<Rightarrow> 'e + 'b" where
  "rbind (Inl e) f = Inl e"
| "rbind (Inr x) f = f x"

lemma rbind_eq_Inr [result_simps]: "rbind m f = Inr y \<longleftrightarrow> (\<exists>x. m = Inr x \<and> f x = Inr y)"
  by (cases m) auto

lemma rbind_eq_Inl [result_simps]:
  "rbind m f = Inl e \<longleftrightarrow> m = Inl e \<or> (\<exists>x. m = Inr x \<and> f x = Inl e)"
  by (cases m) auto

lemma rbind_cong [fundef_cong]:
  "m = m' \<Longrightarrow> (\<And>x. m' = Inr x \<Longrightarrow> f x = g x) \<Longrightarrow> rbind m f = rbind m' g"
  by (cases m') auto

definition ok_or :: "'e \<Rightarrow> 'a option \<Rightarrow> 'e + 'a" where
  "ok_or e x = (case x of None \<Rightarrow> Inl e | Some y \<Rightarrow> Inr y)"

lemma ok_or_simps [simp]: "ok_or e None = Inl e" "ok_or e (Some y) = Inr y"
  by (simp_all add: ok_or_def)

lemma ok_or_eq_Inr [simp, result_simps]: "ok_or e x = Inr y \<longleftrightarrow> x = Some y"
  by (cases x) auto

fun map_err :: "('e \<Rightarrow> 'f) \<Rightarrow> 'e + 'a \<Rightarrow> 'f + 'a" where
  "map_err f (Inl e) = Inl (f e)"
| "map_err f (Inr x) = Inr x"

lemma map_err_eq_Inr [simp, result_simps]: "map_err f m = Inr y \<longleftrightarrow> m = Inr y"
  by (cases m) auto

text \<open>\<open>iter().map(f).collect::<Result<Vec<_>, _>>()\<close>: left to right, stopping at the first error.\<close>

fun collect_results :: "('a \<Rightarrow> 'e + 'b) \<Rightarrow> 'a list \<Rightarrow> 'e + 'b list" where
  "collect_results f [] = Inr []"
| "collect_results f (x # xs) =
     rbind (f x) (\<lambda>y. rbind (collect_results f xs) (\<lambda>ys. Inr (y # ys)))"

lemma collect_results_cong [fundef_cong]:
  "xs = ys \<Longrightarrow> (\<And>x. x \<in> set ys \<Longrightarrow> f x = g x) \<Longrightarrow>
   collect_results f xs = collect_results g ys"
  by (induction ys arbitrary: xs) auto

lemma collect_results_eq_Inr:
  "collect_results f xs = Inr ys \<longleftrightarrow> list_all2 (\<lambda>x y. f x = Inr y) xs ys"
  by (induction xs arbitrary: ys) (auto simp: result_simps list_all2_Cons1)

lemma collect_results_length: "collect_results f xs = Inr ys \<Longrightarrow> length ys = length xs"
  by (auto simp: collect_results_eq_Inr dest: list_all2_lengthD)

lemma collect_results_nth:
  "collect_results f xs = Inr ys \<Longrightarrow> i < length xs \<Longrightarrow> f (xs ! i) = Inr (ys ! i)"
  by (auto simp: collect_results_eq_Inr list_all2_conv_all_nth)

lemma collect_results_total: "(\<And>x. x \<in> set xs \<Longrightarrow> f x = Inr (g x)) \<Longrightarrow>
  collect_results f xs = Inr (map g xs)"
  by (induction xs) auto

text \<open>The same loop over a state that each step updates, which an error discards.\<close>

fun collect_state :: "('s \<Rightarrow> 'a \<Rightarrow> 'e + ('b \<times> 's)) \<Rightarrow> 's \<Rightarrow> 'a list \<Rightarrow> 'e + ('b list \<times> 's)" where
  "collect_state f s [] = Inr ([], s)"
| "collect_state f s (x # xs) =
     rbind (f s x) (\<lambda>(y, s'). rbind (collect_state f s' xs) (\<lambda>(ys, s''). Inr (y # ys, s'')))"

lemma collect_state_cong [fundef_cong]:
  "s = t \<Longrightarrow> xs = ys \<Longrightarrow> (\<And>u x. x \<in> set ys \<Longrightarrow> f u x = g u x) \<Longrightarrow>
   collect_state f s xs = collect_state g t ys"
proof (induction ys arbitrary: s t xs)
  case (Cons y ys)
  then have "collect_state f u ys = collect_state g u ys" for u by simp
  with Cons.prems show ?case by (auto intro!: rbind_cong)
qed simp

lemma collect_state_length:
  "collect_state f s xs = Inr (ys, s') \<Longrightarrow> length ys = length xs"
  by (induction xs arbitrary: s ys) (auto simp: result_simps)

text \<open>An invariant of the state that every step keeps, with a fact about every result.\<close>

lemma collect_state_invariant:
  assumes "collect_state f s xs = Inr (ys, s')" and "I s"
    and "\<And>t x y t'. x \<in> set xs \<Longrightarrow> I t \<Longrightarrow> f t x = Inr (y, t') \<Longrightarrow> I t'"
  shows "I s'"
  using assms
proof (induction xs arbitrary: s ys)
  case (Cons x xs)
  from Cons.prems(1) obtain y t zs where
    f: "f s x = Inr (y, t)" and rest: "collect_state f t xs = Inr (zs, s')"
    by (auto simp: result_simps)
  have "I t" by (rule Cons.prems(3)[OF _ Cons.prems(2) f]) simp
  show ?case by (rule Cons.IH[OF rest \<open>I t\<close>]) (use Cons.prems(3) in auto)
qed simp

section \<open>Computations over a state that an error keeps\<close>

text \<open>
  The virtual machine's handlers take \<open>&mut\<close> references and return a \<open>Result\<close>: what they
  did before an error stays done. A computation returns its result and the state.
\<close>

type_synonym ('s, 'e, 'a) eff = "'s \<Rightarrow> ('e + 'a) \<times> 's"

definition eret :: "'a \<Rightarrow> ('s, 'e, 'a) eff" where
  "eret x = (\<lambda>s. (Inr x, s))"

definition efail :: "'e \<Rightarrow> ('s, 'e, 'a) eff" where
  "efail e = (\<lambda>s. (Inl e, s))"

definition ebind :: "('s, 'e, 'a) eff \<Rightarrow> ('a \<Rightarrow> ('s, 'e, 'b) eff) \<Rightarrow> ('s, 'e, 'b) eff" where
  "ebind m f = (\<lambda>s. case m s of (Inl e, s') \<Rightarrow> (Inl e, s') | (Inr x, s') \<Rightarrow> f x s')"

definition eget :: "('s \<Rightarrow> 'a) \<Rightarrow> ('s, 'e, 'a) eff" where
  "eget f = (\<lambda>s. (Inr (f s), s))"

definition emodify :: "('s \<Rightarrow> 's) \<Rightarrow> ('s, 'e, unit) eff" where
  "emodify f = (\<lambda>s. (Inr (), f s))"

definition elift :: "'e + 'a \<Rightarrow> ('s, 'e, 'a) eff" where
  "elift r = (\<lambda>s. (r, s))"

lemma ebind_eq_Inr [result_simps]:
  "ebind m f s = (Inr y, s') \<longleftrightarrow> (\<exists>x t. m s = (Inr x, t) \<and> f x t = (Inr y, s'))"
  by (auto simp: ebind_def split: prod.splits sum.splits)

lemma eff_simps [result_simps]:
  "eret x s = (Inr y, s') \<longleftrightarrow> y = x \<and> s' = s"
  "efail e s = (Inr z, s') \<longleftrightarrow> False"
  "eget g s = (Inr w, s') \<longleftrightarrow> w = g s \<and> s' = s"
  "emodify h s = (Inr u, s') \<longleftrightarrow> s' = h s"
  "elift r s = (Inr v, s') \<longleftrightarrow> r = Inr v \<and> s' = s"
  by (auto simp: eret_def efail_def eget_def emodify_def elift_def)

text \<open>A step that cannot fail, and the loop \<open>iter().map(f).collect::<Result<_, _>>()\<close> over a state.\<close>

definition estate :: "('s \<Rightarrow> 'a \<times> 's) \<Rightarrow> ('s, 'e, 'a) eff" where
  "estate f = (\<lambda>s. case f s of (x, s') \<Rightarrow> (Inr x, s'))"

fun ecollect :: "('a \<Rightarrow> ('s, 'e, 'b) eff) \<Rightarrow> 'a list \<Rightarrow> ('s, 'e, 'b list) eff" where
  "ecollect f [] = eret []"
| "ecollect f (x # xs) = ebind (f x) (\<lambda>y. ebind (ecollect f xs) (\<lambda>ys. eret (y # ys)))"

lemma ebind_cong [fundef_cong]:
  "m = m' \<Longrightarrow> (\<And>x. f x = g x) \<Longrightarrow> ebind m f = ebind m' g"
  by (simp add: ext[of f g])

lemma ecollect_cong [fundef_cong]:
  "xs = ys \<Longrightarrow> (\<And>x. x \<in> set ys \<Longrightarrow> f x = g x) \<Longrightarrow> ecollect f xs = ecollect g ys"
  by (induction ys arbitrary: xs) auto

text \<open>
  \<open>eff_ok R Q m\<close>: wherever the computation starts, it ends, by returning or by failing, in a state
  related by \<open>R\<close>, and what it returns satisfies \<open>Q\<close>.
\<close>

definition eff_ok :: "('s \<Rightarrow> 's \<Rightarrow> bool) \<Rightarrow> ('a \<Rightarrow> bool) \<Rightarrow> ('s, 'e, 'a) eff \<Rightarrow> bool" where
  "eff_ok R Q m \<longleftrightarrow> (\<forall>s. R s (snd (m s)) \<and> (\<forall>x. fst (m s) = Inr x \<longrightarrow> Q x))"

abbreviation moves :: "('s \<Rightarrow> 's \<Rightarrow> bool) \<Rightarrow> ('s, 'e, 'a) eff \<Rightarrow> bool" where
  "moves R m \<equiv> eff_ok R (\<lambda>_. True) m"

lemma eff_okD:
  assumes "eff_ok R Q m" and "m s = (r, t)"
  shows "R s t" and "r = Inr x \<Longrightarrow> Q x"
  using assms by (auto simp: eff_ok_def dest!: spec[of _ s])

lemma eff_okI:
  "(\<And>s r t. m s = (r, t) \<Longrightarrow> R s t \<and> (\<forall>x. r = Inr x \<longrightarrow> Q x)) \<Longrightarrow> eff_ok R Q m"
  by (simp add: eff_ok_def) (metis prod.collapse)

lemma eff_ok_weaken: "eff_ok R Q m \<Longrightarrow> (\<And>x. Q x \<Longrightarrow> Q' x) \<Longrightarrow> eff_ok R Q' m"
  by (simp add: eff_ok_def)

lemma eff_ok_pure:
  assumes "\<And>s. R s s"
  shows "Q x \<Longrightarrow> eff_ok R Q (eret x)" "eff_ok R Q (efail e)" "moves R (eget g)" "moves R (elift r)"
  using assms by (simp_all add: eff_ok_def eret_def efail_def eget_def elift_def)

lemma eff_ok_ebind:
  assumes m: "eff_ok R P m" and f: "\<And>x. P x \<Longrightarrow> eff_ok R Q (f x)"
    and trans: "\<And>s t u. R s t \<Longrightarrow> R t u \<Longrightarrow> R s u"
  shows "eff_ok R Q (ebind m f)"
proof (rule eff_okI)
  fix s r u assume b: "ebind m f s = (r, u)"
  obtain q t where t: "m s = (q, t)" by fastforce
  show "R s u \<and> (\<forall>x. r = Inr x \<longrightarrow> Q x)"
  proof (cases q)
    case (Inl e)
    with t b eff_okD[OF m t] show ?thesis by (auto simp: ebind_def)
  next
    case (Inr x)
    with eff_okD[OF m t] have 1: "R s t" "P x" by auto
    from Inr t b have "f x t = (r, u)" by (simp add: ebind_def)
    with eff_okD[OF f[OF 1(2)] this] trans[OF 1(1)] show ?thesis by auto
  qed
qed

lemma eff_ok_ecollect:
  assumes "\<And>x. x \<in> set xs \<Longrightarrow> moves R (f x)" and "\<And>s. R s s"
    and "\<And>s t u. R s t \<Longrightarrow> R t u \<Longrightarrow> R s u"
  shows "moves R (ecollect f xs)"
  using assms(1)
proof (induction xs)
  case Nil
  then show ?case using assms(2) by (simp add: eff_ok_pure)
next
  case (Cons x xs)
  have rest: "moves R (ebind (ecollect f xs) (\<lambda>ys. eret (y # ys)))" for y
    by (rule eff_ok_ebind[OF Cons.IH _ assms(3)])
       (simp_all add: Cons.prems eff_ok_pure assms(2))
  show ?case
    unfolding ecollect.simps
    by (rule eff_ok_ebind[OF Cons.prems _ assms(3)]) (simp_all add: rest)
qed

text \<open>Case distinctions, so that \<open>intro\<close> walks through a computation.\<close>

lemma eff_ok_cases:
  "eff_ok R Q a \<Longrightarrow> eff_ok R Q b \<Longrightarrow> eff_ok R Q (if c then a else b)"
  "eff_ok R Q a \<Longrightarrow> (\<And>x. eff_ok R Q (f x)) \<Longrightarrow> eff_ok R Q (case_option a f opt)"
  "(\<And>x y. eff_ok R Q (g x y)) \<Longrightarrow> eff_ok R Q (case_prod g p)"
  "(\<And>x. eff_ok R Q (l x)) \<Longrightarrow> (\<And>x. eff_ok R Q (k x)) \<Longrightarrow> eff_ok R Q (case_sum l k d)"
  "eff_ok R Q a \<Longrightarrow> eff_ok R Q b \<Longrightarrow> eff_ok R Q (case_bool a b c)"
  by (auto split: option.splits prod.splits sum.splits bool.splits)

lemma ebind_cases:
  assumes "ebind m f s = (r, u)"
  obtains (error) e where "m s = (Inl e, u)" "r = Inl e"
    | (step) x t where "m s = (Inr x, t)" "f x t = (r, u)"
  using assms by (auto simp: ebind_def split: prod.splits sum.splits)

lemma ebind_eret: "ebind (eret x) f = f x"
  by (rule ext) (simp add: ebind_def eret_def)

lemma ebind_assoc: "ebind (ebind m f) g = ebind m (\<lambda>x. ebind (f x) g)"
  by (rule ext) (simp add: ebind_def split: prod.splits sum.splits)

section \<open>Decimal printing\<close>

definition digit_char :: "nat \<Rightarrow> char" where
  "digit_char d = char_of (48 + d)"

fun show_nat :: "nat \<Rightarrow> string" where
  "show_nat n =
     (if n < 10 then [digit_char n] else show_nat (n div 10) @ [digit_char (n mod 10)])"

declare show_nat.simps [simp del]

definition show_int :: "int \<Rightarrow> string" where
  "show_int i = (if i < 0 then ''-'' @ show_nat (nat (- i)) else show_nat (nat i))"

lemma show_nat_nonempty [simp]: "show_nat n \<noteq> []"
  by (subst show_nat.simps) simp

section \<open>Binary search\<close>

datatype ordering = Ord_Less | Ord_Equal | Ord_Greater

definition cmp :: "'a::linorder \<Rightarrow> 'a \<Rightarrow> ordering" where
  "cmp a b = (if a < b then Ord_Less else if a = b then Ord_Equal else Ord_Greater)"

text \<open>\<open>slice::binary_search_by\<close> on the window \<open>[lo, hi)\<close>, with \<open>Err\<close> forgotten (\<open>.ok()\<close>).\<close>

function binary_search_by :: "('a \<Rightarrow> ordering) \<Rightarrow> 'a list \<Rightarrow> nat \<Rightarrow> nat \<Rightarrow> nat option" where
  "binary_search_by f xs lo hi =
     (if lo < hi then
        let mid = (lo + hi) div 2 in
        case f (xs ! mid) of
          Ord_Equal \<Rightarrow> Some mid
        | Ord_Less \<Rightarrow> binary_search_by f xs (Suc mid) hi
        | Ord_Greater \<Rightarrow> binary_search_by f xs lo mid
      else None)"
  by pat_completeness auto
termination
  by (relation "measure (\<lambda>(f, xs, lo, hi). hi - lo)") auto

declare binary_search_by.simps [simp del]

lemma binary_search_by_cmp:
  fixes key :: "'a \<Rightarrow> 'b::linorder"
  assumes "sorted_wrt (<) (map key xs)" and "hi \<le> length xs"
    and "\<And>x. x \<in> set xs \<Longrightarrow> f x = cmp (key x) w"
  shows "binary_search_by f xs lo hi = Some i \<longleftrightarrow> lo \<le> i \<and> i < hi \<and> key (xs ! i) = w"
  using assms
proof (induction f xs lo hi rule: binary_search_by.induct)
  case (1 f xs lo hi)
  show ?case
  proof (cases "lo < hi")
    case False
    then show ?thesis by (subst binary_search_by.simps) auto
  next
    case True
    define mid where "mid = (lo + hi) div 2"
    have mid: "lo \<le> mid" "mid < hi" "mid < length xs"
      using True \<open>hi \<le> length xs\<close> by (auto simp: mid_def)
    have fm: "f (xs ! mid) = cmp (key (xs ! mid)) w"
      by (rule 1(5)) (simp add: mid)
    have mono: "key (xs ! j) < key (xs ! k)" if "j < k" "k < length xs" for j k
      using sorted_wrt_nth_less[OF \<open>sorted_wrt (<) (map key xs)\<close>, of j k] that by simp
    have unfold: "binary_search_by f xs lo hi =
        (case f (xs ! mid) of Ord_Equal \<Rightarrow> Some mid
         | Ord_Less \<Rightarrow> binary_search_by f xs (Suc mid) hi
         | Ord_Greater \<Rightarrow> binary_search_by f xs lo mid)"
      using True unfolding mid_def by (subst binary_search_by.simps) (simp only: Let_def if_True)
    consider "key (xs ! mid) < w" | "key (xs ! mid) = w" | "w < key (xs ! mid)"
      by (meson less_linear)
    then show ?thesis
    proof cases
      case 1
      then have less: "f (xs ! mid) = Ord_Less" by (simp add: fm cmp_def)
      have "i > mid" if "i < hi" "key (xs ! i) = w"
        using mono[of i mid] that 1 mid by (metis linorder_neqE_nat order_less_asym)
      then show ?thesis
        using "1.IH"(1)[OF True mid_def less "1.prems"] less mid by (auto simp: unfold)
    next
      case 2
      then have eq: "f (xs ! mid) = Ord_Equal" by (simp add: fm cmp_def)
      have "i = mid" if "i < hi" "key (xs ! i) = w"
        using mono[of i mid] mono[of mid i] that 2 mid \<open>hi \<le> length xs\<close>
        by (metis linorder_neqE_nat order_less_irrefl order_less_le_trans)
      then show ?thesis using eq 2 mid by (auto simp: unfold)
    next
      case 3
      then have gt: "f (xs ! mid) = Ord_Greater" by (auto simp: fm cmp_def)
      have "i < mid" if "i < hi" "key (xs ! i) = w"
        using mono[of mid i] that 3 mid \<open>hi \<le> length xs\<close>
        by (metis linorder_neqE_nat order_less_asym order_less_le_trans)
      then show ?thesis
        using "1.IH"(2)[OF True mid_def gt "1.prems"(1) _ "1.prems"(3)] gt mid
        by (auto simp: unfold)
    qed
  qed
qed

lemma binary_search_by_None:
  fixes key :: "'a \<Rightarrow> 'b::linorder"
  assumes "sorted_wrt (<) (map key xs)" and "\<And>x. x \<in> set xs \<Longrightarrow> f x = cmp (key x) w"
  shows "binary_search_by f xs 0 (length xs) = None \<longleftrightarrow> w \<notin> key ` set xs"
  using binary_search_by_cmp[OF assms(1) order_refl assms(2)]
  by (metis (no_types, lifting) bot_nat_0.extremum image_iff in_set_conv_nth not_None_eq)

section \<open>Lists\<close>

text \<open>\<open>slice::get\<close> and \<open>iter().position(p)\<close>.\<close>

definition nth_opt :: "'a list \<Rightarrow> nat \<Rightarrow> 'a option" where
  "nth_opt xs i = (if i < length xs then Some (xs ! i) else None)"

lemma nth_opt_eq_Some [simp]: "nth_opt xs i = Some x \<longleftrightarrow> i < length xs \<and> xs ! i = x"
  by (auto simp: nth_opt_def)

lemma nth_opt_eq_None [simp]: "nth_opt xs i = None \<longleftrightarrow> length xs \<le> i"
  by (auto simp: nth_opt_def)

lemma nth_opt_snoc [simp]: "nth_opt (xs @ [x]) (length xs) = Some x"
  by (simp add: nth_opt_def)

lemma nth_opt_append: "nth_opt xs i = Some x \<Longrightarrow> nth_opt (xs @ ys) i = Some x"
  by (auto simp: nth_append)

fun position :: "('a \<Rightarrow> bool) \<Rightarrow> 'a list \<Rightarrow> nat option" where
  "position p [] = None"
| "position p (x # xs) = (if p x then Some 0 else map_option Suc (position p xs))"

lemma position_Some: "position p xs = Some i \<Longrightarrow> i < length xs \<and> p (xs ! i)"
  by (induction xs arbitrary: i) (auto split: if_splits)

lemma position_None: "position p xs = None \<longleftrightarrow> (\<forall>x \<in> set xs. \<not> p x)"
  by (induction xs) auto

lemma nth_append_prefix: "i < length xs \<Longrightarrow> (xs @ ys) ! i = xs ! i"
  by (simp add: nth_append)

end
