(* ===== verification/Source.thy ===== *)
theory Source
  imports Prelude
begin

text \<open>
  Locations, origins and diagnostics (\<open>crates/telora-core/src/source.rs\<close>). A \<open>Loc\<close> is a
  source id and a byte range of \<open>u32\<close> offsets; a diagnostic carries labels, of which
  \<open>Diagnostic::new\<close> makes the first one primary. The registered source texts
  (\<open>SourceFile\<close>, \<open>SourceDatabase\<close>) sit on the rope of the third-party crate \<open>crop\<close> and are
  not part of this theory.
\<close>

section \<open>Ranges and locations\<close>

type_synonym source_id = u32

datatype text_range = TextRange (range_start: u32) (range_end: u32)

datatype location_error = OffsetTooLarge | SourceTooLarge | ReversedRange u32 u32

definition text_range_new :: "u32 \<Rightarrow> u32 \<Rightarrow> location_error + text_range" where
  "text_range_new start end' =
     (if end' < start then Inl (ReversedRange start end') else Inr (TextRange start end'))"

definition text_range_at :: "u32 \<Rightarrow> text_range" where
  "text_range_at offset = TextRange offset offset"

text \<open>\<open>u32::try_from\<close> of a \<open>usize\<close>.\<close>

definition u32_try_from :: "nat \<Rightarrow> u32 option" where
  "u32_try_from n = (if n \<le> u32_max then Some (of_nat n) else None)"

text \<open>The limit as an integer, so that the kernel can evaluate it.\<close>

lemma u32_try_from_code [code]:
  "u32_try_from n = (if int n \<le> 4294967295 then Some (word_of_int (int n)) else None)"
  by (simp add: u32_try_from_def u32_max_def)

definition text_range_from_usize :: "nat \<Rightarrow> nat \<Rightarrow> location_error + text_range" where
  "text_range_from_usize start end' =
     rbind (ok_or OffsetTooLarge (u32_try_from start)) (\<lambda>s.
     rbind (ok_or OffsetTooLarge (u32_try_from end')) (\<lambda>e.
     text_range_new s e))"

definition text_range_to_usize :: "text_range \<Rightarrow> nat \<times> nat" where
  "text_range_to_usize r = (unat (range_start r), unat (range_end r))"

datatype loc = Loc (loc_source: source_id) (loc_start: u32) (loc_end: u32)

definition loc_new :: "source_id \<Rightarrow> text_range \<Rightarrow> loc" where
  "loc_new source rng = Loc source (range_start rng) (range_end rng)"

definition loc_from_usize :: "source_id \<Rightarrow> nat \<Rightarrow> nat \<Rightarrow> location_error + loc" where
  "loc_from_usize source start end' =
     rbind (text_range_from_usize start end') (\<lambda>r. Inr (loc_new source r))"

definition loc_range :: "loc \<Rightarrow> nat \<times> nat" where
  "loc_range l = (unat (loc_start l), unat (loc_end l))"

definition loc_text_range :: "loc \<Rightarrow> text_range" where
  "loc_text_range l = TextRange (loc_start l) (loc_end l)"

fun location_error_message :: "location_error \<Rightarrow> string" where
  "location_error_message OffsetTooLarge = ''source offset exceeds u32::MAX''"
| "location_error_message SourceTooLarge = ''source text exceeds u32::MAX bytes''"
| "location_error_message (ReversedRange start end') =
     ''source range starts at '' @ show_nat (unat start) @
     '' after ending at '' @ show_nat (unat end')"

text \<open>The derived order of \<open>Loc\<close>: source, then start, then end.\<close>

instantiation loc :: linorder
begin

definition less_eq_loc :: "loc \<Rightarrow> loc \<Rightarrow> bool" where
  "less_eq_loc a b \<longleftrightarrow>
     loc_source a < loc_source b \<or> loc_source a = loc_source b \<and>
     (loc_start a < loc_start b \<or> loc_start a = loc_start b \<and> loc_end a \<le> loc_end b)"

definition less_loc :: "loc \<Rightarrow> loc \<Rightarrow> bool" where
  "less_loc a b \<longleftrightarrow> a \<le> b \<and> \<not> b \<le> (a :: loc)"

instance
  by standard (auto simp: less_eq_loc_def less_loc_def intro: loc.expand)

end

section \<open>Origins and diagnostics\<close>

datatype origin = Origin_Source loc | Origin_Synthetic "loc option"

datatype severity = Severity_Error | Severity_Warning | Severity_Info

record diagnostic_label =
  label_location :: loc
  label_message :: string
  label_primary :: bool

record diagnostic =
  diag_severity :: severity
  diag_message :: string
  diag_labels :: "diagnostic_label list"
  diag_notes :: "string list"

definition diagnostic_new :: "severity \<Rightarrow> string \<Rightarrow> loc \<Rightarrow> diagnostic" where
  "diagnostic_new severity message location =
     \<lparr> diag_severity = severity, diag_message = message,
       diag_labels = [\<lparr> label_location = location, label_message = [], label_primary = True \<rparr>],
       diag_notes = [] \<rparr>"

definition diagnostic_error :: "string \<Rightarrow> loc \<Rightarrow> diagnostic" where
  "diagnostic_error message location = diagnostic_new Severity_Error message location"

definition diagnostic_with_secondary :: "diagnostic \<Rightarrow> string \<Rightarrow> loc \<Rightarrow> diagnostic" where
  "diagnostic_with_secondary d message location =
     d\<lparr> diag_labels := diag_labels d @
          [\<lparr> label_location = location, label_message = message, label_primary = False \<rparr>] \<rparr>"

section \<open>Properties of ranges\<close>

lemma u32_try_from_unat: "u32_try_from n = Some w \<Longrightarrow> unat w = n"
  by (auto simp: u32_try_from_def u32_max_def unat_of_nat split: if_splits)

lemma u32_try_from_None: "u32_try_from n = None \<longleftrightarrow> u32_max < n"
  by (auto simp: u32_try_from_def)

lemma text_range_from_usize_Inr:
  assumes "text_range_from_usize s e = Inr r"
  shows "text_range_to_usize r = (s, e) \<and> s \<le> e \<and> e \<le> u32_max"
proof -
  from assms obtain ws we where w: "u32_try_from s = Some ws" "u32_try_from e = Some we"
    and r: "text_range_new ws we = Inr r"
    by (auto simp: text_range_from_usize_def result_simps)
  from w have "unat ws = s" "unat we = e" by (auto dest: u32_try_from_unat)
  with r w show ?thesis
    by (auto simp: text_range_new_def text_range_to_usize_def word_less_nat_alt
        u32_try_from_def split: if_splits)
qed

lemma text_range_from_usize_defined:
  "s \<le> e \<Longrightarrow> e \<le> u32_max \<Longrightarrow> \<exists>r. text_range_from_usize s e = Inr r"
  by (auto simp: text_range_from_usize_def text_range_new_def u32_try_from_def
      word_less_nat_alt unat_of_nat u32_max_def)

text \<open>
  A byte range given in \<open>usize\<close> becomes a location exactly when it is not reversed and
  fits \<open>u32\<close>, and reading the location back gives the same range.
\<close>

lemma loc_from_usize_roundtrip:
  "(\<exists>l. loc_from_usize source s e = Inr l \<and> loc_source l = source \<and> loc_range l = (s, e))
   \<longleftrightarrow> s \<le> e \<and> e \<le> u32_max"
proof
  assume "s \<le> e \<and> e \<le> u32_max"
  then obtain r where r: "text_range_from_usize s e = Inr r"
    using text_range_from_usize_defined by blast
  with text_range_from_usize_Inr[OF r]
  show "\<exists>l. loc_from_usize source s e = Inr l \<and> loc_source l = source \<and> loc_range l = (s, e)"
    by (auto simp: loc_from_usize_def loc_new_def loc_range_def text_range_to_usize_def)
next
  assume "\<exists>l. loc_from_usize source s e = Inr l \<and> loc_source l = source \<and> loc_range l = (s, e)"
  then show "s \<le> e \<and> e \<le> u32_max"
    by (auto simp: loc_from_usize_def result_simps dest: text_range_from_usize_Inr)
qed

end
