(* ===== verification/Opcodes.thy ===== *)
theory Opcodes
  imports Source
begin

text \<open>
  Linked machine code (\<open>crates/telora-core/src/bytecode.rs\<close>): the instruction set of the
  virtual machine with its operands resolved to registers, link indices and jump targets, and
  \<open>FuncByteCode\<close>, the part of a function that does not depend on a heap.
\<close>

type_synonym register = nat
type_synonym value_link_id = nat
type_synonym text_link_id = nat
type_synonym proto_link_id = nat

datatype (plugins only: code size) opcode =
    Op_LoadConst register value_link_id
  | Op_Move register register
  | Op_MakeUpLink register
  | Op_ReadUpLink register register
  | Op_InitializeUpLink register register
  | Op_AssertUpLinkReady register
  | Op_AssertFunctionArity register nat
  | Op_Add register register register
  | Op_Subtract register register register
  | Op_Multiply register register register
  | Op_Divide register register register
  | Op_Negate register register
  | Op_Equal register register register
  | Op_LessThan register register register
  | Op_MakeArray register "register list"
  | Op_ConcatArrays register "register list"
  | Op_MakeTuple register "register list"
  | Op_InterpolateString register "register list"
  | Op_MakeDict register "(text_link_id \<times> register) list"
  | Op_MergeDicts register "register list"
  | Op_GetField register register text_link_id
  | Op_FieldExists register register text_link_id
  | Op_IsDict register register
  | Op_TupleLengthEquals register register nat
  | Op_GetTuple register register nat
  | Op_TaggedTagEquals register register register
  | Op_GetTaggedPayload register register
  | Op_MakeClosure register proto_link_id "register list"
  | Op_Call register nat
  | Op_TailCall register nat
  | Op_Jump nat
  | Op_JumpIfFalse register nat
  | Op_Return register
  | Op_Fail string
  | Op_Panic register
  | Op_Raise register

record debug_origin_range =
  dor_start :: nat
  dor_end :: nat
  dor_origin :: origin

record func_byte_code =
  code_name :: string
  code_parameter_count :: nat
  code_capture_count :: nat
  code_register_count :: nat
  code_instructions :: "opcode list"
  code_debug_origins :: "debug_origin_range list"

text \<open>\<open>BytecodeFunction::origin_at\<close>: the first range that holds the instruction.\<close>

definition origin_at :: "debug_origin_range list \<Rightarrow> nat \<Rightarrow> origin option" where
  "origin_at ranges pc =
     map_option dor_origin (find (\<lambda>r. dor_start r \<le> pc \<and> pc < dor_end r) ranges)"

definition code_origin_at :: "func_byte_code \<Rightarrow> nat \<Rightarrow> origin option" where
  "code_origin_at code pc = origin_at (code_debug_origins code) pc"

text \<open>\<open>instruction_location\<close> of the machine.\<close>

definition instruction_location :: "func_byte_code \<Rightarrow> nat \<Rightarrow> loc option" where
  "instruction_location code pc =
     (case code_origin_at code pc of
        Some (Origin_Source location) \<Rightarrow> Some location
      | Some (Origin_Synthetic derived_from) \<Rightarrow> derived_from
      | None \<Rightarrow> None)"

end
