(* ===== verification/Natives.thy ===== *)
theory Natives
  imports Prelude
begin

text \<open>
  The native functions a \<open>Value\<close> can hold (\<open>crates/telora-core/src/value.rs\<close>): the
  enumerations of the operations the machine implements itself, with their public names and
  arities, and \<open>NativeFunction\<close>. The code's \<open>NativeCallback\<close> is a function pointer; a
  \<open>native_function\<close> carries its address.
\<close>

section \<open>Operations of the virtual machine\<close>

datatype core_array =
    Array_Length
  | Array_Push
  | Array_Concat
  | Array_Zip
  | Array_Map
  | Array_Filter
  | Array_FlatMap
  | Array_Fold
  | Array_FoldControl
  | Array_Any
  | Array_All
  | Array_Find

fun core_array_name :: "core_array \<Rightarrow> string" where
  "core_array_name Array_Length = ''std/array.length''"
| "core_array_name Array_Push = ''std/array.push''"
| "core_array_name Array_Concat = ''std/array.concat''"
| "core_array_name Array_Zip = ''std/array.zip''"
| "core_array_name Array_Map = ''std/array.map''"
| "core_array_name Array_Filter = ''std/array.filter''"
| "core_array_name Array_FlatMap = ''std/array.flat_map''"
| "core_array_name Array_Fold = ''std/array.fold''"
| "core_array_name Array_FoldControl = ''std/array.fold_control''"
| "core_array_name Array_Any = ''std/array.any''"
| "core_array_name Array_All = ''std/array.all''"
| "core_array_name Array_Find = ''std/array.find''"

fun core_array_arity :: "core_array \<Rightarrow> nat" where
  "core_array_arity Array_Length = 1"
| "core_array_arity Array_Push = 2"
| "core_array_arity Array_Concat = 1"
| "core_array_arity Array_Zip = 2"
| "core_array_arity Array_Map = 2"
| "core_array_arity Array_Filter = 2"
| "core_array_arity Array_FlatMap = 2"
| "core_array_arity Array_Fold = 3"
| "core_array_arity Array_FoldControl = 3"
| "core_array_arity Array_Any = 2"
| "core_array_arity Array_All = 2"
| "core_array_arity Array_Find = 2"

datatype core_dict =
    Dict_Get
  | Dict_Keys
  | Dict_Values
  | Dict_Pairs
  | Dict_FromPairs
  | Dict_Merge
  | Dict_MapValues
  | Dict_Filter
  | Dict_Fold

fun core_dict_name :: "core_dict \<Rightarrow> string" where
  "core_dict_name Dict_Get = ''std/dict.get''"
| "core_dict_name Dict_Keys = ''std/dict.keys''"
| "core_dict_name Dict_Values = ''std/dict.values''"
| "core_dict_name Dict_Pairs = ''std/dict.pairs''"
| "core_dict_name Dict_FromPairs = ''std/dict.from_pairs''"
| "core_dict_name Dict_Merge = ''std/dict.merge''"
| "core_dict_name Dict_MapValues = ''std/dict.map_values''"
| "core_dict_name Dict_Filter = ''std/dict.filter''"
| "core_dict_name Dict_Fold = ''std/dict.fold''"

fun core_dict_arity :: "core_dict \<Rightarrow> nat" where
  "core_dict_arity Dict_Get = 2"
| "core_dict_arity Dict_Keys = 1"
| "core_dict_arity Dict_Values = 1"
| "core_dict_arity Dict_Pairs = 1"
| "core_dict_arity Dict_FromPairs = 1"
| "core_dict_arity Dict_Merge = 2"
| "core_dict_arity Dict_MapValues = 2"
| "core_dict_arity Dict_Filter = 2"
| "core_dict_arity Dict_Fold = 3"

datatype core_string =
    String_Length
  | String_Join
  | String_JoinLines
  | String_Split
  | String_Lines
  | String_StartsWith
  | String_EndsWith
  | String_Contains
  | String_Replace
  | String_Indent
  | String_EnsureTrailingNewline
  | String_TrimMargin

fun core_string_name :: "core_string \<Rightarrow> string" where
  "core_string_name String_Length = ''std/string.length''"
| "core_string_name String_Join = ''std/string.join''"
| "core_string_name String_JoinLines = ''std/string.join_lines''"
| "core_string_name String_Split = ''std/string.split''"
| "core_string_name String_Lines = ''std/string.lines''"
| "core_string_name String_StartsWith = ''std/string.starts_with''"
| "core_string_name String_EndsWith = ''std/string.ends_with''"
| "core_string_name String_Contains = ''std/string.contains''"
| "core_string_name String_Replace = ''std/string.replace''"
| "core_string_name String_Indent = ''std/string.indent''"
| "core_string_name String_EnsureTrailingNewline = ''std/string.ensure_trailing_newline''"
| "core_string_name String_TrimMargin = ''std/string.trim_margin''"

fun core_string_arity :: "core_string \<Rightarrow> nat" where
  "core_string_arity String_Length = 1"
| "core_string_arity String_Join = 2"
| "core_string_arity String_JoinLines = 1"
| "core_string_arity String_Split = 2"
| "core_string_arity String_Lines = 1"
| "core_string_arity String_StartsWith = 2"
| "core_string_arity String_EndsWith = 2"
| "core_string_arity String_Contains = 2"
| "core_string_arity String_Replace = 3"
| "core_string_arity String_Indent = 2"
| "core_string_arity String_EnsureTrailingNewline = 1"
| "core_string_arity String_TrimMargin = 2"

datatype core_path =
    Path_Join
  | Path_Normalize
  | Path_Parent
  | Path_FileName

fun core_path_name :: "core_path \<Rightarrow> string" where
  "core_path_name Path_Join = ''std/path.join''"
| "core_path_name Path_Normalize = ''std/path.normalize''"
| "core_path_name Path_Parent = ''std/path.parent''"
| "core_path_name Path_FileName = ''std/path.file_name''"

fun core_path_arity :: "core_path \<Rightarrow> nat" where
  "core_path_arity Path_Join = 1"
| "core_path_arity Path_Normalize = 1"
| "core_path_arity Path_Parent = 1"
| "core_path_arity Path_FileName = 1"

datatype core_attributes =
    Attributes_Normalize
  | Attributes_Add
  | Attributes_Get
  | Attributes_Has
  | Attributes_All
  | Attributes_Strip

fun core_attributes_name :: "core_attributes \<Rightarrow> string" where
  "core_attributes_name Attributes_Normalize = ''std/attributes.normalize''"
| "core_attributes_name Attributes_Add = ''std/attributes.add''"
| "core_attributes_name Attributes_Get = ''std/attributes.get''"
| "core_attributes_name Attributes_Has = ''std/attributes.has''"
| "core_attributes_name Attributes_All = ''std/attributes.all''"
| "core_attributes_name Attributes_Strip = ''std/attributes.strip''"

fun core_attributes_arity :: "core_attributes \<Rightarrow> nat" where
  "core_attributes_arity Attributes_Normalize = 1"
| "core_attributes_arity Attributes_Add = 2"
| "core_attributes_arity Attributes_Get = 2"
| "core_attributes_arity Attributes_Has = 2"
| "core_attributes_arity Attributes_All = 1"
| "core_attributes_arity Attributes_Strip = 1"

datatype core_model =
    Model_Struct
  | Model_Enum
  | Model_Union

fun core_model_name :: "core_model \<Rightarrow> string" where
  "core_model_name Model_Struct = ''struct''"
| "core_model_name Model_Enum = ''enum''"
| "core_model_name Model_Union = ''union''"

fun core_model_arity :: "core_model \<Rightarrow> nat" where
  "core_model_arity Model_Struct = 2"
| "core_model_arity Model_Enum = 2"
| "core_model_arity Model_Union = 2"

datatype core_builtin_type =
    BuiltinType_FoldControl
  | BuiltinType_Option
  | BuiltinType_Result

fun core_builtin_type_name :: "core_builtin_type \<Rightarrow> string" where
  "core_builtin_type_name BuiltinType_FoldControl = ''FoldControl''"
| "core_builtin_type_name BuiltinType_Option = ''Option''"
| "core_builtin_type_name BuiltinType_Result = ''Result''"

fun core_builtin_type_arity :: "core_builtin_type \<Rightarrow> nat" where
  "core_builtin_type_arity BuiltinType_FoldControl = 2"
| "core_builtin_type_arity BuiltinType_Option = 1"
| "core_builtin_type_arity BuiltinType_Result = 2"

datatype core_debug =
    Debug_Dbg
  | Debug_DbgWith

fun core_debug_name :: "core_debug \<Rightarrow> string" where
  "core_debug_name Debug_Dbg = ''std/debug.dbg''"
| "core_debug_name Debug_DbgWith = ''std/debug.dbg_with''"

fun core_debug_arity :: "core_debug \<Rightarrow> nat" where
  "core_debug_arity Debug_Dbg = 1"
| "core_debug_arity Debug_DbgWith = 2"

datatype core_diagnostic =
    Diagnostic_Report

fun core_diagnostic_name :: "core_diagnostic \<Rightarrow> string" where
  "core_diagnostic_name Diagnostic_Report = ''report''"

fun core_diagnostic_arity :: "core_diagnostic \<Rightarrow> nat" where
  "core_diagnostic_arity Diagnostic_Report = 2"

datatype core_eq =
    Eq_Equal

fun core_eq_name :: "core_eq \<Rightarrow> string" where
  "core_eq_name Eq_Equal = ''std/eq.equal''"

fun core_eq_arity :: "core_eq \<Rightarrow> nat" where
  "core_eq_arity Eq_Equal = 2"

datatype core_hash =
    Hash_Sha256

fun core_hash_name :: "core_hash \<Rightarrow> string" where
  "core_hash_name Hash_Sha256 = ''std/hash.sha256''"

fun core_hash_arity :: "core_hash \<Rightarrow> nat" where
  "core_hash_arity Hash_Sha256 = 1"

datatype core_codec =
    Codec_Decode
  | Codec_Encode

fun core_codec_name :: "core_codec \<Rightarrow> string" where
  "core_codec_name Codec_Decode = ''std/codec.decode''"
| "core_codec_name Codec_Encode = ''std/codec.encode''"

fun core_codec_arity :: "core_codec \<Rightarrow> nat" where
  "core_codec_arity Codec_Decode = 2"
| "core_codec_arity Codec_Encode = 2"

datatype core_type_desc =
    TypeDesc_Kind
  | TypeDesc_Children
  | TypeDesc_OpaqueName
  | TypeDesc_Resolve

fun core_type_desc_name :: "core_type_desc \<Rightarrow> string" where
  "core_type_desc_name TypeDesc_Kind = ''std/type-desc.kind''"
| "core_type_desc_name TypeDesc_Children = ''std/type-desc.children''"
| "core_type_desc_name TypeDesc_OpaqueName = ''std/type-desc.opaque_name''"
| "core_type_desc_name TypeDesc_Resolve = ''std/type-desc.resolve''"

fun core_type_desc_arity :: "core_type_desc \<Rightarrow> nat" where
  "core_type_desc_arity TypeDesc_Kind = 1"
| "core_type_desc_arity TypeDesc_Children = 1"
| "core_type_desc_arity TypeDesc_OpaqueName = 1"
| "core_type_desc_arity TypeDesc_Resolve = 1"

datatype core_dyn =
    Dyn_Pack
  | Dyn_Desc
  | Dyn_Kind
  | Dyn_CheckInt
  | Dyn_CheckFloat
  | Dyn_CheckString
  | Dyn_CheckBytes
  | Dyn_Field
  | Dyn_Fields
  | Dyn_ArrayItems
  | Dyn_TupleItems
  | Dyn_Tag
  | Dyn_Payload

fun core_dyn_name :: "core_dyn \<Rightarrow> string" where
  "core_dyn_name Dyn_Pack = ''std/dyn.pack''"
| "core_dyn_name Dyn_Desc = ''std/dyn.desc''"
| "core_dyn_name Dyn_Kind = ''std/dyn.kind''"
| "core_dyn_name Dyn_CheckInt = ''std/dyn.check_int''"
| "core_dyn_name Dyn_CheckFloat = ''std/dyn.check_float''"
| "core_dyn_name Dyn_CheckString = ''std/dyn.check_string''"
| "core_dyn_name Dyn_CheckBytes = ''std/dyn.check_bytes''"
| "core_dyn_name Dyn_Field = ''std/dyn.field''"
| "core_dyn_name Dyn_Fields = ''std/dyn.fields''"
| "core_dyn_name Dyn_ArrayItems = ''std/dyn.array_items''"
| "core_dyn_name Dyn_TupleItems = ''std/dyn.tuple_items''"
| "core_dyn_name Dyn_Tag = ''std/dyn.tag''"
| "core_dyn_name Dyn_Payload = ''std/dyn.payload''"

fun core_dyn_arity :: "core_dyn \<Rightarrow> nat" where
  "core_dyn_arity Dyn_Pack = 2"
| "core_dyn_arity Dyn_Desc = 1"
| "core_dyn_arity Dyn_Kind = 1"
| "core_dyn_arity Dyn_CheckInt = 1"
| "core_dyn_arity Dyn_CheckFloat = 1"
| "core_dyn_arity Dyn_CheckString = 1"
| "core_dyn_arity Dyn_CheckBytes = 1"
| "core_dyn_arity Dyn_Field = 2"
| "core_dyn_arity Dyn_Fields = 1"
| "core_dyn_arity Dyn_ArrayItems = 1"
| "core_dyn_arity Dyn_TupleItems = 1"
| "core_dyn_arity Dyn_Tag = 1"
| "core_dyn_arity Dyn_Payload = 1"

datatype core_result =
    Result_Unwrap

fun core_result_name :: "core_result \<Rightarrow> string" where
  "core_result_name Result_Unwrap = ''std/result.unwrap''"

fun core_result_arity :: "core_result \<Rightarrow> nat" where
  "core_result_arity Result_Unwrap = 1"

datatype core_json =
    Json_Parse
  | Json_Decode
  | Json_Stringify
  | Json_StringifyPretty
  | Json_StringifyPrettyValue
  | Json_Rename
  | Json_RenameDecorator
  | Json_RenameAll
  | Json_RenameAllDecorator
  | Json_Flatten
  | Json_Untagged
  | Json_Schema
  | Json_Default
  | Json_DefaultDecorator
  | Json_SkipSerializingIf
  | Json_SkipSerializingIfDecorator

fun core_json_name :: "core_json \<Rightarrow> string" where
  "core_json_name Json_Parse = ''std/json.parse''"
| "core_json_name Json_Decode = ''std/json.decode''"
| "core_json_name Json_Stringify = ''std/json.stringify''"
| "core_json_name Json_StringifyPretty = ''std/json.stringify_pretty''"
| "core_json_name Json_StringifyPrettyValue = ''std/json.stringify_pretty.configured''"
| "core_json_name Json_Rename = ''std/json.rename''"
| "core_json_name Json_RenameDecorator = ''std/json.rename.configured''"
| "core_json_name Json_RenameAll = ''std/json.rename_all''"
| "core_json_name Json_RenameAllDecorator = ''std/json.rename_all.configured''"
| "core_json_name Json_Flatten = ''std/json.flatten''"
| "core_json_name Json_Untagged = ''std/json.untagged''"
| "core_json_name Json_Schema = ''std/json.schema''"
| "core_json_name Json_Default = ''std/json.default''"
| "core_json_name Json_DefaultDecorator = ''std/json.default.configured''"
| "core_json_name Json_SkipSerializingIf = ''std/json.skip_serializing_if''"
| "core_json_name Json_SkipSerializingIfDecorator = ''std/json.skip_serializing_if.configured''"

fun core_json_arity :: "core_json \<Rightarrow> nat" where
  "core_json_arity Json_Parse = 1"
| "core_json_arity Json_Decode = 2"
| "core_json_arity Json_Stringify = 1"
| "core_json_arity Json_StringifyPretty = 1"
| "core_json_arity Json_StringifyPrettyValue = 1"
| "core_json_arity Json_Rename = 1"
| "core_json_arity Json_RenameDecorator = 2"
| "core_json_arity Json_RenameAll = 1"
| "core_json_arity Json_RenameAllDecorator = 2"
| "core_json_arity Json_Flatten = 2"
| "core_json_arity Json_Untagged = 2"
| "core_json_arity Json_Schema = 1"
| "core_json_arity Json_Default = 1"
| "core_json_arity Json_DefaultDecorator = 2"
| "core_json_arity Json_SkipSerializingIf = 1"
| "core_json_arity Json_SkipSerializingIfDecorator = 2"

datatype native_kind =
    Kind_Synchronous
  | Kind_CoreArray core_array
  | Kind_CoreAttributes core_attributes
  | Kind_CoreModel core_model
  | Kind_CoreBuiltinType core_builtin_type
  | Kind_CoreDict core_dict
  | Kind_CoreString core_string
  | Kind_CorePath core_path
  | Kind_CoreDebug core_debug
  | Kind_CoreDiagnostic core_diagnostic
  | Kind_CoreHash core_hash
  | Kind_CoreCodec core_codec
  | Kind_CoreTypeDesc core_type_desc
  | Kind_CoreDyn core_dyn
  | Kind_CoreEq core_eq
  | Kind_CoreResult core_result
  | Kind_CoreJson core_json

section \<open>Native functions\<close>

record native_function =
  native_name :: string
  native_arity :: nat
  native_callback :: nat
  native_kind_of :: native_kind
  native_type_local :: "u32 option"

definition native_function_new :: "string \<Rightarrow> nat \<Rightarrow> nat \<Rightarrow> native_function" where
  "native_function_new name arity callback =
     \<lparr> native_name = name, native_arity = arity, native_callback = callback,
       native_kind_of = Kind_Synchronous, native_type_local = None \<rparr>"

definition native_function_with_type ::
    "string \<Rightarrow> nat \<Rightarrow> u32 \<Rightarrow> nat \<Rightarrow> native_function" where
  "native_function_with_type name arity local callback =
     \<lparr> native_name = name, native_arity = arity, native_callback = callback,
       native_kind_of = Kind_Synchronous, native_type_local = Some local \<rparr>"

text \<open>
  The constructors of the operations of the machine take their name and arity from the
  operation; \<open>unavailable\<close> is the address of \<open>unavailable_core_callback\<close>.
\<close>

definition native_core :: "nat \<Rightarrow> string \<Rightarrow> nat \<Rightarrow> native_kind \<Rightarrow> native_function" where
  "native_core unavailable name arity kind =
     \<lparr> native_name = name, native_arity = arity, native_callback = unavailable,
       native_kind_of = kind, native_type_local = None \<rparr>"

definition native_core_array :: "nat \<Rightarrow> core_array \<Rightarrow> native_function" where
  "native_core_array unavailable op =
     native_core unavailable (core_array_name op) (core_array_arity op) (Kind_CoreArray op)"

definition native_core_dict :: "nat \<Rightarrow> core_dict \<Rightarrow> native_function" where
  "native_core_dict unavailable op =
     native_core unavailable (core_dict_name op) (core_dict_arity op) (Kind_CoreDict op)"

end
