(* ===== verification/Float64.thy ===== *)
theory Float64
  imports Prelude Complex_Main
begin

unbundle bit_operations_syntax

text \<open>
  The \<open>f64\<close> arithmetic that the virtual machine uses (\<open>+\<close>, \<open>-\<close>, \<open>*\<close>, \<open>/\<close>, unary
  minus, \<open><\<close> and \<open>==\<close>), on the IEEE 754 binary64 bit patterns. A finite pattern stands
  for a dyadic rational; an operation computes on rationals and rounds the exact result to
  the nearest pattern, ties to even. Which NaN pattern a NaN result has is not specified by
  the language: the canonical quiet NaN is used, and no modelled operation observes it.
\<close>

type_synonym f64 = "64 word"

definition f64_sign :: "f64 \<Rightarrow> bool" where
  "f64_sign x = bit x 63"

definition f64_exponent :: "f64 \<Rightarrow> nat" where
  "f64_exponent x = unat (drop_bit 52 x) mod 2048"

definition f64_mantissa :: "f64 \<Rightarrow> nat" where
  "f64_mantissa x = unat x mod 2 ^ 52"

definition f64_nan :: f64 where
  "f64_nan = 0x7FF8000000000000"

definition f64_with_sign :: "bool \<Rightarrow> f64 \<Rightarrow> f64" where
  "f64_with_sign s x = (if s then x OR 0x8000000000000000 else x AND 0x7FFFFFFFFFFFFFFF)"

definition f64_infinity :: "bool \<Rightarrow> f64" where
  "f64_infinity s = f64_with_sign s 0x7FF0000000000000"

definition f64_zero :: "bool \<Rightarrow> f64" where
  "f64_zero s = f64_with_sign s 0"

definition f64_is_nan :: "f64 \<Rightarrow> bool" where
  "f64_is_nan x \<longleftrightarrow> f64_exponent x = 2047 \<and> f64_mantissa x \<noteq> 0"

definition f64_is_infinite :: "f64 \<Rightarrow> bool" where
  "f64_is_infinite x \<longleftrightarrow> f64_exponent x = 2047 \<and> f64_mantissa x = 0"

definition f64_is_finite :: "f64 \<Rightarrow> bool" where
  "f64_is_finite x \<longleftrightarrow> f64_exponent x \<noteq> 2047"

definition f64_is_zero :: "f64 \<Rightarrow> bool" where
  "f64_is_zero x \<longleftrightarrow> f64_exponent x = 0 \<and> f64_mantissa x = 0"

text \<open>The value of a finite pattern, as a rational.\<close>

definition pow2 :: "int \<Rightarrow> rat" where
  "pow2 k = (if 0 \<le> k then of_int (2 ^ nat k) else inverse (of_int (2 ^ nat (- k))))"

definition f64_magnitude :: "f64 \<Rightarrow> rat" where
  "f64_magnitude x =
     (if f64_exponent x = 0 then of_nat (f64_mantissa x) * pow2 (-1074)
      else of_nat (2 ^ 52 + f64_mantissa x) * pow2 (int (f64_exponent x) - 1075))"

definition f64_value :: "f64 \<Rightarrow> rat" where
  "f64_value x = (if f64_sign x then - f64_magnitude x else f64_magnitude x)"

section \<open>Rounding\<close>

fun bit_length :: "nat \<Rightarrow> nat" where
  "bit_length n = (if n = 0 then 0 else Suc (bit_length (n div 2)))"

declare bit_length.simps [simp del]

text \<open>The nearest natural number to \<open>n / d\<close>, ties to even.\<close>

definition round_half_even :: "nat \<Rightarrow> nat \<Rightarrow> nat" where
  "round_half_even n d =
     (let q = n div d; r = n mod d in
      if 2 * r < d \<or> (2 * r = d \<and> even q) then q else q + 1)"

text \<open>
  \<open>n / d\<close> divided by \<open>2 ^ e\<close>, as a fraction; and the exponent \<open>e\<close> for which this quotient
  has 53 binary digits, or the least exponent of the format.
\<close>

definition scale_down :: "nat \<Rightarrow> nat \<Rightarrow> int \<Rightarrow> nat \<times> nat" where
  "scale_down n d e = (if 0 \<le> e then (n, d * 2 ^ nat e) else (n * 2 ^ nat (- e), d))"

definition f64_unit_exponent :: "nat \<Rightarrow> nat \<Rightarrow> int" where
  "f64_unit_exponent n d =
     (let guess = int (bit_length n) - int (bit_length d) - 53;
          (n', d') = scale_down n d guess;
          e = (if n' div d' < 2 ^ 53 then guess else guess + 1)
      in max e (-1074))"

definition f64_round_magnitude :: "nat \<Rightarrow> nat \<Rightarrow> f64" where
  "f64_round_magnitude n d =
     (let e = f64_unit_exponent n d;
          (n', d') = scale_down n d e;
          bits = nat (e + 1074) * 2 ^ 52 + round_half_even n' d'
      in if bits \<ge> 2047 * 2 ^ 52 then 0x7FF0000000000000 else of_nat bits)"

text \<open>Rounds a rational; \<open>s\<close> is the sign of a zero result.\<close>

definition f64_round :: "bool \<Rightarrow> rat \<Rightarrow> f64" where
  "f64_round s q =
     (if q = 0 then f64_zero s
      else let (n, d) = quotient_of \<bar>q\<bar>
           in f64_with_sign (q < 0) (f64_round_magnitude (nat n) (nat d)))"

section \<open>Operations\<close>

definition f64_neg :: "f64 \<Rightarrow> f64" where
  "f64_neg x = x XOR 0x8000000000000000"

definition f64_add :: "f64 \<Rightarrow> f64 \<Rightarrow> f64" where
  "f64_add x y =
     (if f64_is_nan x \<or> f64_is_nan y then f64_nan
      else if f64_is_infinite x then
        (if f64_is_infinite y \<and> f64_sign x \<noteq> f64_sign y then f64_nan else x)
      else if f64_is_infinite y then y
      else f64_round (f64_is_zero x \<and> f64_is_zero y \<and> f64_sign x \<and> f64_sign y)
             (f64_value x + f64_value y))"

definition f64_sub :: "f64 \<Rightarrow> f64 \<Rightarrow> f64" where
  "f64_sub x y = (if f64_is_nan y then f64_nan else f64_add x (f64_neg y))"

definition f64_mul :: "f64 \<Rightarrow> f64 \<Rightarrow> f64" where
  "f64_mul x y =
     (let s = (f64_sign x \<noteq> f64_sign y) in
      if f64_is_nan x \<or> f64_is_nan y then f64_nan
      else if f64_is_infinite x \<or> f64_is_infinite y then
        (if f64_is_zero x \<or> f64_is_zero y then f64_nan else f64_infinity s)
      else f64_with_sign s (f64_round s (f64_value x * f64_value y)))"

definition f64_div :: "f64 \<Rightarrow> f64 \<Rightarrow> f64" where
  "f64_div x y =
     (let s = (f64_sign x \<noteq> f64_sign y) in
      if f64_is_nan x \<or> f64_is_nan y then f64_nan
      else if f64_is_infinite x then (if f64_is_infinite y then f64_nan else f64_infinity s)
      else if f64_is_infinite y then f64_zero s
      else if f64_is_zero y then (if f64_is_zero x then f64_nan else f64_infinity s)
      else f64_with_sign s (f64_round s (f64_value x / f64_value y)))"

text \<open>Comparison: a NaN is unordered and unequal to everything, both zeros are equal.\<close>

definition f64_eq :: "f64 \<Rightarrow> f64 \<Rightarrow> bool" where
  "f64_eq x y \<longleftrightarrow>
     \<not> f64_is_nan x \<and> \<not> f64_is_nan y \<and> (x = y \<or> f64_is_zero x \<and> f64_is_zero y)"

definition f64_lt :: "f64 \<Rightarrow> f64 \<Rightarrow> bool" where
  "f64_lt x y \<longleftrightarrow>
     \<not> f64_is_nan x \<and> \<not> f64_is_nan y \<and> \<not> f64_eq x y \<and>
     (if f64_is_infinite x then f64_sign x
      else if f64_is_infinite y then \<not> f64_sign y
      else f64_value x < f64_value y)"

section \<open>Facts used by the machine\<close>

lemma f64_eq_sym: "f64_eq x y \<longleftrightarrow> f64_eq y x"
  by (auto simp: f64_eq_def)

lemma f64_eq_refl_iff: "f64_eq x x \<longleftrightarrow> \<not> f64_is_nan x"
  by (auto simp: f64_eq_def)

lemma f64_lt_irrefl: "\<not> f64_lt x x"
  by (auto simp: f64_lt_def f64_eq_def)

lemma f64_neg_neg: "f64_neg (f64_neg x) = x"
  by (simp add: f64_neg_def xor.assoc)

end
