(* ===== verification/Value.thy ===== *)
theory Value
  imports Opcodes Natives Float64
begin

text \<open>
  Values outside a heap (\<open>crates/telora-core/src/value.rs\<close>) and the functions they can hold
  (\<open>BytecodeFunction\<close> of \<open>bytecode.rs\<close>). The structs \<open>Closure\<close>, \<open>DynValue\<close>, \<open>Dict\<close> and
  \<open>LinkingTable\<close> are the argument lists of their constructors, since the types are mutually
  recursive. An \<open>Arc<()>\<close> identity is a number, and so is the address of a function object,
  by which linking recognises a function it has met. The payload of an opaque value is known
  only through its equality, so it is the number of its equality class; the type scheme of a
  module export is a token.
\<close>

section \<open>Atoms and nominal types\<close>

datatype builtin_atom = BA_None | BA_Some | BA_Ok | BA_Err | BA_True | BA_False

fun builtin_atom_name :: "builtin_atom \<Rightarrow> string" where
  "builtin_atom_name BA_None = ''None''"
| "builtin_atom_name BA_Some = ''Some''"
| "builtin_atom_name BA_Ok = ''Ok''"
| "builtin_atom_name BA_Err = ''Err''"
| "builtin_atom_name BA_True = ''True''"
| "builtin_atom_name BA_False = ''False''"

datatype atom = Atom_Builtin builtin_atom | Atom_Named string

fun atom_name :: "atom \<Rightarrow> string" where
  "atom_name (Atom_Builtin a) = builtin_atom_name a"
| "atom_name (Atom_Named name) = name"

record native_type_id =
  nti_module :: u32
  nti_local :: u32

record native_type =
  nt_id :: native_type_id
  nt_qualified_name :: string

text \<open>\<open>PartialEq for NativeType\<close> compares the ids only.\<close>

definition native_type_eq :: "native_type \<Rightarrow> native_type \<Rightarrow> bool" where
  "native_type_eq a b \<longleftrightarrow> nt_id a = nt_id b"

record opaque_value =
  ov_native_type :: native_type
  ov_payload :: nat

definition opaque_logical_eq :: "opaque_value \<Rightarrow> opaque_value \<Rightarrow> bool" where
  "opaque_logical_eq a b \<longleftrightarrow>
     native_type_eq (ov_native_type a) (ov_native_type b) \<and> ov_payload a = ov_payload b"

section \<open>Values\<close>

type_synonym identity = nat
type_synonym address = nat
type_synonym type_scheme = nat

datatype (plugins only: code size) val =
    VInt i64
  | VFloat f64
  | VString string
  | VBytes "u8 list"
  | VNativeType native_type
  | VOpaque opaque_value
  | VDict "string list" "val list"
  | VArray "val list"
  | VAtom atom
  | VTagged atom val
  | VTuple "val list"
  | VFunc identity prototype "val list"
  | VDyn identity val val "type_scheme option" "string option"
and prototype =
    Proto_Bytecode bytecode_function
  | Proto_Native native_function
and bytecode_function =
    BytecodeFunction
      (bf_address: address)
      (bf_code: func_byte_code)
      (bf_values: "val list")
      (bf_external_values: "string option list")
      (bf_text: "string list")
      (bf_prototypes: "bytecode_function list")

definition val_bool :: "bool \<Rightarrow> val" where
  "val_bool b = VAtom (Atom_Builtin (if b then BA_True else BA_False))"

definition val_none :: val where
  "val_none = VAtom (Atom_Builtin BA_None)"

definition val_atom :: "string \<Rightarrow> val" where
  "val_atom name = VAtom (Atom_Named name)"

fun val_type_name :: "val \<Rightarrow> string" where
  "val_type_name (VInt _) = ''Int''"
| "val_type_name (VFloat _) = ''Float''"
| "val_type_name (VString _) = ''String''"
| "val_type_name (VBytes _) = ''Bytes''"
| "val_type_name (VNativeType _) = ''Type''"
| "val_type_name (VOpaque _) = ''Opaque''"
| "val_type_name (VDict _ _) = ''Dict''"
| "val_type_name (VArray _) = ''Array''"
| "val_type_name (VAtom _) = ''Atom''"
| "val_type_name (VTagged _ _) = ''Tagged''"
| "val_type_name (VTuple _) = ''Tuple''"
| "val_type_name (VFunc _ _ _) = ''Func''"
| "val_type_name (VDyn _ _ _ _ _) = ''Dyn''"

text \<open>\<open>Shape::field_index\<close> and \<open>Dict::get\<close>: binary search of the sorted field list.\<close>

definition shape_field_index :: "string list \<Rightarrow> string \<Rightarrow> nat option" where
  "shape_field_index fs field =
     binary_search_by (\<lambda>candidate. cmp candidate field) fs 0 (length fs)"

definition dict_value_get :: "string list \<Rightarrow> 'v list \<Rightarrow> string \<Rightarrow> 'v option" where
  "dict_value_get fs values field =
     map_option (\<lambda>index. values ! index) (shape_field_index fs field)"

lemma dict_value_get_map_of:
  assumes "sorted_wrt (<) fs" and "length values = length fs"
  shows "dict_value_get fs values field = map_of (zip fs values) field"
proof (cases "shape_field_index fs field")
  case None
  then have "field \<notin> set fs"
    using binary_search_by_None[of "\<lambda>x. x" fs "\<lambda>c. cmp c field" field] assms(1)
    by (simp add: shape_field_index_def)
  with assms(2) have "map_of (zip fs values) field = None"
    by (auto simp: map_of_eq_None_iff dest: set_zip_leftD)
  with None show ?thesis by (simp add: dict_value_get_def)
next
  case (Some i)
  then have i: "i < length fs" "fs ! i = field"
    using binary_search_by_cmp[of "\<lambda>x. x" fs "length fs" "\<lambda>c. cmp c field" field 0 i]
      assms(1)
    by (auto simp: shape_field_index_def)
  have "distinct fs" using assms(1) strict_sorted_iff by auto
  with i assms(2) have "map_of (zip fs values) field = Some (values ! i)"
    by (metis map_of_zip_nth)
  with Some show ?thesis by (simp add: dict_value_get_def)
qed

end
