(* ===== verification/Bytecode.thy ===== *)
theory Bytecode
  imports Value
begin

text \<open>
  Assembly of bytecode functions (\<open>crates/telora-core/src/bytecode.rs\<close>): instructions that
  still name their constants, field names and nested functions, and \<open>link_instruction\<close>, which
  moves those operands into the function's linking table and leaves indices in the code.
\<close>

section \<open>Instructions before linking\<close>

datatype (plugins only: code size) instruction =
    I_LoadConst register nat
  | I_Move register register
  | I_MakeUpLink register
  | I_ReadUpLink register register
  | I_InitializeUpLink register register
  | I_AssertUpLinkReady register
  | I_AssertFunctionArity register nat
  | I_Add register register register
  | I_Subtract register register register
  | I_Multiply register register register
  | I_Divide register register register
  | I_Negate register register
  | I_Equal register register register
  | I_LessThan register register register
  | I_MakeArray register "register list"
  | I_ConcatArrays register "register list"
  | I_MakeTuple register "register list"
  | I_InterpolateString register "register list"
  | I_MakeDict register "(string \<times> register) list"
  | I_MergeDicts register "register list"
  | I_GetField register register string
  | I_FieldExists register register string
  | I_IsDict register register
  | I_TupleLengthEquals register register nat
  | I_GetTuple register register nat
  | I_TaggedTagEquals register register register
  | I_GetTaggedPayload register register
  | I_MakeClosure register bytecode_function "register list"
  | I_Call register nat
  | I_TailCall register nat
  | I_Jump nat
  | I_JumpIfFalse register nat
  | I_Return register
  | I_Fail string
  | I_Panic register
  | I_Raise register

section \<open>The linking table\<close>

record linking_table =
  link_values :: "val list"
  link_external_values :: "string option list"
  link_text :: "string list"
  link_prototypes :: "bytecode_function list"

definition linking_table_default :: linking_table where
  "linking_table_default =
     \<lparr> link_values = [], link_external_values = [], link_text = [], link_prototypes = [] \<rparr>"

definition bf_links :: "bytecode_function \<Rightarrow> linking_table" where
  "bf_links f =
     \<lparr> link_values = bf_values f, link_external_values = bf_external_values f,
       link_text = bf_text f, link_prototypes = bf_prototypes f \<rparr>"

definition bytecode_function_of ::
    "address \<Rightarrow> func_byte_code \<Rightarrow> linking_table \<Rightarrow> bytecode_function" where
  "bytecode_function_of address code links =
     BytecodeFunction address code (link_values links) (link_external_values links)
       (link_text links) (link_prototypes links)"

text \<open>The closure \<open>text\<close> of \<open>link_instruction\<close>: the index of a field name, added when new.\<close>

definition link_text_id :: "string \<Rightarrow> linking_table \<Rightarrow> text_link_id \<times> linking_table" where
  "link_text_id field links =
     (case position (\<lambda>candidate. candidate = field) (link_text links) of
        Some index \<Rightarrow> (index, links)
      | None \<Rightarrow> (length (link_text links), links\<lparr> link_text := link_text links @ [field] \<rparr>))"

fun link_fields ::
    "(string \<times> register) list \<Rightarrow> linking_table \<Rightarrow> (text_link_id \<times> register) list \<times> linking_table"
where
  "link_fields [] links = ([], links)"
| "link_fields ((field, r) # fs) links =
     (let (index, links') = link_text_id field links;
          (rest, links'') = link_fields fs links'
      in ((index, r) # rest, links''))"

fun link_instruction :: "instruction \<Rightarrow> linking_table \<Rightarrow> opcode \<times> linking_table" where
  "link_instruction (I_LoadConst dst constant) links = (Op_LoadConst dst constant, links)"
| "link_instruction (I_Move dst src) links = (Op_Move dst src, links)"
| "link_instruction (I_MakeUpLink dst) links = (Op_MakeUpLink dst, links)"
| "link_instruction (I_ReadUpLink dst link) links = (Op_ReadUpLink dst link, links)"
| "link_instruction (I_InitializeUpLink link src) links = (Op_InitializeUpLink link src, links)"
| "link_instruction (I_AssertUpLinkReady link) links = (Op_AssertUpLinkReady link, links)"
| "link_instruction (I_AssertFunctionArity r arity) links = (Op_AssertFunctionArity r arity, links)"
| "link_instruction (I_Add dst left right) links = (Op_Add dst left right, links)"
| "link_instruction (I_Subtract dst left right) links = (Op_Subtract dst left right, links)"
| "link_instruction (I_Multiply dst left right) links = (Op_Multiply dst left right, links)"
| "link_instruction (I_Divide dst left right) links = (Op_Divide dst left right, links)"
| "link_instruction (I_Negate dst src) links = (Op_Negate dst src, links)"
| "link_instruction (I_Equal dst left right) links = (Op_Equal dst left right, links)"
| "link_instruction (I_LessThan dst left right) links = (Op_LessThan dst left right, links)"
| "link_instruction (I_MakeArray dst items) links = (Op_MakeArray dst items, links)"
| "link_instruction (I_ConcatArrays dst arrays) links = (Op_ConcatArrays dst arrays, links)"
| "link_instruction (I_MakeTuple dst items) links = (Op_MakeTuple dst items, links)"
| "link_instruction (I_InterpolateString dst parts) links = (Op_InterpolateString dst parts, links)"
| "link_instruction (I_MakeDict dst fs) links =
     (let (fs', links') = link_fields fs links in (Op_MakeDict dst fs', links'))"
| "link_instruction (I_MergeDicts dst dicts) links = (Op_MergeDicts dst dicts, links)"
| "link_instruction (I_GetField dst dict field) links =
     (let (index, links') = link_text_id field links in (Op_GetField dst dict index, links'))"
| "link_instruction (I_FieldExists dst r field) links =
     (let (index, links') = link_text_id field links in (Op_FieldExists dst r index, links'))"
| "link_instruction (I_IsDict dst r) links = (Op_IsDict dst r, links)"
| "link_instruction (I_TupleLengthEquals dst r n) links = (Op_TupleLengthEquals dst r n, links)"
| "link_instruction (I_GetTuple dst tuple index) links = (Op_GetTuple dst tuple index, links)"
| "link_instruction (I_TaggedTagEquals dst r tag) links = (Op_TaggedTagEquals dst r tag, links)"
| "link_instruction (I_GetTaggedPayload dst r) links = (Op_GetTaggedPayload dst r, links)"
| "link_instruction (I_MakeClosure dst function captures) links =
     (Op_MakeClosure dst (length (link_prototypes links)) captures,
      links\<lparr> link_prototypes := link_prototypes links @ [function] \<rparr>)"
| "link_instruction (I_Call base argument_count) links = (Op_Call base argument_count, links)"
| "link_instruction (I_TailCall base argument_count) links = (Op_TailCall base argument_count, links)"
| "link_instruction (I_Jump target) links = (Op_Jump target, links)"
| "link_instruction (I_JumpIfFalse condition target) links = (Op_JumpIfFalse condition target, links)"
| "link_instruction (I_Return src) links = (Op_Return src, links)"
| "link_instruction (I_Fail message) links = (Op_Fail message, links)"
| "link_instruction (I_Panic message) links = (Op_Panic message, links)"
| "link_instruction (I_Raise err) links = (Op_Raise err, links)"

fun link_instructions :: "instruction list \<Rightarrow> linking_table \<Rightarrow> opcode list \<times> linking_table" where
  "link_instructions [] links = ([], links)"
| "link_instructions (i # is) links =
     (let (op, links') = link_instruction i links;
          (ops, links'') = link_instructions is links'
      in (op # ops, links''))"

section \<open>Functions\<close>

definition assembled ::
    "address \<Rightarrow> string \<Rightarrow> nat \<Rightarrow> nat \<Rightarrow> nat \<Rightarrow> val list \<Rightarrow> instruction list \<Rightarrow>
     debug_origin_range list \<Rightarrow> bytecode_function" where
  "assembled address name parameter_count capture_count register_count constants instructions
     debug_origins =
     (let links = linking_table_default
            \<lparr> link_external_values := replicate (length constants) None,
              link_values := constants \<rparr>;
          (ops, links') = link_instructions instructions links
      in bytecode_function_of address
           \<lparr> code_name = name, code_parameter_count = parameter_count,
             code_capture_count = capture_count, code_register_count = register_count,
             code_instructions = ops, code_debug_origins = debug_origins \<rparr> links')"

definition with_signature ::
    "address \<Rightarrow> string \<Rightarrow> nat \<Rightarrow> nat \<Rightarrow> nat \<Rightarrow> val list \<Rightarrow> instruction list \<Rightarrow> bytecode_function"
where
  "with_signature address name parameter_count capture_count register_count constants instructions =
     assembled address name parameter_count capture_count register_count constants instructions []"

definition from_linked_parts ::
    "address \<Rightarrow> func_byte_code \<Rightarrow> val list \<Rightarrow> string list \<Rightarrow> bytecode_function list \<Rightarrow>
     bytecode_function" where
  "from_linked_parts address code values text prototypes =
     BytecodeFunction address code values [] text prototypes"

definition relink_with ::
    "address \<Rightarrow> (val \<Rightarrow> val) \<Rightarrow> (string \<Rightarrow> string) \<Rightarrow> (bytecode_function \<Rightarrow> bytecode_function) \<Rightarrow>
     bytecode_function \<Rightarrow> bytecode_function" where
  "relink_with address value text prototype f =
     BytecodeFunction address (bf_code f) (map value (bf_values f)) (bf_external_values f)
       (map text (bf_text f)) (map prototype (bf_prototypes f))"

text \<open>\<open>LinkingTable::external_value\<close>: no entry and an empty entry are both \<open>None\<close>.\<close>

definition external_value :: "linking_table \<Rightarrow> nat \<Rightarrow> string option" where
  "external_value links index =
     (case nth_opt (link_external_values links) index of None \<Rightarrow> None | Some e \<Rightarrow> e)"

text \<open>
  \<open>bind_external_value\<close>: the table of external names is resized to the constants first; an
  index outside the constants panics (\<open>None\<close>).
\<close>

definition resize_list :: "'a list \<Rightarrow> nat \<Rightarrow> 'a \<Rightarrow> 'a list" where
  "resize_list xs n x = take n xs @ replicate (n - length xs) x"

definition bind_external_value :: "nat \<Rightarrow> string \<Rightarrow> bytecode_function \<Rightarrow> bytecode_function option"
where
  "bind_external_value index key f =
     (let n = length (bf_values f); external = resize_list (bf_external_values f) n None in
      if index < n then
        Some (BytecodeFunction (bf_address f) (bf_code f) (bf_values f)
                (external[index := Some key]) (bf_text f) (bf_prototypes f))
      else None)"

section \<open>Reading linked code back\<close>

text \<open>
  The abstract meaning of an opcode under a linking table is the instruction with its operands
  looked up. Linking is right when reading the linked code back gives the instructions.
\<close>

fun unlink_fields :: "linking_table \<Rightarrow> (text_link_id \<times> register) list \<Rightarrow>
    (string \<times> register) list option" where
  "unlink_fields links [] = Some []"
| "unlink_fields links ((index, r) # fs) =
     (case (nth_opt (link_text links) index, unlink_fields links fs) of
        (Some field, Some rest) \<Rightarrow> Some ((field, r) # rest)
      | _ \<Rightarrow> None)"

fun unlink_opcode :: "linking_table \<Rightarrow> opcode \<Rightarrow> instruction option" where
  "unlink_opcode links (Op_LoadConst dst v) =
     (if v < length (link_values links) then Some (I_LoadConst dst v) else None)"
| "unlink_opcode links (Op_Move dst src) = Some (I_Move dst src)"
| "unlink_opcode links (Op_MakeUpLink dst) = Some (I_MakeUpLink dst)"
| "unlink_opcode links (Op_ReadUpLink dst link) = Some (I_ReadUpLink dst link)"
| "unlink_opcode links (Op_InitializeUpLink link src) = Some (I_InitializeUpLink link src)"
| "unlink_opcode links (Op_AssertUpLinkReady link) = Some (I_AssertUpLinkReady link)"
| "unlink_opcode links (Op_AssertFunctionArity r arity) = Some (I_AssertFunctionArity r arity)"
| "unlink_opcode links (Op_Add dst left right) = Some (I_Add dst left right)"
| "unlink_opcode links (Op_Subtract dst left right) = Some (I_Subtract dst left right)"
| "unlink_opcode links (Op_Multiply dst left right) = Some (I_Multiply dst left right)"
| "unlink_opcode links (Op_Divide dst left right) = Some (I_Divide dst left right)"
| "unlink_opcode links (Op_Negate dst src) = Some (I_Negate dst src)"
| "unlink_opcode links (Op_Equal dst left right) = Some (I_Equal dst left right)"
| "unlink_opcode links (Op_LessThan dst left right) = Some (I_LessThan dst left right)"
| "unlink_opcode links (Op_MakeArray dst items) = Some (I_MakeArray dst items)"
| "unlink_opcode links (Op_ConcatArrays dst arrays) = Some (I_ConcatArrays dst arrays)"
| "unlink_opcode links (Op_MakeTuple dst items) = Some (I_MakeTuple dst items)"
| "unlink_opcode links (Op_InterpolateString dst parts) = Some (I_InterpolateString dst parts)"
| "unlink_opcode links (Op_MakeDict dst fs) = map_option (I_MakeDict dst) (unlink_fields links fs)"
| "unlink_opcode links (Op_MergeDicts dst dicts) = Some (I_MergeDicts dst dicts)"
| "unlink_opcode links (Op_GetField dst dict i) =
     map_option (I_GetField dst dict) (nth_opt (link_text links) i)"
| "unlink_opcode links (Op_FieldExists dst r i) =
     map_option (I_FieldExists dst r) (nth_opt (link_text links) i)"
| "unlink_opcode links (Op_IsDict dst r) = Some (I_IsDict dst r)"
| "unlink_opcode links (Op_TupleLengthEquals dst r n) = Some (I_TupleLengthEquals dst r n)"
| "unlink_opcode links (Op_GetTuple dst tuple i) = Some (I_GetTuple dst tuple i)"
| "unlink_opcode links (Op_TaggedTagEquals dst r tag) = Some (I_TaggedTagEquals dst r tag)"
| "unlink_opcode links (Op_GetTaggedPayload dst r) = Some (I_GetTaggedPayload dst r)"
| "unlink_opcode links (Op_MakeClosure dst p captures) =
     map_option (\<lambda>f. I_MakeClosure dst f captures) (nth_opt (link_prototypes links) p)"
| "unlink_opcode links (Op_Call base n) = Some (I_Call base n)"
| "unlink_opcode links (Op_TailCall base n) = Some (I_TailCall base n)"
| "unlink_opcode links (Op_Jump target) = Some (I_Jump target)"
| "unlink_opcode links (Op_JumpIfFalse c target) = Some (I_JumpIfFalse c target)"
| "unlink_opcode links (Op_Return src) = Some (I_Return src)"
| "unlink_opcode links (Op_Fail message) = Some (I_Fail message)"
| "unlink_opcode links (Op_Panic message) = Some (I_Panic message)"
| "unlink_opcode links (Op_Raise err) = Some (I_Raise err)"

text \<open>A later table extends an earlier one: same constants, more text and more prototypes.\<close>

definition links_extend :: "linking_table \<Rightarrow> linking_table \<Rightarrow> bool" where
  "links_extend a b \<longleftrightarrow>
     link_values b = link_values a \<and> link_external_values b = link_external_values a \<and>
     (\<exists>ts. link_text b = link_text a @ ts) \<and>
     (\<exists>ps. link_prototypes b = link_prototypes a @ ps)"

lemma links_extend_refl [simp]: "links_extend a a"
  by (simp add: links_extend_def)

lemma links_extend_trans: "links_extend a b \<Longrightarrow> links_extend b c \<Longrightarrow> links_extend a c"
  by (auto simp: links_extend_def)

lemma links_extend_text:
  "links_extend a b \<Longrightarrow> nth_opt (link_text a) i = Some t \<Longrightarrow> nth_opt (link_text b) i = Some t"
  by (auto simp: links_extend_def nth_append)

lemma links_extend_prototypes:
  "links_extend a b \<Longrightarrow> nth_opt (link_prototypes a) i = Some t \<Longrightarrow>
   nth_opt (link_prototypes b) i = Some t"
  by (auto simp: links_extend_def nth_append)

lemma links_extend_values: "links_extend a b \<Longrightarrow> link_values b = link_values a"
  by (simp add: links_extend_def)

lemma link_text_id_extend: "link_text_id t a = (i, b) \<Longrightarrow> links_extend a b"
  by (auto simp: link_text_id_def links_extend_def split: option.splits)

lemma link_text_id_nth: "link_text_id t a = (i, b) \<Longrightarrow> nth_opt (link_text b) i = Some t"
  by (auto simp: link_text_id_def split: option.splits dest: position_Some)

lemma link_fields_extend: "link_fields fs a = (gs, b) \<Longrightarrow> links_extend a b"
  by (induction fs a arbitrary: gs b rule: link_fields.induct)
     (auto split: prod.splits dest: link_text_id_extend intro: links_extend_trans)

lemma unlink_fields_extend:
  "links_extend a b \<Longrightarrow> unlink_fields a gs = Some fs \<Longrightarrow> unlink_fields b gs = Some fs"
proof (induction a gs arbitrary: fs rule: unlink_fields.induct)
  case (2 links index r gs)
  then show ?case
    by (auto split: option.splits dest: links_extend_text
        simp del: nth_opt_eq_Some nth_opt_eq_None)
qed simp

lemma link_fields_unlink: "link_fields fs a = (gs, b) \<Longrightarrow> unlink_fields b gs = Some fs"
proof (induction fs a arbitrary: gs b rule: link_fields.induct)
  case (2 field r fs links)
  obtain i mid where i: "link_text_id field links = (i, mid)" by fastforce
  obtain rest c where rest: "link_fields fs mid = (rest, c)" by fastforce
  from 2(2) i rest have eq: "gs = (i, r) # rest" "b = c" by auto
  have "nth_opt (link_text c) i = Some field"
    by (rule links_extend_text[OF link_fields_extend[OF rest] link_text_id_nth[OF i]])
  moreover have "unlink_fields c rest = Some fs" by (rule 2(1)[OF i[symmetric] refl rest])
  ultimately show ?case by (simp add: eq del: nth_opt_eq_Some)
qed simp

lemma link_instruction_extend: "link_instruction i a = (op, b) \<Longrightarrow> links_extend a b"
  by (cases i)
     (auto split: prod.splits dest: link_text_id_extend link_fields_extend simp: links_extend_def)

lemma link_instructions_extend: "link_instructions is a = (ops, b) \<Longrightarrow> links_extend a b"
  by (induction "is" a arbitrary: ops b rule: link_instructions.induct)
     (auto split: prod.splits dest: link_instruction_extend intro: links_extend_trans)

lemma unlink_opcode_extend:
  "links_extend a b \<Longrightarrow> unlink_opcode a op = Some i \<Longrightarrow> unlink_opcode b op = Some i"
  by (cases op)
     (auto dest: links_extend_text links_extend_prototypes unlink_fields_extend
       simp: links_extend_values simp del: nth_opt_eq_Some split: if_splits)

text \<open>The constants an instruction refers to.\<close>

definition constants_bound :: "nat \<Rightarrow> instruction \<Rightarrow> bool" where
  "constants_bound n i \<longleftrightarrow> (case i of I_LoadConst _ c \<Rightarrow> c < n | _ \<Rightarrow> True)"

lemma link_instruction_unlink:
  assumes "link_instruction i a = (op, b)" and "constants_bound (length (link_values a)) i"
  shows "unlink_opcode b op = Some i"
  using assms
  by (cases i)
     (auto simp: constants_bound_def simp del: nth_opt_eq_Some
       split: prod.splits dest: link_text_id_nth link_fields_unlink)

lemma link_instructions_unlink:
  "link_instructions is a = (ops, b) \<Longrightarrow>
   (\<forall>i \<in> set is. constants_bound (length (link_values a)) i) \<Longrightarrow>
   map (unlink_opcode b) ops = map Some is"
proof (induction "is" a arbitrary: ops b rule: link_instructions.induct)
  case (2 i "is" links)
  obtain op mid where op: "link_instruction i links = (op, mid)" by fastforce
  obtain rest c where rest: "link_instructions is mid = (rest, c)" by fastforce
  from 2(2) op rest have eq: "ops = op # rest" "b = c" by auto
  have "unlink_opcode c op = Some i"
    using unlink_opcode_extend[OF link_instructions_extend[OF rest]]
      link_instruction_unlink[OF op] 2(3) by simp
  moreover have "map (unlink_opcode c) rest = map Some is"
    using 2(1)[OF op[symmetric] refl rest] 2(3)
      links_extend_values[OF link_instruction_extend[OF op]] by simp
  ultimately show ?case by (simp add: eq)
qed simp

lemma link_instructions_length:
  "link_instructions is a = (ops, b) \<Longrightarrow> length ops = length is"
  by (induction "is" a arbitrary: ops b rule: link_instructions.induct) (auto split: prod.splits)

lemma link_text_id_distinct:
  "distinct (link_text a) \<Longrightarrow> link_text_id t a = (i, b) \<Longrightarrow> distinct (link_text b)"
  by (auto simp: link_text_id_def position_None split: option.splits)

lemma link_fields_distinct:
  "distinct (link_text a) \<Longrightarrow> link_fields fs a = (gs, b) \<Longrightarrow> distinct (link_text b)"
proof (induction fs a arbitrary: gs b rule: link_fields.induct)
  case (2 field r fs links)
  obtain i mid where i: "link_text_id field links = (i, mid)" by fastforce
  obtain rest c where rest: "link_fields fs mid = (rest, c)" by fastforce
  from 2(3) i rest have "b = c" by simp
  with 2(1)[OF i[symmetric] refl link_text_id_distinct[OF 2(2) i] rest] show ?case by simp
qed simp

lemma link_instruction_distinct:
  "distinct (link_text a) \<Longrightarrow> link_instruction i a = (op, b) \<Longrightarrow> distinct (link_text b)"
  by (cases i) (auto split: prod.splits dest: link_text_id_distinct link_fields_distinct)

lemma link_instructions_distinct:
  "distinct (link_text a) \<Longrightarrow> link_instructions is a = (ops, b) \<Longrightarrow> distinct (link_text b)"
proof (induction "is" a arbitrary: ops b rule: link_instructions.induct)
  case (2 i "is" links)
  obtain op mid where op: "link_instruction i links = (op, mid)" by fastforce
  obtain rest c where rest: "link_instructions is mid = (rest, c)" by fastforce
  from 2(3) op rest have "b = c" by simp
  with 2(1)[OF op[symmetric] refl link_instruction_distinct[OF 2(2) op] rest] show ?case by simp
qed simp

lemma assembled_links:
  assumes "f = assembled address name pc cc rc constants is origins"
  obtains ops where "link_instructions is (linking_table_default
       \<lparr> link_external_values := replicate (length constants) None,
         link_values := constants \<rparr>) = (ops, bf_links f)"
    and "code_instructions (bf_code f) = ops"
proof -
  obtain ops l where l: "link_instructions is (linking_table_default
       \<lparr> link_external_values := replicate (length constants) None,
         link_values := constants \<rparr>) = (ops, l)" by fastforce
  then have "f = bytecode_function_of address
      \<lparr> code_name = name, code_parameter_count = pc, code_capture_count = cc,
        code_register_count = rc, code_instructions = ops, code_debug_origins = origins \<rparr> l"
    unfolding assms assembled_def Let_def by (simp only: prod.case)
  then have "bf_links f = l" and ops: "code_instructions (bf_code f) = ops"
    by (simp_all add: bf_links_def bytecode_function_of_def)
  from l[folded this(1)] ops show ?thesis by (rule that)
qed

text \<open>
  C35. Linking loses nothing: every opcode of an assembled function, read back through the
  function's own linking table, is the instruction it was made from, whenever the instructions
  only load constants the function has.
\<close>

theorem assembled_unlink:
  assumes "\<forall>i \<in> set is. constants_bound (length constants) i"
  shows "let f = assembled address name pc cc rc constants is origins in
     map (unlink_opcode (bf_links f)) (code_instructions (bf_code f)) = map Some is"
proof -
  define f where "f = assembled address name pc cc rc constants is origins"
  obtain ops where "link_instructions is (linking_table_default
       \<lparr> link_external_values := replicate (length constants) None,
         link_values := constants \<rparr>) = (ops, bf_links f)" "code_instructions (bf_code f) = ops"
    by (rule assembled_links[OF f_def])
  then show ?thesis
    using link_instructions_unlink[of "is"] assms by (simp add: f_def[symmetric])
qed

theorem assembled_unlink_witness:
  "let f = assembled 7 ''g'' 0 0 2 [VInt 5]
         [I_LoadConst 0 0, I_GetField 1 0 ''name'', I_GetField 1 0 ''name'', I_Return 1] [] in
   map (unlink_opcode (bf_links f)) (code_instructions (bf_code f)) =
   map Some [I_LoadConst 0 0, I_GetField 1 0 ''name'', I_GetField 1 0 ''name'', I_Return 1]"
  by (rule assembled_unlink) (simp add: constants_bound_def)

text \<open>
  The linking table holds every field name once: two opcodes name the same field exactly
  when they carry the same text link.
\<close>

lemma assembled_text_distinct:
  "distinct (bf_text (assembled address name pc cc rc constants is origins))"
proof -
  define f where "f = assembled address name pc cc rc constants is origins"
  obtain ops where "link_instructions is (linking_table_default
       \<lparr> link_external_values := replicate (length constants) None,
         link_values := constants \<rparr>) = (ops, bf_links f)"
    by (rule assembled_links[OF f_def])
  then have "distinct (link_text (bf_links f))"
    by (rule link_instructions_distinct[rotated]) (simp add: linking_table_default_def)
  then show ?thesis by (simp add: f_def bf_links_def)
qed

end
