(* ===== verification/Lir.thy ===== *)
theory Lir
  imports Bytecode
begin

text \<open>
  The register-level intermediate representation and its assembler
  (\<open>crates/telora-core/src/lir.rs\<close>). Operations name registers, constants and labels by
  \<open>u32\<close> ids; \<open>assemble\<close> checks them against the function's declarations, resolves the labels
  to instruction indices, compresses the origins of the instructions to ranges and links.
  An operation is a type over its nested functions, so that \<open>Operation\<close> and \<open>Function\<close>,
  which are mutually recursive in the code, are two datatypes. Allocating the \<open>Arc\<close> of an
  assembled function takes the next free address.
\<close>

section \<open>Operations and functions\<close>

type_synonym register_id = u32
type_synonym constant_id = u32
type_synonym label_id = u32

datatype (plugins only: code size) 'f operation =
    L_LoadConst register_id constant_id
  | L_Move register_id register_id
  | L_MakeUpLink register_id
  | L_ReadUpLink register_id register_id
  | L_InitializeUpLink register_id register_id
  | L_AssertUpLinkReady register_id
  | L_AssertFunctionArity register_id u32
  | L_Add register_id register_id register_id
  | L_Subtract register_id register_id register_id
  | L_Multiply register_id register_id register_id
  | L_Divide register_id register_id register_id
  | L_Negate register_id register_id
  | L_Equal register_id register_id register_id
  | L_LessThan register_id register_id register_id
  | L_MakeArray register_id "register_id list"
  | L_ConcatArrays register_id "register_id list"
  | L_MakeTuple register_id "register_id list"
  | L_InterpolateString register_id "register_id list"
  | L_MakeDict register_id "(string \<times> register_id) list"
  | L_MergeDicts register_id "register_id list"
  | L_GetField register_id register_id string
  | L_FieldExists register_id register_id string
  | L_IsDict register_id register_id
  | L_TupleLengthEquals register_id register_id nat
  | L_GetTuple register_id register_id nat
  | L_TaggedTagEquals register_id register_id register_id
  | L_GetTaggedPayload register_id register_id
  | L_MakeClosure register_id 'f "register_id list"
  | L_Call register_id u32
  | L_TailCall register_id u32
  | L_Jump label_id
  | L_JumpIfFalse register_id label_id
  | L_Return register_id
  | L_Fail string
  | L_Panic register_id
  | L_Raise register_id

datatype 'f lir_item = L_Label label_id | L_Operation "'f operation" origin

datatype lir_function =
  LirFunction
    (lir_name: string)
    (lir_parameter_count: u32)
    (lir_capture_count: u32)
    (lir_register_count: u32)
    (lir_constants: "val list")
    (lir_items: "lir_function lir_item list")

datatype assemble_error = AssembleError string

section \<open>Lowering one operation\<close>

definition lower_register :: "nat \<Rightarrow> register_id \<Rightarrow> assemble_error + register" where
  "lower_register register_count rid =
     (let index = unat rid in
      if register_count \<le> index then
        Inl (AssembleError (''register '' @ show_nat index @ '' is out of bounds''))
      else Inr index)"

definition lower_registers :: "nat \<Rightarrow> register_id list \<Rightarrow> assemble_error + register list" where
  "lower_registers register_count rids = collect_results (lower_register register_count) rids"

definition lower_fields ::
    "nat \<Rightarrow> (string \<times> register_id) list \<Rightarrow> assemble_error + (string \<times> register) list" where
  "lower_fields register_count fs =
     collect_results (\<lambda>(name, rid). rbind (lower_register register_count rid) (\<lambda>r. Inr (name, r))) fs"

definition lower_label :: "(label_id \<rightharpoonup> nat) \<Rightarrow> label_id \<Rightarrow> assemble_error + nat" where
  "lower_label labels lid =
     ok_or (AssembleError (''undefined label '' @ show_nat (unat lid))) (labels lid)"

definition lower_constant :: "nat \<Rightarrow> constant_id \<Rightarrow> assemble_error + nat" where
  "lower_constant constant_count cid =
     (let constant = unat cid in
      if constant_count \<le> constant then
        Inl (AssembleError (''constant '' @ show_nat constant @ '' is out of bounds''))
      else Inr constant)"

definition lower_window :: "nat \<Rightarrow> register_id \<Rightarrow> u32 \<Rightarrow> assemble_error + (register \<times> nat)" where
  "lower_window register_count base argument_count =
     rbind (lower_register register_count base) (\<lambda>base.
     let count = unat argument_count in
     rbind (ok_or (AssembleError ''call window overflows'') (checked_add_usize base count)) (\<lambda>end'.
     if register_count \<le> end' then Inl (AssembleError ''call window is out of bounds'')
     else Inr (base, count)))"

text \<open>Two and three register operands, in the order in which the code checks them.\<close>

definition lower2 :: "nat \<Rightarrow> (register \<Rightarrow> register \<Rightarrow> instruction) \<Rightarrow> register_id \<Rightarrow> register_id \<Rightarrow>
    assemble_error + instruction" where
  "lower2 rc f a b = rbind (lower_register rc a) (\<lambda>a. rbind (lower_register rc b) (\<lambda>b. Inr (f a b)))"

definition lower3 :: "nat \<Rightarrow> (register \<Rightarrow> register \<Rightarrow> register \<Rightarrow> instruction) \<Rightarrow>
    register_id \<Rightarrow> register_id \<Rightarrow> register_id \<Rightarrow> assemble_error + instruction" where
  "lower3 rc f a b c = rbind (lower_register rc a) (\<lambda>a. rbind (lower_register rc b) (\<lambda>b.
     rbind (lower_register rc c) (\<lambda>c. Inr (f a b c))))"

definition lower_list :: "nat \<Rightarrow> (register \<Rightarrow> register list \<Rightarrow> instruction) \<Rightarrow>
    register_id \<Rightarrow> register_id list \<Rightarrow> assemble_error + instruction" where
  "lower_list rc f a bs =
     rbind (lower_register rc a) (\<lambda>a. rbind (lower_registers rc bs) (\<lambda>bs. Inr (f a bs)))"

text \<open>An operation without a nested function allocates nothing.\<close>

definition at_address :: "address \<Rightarrow> assemble_error + instruction \<Rightarrow>
    assemble_error + (instruction \<times> address)" where
  "at_address next m = rbind m (\<lambda>i. Inr (i, next))"

fun lower_operation ::
    "(address \<Rightarrow> 'f \<Rightarrow> assemble_error + (bytecode_function \<times> address)) \<Rightarrow> nat \<Rightarrow> nat \<Rightarrow>
     (label_id \<rightharpoonup> nat) \<Rightarrow> address \<Rightarrow> 'f operation \<Rightarrow> assemble_error + (instruction \<times> address)"
where
  "lower_operation asm rc cc labels next (L_LoadConst dst constant) =
     at_address next (rbind (lower_constant cc constant) (\<lambda>c. rbind (lower_register rc dst) (\<lambda>dst. Inr (I_LoadConst dst c))))"
| "lower_operation asm rc cc labels next (L_Move dst src) =
     at_address next (lower2 rc I_Move dst src)"
| "lower_operation asm rc cc labels next (L_MakeUpLink dst) =
     at_address next (rbind (lower_register rc dst) (\<lambda>dst. Inr (I_MakeUpLink dst)))"
| "lower_operation asm rc cc labels next (L_ReadUpLink dst link) =
     at_address next (lower2 rc I_ReadUpLink dst link)"
| "lower_operation asm rc cc labels next (L_InitializeUpLink link src) =
     at_address next (lower2 rc I_InitializeUpLink link src)"
| "lower_operation asm rc cc labels next (L_AssertUpLinkReady link) =
     at_address next (rbind (lower_register rc link) (\<lambda>link. Inr (I_AssertUpLinkReady link)))"
| "lower_operation asm rc cc labels next (L_AssertFunctionArity r arity) =
     at_address next (rbind (lower_register rc r) (\<lambda>r. Inr (I_AssertFunctionArity r (unat arity))))"
| "lower_operation asm rc cc labels next (L_Add dst left right) =
     at_address next (lower3 rc I_Add dst left right)"
| "lower_operation asm rc cc labels next (L_Subtract dst left right) =
     at_address next (lower3 rc I_Subtract dst left right)"
| "lower_operation asm rc cc labels next (L_Multiply dst left right) =
     at_address next (lower3 rc I_Multiply dst left right)"
| "lower_operation asm rc cc labels next (L_Divide dst left right) =
     at_address next (lower3 rc I_Divide dst left right)"
| "lower_operation asm rc cc labels next (L_Negate dst src) =
     at_address next (lower2 rc I_Negate dst src)"
| "lower_operation asm rc cc labels next (L_Equal dst left right) =
     at_address next (lower3 rc I_Equal dst left right)"
| "lower_operation asm rc cc labels next (L_LessThan dst left right) =
     at_address next (lower3 rc I_LessThan dst left right)"
| "lower_operation asm rc cc labels next (L_MakeArray dst items) =
     at_address next (lower_list rc I_MakeArray dst items)"
| "lower_operation asm rc cc labels next (L_ConcatArrays dst arrays) =
     at_address next (lower_list rc I_ConcatArrays dst arrays)"
| "lower_operation asm rc cc labels next (L_MakeTuple dst items) =
     at_address next (lower_list rc I_MakeTuple dst items)"
| "lower_operation asm rc cc labels next (L_InterpolateString dst parts) =
     at_address next (lower_list rc I_InterpolateString dst parts)"
| "lower_operation asm rc cc labels next (L_MakeDict dst fs) =
     at_address next (rbind (lower_register rc dst) (\<lambda>dst. rbind (lower_fields rc fs) (\<lambda>fs. Inr (I_MakeDict dst fs))))"
| "lower_operation asm rc cc labels next (L_MergeDicts dst dicts) =
     at_address next (lower_list rc I_MergeDicts dst dicts)"
| "lower_operation asm rc cc labels next (L_GetField dst dict field) =
     at_address next (lower2 rc (\<lambda>dst dict. I_GetField dst dict field) dst dict)"
| "lower_operation asm rc cc labels next (L_FieldExists dst r field) =
     at_address next (lower2 rc (\<lambda>dst r. I_FieldExists dst r field) dst r)"
| "lower_operation asm rc cc labels next (L_IsDict dst r) =
     at_address next (lower2 rc I_IsDict dst r)"
| "lower_operation asm rc cc labels next (L_TupleLengthEquals dst r n) =
     at_address next (lower2 rc (\<lambda>dst r. I_TupleLengthEquals dst r n) dst r)"
| "lower_operation asm rc cc labels next (L_GetTuple dst tuple i) =
     at_address next (lower2 rc (\<lambda>dst tuple. I_GetTuple dst tuple i) dst tuple)"
| "lower_operation asm rc cc labels next (L_TaggedTagEquals dst r tag) =
     at_address next (lower3 rc I_TaggedTagEquals dst r tag)"
| "lower_operation asm rc cc labels next (L_GetTaggedPayload dst r) =
     at_address next (lower2 rc I_GetTaggedPayload dst r)"
| "lower_operation asm rc cc labels next (L_MakeClosure dst f captures) =
     rbind (lower_register rc dst) (\<lambda>dst.
     rbind (asm next f) (\<lambda>(function, next').
     rbind (lower_registers rc captures) (\<lambda>captures.
     Inr (I_MakeClosure dst function captures, next'))))"
| "lower_operation asm rc cc labels next (L_Call base n) =
     at_address next (rbind (lower_window rc base n) (\<lambda>(base, n). Inr (I_Call base n)))"
| "lower_operation asm rc cc labels next (L_TailCall base n) =
     at_address next (rbind (lower_window rc base n) (\<lambda>(base, n). Inr (I_TailCall base n)))"
| "lower_operation asm rc cc labels next (L_Jump target) =
     at_address next (rbind (lower_label labels target) (\<lambda>target. Inr (I_Jump target)))"
| "lower_operation asm rc cc labels next (L_JumpIfFalse condition target) =
     at_address next (rbind (lower_register rc condition) (\<lambda>condition. rbind (lower_label labels target) (\<lambda>target. Inr (I_JumpIfFalse condition target))))"
| "lower_operation asm rc cc labels next (L_Return src) =
     at_address next (rbind (lower_register rc src) (\<lambda>src. Inr (I_Return src)))"
| "lower_operation asm rc cc labels next (L_Fail message) =
     at_address next (Inr (I_Fail message))"
| "lower_operation asm rc cc labels next (L_Panic message) =
     at_address next (rbind (lower_register rc message) (\<lambda>message. Inr (I_Panic message)))"
| "lower_operation asm rc cc labels next (L_Raise err) =
     at_address next (rbind (lower_register rc err) (\<lambda>err. Inr (I_Raise err)))"

section \<open>Labels and origins\<close>

fun collect_labels ::
    "'f lir_item list \<Rightarrow> (label_id \<rightharpoonup> nat) \<Rightarrow> nat \<Rightarrow> assemble_error + (label_id \<rightharpoonup> nat)" where
  "collect_labels [] labels pc = Inr labels"
| "collect_labels (L_Label label # items) labels pc =
     (if labels label \<noteq> None then
        Inl (AssembleError (''duplicate label '' @ show_nat (unat label)))
      else collect_labels items (labels(label \<mapsto> pc)) pc)"
| "collect_labels (L_Operation _ _ # items) labels pc = collect_labels items labels (Suc pc)"

fun item_operations :: "'f lir_item list \<Rightarrow> ('f operation \<times> origin) list" where
  "item_operations [] = []"
| "item_operations (L_Label _ # items) = item_operations items"
| "item_operations (L_Operation operation origin # items) =
     (operation, origin) # item_operations items"

text \<open>\<open>compress_origins\<close>: the ranges so far in reverse, so that \<open>last_mut\<close> is the head.\<close>

fun compress_from :: "nat \<Rightarrow> debug_origin_range list \<Rightarrow> origin list \<Rightarrow> debug_origin_range list" where
  "compress_from pc ranges [] = rev ranges"
| "compress_from pc ranges (origin # origins) =
     (case ranges of
        latest # before \<Rightarrow>
          (if dor_origin latest = origin \<and> dor_end latest = pc then
             compress_from (Suc pc) (latest\<lparr> dor_end := dor_end latest + 1 \<rparr> # before) origins
           else
             compress_from (Suc pc)
               (\<lparr> dor_start = pc, dor_end = pc + 1, dor_origin = origin \<rparr> # ranges) origins)
      | [] \<Rightarrow>
          compress_from (Suc pc)
            [\<lparr> dor_start = pc, dor_end = pc + 1, dor_origin = origin \<rparr>] origins)"

definition compress_origins :: "origin list \<Rightarrow> debug_origin_range list" where
  "compress_origins origins = compress_from 0 [] origins"

section \<open>Assembly\<close>

text \<open>The functions nested in an operation are the only ones lowering it assembles.\<close>

lemma lower_operation_cong [fundef_cong]:
  assumes "operation = operation'"
    and "\<And>next f. f \<in> set_operation operation' \<Longrightarrow> asm next f = asm' next f"
    and "rc = rc'" "cc = cc'" "labels = labels'" "next = next'"
  shows "lower_operation asm rc cc labels next operation =
         lower_operation asm' rc' cc' labels' next' operation'"
  using assms by (cases operation') auto

definition lower_operations ::
    "(address \<Rightarrow> 'f \<Rightarrow> assemble_error + (bytecode_function \<times> address)) \<Rightarrow> nat \<Rightarrow> nat \<Rightarrow>
     (label_id \<rightharpoonup> nat) \<Rightarrow> address \<Rightarrow> ('f operation \<times> origin) list \<Rightarrow>
     assemble_error + (instruction list \<times> address)" where
  "lower_operations asm rc cc labels next operations =
     collect_state (\<lambda>next (operation, _). lower_operation asm rc cc labels next operation)
       next operations"

lemma lower_operations_cong [fundef_cong]:
  assumes "operations = operations'"
    and "\<And>next f operation origin. (operation, origin) \<in> set operations' \<Longrightarrow>
           f \<in> set_operation operation \<Longrightarrow> asm next f = asm' next f"
    and "rc = rc'" "cc = cc'" "labels = labels'" "next = next'"
  shows "lower_operations asm rc cc labels next operations =
         lower_operations asm' rc' cc' labels' next' operations'"
  unfolding lower_operations_def assms(1,3-)
  by (rule collect_state_cong)
     (auto split: prod.splits intro!: lower_operation_cong dest: assms(2))

lemma size_nested_function:
  "(operation, origin) \<in> set (item_operations items) \<Longrightarrow> f \<in> set_operation operation \<Longrightarrow>
   size f < Suc (size_list (size_lir_item size) items)"
proof (induction items rule: item_operations.induct)
  case (3 operation' origin' items)
  have "size f < size_operation size operation'" if "f \<in> set_operation operation'"
    using that by (cases operation') auto
  with 3 show ?case by auto
qed auto

definition parameters_exceed :: string where
  "parameters_exceed = ''parameters and captures exceed the declared register count''"

function (sequential) assemble ::
    "address \<Rightarrow> lir_function \<Rightarrow> assemble_error + (bytecode_function \<times> address)" where
  "assemble next (LirFunction name parameter_count capture_count register_count constants items) =
     (let rc = unat register_count; pc = unat parameter_count; cc = unat capture_count in
      if rc < pc + cc then Inl (AssembleError parameters_exceed)
      else
        rbind (collect_labels items Map.empty 0) (\<lambda>labels.
        rbind (lower_operations assemble rc (length constants) labels next (item_operations items))
          (\<lambda>(instructions, next').
        if instructions = [] then
          Inl (AssembleError ''function contains no executable instructions'')
        else
          let debug_origins = compress_origins (map snd (item_operations items)) in
          Inr (assembled next' name pc cc rc constants instructions debug_origins, Suc next'))))"
  by pat_completeness auto
termination
  by (relation "measure (\<lambda>(next, f). size f)")
     (auto dest: size_nested_function)

end
