(* ===== verification/Lir_Correct.thy ===== *)
theory Lir_Correct
  imports Lir
begin

text \<open>
  What the assembler guarantees: which functions it accepts, that accepted functions only
  name registers, constants, links and jump targets they have, where labels end up, and that
  the compressed origin ranges give back the origin of every instruction.
\<close>

section \<open>Origin ranges\<close>

lemma find_append:
  "find P (xs @ ys) = (case find P xs of None \<Rightarrow> find P ys | Some x \<Rightarrow> Some x)"
  by (induction xs) auto

text \<open>
  The ranges built so far (latest first) describe the origins of the first \<open>pc\<close>
  instructions: they are contiguous and cover exactly these.
\<close>

fun ranges_describe :: "debug_origin_range list \<Rightarrow> origin list \<Rightarrow> bool" where
  "ranges_describe [] os \<longleftrightarrow> os = []"
| "ranges_describe (r # rs) os \<longleftrightarrow>
     dor_start r < dor_end r \<and> dor_end r = length os \<and>
     drop (dor_start r) os = replicate (dor_end r - dor_start r) (dor_origin r) \<and>
     ranges_describe rs (take (dor_start r) os)"

lemma compress_from_describe:
  "ranges_describe ranges os \<Longrightarrow>
   \<exists>rs. compress_from (length os) ranges origins = rev rs \<and> ranges_describe rs (os @ origins)"
proof (induction origins arbitrary: ranges os)
  case (Cons origin origins)
  have len: "length (os @ [origin]) = Suc (length os)" by simp
  have fresh: "ranges_describe
      (\<lparr> dor_start = length os, dor_end = length os + 1, dor_origin = origin \<rparr> # ranges)
      (os @ [origin])"
    using Cons.prems by simp
  show ?case
  proof (cases ranges)
    case Nil
    with Cons.IH[OF fresh] show ?thesis by simp
  next
    case (Cons latest before)
    show ?thesis
    proof (cases "dor_origin latest = origin \<and> dor_end latest = length os")
      case True
      with Cons.prems Cons have d: "dor_start latest < length os"
        "drop (dor_start latest) os = replicate (length os - dor_start latest) origin"
        "ranges_describe before (take (dor_start latest) os)"
        by auto
      have "replicate (length os - dor_start latest) origin @ [origin] =
          replicate (Suc (length os) - dor_start latest) origin"
        using d(1) by (simp add: Suc_diff_le replicate_append_same)
      then have "ranges_describe (latest\<lparr> dor_end := dor_end latest + 1 \<rparr> # before)
          (os @ [origin])"
        using True d by simp
      from Cons.IH[OF this] Cons True show ?thesis by simp
    next
      case False
      with Cons.IH[OF fresh] Cons show ?thesis by auto
    qed
  qed
qed auto

lemma ranges_describe_find:
  "ranges_describe ranges os \<Longrightarrow> pc < length os \<Longrightarrow>
   \<exists>r. find (\<lambda>r. dor_start r \<le> pc \<and> pc < dor_end r) (rev ranges) = Some r \<and>
       dor_origin r = os ! pc"
proof (induction ranges os rule: ranges_describe.induct)
  case (2 r rs os)
  show ?case
  proof (cases "pc < dor_start r")
    case True
    with 2 obtain q where
      "find (\<lambda>r. dor_start r \<le> pc \<and> pc < dor_end r) (rev rs) = Some q"
      "dor_origin q = os ! pc"
      by auto
    then show ?thesis by (auto simp: find_append)
  next
    case False
    have "\<forall>q \<in> set rs. dor_end q \<le> dor_start r"
    proof -
      have "\<forall>q \<in> set ss. dor_end q \<le> length ps" if "ranges_describe ss ps" for ss ps
        using that by (induction ss ps rule: ranges_describe.induct) auto
      from this[of rs "take (dor_start r) os"] 2(2) show ?thesis by auto
    qed
    with False have none: "find (\<lambda>r. dor_start r \<le> pc \<and> pc < dor_end r) (rev rs) = None"
      by (fastforce simp: find_None_iff)
    have "os ! pc = dor_origin r"
    proof -
      have "os ! pc = drop (dor_start r) os ! (pc - dor_start r)"
        using False 2(2,3) by (subst nth_drop) auto
      also have "\<dots> = dor_origin r" using False 2(2,3) by auto
      finally show ?thesis .
    qed
    with none False 2(2,3) show ?thesis by (auto simp: find_append)
  qed
qed simp

lemma compress_origins_at:
  "pc < length origins \<Longrightarrow> origin_at (compress_origins origins) pc = Some (origins ! pc)"
  using compress_from_describe[of "[]" "[]" origins]
  by (auto simp: compress_origins_def origin_at_def dest: ranges_describe_find)

lemma compress_origins_past_end:
  assumes "length origins \<le> pc"
  shows "origin_at (compress_origins origins) pc = None"
proof -
  obtain rs where rs: "compress_origins origins = rev rs" "ranges_describe rs origins"
    using compress_from_describe[of "[]" "[]" origins] by (auto simp: compress_origins_def)
  have "\<forall>q \<in> set ss. dor_end q \<le> length ps" if "ranges_describe ss ps" for ss ps
    using that by (induction ss ps rule: ranges_describe.induct) auto
  with rs(2) have "\<forall>q \<in> set rs. dor_end q \<le> length origins" by blast
  then show ?thesis using assms by (fastforce simp: rs(1) origin_at_def find_None_iff)
qed

section \<open>What lowering checks\<close>

text \<open>The registers an operation names, and those of its call window.\<close>

fun operation_registers :: "'f operation \<Rightarrow> nat list" where
  "operation_registers (L_LoadConst dst _) = [unat dst]"
| "operation_registers (L_Move dst src) = [unat dst, unat src]"
| "operation_registers (L_MakeUpLink dst) = [unat dst]"
| "operation_registers (L_ReadUpLink dst link) = [unat dst, unat link]"
| "operation_registers (L_InitializeUpLink link src) = [unat link, unat src]"
| "operation_registers (L_AssertUpLinkReady link) = [unat link]"
| "operation_registers (L_AssertFunctionArity r _) = [unat r]"
| "operation_registers (L_Add dst left right) = [unat dst, unat left, unat right]"
| "operation_registers (L_Subtract dst left right) = [unat dst, unat left, unat right]"
| "operation_registers (L_Multiply dst left right) = [unat dst, unat left, unat right]"
| "operation_registers (L_Divide dst left right) = [unat dst, unat left, unat right]"
| "operation_registers (L_Negate dst src) = [unat dst, unat src]"
| "operation_registers (L_Equal dst left right) = [unat dst, unat left, unat right]"
| "operation_registers (L_LessThan dst left right) = [unat dst, unat left, unat right]"
| "operation_registers (L_MakeArray dst items) = unat dst # map unat items"
| "operation_registers (L_ConcatArrays dst arrays) = unat dst # map unat arrays"
| "operation_registers (L_MakeTuple dst items) = unat dst # map unat items"
| "operation_registers (L_InterpolateString dst parts) = unat dst # map unat parts"
| "operation_registers (L_MakeDict dst fs) = unat dst # map (unat \<circ> snd) fs"
| "operation_registers (L_MergeDicts dst dicts) = unat dst # map unat dicts"
| "operation_registers (L_GetField dst dict _) = [unat dst, unat dict]"
| "operation_registers (L_FieldExists dst r _) = [unat dst, unat r]"
| "operation_registers (L_IsDict dst r) = [unat dst, unat r]"
| "operation_registers (L_TupleLengthEquals dst r _) = [unat dst, unat r]"
| "operation_registers (L_GetTuple dst tuple _) = [unat dst, unat tuple]"
| "operation_registers (L_TaggedTagEquals dst r tag) = [unat dst, unat r, unat tag]"
| "operation_registers (L_GetTaggedPayload dst r) = [unat dst, unat r]"
| "operation_registers (L_MakeClosure dst _ captures) = unat dst # map unat captures"
| "operation_registers (L_Call base n) = [unat base, unat base + unat n]"
| "operation_registers (L_TailCall base n) = [unat base, unat base + unat n]"
| "operation_registers (L_Jump _) = []"
| "operation_registers (L_JumpIfFalse condition _) = [unat condition]"
| "operation_registers (L_Return src) = [unat src]"
| "operation_registers (L_Fail _) = []"
| "operation_registers (L_Panic message) = [unat message]"
| "operation_registers (L_Raise err) = [unat err]"

fun operation_labels :: "'f operation \<Rightarrow> label_id list" where
  "operation_labels (L_Jump target) = [target]"
| "operation_labels (L_JumpIfFalse _ target) = [target]"
| "operation_labels _ = []"

fun operation_constants :: "'f operation \<Rightarrow> nat list" where
  "operation_constants (L_LoadConst _ constant) = [unat constant]"
| "operation_constants _ = []"

definition operation_ok ::
    "('f \<Rightarrow> bool) \<Rightarrow> nat \<Rightarrow> nat \<Rightarrow> label_id set \<Rightarrow> 'f operation \<Rightarrow> bool" where
  "operation_ok ok rc cc labels operation \<longleftrightarrow>
     (\<forall>r \<in> set (operation_registers operation). r < rc) \<and>
     (\<forall>c \<in> set (operation_constants operation). c < cc) \<and>
     (\<forall>l \<in> set (operation_labels operation). l \<in> labels) \<and>
     (\<forall>f \<in> set_operation operation. ok f)"

lemma lower_register_Inr [simp]:
  "lower_register rc i = Inr r \<longleftrightarrow> r = unat i \<and> unat i < rc"
  by (auto simp: lower_register_def Let_def)

lemma lower_registers_Inr [simp]:
  "lower_registers rc ids = Inr rs \<longleftrightarrow> rs = map unat ids \<and> (\<forall>i \<in> set ids. unat i < rc)"
  unfolding lower_registers_def
  by (induction ids arbitrary: rs) (auto simp: result_simps)

lemma lower_fields_Inr [simp]:
  "lower_fields rc fs = Inr gs \<longleftrightarrow>
   gs = map (map_prod (\<lambda>n. n) unat) fs \<and> (\<forall>(n, i) \<in> set fs. unat i < rc)"
  unfolding lower_fields_def
  by (induction fs arbitrary: gs) (auto simp: result_simps)

lemma lower_label_Inr [simp]: "lower_label labels l = Inr t \<longleftrightarrow> labels l = Some t"
  by (simp add: lower_label_def)

lemma lower_constant_Inr [simp]:
  "lower_constant cc c = Inr n \<longleftrightarrow> n = unat c \<and> unat c < cc"
  by (auto simp: lower_constant_def Let_def)

lemma unat_u32_le: "unat (w :: u32) \<le> u32_max"
proof -
  have "unat w < 2 ^ LENGTH(32)" by (rule unsigned_less)
  then show ?thesis by (simp add: u32_max_def)
qed

lemma lower_window_Inr [simp]:
  "lower_window rc b n = Inr (x, k) \<longleftrightarrow>
   x = unat b \<and> k = unat n \<and> unat b + unat n < rc"
proof -
  have "unat b + unat n \<le> usize_max"
    using unat_u32_le[of b] unat_u32_le[of n] by (simp add: u32_max_def usize_max_def)
  then show ?thesis
    by (auto simp: lower_window_def Let_def result_simps)
qed

lemma lower2_Inr [simp]:
  "lower2 rc f a b = Inr i \<longleftrightarrow> i = f (unat a) (unat b) \<and> unat a < rc \<and> unat b < rc"
  by (auto simp: lower2_def result_simps)

lemma lower3_Inr [simp]:
  "lower3 rc f a b c = Inr i \<longleftrightarrow>
   i = f (unat a) (unat b) (unat c) \<and> unat a < rc \<and> unat b < rc \<and> unat c < rc"
  by (auto simp: lower3_def result_simps)

lemma lower_list_Inr [simp]:
  "lower_list rc f a bs = Inr i \<longleftrightarrow>
   i = f (unat a) (map unat bs) \<and> unat a < rc \<and> (\<forall>b \<in> set bs. unat b < rc)"
  by (auto simp: lower_list_def result_simps)

lemma at_address_Inr [simp]: "at_address n m = Inr (i, k) \<longleftrightarrow> m = Inr i \<and> k = n"
  by (auto simp: at_address_def result_simps)

text \<open>An operation is lowered exactly when it is in bounds and its functions assemble.\<close>

lemma lower_operation_defined:
  assumes "\<And>n f. f \<in> set_operation operation \<Longrightarrow> (\<exists>r. asm n f = Inr r) \<longleftrightarrow> ok f"
  shows "(\<exists>r. lower_operation asm rc cc labels a operation = Inr r) \<longleftrightarrow>
         operation_ok ok rc cc (dom labels) operation"
proof (cases operation)
  case (L_MakeClosure dst f captures)
  with assms[of f a] show ?thesis
    by (auto simp: operation_ok_def result_simps split: prod.splits)
qed (auto simp: operation_ok_def result_simps dom_def comp_def split_beta)

section \<open>Labels\<close>

text \<open>Each label with the number of operations before it.\<close>

fun label_positions :: "nat \<Rightarrow> 'f lir_item list \<Rightarrow> (label_id \<times> nat) list" where
  "label_positions pc [] = []"
| "label_positions pc (L_Label label # items) = (label, pc) # label_positions pc items"
| "label_positions pc (L_Operation _ _ # items) = label_positions (Suc pc) items"

definition item_labels :: "'f lir_item list \<Rightarrow> label_id list" where
  "item_labels items = map fst (label_positions 0 items)"

lemma label_positions_fst: "map fst (label_positions pc items) = item_labels items"
proof -
  have "map fst (label_positions pc items) = map fst (label_positions pc' items)" for pc pc'
    by (induction pc items arbitrary: pc' rule: label_positions.induct) auto
  then show ?thesis by (simp add: item_labels_def)
qed

lemma item_labels_simps [simp]:
  "item_labels [] = []"
  "item_labels (L_Label l # items) = l # item_labels items"
  "item_labels (L_Operation operation origin # items) = item_labels items"
  using label_positions_fst[of "Suc 0" items] by (simp_all add: item_labels_def)

lemma collect_labels_Inr:
  "collect_labels items labels pc = Inr labels' \<longleftrightarrow>
   distinct (item_labels items) \<and> set (item_labels items) \<inter> dom labels = {} \<and>
   labels' = labels ++ map_of (label_positions pc items)"
proof (induction items labels pc rule: collect_labels.induct)
  case (2 label items labels pc)
  let ?m = "map_of (label_positions pc items)"
  have dom: "dom ?m = set (item_labels items)"
    by (simp add: dom_map_of_conv_image_fst flip: label_positions_fst[of pc])
  show ?case
  proof (cases "labels label = None \<and> label \<notin> set (item_labels items)")
    case True
    with dom have add: "labels(label \<mapsto> pc) ++ ?m =
        labels ++ map_of (label_positions pc (L_Label label # items))"
      by (simp add: map_add_upd_left)
    have "\<not> labels label \<noteq> None" using True by simp
    note IH = 2[OF this, unfolded add]
    have step: "collect_labels (L_Label label # items) labels pc =
        collect_labels items (labels(label \<mapsto> pc)) pc"
      using True by simp
    have keys: "set (item_labels items) \<inter> dom (labels(label \<mapsto> pc)) = {} \<longleftrightarrow>
        set (item_labels (L_Label label # items)) \<inter> dom labels = {}"
      using True by auto
    show ?thesis unfolding step IH keys
      by (simp only: item_labels_simps distinct.simps True simp_thms)
  next
    case False
    show ?thesis
    proof (cases "labels label = None")
      case True
      then have "\<not> labels label \<noteq> None" by simp
      note IH = 2[OF this]
      have step: "collect_labels (L_Label label # items) labels pc =
          collect_labels items (labels(label \<mapsto> pc)) pc"
        using True by simp
      show ?thesis unfolding step IH using True False by simp
    next
      case False
      then show ?thesis by auto
    qed
  qed
qed auto

lemma label_positions_split:
  "(l, t) \<in> set (label_positions pc items) \<Longrightarrow>
   \<exists>before after. items = before @ L_Label l # after \<and>
     t = pc + length (item_operations before)"
proof (induction pc items rule: label_positions.induct)
  case (2 pc label items)
  show ?case
  proof (cases "(l, t) = (label, pc)")
    case True
    then have "L_Label label # items = [] @ L_Label l # items \<and>
        t = pc + length (item_operations ([] :: 'a lir_item list))" by simp
    then show ?thesis by blast
  next
    case False
    with 2 obtain before after where
      "items = before @ L_Label l # after" "t = pc + length (item_operations before)" by auto
    then have "L_Label label # items = (L_Label label # before) @ L_Label l # after \<and>
        t = pc + length (item_operations (L_Label label # before))" by simp
    then show ?thesis by blast
  qed
next
  case (3 pc operation origin items)
  then obtain before after where
    "items = before @ L_Label l # after" "t = Suc pc + length (item_operations before)" by auto
  then have "L_Operation operation origin # items =
      (L_Operation operation origin # before) @ L_Label l # after \<and>
      t = pc + length (item_operations (L_Operation operation origin # before))" by simp
  then show ?case by blast
qed simp

lemma item_operations_append:
  "item_operations (xs @ ys) = item_operations xs @ item_operations ys"
  by (induction xs rule: item_operations.induct) auto

lemma collect_labels_target:
  assumes "collect_labels items Map.empty 0 = Inr labels" and "labels l = Some t"
  shows "\<exists>before after. items = before @ L_Label l # after \<and>
      t = length (item_operations before) \<and> t \<le> length (item_operations items)"
proof -
  from assms have "(l, t) \<in> set (label_positions 0 items)"
    by (auto simp: collect_labels_Inr dest: map_of_SomeD)
  from label_positions_split[OF this] show ?thesis
    by (auto simp: item_operations_append)
qed

lemma collect_labels_dom:
  assumes "collect_labels items Map.empty 0 = Inr labels"
  shows "dom labels = set (item_labels items)"
  using assms
  by (simp add: collect_labels_Inr dom_map_of_conv_image_fst item_labels_def)

section \<open>Which functions assemble\<close>

lemma operation_ok_cong [fundef_cong]:
  assumes "operation = operation'" and "rc = rc'" "cc = cc'" "labels = labels'"
    and "\<And>f. f \<in> set_operation operation' \<Longrightarrow> ok f = ok' f"
  shows "operation_ok ok rc cc labels operation = operation_ok ok' rc' cc' labels' operation'"
  using assms by (simp add: operation_ok_def)

function (sequential) lir_ok :: "lir_function \<Rightarrow> bool" where
  "lir_ok (LirFunction name parameter_count capture_count register_count constants items) \<longleftrightarrow>
     unat parameter_count + unat capture_count \<le> unat register_count \<and>
     distinct (item_labels items) \<and> item_operations items \<noteq> [] \<and>
     (\<forall>(operation, _) \<in> set (item_operations items).
        operation_ok lir_ok (unat register_count) (length constants)
          (set (item_labels items)) operation)"
  by pat_completeness auto
termination
  by (relation "measure size") (auto dest: size_nested_function)

lemma collect_state_defined:
  assumes "\<And>s x. x \<in> set xs \<Longrightarrow> (\<exists>r. f s x = Inr r) \<longleftrightarrow> P x"
  shows "(\<exists>r. collect_state f s xs = Inr r) \<longleftrightarrow> (\<forall>x \<in> set xs. P x)"
  using assms
proof (induction xs arbitrary: s)
  case (Cons x xs)
  show ?case
  proof (cases "f s x")
    case (Inl e)
    then have "\<not> P x" using Cons.prems[of x s] by auto
    with Inl show ?thesis by simp
  next
    case (Inr r)
    then have "P x" using Cons.prems[of x s] by auto
    moreover have "(\<exists>q. collect_state f (snd r) xs = Inr q) \<longleftrightarrow> (\<forall>x \<in> set xs. P x)"
      using Cons by simp
    moreover obtain y t where "r = (y, t)" by fastforce
    ultimately show ?thesis using Inr by (auto simp: result_simps)
  qed
qed simp

lemma lower_operations_length:
  "lower_operations asm rc cc labels n ops = Inr (is', m) \<Longrightarrow> length is' = length ops"
  unfolding lower_operations_def by (rule collect_state_length)

lemma assemble_defined: "(\<exists>r. assemble n f = Inr r) \<longleftrightarrow> lir_ok f"
proof (induction f arbitrary: n rule: lir_ok.induct)
  case (1 name parameter_count capture_count register_count constants items)
  define rc where "rc = unat register_count"
  define ops where "ops = item_operations items"
  have ops: "(\<exists>r. lower_operations assemble rc (length constants) labels n ops = Inr r) \<longleftrightarrow>
      (\<forall>(operation, _) \<in> set ops. operation_ok lir_ok rc (length constants)
         (set (item_labels items)) operation)"
    if "collect_labels items Map.empty 0 = Inr labels" for labels n
    unfolding lower_operations_def
  proof (rule collect_state_defined)
    fix m x assume x: "x \<in> set ops"
    obtain operation origin where [simp]: "x = (operation, origin)" by fastforce
    have "(\<exists>r. assemble k f = Inr r) \<longleftrightarrow> lir_ok f" if "f \<in> set_operation operation" for k f
      using 1 x that by (auto simp: ops_def)
    from lower_operation_defined[OF this, where rc = rc and cc = "length constants" and
        labels = labels and a = m]
    show "(\<exists>r. (case x of (operation, _) \<Rightarrow>
            lower_operation assemble rc (length constants) labels m operation) = Inr r) \<longleftrightarrow>
          (case x of (operation, _) \<Rightarrow> operation_ok lir_ok rc (length constants)
            (set (item_labels items)) operation)"
      by (simp add: collect_labels_dom[OF that])
  qed
  have labels: "(\<exists>labels. collect_labels items Map.empty 0 = Inr labels) \<longleftrightarrow>
      distinct (item_labels items)"
    by (auto simp: collect_labels_Inr)
  have nonempty: "(\<exists>r. lower_operations assemble rc (length constants) labels n ops = Inr r \<and>
        fst r \<noteq> []) \<longleftrightarrow>
      ops \<noteq> [] \<and> (\<exists>r. lower_operations assemble rc (length constants) labels n ops = Inr r)"
    for labels
    using lower_operations_length[of assemble rc "length constants" labels n ops] by fastforce
  show ?case
    using ops labels nonempty
    by (fastforce simp: Let_def result_simps rc_def ops_def split: if_splits)
qed

section \<open>Well-formed code\<close>

text \<open>The operands of an opcode, by what they index.\<close>

fun opcode_registers :: "opcode \<Rightarrow> nat list" where
  "opcode_registers (Op_LoadConst dst _) = [dst]"
| "opcode_registers (Op_Move dst src) = [dst, src]"
| "opcode_registers (Op_MakeUpLink dst) = [dst]"
| "opcode_registers (Op_ReadUpLink dst link) = [dst, link]"
| "opcode_registers (Op_InitializeUpLink link src) = [link, src]"
| "opcode_registers (Op_AssertUpLinkReady link) = [link]"
| "opcode_registers (Op_AssertFunctionArity r _) = [r]"
| "opcode_registers (Op_Add dst left right) = [dst, left, right]"
| "opcode_registers (Op_Subtract dst left right) = [dst, left, right]"
| "opcode_registers (Op_Multiply dst left right) = [dst, left, right]"
| "opcode_registers (Op_Divide dst left right) = [dst, left, right]"
| "opcode_registers (Op_Negate dst src) = [dst, src]"
| "opcode_registers (Op_Equal dst left right) = [dst, left, right]"
| "opcode_registers (Op_LessThan dst left right) = [dst, left, right]"
| "opcode_registers (Op_MakeArray dst items) = dst # items"
| "opcode_registers (Op_ConcatArrays dst arrays) = dst # arrays"
| "opcode_registers (Op_MakeTuple dst items) = dst # items"
| "opcode_registers (Op_InterpolateString dst parts) = dst # parts"
| "opcode_registers (Op_MakeDict dst fs) = dst # map snd fs"
| "opcode_registers (Op_MergeDicts dst dicts) = dst # dicts"
| "opcode_registers (Op_GetField dst dict _) = [dst, dict]"
| "opcode_registers (Op_FieldExists dst r _) = [dst, r]"
| "opcode_registers (Op_IsDict dst r) = [dst, r]"
| "opcode_registers (Op_TupleLengthEquals dst r _) = [dst, r]"
| "opcode_registers (Op_GetTuple dst tuple _) = [dst, tuple]"
| "opcode_registers (Op_TaggedTagEquals dst r tag) = [dst, r, tag]"
| "opcode_registers (Op_GetTaggedPayload dst r) = [dst, r]"
| "opcode_registers (Op_MakeClosure dst _ captures) = dst # captures"
| "opcode_registers (Op_Call base n) = [base, base + n]"
| "opcode_registers (Op_TailCall base n) = [base, base + n]"
| "opcode_registers (Op_Jump _) = []"
| "opcode_registers (Op_JumpIfFalse condition _) = [condition]"
| "opcode_registers (Op_Return src) = [src]"
| "opcode_registers (Op_Fail _) = []"
| "opcode_registers (Op_Panic message) = [message]"
| "opcode_registers (Op_Raise err) = [err]"

fun opcode_targets :: "opcode \<Rightarrow> nat list" where
  "opcode_targets (Op_Jump target) = [target]"
| "opcode_targets (Op_JumpIfFalse _ target) = [target]"
| "opcode_targets _ = []"

fun opcode_value_links :: "opcode \<Rightarrow> nat list" where
  "opcode_value_links (Op_LoadConst _ v) = [v]"
| "opcode_value_links _ = []"

fun opcode_text_links :: "opcode \<Rightarrow> nat list" where
  "opcode_text_links (Op_MakeDict _ fs) = map fst fs"
| "opcode_text_links (Op_GetField _ _ i) = [i]"
| "opcode_text_links (Op_FieldExists _ _ i) = [i]"
| "opcode_text_links _ = []"

fun opcode_proto_links :: "opcode \<Rightarrow> nat list" where
  "opcode_proto_links (Op_MakeClosure _ p _) = [p]"
| "opcode_proto_links _ = []"

definition wf_opcode :: "nat \<Rightarrow> nat \<Rightarrow> nat \<Rightarrow> nat \<Rightarrow> nat \<Rightarrow> opcode \<Rightarrow> bool" where
  "wf_opcode registers instructions values text prototypes op \<longleftrightarrow>
     (\<forall>r \<in> set (opcode_registers op). r < registers) \<and>
     (\<forall>t \<in> set (opcode_targets op). t \<le> instructions) \<and>
     (\<forall>v \<in> set (opcode_value_links op). v < values) \<and>
     (\<forall>t \<in> set (opcode_text_links op). t < text) \<and>
     (\<forall>p \<in> set (opcode_proto_links op). p < prototypes)"



lemma nth_opt_unlink_fields:
  "unlink_fields links fs = Some gs \<Longrightarrow>
   (\<forall>t \<in> set (map fst fs). t < length (link_text links)) \<and> map snd fs = map snd gs"
proof (induction links fs arbitrary: gs rule: unlink_fields.induct)
  case (2 links index r fs)
  then show ?case by (auto split: option.splits)
qed simp

text \<open>The operands of an instruction are those of the opcode it is linked to.\<close>

definition linked_alone :: "instruction \<Rightarrow> opcode" where
  "linked_alone i = fst (link_instruction i linking_table_default)"

lemma link_fields_snd: "map snd (fst (link_fields fs links)) = map snd fs"
  by (induction fs links rule: link_fields.induct) (auto split: prod.splits simp: Let_def)

lemma link_text_id_split: "link_text_id t links = (fst (link_text_id t links), snd (link_text_id t links))"
  by simp

lemma unlink_linked_alone:
  assumes "unlink_opcode links op = Some i"
  shows "opcode_registers op = opcode_registers (linked_alone i) \<and>
    opcode_value_links op = opcode_value_links (linked_alone i) \<and>
    opcode_targets op = opcode_targets (linked_alone i) \<and>
    (\<forall>t \<in> set (opcode_text_links op). t < length (link_text links)) \<and>
    (\<forall>p \<in> set (opcode_proto_links op). p < length (link_prototypes links))"
  using assms
proof (cases op)
  case (Op_MakeDict dst fs)
  with assms obtain gs where "unlink_fields links fs = Some gs" "i = I_MakeDict dst gs" by auto
  with Op_MakeDict nth_opt_unlink_fields[of links fs gs] show ?thesis
    by (simp add: linked_alone_def split_beta link_fields_snd)
qed (auto simp: linked_alone_def split_beta split: if_splits)

lemma lower_linked_alone:
  assumes "lower_operation asm rc cc labels n operation = Inr (i, n')"
  shows "opcode_registers (linked_alone i) = operation_registers operation \<and>
    opcode_value_links (linked_alone i) = operation_constants operation \<and>
    map Some (opcode_targets (linked_alone i)) = map labels (operation_labels operation)"
  using assms
  by (cases operation)
     (auto simp: linked_alone_def split_beta link_fields_snd result_simps)

lemma lower_operation_in_bounds:
  assumes "lower_operation asm rc cc labels n operation = Inr (i, n')"
  shows "(\<forall>r \<in> set (operation_registers operation). r < rc) \<and>
    (\<forall>c \<in> set (operation_constants operation). c < cc) \<and>
    (\<forall>l \<in> set (operation_labels operation). l \<in> dom labels)"
  using assms
  by (cases operation) (auto simp: result_simps)

lemma lower_operation_constants_bound:
  "lower_operation asm rc cc labels n operation = Inr (i, n') \<Longrightarrow> constants_bound cc i"
  by (cases operation) (auto simp: constants_bound_def result_simps)

section \<open>Nested functions\<close>

fun instruction_functions :: "instruction \<Rightarrow> bytecode_function list" where
  "instruction_functions (I_MakeClosure _ f _) = [f]"
| "instruction_functions _ = []"

lemma link_text_id_prototypes: "link_prototypes (snd (link_text_id t a)) = link_prototypes a"
  by (auto simp: link_text_id_def split: option.splits)

lemma link_fields_prototypes: "link_prototypes (snd (link_fields fs a)) = link_prototypes a"
proof (induction fs a rule: link_fields.induct)
  case (2 field r fs links)
  show ?case
    using "2"(1)[OF prod.collapse refl] by (simp add: split_beta Let_def link_text_id_prototypes)
qed simp

lemma link_instruction_prototypes:
  "link_prototypes (snd (link_instruction i a)) = link_prototypes a @ instruction_functions i"
  by (cases i) (auto simp: split_beta link_text_id_prototypes link_fields_prototypes)

lemma link_instructions_prototypes:
  "link_prototypes (snd (link_instructions is' a)) =
   link_prototypes a @ concat (map instruction_functions is')"
proof (induction is' a rule: link_instructions.induct)
  case (2 i is' links)
  show ?case
    using "2"(1)[OF prod.collapse refl] by (simp add: split_beta Let_def link_instruction_prototypes)
qed simp


lemma collect_state_nth:
  assumes "collect_state f s xs = Inr (ys, s')" and "i < length xs"
  shows "\<exists>t t'. f t (xs ! i) = Inr (ys ! i, t')"
  using assms
proof (induction xs arbitrary: s ys i)
  case (Cons x xs)
  then obtain y t zs where "f s x = Inr (y, t)" "collect_state f t xs = Inr (zs, s')" "ys = y # zs"
    by (auto simp: result_simps)
  with Cons show ?case by (cases i) auto
qed simp

text \<open>What assembling a function has checked and made.\<close>

lemma assemble_parts:
  assumes "assemble n (LirFunction name parameter_count capture_count register_count constants
      items) = Inr (g, n')"
  obtains labels is' where
    "unat parameter_count + unat capture_count \<le> unat register_count"
    "collect_labels items Map.empty 0 = Inr labels"
    "length is' = length (item_operations items)" "is' \<noteq> []"
    "\<And>k. k < length is' \<Longrightarrow> \<exists>m m'. lower_operation assemble (unat register_count)
       (length constants) labels m (fst (item_operations items ! k)) = Inr (is' ! k, m')"
    "g = assembled (n' - 1) name (unat parameter_count) (unat capture_count)
       (unat register_count) constants is'
       (compress_origins (map snd (item_operations items)))"
proof -
  from assms obtain labels is' m where
    fits: "unat parameter_count + unat capture_count \<le> unat register_count" and
    labels: "collect_labels items Map.empty 0 = Inr labels" and
    ops: "lower_operations assemble (unat register_count) (length constants) labels n
       (item_operations items) = Inr (is', m)" and
    rest: "is' \<noteq> []" "g = assembled m name (unat parameter_count) (unat capture_count)
       (unat register_count) constants is' (compress_origins (map snd (item_operations items)))"
      "n' = Suc m"
    by (auto simp: Let_def result_simps split: if_splits)
  note len = lower_operations_length[OF ops]
  have "\<exists>m m'. lower_operation assemble (unat register_count) (length constants) labels m
      (fst (item_operations items ! k)) = Inr (is' ! k, m')" if "k < length is'" for k
    using collect_state_nth[OF ops[unfolded lower_operations_def], of k] that len
    by (auto simp: split_beta)
  with fits labels len rest show ?thesis by (intro that[of labels is']) auto
qed

lemma assembled_fields:
  "code_name (bf_code (assembled a name pc cc rc constants is' origins)) = name"
  "code_parameter_count (bf_code (assembled a name pc cc rc constants is' origins)) = pc"
  "code_capture_count (bf_code (assembled a name pc cc rc constants is' origins)) = cc"
  "code_register_count (bf_code (assembled a name pc cc rc constants is' origins)) = rc"
  "code_debug_origins (bf_code (assembled a name pc cc rc constants is' origins)) = origins"
  "bf_values (assembled a name pc cc rc constants is' origins) = constants"
  "bf_prototypes (assembled a name pc cc rc constants is' origins) =
     concat (map instruction_functions is')"
  "length (code_instructions (bf_code (assembled a name pc cc rc constants is' origins))) =
     length is'"
proof -
  define start where "start = linking_table_default
      \<lparr> link_external_values := replicate (length constants) None, link_values := constants \<rparr>"
  obtain ops links where l: "link_instructions is' start = (ops, links)" by fastforce
  have f: "assembled a name pc cc rc constants is' origins = bytecode_function_of a
      \<lparr> code_name = name, code_parameter_count = pc, code_capture_count = cc,
        code_register_count = rc, code_instructions = ops, code_debug_origins = origins \<rparr> links"
    unfolding assembled_def Let_def start_def[symmetric] l by simp
  have "link_values links = constants"
    using links_extend_values[OF link_instructions_extend[OF l]] by (simp add: start_def)
  moreover have "link_prototypes links = concat (map instruction_functions is')"
    using link_instructions_prototypes[of is' start] l
    by (simp add: start_def linking_table_default_def)
  moreover note link_instructions_length[OF l]
  ultimately show
    "code_name (bf_code (assembled a name pc cc rc constants is' origins)) = name"
    "code_parameter_count (bf_code (assembled a name pc cc rc constants is' origins)) = pc"
    "code_capture_count (bf_code (assembled a name pc cc rc constants is' origins)) = cc"
    "code_register_count (bf_code (assembled a name pc cc rc constants is' origins)) = rc"
    "code_debug_origins (bf_code (assembled a name pc cc rc constants is' origins)) = origins"
    "bf_values (assembled a name pc cc rc constants is' origins) = constants"
    "bf_prototypes (assembled a name pc cc rc constants is' origins) =
      concat (map instruction_functions is')"
    "length (code_instructions (bf_code (assembled a name pc cc rc constants is' origins))) =
      length is'"
    by (simp_all add: f bytecode_function_of_def)
qed


text \<open>Every opcode of an assembled function, with the operation and the instruction it comes from.\<close>

lemma assembled_opcode:
  assumes "\<And>k. k < length is' \<Longrightarrow> \<exists>m m'. lower_operation asm rc (length constants) labels m
       (fst (ops ! k)) = Inr (is' ! k, m')"
    and g: "g = assembled a name pc cc rc constants is' origins" and k: "k < length is'"
  shows "unlink_opcode (bf_links g) (code_instructions (bf_code g) ! k) = Some (is' ! k)"
    and "\<exists>m m'. lower_operation asm rc (length constants) labels m (fst (ops ! k)) =
           Inr (is' ! k, m')"
proof -
  have "constants_bound (length constants) i" if "i \<in> set is'" for i
    using that assms(1) lower_operation_constants_bound by (metis in_set_conv_nth)
  then have "map (unlink_opcode (bf_links g)) (code_instructions (bf_code g)) = map Some is'"
    using assembled_links[OF g] link_instructions_unlink[of is'] by (metis (no_types, lifting)
        linking_table.select_convs(1) linking_table.surjective linking_table.update_convs(1))
  then show "unlink_opcode (bf_links g) (code_instructions (bf_code g) ! k) = Some (is' ! k)"
    using k by (metis length_map nth_map)
  show "\<exists>m m'. lower_operation asm rc (length constants) labels m (fst (ops ! k)) =
      Inr (is' ! k, m')"
    by (rule assms(1)[OF k])
qed

lemma assemble_opcode_operands:
  assumes "assemble n (LirFunction name parameter_count capture_count register_count constants
      items) = Inr (g, n')"
    and "k < length (item_operations items)"
  obtains labels where
    "collect_labels items Map.empty 0 = Inr labels"
    "opcode_registers (code_instructions (bf_code g) ! k) =
       operation_registers (fst (item_operations items ! k))"
    "map Some (opcode_targets (code_instructions (bf_code g) ! k)) =
       map labels (operation_labels (fst (item_operations items ! k)))"
    "wf_opcode (unat register_count) (length (item_operations items)) (length constants)
       (length (bf_text g)) (length (bf_prototypes g)) (code_instructions (bf_code g) ! k)"
proof -
  obtain labels is' where parts:
    "collect_labels items Map.empty 0 = Inr labels" "length is' = length (item_operations items)"
    "\<And>k. k < length is' \<Longrightarrow> \<exists>m m'. lower_operation assemble (unat register_count)
       (length constants) labels m (fst (item_operations items ! k)) = Inr (is' ! k, m')"
    "g = assembled (n' - 1) name (unat parameter_count) (unat capture_count)
       (unat register_count) constants is'
       (compress_origins (map snd (item_operations items)))"
    by (rule assemble_parts[OF assms(1)]) blast
  let ?op = "code_instructions (bf_code g) ! k" and ?operation = "fst (item_operations items ! k)"
  have k: "k < length is'" using assms(2) parts(2) by simp
  note un = unlink_linked_alone[OF assembled_opcode(1)[OF parts(3,4) k]]
  obtain m m' where low: "lower_operation assemble (unat register_count) (length constants)
      labels m ?operation = Inr (is' ! k, m')"
    using parts(3)[OF k] by blast
  note al = lower_linked_alone[OF low] and inb = lower_operation_in_bounds[OF low]
  have targets: "map Some (opcode_targets ?op) = map labels (operation_labels ?operation)"
    using un al by simp
  have "t \<le> length (item_operations items)" if "t \<in> set (opcode_targets ?op)" for t
  proof -
    from that have "Some t \<in> set (map Some (opcode_targets ?op))" by simp
    then obtain l where "labels l = Some t" unfolding targets by auto
    from collect_labels_target[OF parts(1) this] show ?thesis by auto
  qed
  then have "wf_opcode (unat register_count) (length (item_operations items)) (length constants)
      (length (bf_text g)) (length (bf_prototypes g)) ?op"
    using un al inb by (simp add: wf_opcode_def bf_links_def)
  with parts(1) targets un al show ?thesis by (intro that[of labels]) auto
qed


lemma assemble_code_length:
  assumes "assemble n (LirFunction name parameter_count capture_count register_count constants
      items) = Inr (g, n')"
  shows "length (code_instructions (bf_code g)) = length (item_operations items)"
  by (rule assemble_parts[OF assms]) (metis assembled_fields(8))

section \<open>The guarantees\<close>

text \<open>
  C32. The assembler accepts exactly the functions whose parameters and captures fit the
  registers, whose labels are declared once, which contain an operation, and all of whose
  operations, nested functions included, stay within their registers, constants and labels.
\<close>

theorem assemble_accepts: "(\<exists>g n'. assemble n f = Inr (g, n')) \<longleftrightarrow> lir_ok f"
  using assemble_defined[of n f] by simp


text \<open>
  C33. A jump goes to the operation that follows its label: in the code of an assembled function,
  the target of the jump made from an operation naming label \<open>l\<close> is the number of operations
  that stand before the declaration of \<open>l\<close>.
\<close>

theorem assemble_jump_target:
  assumes "assemble n f = Inr (g, n')" and "k < length (item_operations (lir_items f))"
    and "operation_labels (fst (item_operations (lir_items f) ! k)) = [l]"
  shows "\<exists>before after. lir_items f = before @ L_Label l # after \<and>
    opcode_targets (code_instructions (bf_code g) ! k) = [length (item_operations before)]"
proof -
  obtain name pc cc rc constants items where f: "f = LirFunction name pc cc rc constants items"
    by (cases f)
  from assms(2) have k: "k < length (item_operations items)" by (simp add: f)
  obtain labels where labels: "collect_labels items Map.empty 0 = Inr labels"
    and targets: "map Some (opcode_targets (code_instructions (bf_code g) ! k)) =
       map labels (operation_labels (fst (item_operations items ! k)))"
    by (rule assemble_opcode_operands[OF assms(1)[unfolded f] k])
  from targets assms(3) have "map Some (opcode_targets (code_instructions (bf_code g) ! k)) =
      [labels l]" by (simp add: f)
  then obtain t where t: "labels l = Some t"
    "opcode_targets (code_instructions (bf_code g) ! k) = [t]"
    by (cases "opcode_targets (code_instructions (bf_code g) ! k)") auto
  from collect_labels_target[OF labels t(1)] t(2) show ?thesis by (auto simp: f)
qed

text \<open>
  C34. The compressed debug ranges of an assembled function give back the origin of every
  operation at its instruction, and nothing past the end of the code.
\<close>

theorem assemble_origins:
  assumes "assemble n f = Inr (g, n')"
  shows "code_origin_at (bf_code g) k = map_option snd (nth_opt (item_operations (lir_items f)) k)"
proof -
  obtain name pc cc rc constants items where f: "f = LirFunction name pc cc rc constants items"
    by (cases f)
  have "code_debug_origins (bf_code g) = compress_origins (map snd (item_operations items))"
    by (rule assemble_parts[OF assms[unfolded f]]) (metis assembled_fields(5))
  then show ?thesis
    using compress_origins_at[of k "map snd (item_operations items)"]
      compress_origins_past_end[of "map snd (item_operations items)" k]
    by (auto simp: code_origin_at_def f nth_opt_def)
qed

text \<open>A function with a loop, for the instances below.\<close>

definition sample_origin :: origin where
  "sample_origin = Origin_Source (Loc 1 4 9)"

definition sample_lir :: lir_function where
  "sample_lir = LirFunction ''loop'' 0 0 2 [VInt 1]
     [L_Label 7,
      L_Operation (L_LoadConst 0 0) sample_origin,
      L_Operation (L_MakeClosure 1 (LirFunction ''inner'' 1 0 1 []
        [L_Operation (L_Return 0) (Origin_Synthetic None)]) []) sample_origin,
      L_Operation (L_Jump 7) (Origin_Synthetic None)]"

definition sample_function :: bytecode_function where
  "sample_function =
     (case assemble 0 sample_lir of Inr (g, _) \<Rightarrow> g | Inl _ \<Rightarrow> BytecodeFunction 0
        \<lparr> code_name = [], code_parameter_count = 0, code_capture_count = 0,
          code_register_count = 0, code_instructions = [], code_debug_origins = [] \<rparr> [] [] [] [])"

lemma sample_assembles: "assemble 0 sample_lir = Inr (sample_function, 2)"
  unfolding sample_function_def by code_simp


theorem assemble_jump_target_witness:
  "\<exists>before after. lir_items sample_lir = before @ L_Label 7 # after \<and>
    opcode_targets (code_instructions (bf_code sample_function) ! 2) =
      [length (item_operations before)]"
  by (rule assemble_jump_target[OF sample_assembles]) (simp_all add: sample_lir_def)

theorem assemble_origins_witness:
  "code_origin_at (bf_code sample_function) 1 =
   map_option snd (nth_opt (item_operations (lir_items sample_lir)) 1)"
  by (rule assemble_origins[OF sample_assembles])

end
