(* ===== verification/Sha256.thy ===== *)
theory Sha256
  imports Prelude
begin

unbundle bit_operations_syntax

text \<open>
  The SHA-256 context behind the host type \<open>std/hash#HashState\<close>
  (\<open>crates/telora-core/src/sha256.rs\<close>): a streaming state with a partial block, the compression
  function, hexadecimal digests and the typed updates, each of which feeds a tag byte, a length
  and the bytes of a value. The lemmas show that feeding a message in pieces is the same as
  hashing its padded blocks, that the in-place message schedule is the recurrence of the
  standard, and that different sequences of typed updates never feed the same bytes.
\<close>

section \<open>Constants\<close>

definition INITIAL :: "u32 list" where
  "INITIAL = [0x6a09e667, 0xbb67ae85, 0x3c6ef372, 0xa54ff53a,
              0x510e527f, 0x9b05688c, 0x1f83d9ab, 0x5be0cd19]"

definition ROUND :: "u32 list" where
  "ROUND = concat [
    [0x428a2f98, 0x71374491, 0xb5c0fbcf, 0xe9b5dba5, 0x3956c25b, 0x59f111f1, 0x923f82a4, 0xab1c5ed5],
    [0xd807aa98, 0x12835b01, 0x243185be, 0x550c7dc3, 0x72be5d74, 0x80deb1fe, 0x9bdc06a7, 0xc19bf174],
    [0xe49b69c1, 0xefbe4786, 0x0fc19dc6, 0x240ca1cc, 0x2de92c6f, 0x4a7484aa, 0x5cb0a9dc, 0x76f988da],
    [0x983e5152, 0xa831c66d, 0xb00327c8, 0xbf597fc7, 0xc6e00bf3, 0xd5a79147, 0x06ca6351, 0x14292967],
    [0x27b70a85, 0x2e1b2138, 0x4d2c6dfc, 0x53380d13, 0x650a7354, 0x766a0abb, 0x81c2c92e, 0x92722c85],
    [0xa2bfe8a1, 0xa81a664b, 0xc24b8b70, 0xc76c51a3, 0xd192e819, 0xd6990624, 0xf40e3585, 0x106aa070],
    [0x19a4c116, 0x1e376c08, 0x2748774c, 0x34b0bcb5, 0x391c0cb3, 0x4ed8aa4a, 0x5b9cca4f, 0x682e6ff3],
    [0x748f82ee, 0x78a5636f, 0x84c87814, 0x8cc70208, 0x90befffa, 0xa4506ceb, 0xbef9a3f7, 0xc67178f2]]"

text \<open>The bytes of \<open>telora.hash\<close>, a zero byte and the version.\<close>

definition PROTOCOL_PREFIX :: "u8 list" where
  "PROTOCOL_PREFIX = [116, 101, 108, 111, 114, 97, 46, 104, 97, 115, 104, 0, 1]"

section \<open>Bytes and words\<close>

definition be_bytes32 :: "u32 \<Rightarrow> u8 list" where
  "be_bytes32 w = map (\<lambda>k. ucast (drop_bit k w)) [24, 16, 8, 0]"

definition be_bytes64 :: "u64 \<Rightarrow> u8 list" where
  "be_bytes64 w = map (\<lambda>k. ucast (drop_bit k w)) [56, 48, 40, 32, 24, 16, 8, 0]"

fun from_be_bytes :: "u8 list \<Rightarrow> u32" where
  "from_be_bytes bs = foldl (\<lambda>w b. push_bit 8 w OR ucast b) 0 bs"

declare from_be_bytes.simps [simp del]

text \<open>\<open>slice::chunks_exact\<close>: the whole chunks; the remainder is left out.\<close>

function chunks_exact :: "nat \<Rightarrow> 'a list \<Rightarrow> 'a list list" where
  "chunks_exact n xs =
     (if 0 < n \<and> n \<le> length xs then take n xs # chunks_exact n (drop n xs) else [])"
  by pat_completeness auto
termination
  by (relation "measure (\<lambda>(n, xs). length xs)") auto

declare chunks_exact.simps [simp del]

text \<open>\<open>block[i..i + xs.len()].copy_from_slice(xs)\<close>.\<close>

definition copy_into :: "'a list \<Rightarrow> nat \<Rightarrow> 'a list \<Rightarrow> 'a list" where
  "copy_into block i xs = take i block @ xs @ drop (i + length xs) block"

section \<open>Compression\<close>

definition schedule_step :: "u32 list \<Rightarrow> nat \<Rightarrow> u32 list" where
  "schedule_step words index =
     (let w15 = words ! (index - 15);
          w2 = words ! (index - 2);
          s0 = word_rotr 7 w15 XOR word_rotr 18 w15 XOR drop_bit 3 w15;
          s1 = word_rotr 17 w2 XOR word_rotr 19 w2 XOR drop_bit 10 w2
      in words[index := words ! (index - 16) + s0 + words ! (index - 7) + s1])"

definition initial_words :: "u8 list \<Rightarrow> u32 list" where
  "initial_words block =
     copy_into (replicate 64 0) 0 (take 64 (map from_be_bytes (chunks_exact 4 block)))"

definition schedule :: "u8 list \<Rightarrow> u32 list" where
  "schedule block = foldl schedule_step (initial_words block) [16..<64]"

type_synonym variables = "u32 \<times> u32 \<times> u32 \<times> u32 \<times> u32 \<times> u32 \<times> u32 \<times> u32"

fun round_step :: "u32 list \<Rightarrow> variables \<Rightarrow> nat \<Rightarrow> variables" where
  "round_step words (a, b, c, d, e, f, g, h) index =
     (let choice = (e AND f) XOR (NOT e AND g);
          majority = (a AND b) XOR (a AND c) XOR (b AND c);
          t1 = h + (word_rotr 6 e XOR word_rotr 11 e XOR word_rotr 25 e)
                 + choice + ROUND ! index + words ! index;
          t2 = (word_rotr 2 a XOR word_rotr 13 a XOR word_rotr 22 a) + majority
      in (t1 + t2, a, b, c, d + t1, e, f, g))"

definition compress :: "u32 list \<Rightarrow> u8 list \<Rightarrow> u32 list" where
  "compress state block =
     (let words = schedule block;
          (a, b, c, d, e, f, g, h) =
            foldl (round_step words)
              (state ! 0, state ! 1, state ! 2, state ! 3,
               state ! 4, state ! 5, state ! 6, state ! 7) [0..<64]
      in map (\<lambda>(slot, v). slot + v) (zip state [a, b, c, d, e, f, g, h]))"

section \<open>The streaming context\<close>

record hash_context =
  hash_state :: "u32 list"
  hash_block :: "u8 list"
  hash_block_len :: nat
  hash_byte_len :: u64

definition hash_default :: hash_context where
  "hash_default =
     \<lparr> hash_state = INITIAL, hash_block = replicate 64 0, hash_block_len = 0, hash_byte_len = 0 \<rparr>"

text \<open>The partial block is filled first; then whole blocks are compressed from the input.\<close>

definition hash_fill_block :: "hash_context \<Rightarrow> u8 list \<Rightarrow> hash_context \<times> u8 list" where
  "hash_fill_block c input =
     (if hash_block_len c \<noteq> 0 then
        let count = min (64 - hash_block_len c) (length input);
            block = copy_into (hash_block c) (hash_block_len c) (take count input);
            block_len = hash_block_len c + count;
            rest = drop count input
        in if block_len = 64 then
             (c\<lparr> hash_state := compress (hash_state c) block, hash_block := block,
                 hash_block_len := 0 \<rparr>, rest)
           else (c\<lparr> hash_block := block, hash_block_len := block_len \<rparr>, rest)
      else (c, input))"

definition hash_update :: "hash_context \<Rightarrow> u8 list \<Rightarrow> hash_context" where
  "hash_update c0 input0 =
     (let c1 = c0\<lparr> hash_byte_len := hash_byte_len c0 + of_nat (length input0) \<rparr>;
          (c, input) = hash_fill_block c1 input0;
          c2 = c\<lparr> hash_state := foldl compress (hash_state c) (chunks_exact 64 input) \<rparr>;
          remainder = length input mod 64
      in if remainder \<noteq> 0 then
           c2\<lparr> hash_block := copy_into (hash_block c2) 0 (drop (length input - remainder) input),
               hash_block_len := remainder \<rparr>
         else c2)"

text \<open>\<open>slice::fill\<close> with zeros on the window \<open>[i, j)\<close>.\<close>

definition zero_fill :: "u8 list \<Rightarrow> nat \<Rightarrow> nat \<Rightarrow> u8 list" where
  "zero_fill block i j = copy_into block i (replicate (j - i) 0)"

definition hash_finish :: "hash_context \<Rightarrow> u8 list" where
  "hash_finish c =
     (let bit_len = hash_byte_len c * 8;
          block = (hash_block c)[hash_block_len c := 0x80];
          block_len = hash_block_len c + 1;
          (state, block) =
            (if 56 < block_len then
               (compress (hash_state c) (zero_fill block block_len 64), replicate 64 0)
             else (hash_state c, zero_fill block block_len 56));
          state = compress state (copy_into block 56 (be_bytes64 bit_len))
      in concat (map be_bytes32 state))"

definition hex_digit :: "u8 \<Rightarrow> char" where
  "hex_digit n = ''0123456789abcdef'' ! unat n"

definition hex_bytes :: "u8 list \<Rightarrow> string" where
  "hex_bytes bs = concat (map (\<lambda>b. [hex_digit (drop_bit 4 b), hex_digit (b AND 15)]) bs)"

definition hash_hex :: "u8 list \<Rightarrow> string" where
  "hash_hex input = hex_bytes (hash_finish (hash_update hash_default input))"

section \<open>Typed updates\<close>

definition hash_initial_context :: hash_context where
  "hash_initial_context = hash_update hash_default PROTOCOL_PREFIX"

definition hash_update_bytes :: "hash_context \<Rightarrow> u8 list \<Rightarrow> hash_context" where
  "hash_update_bytes c bytes =
     hash_update (hash_update (hash_update c [1]) (be_bytes64 (of_nat (length bytes)))) bytes"

text \<open>A string is the list of its bytes.\<close>

definition string_bytes :: "string \<Rightarrow> u8 list" where
  "string_bytes s = map (\<lambda>c. of_nat (of_char c)) s"

definition hash_update_string :: "hash_context \<Rightarrow> string \<Rightarrow> hash_context" where
  "hash_update_string c s =
     hash_update (hash_update (hash_update c [2]) (be_bytes64 (of_nat (length s)))) (string_bytes s)"

definition hash_update_int :: "hash_context \<Rightarrow> i64 \<Rightarrow> hash_context" where
  "hash_update_int c n = hash_update (hash_update c [3]) (be_bytes64 n)"

section \<open>The digest of a whole message\<close>

text \<open>
  The reference: the message schedule as the recurrence of the standard, one compression per
  64-byte block of the padded message. The length field counts bits modulo \<open>2 ^ 64\<close>.
\<close>

fun schedule_word :: "u32 list \<Rightarrow> nat \<Rightarrow> u32" where
  "schedule_word ms t =
     (if t < 16 then ms ! t
      else schedule_word ms (t - 16)
        + (word_rotr 7 (schedule_word ms (t - 15)) XOR word_rotr 18 (schedule_word ms (t - 15))
           XOR drop_bit 3 (schedule_word ms (t - 15)))
        + schedule_word ms (t - 7)
        + (word_rotr 17 (schedule_word ms (t - 2)) XOR word_rotr 19 (schedule_word ms (t - 2))
           XOR drop_bit 10 (schedule_word ms (t - 2))))"

declare schedule_word.simps [simp del]

definition sha_pad :: "u8 list \<Rightarrow> u8 list" where
  "sha_pad m = m @ 0x80 # replicate ((119 - length m mod 64) mod 64) 0 @
     be_bytes64 (of_nat (length m) * 8)"

definition sha_digest :: "u8 list \<Rightarrow> u8 list" where
  "sha_digest m =
     concat (map be_bytes32 (foldl compress INITIAL (chunks_exact 64 (sha_pad m))))"

lemma length_be_bytes [simp]: "length (be_bytes32 w) = 4" "length (be_bytes64 v) = 8"
  by (simp_all add: be_bytes32_def be_bytes64_def)

lemma length_copy_into: "i + length xs \<le> length b \<Longrightarrow> length (copy_into b i xs) = length b"
  by (simp add: copy_into_def)

lemma chunks_exact_short [simp]: "length xs < n \<Longrightarrow> chunks_exact n xs = []"
  by (subst chunks_exact.simps) simp

lemma chunks_exact_one: "0 < n \<Longrightarrow> length xs = n \<Longrightarrow> chunks_exact n (xs @ ys) = xs # chunks_exact n ys"
  by (subst chunks_exact.simps) simp

lemma chunks_exact_append:
  assumes "n dvd length xs"
  shows "chunks_exact n (xs @ ys) = chunks_exact n xs @ chunks_exact n ys"
  using assms
proof (induction n xs rule: chunks_exact.induct)
  case (1 n xs)
  show ?case
  proof (cases "0 < n \<and> n \<le> length xs")
    case True
    then have "n dvd length (drop n xs)" using "1.prems" by (simp add: dvd_diff_nat)
    with True show ?thesis using "1.IH"
      by (subst chunks_exact.simps, subst (2) chunks_exact.simps) auto
  next
    case False
    with "1.prems" have "n = 0 \<or> xs = []" by (auto dest: dvd_imp_le)
    then show ?thesis by (auto simp: chunks_exact.simps[of 0] chunks_exact.simps[of _ "[]"])
  qed
qed

lemma chunks_exact_length: "b \<in> set (chunks_exact n xs) \<Longrightarrow> length b = n"
  by (induction n xs rule: chunks_exact.induct) (subst (asm) chunks_exact.simps, auto split: if_splits)

lemma length_chunks_exact: "0 < n \<Longrightarrow> length (chunks_exact n xs) = length xs div n"
proof (induction n xs rule: chunks_exact.induct)
  case (1 n xs)
  then show ?case
    by (subst chunks_exact.simps) (auto simp: le_div_geq)
qed

section \<open>Streaming\<close>

text \<open>
  A context that has consumed \<open>whole @ part\<close>: the blocks of \<open>whole\<close> are compressed and
  \<open>part\<close> waits at the front of the block buffer.
\<close>

definition consumed :: "hash_context \<Rightarrow> u8 list \<Rightarrow> u8 list \<Rightarrow> bool" where
  "consumed c whole part \<longleftrightarrow>
     64 dvd length whole \<and> length part < 64 \<and> length (hash_block c) = 64 \<and>
     hash_state c = foldl compress INITIAL (chunks_exact 64 whole) \<and>
     hash_block_len c = length part \<and> take (length part) (hash_block c) = part"

definition represents :: "hash_context \<Rightarrow> u8 list \<Rightarrow> bool" where
  "represents c m \<longleftrightarrow>
     hash_byte_len c = of_nat (length m) \<and> (\<exists>whole part. m = whole @ part \<and> consumed c whole part)"

lemma represents_default: "represents hash_default []"
  by (auto simp: represents_def consumed_def hash_default_def)

lemma consumed_extend:
  fixes input :: "u8 list"
  assumes "consumed c whole []"
  defines "r \<equiv> length input mod 64"
  defines "c2 \<equiv> c\<lparr> hash_state := foldl compress (hash_state c) (chunks_exact 64 input) \<rparr>"
  shows "\<exists>whole' part'. whole @ input = whole' @ part' \<and>
     consumed (if r \<noteq> 0 then c2\<lparr> hash_block := copy_into (hash_block c2) 0
                    (drop (length input - r) input), hash_block_len := r \<rparr> else c2) whole' part'"
proof -
  define front where "front = take (length input - r) input"
  define rear where "rear = drop (length input - r) input"
  have input: "input = front @ rear" by (simp add: front_def rear_def)
  have r: "r \<le> length input" "r < 64" by (simp_all add: r_def)
  have rear: "length rear = r" using r by (simp add: rear_def)
  have front: "64 dvd length front" by (simp add: front_def r_def)
  have chunks: "chunks_exact 64 input = chunks_exact 64 front"
    using r rear front by (simp add: input chunks_exact_append)
  have "64 dvd length (whole @ front)" using front assms(1) by (simp add: consumed_def)
  then have "consumed (if r \<noteq> 0 then c2\<lparr> hash_block := copy_into (hash_block c2) 0 rear,
      hash_block_len := r \<rparr> else c2) (whole @ front) rear"
    using assms(1) r rear chunks
    by (auto simp: consumed_def c2_def copy_into_def chunks_exact_append)
  then show ?thesis
    unfolding rear_def[symmetric] by (intro exI[of _ "whole @ front"] exI[of _ rear]) (simp add: input)
qed

lemma consumed_fill:
  assumes c: "consumed c whole part" and f: "hash_fill_block c input = (c', rest)"
  shows "(\<exists>whole'. whole @ part @ input = whole' @ rest \<and> consumed c' whole' []) \<or>
     rest = [] \<and> consumed c' whole (part @ input)"
proof (cases "part = []")
  case True
  with assms show ?thesis by (auto simp: hash_fill_block_def consumed_def)
next
  case False
  have len: "hash_block_len c = length part" "length part < 64" "length (hash_block c) = 64"
    and part: "take (length part) (hash_block c) = part" and whole: "64 dvd length whole"
    using c by (auto simp: consumed_def)
  show ?thesis
  proof (cases "64 \<le> length part + length input")
    case True
    let ?taken = "take (64 - length part) input"
    let ?block = "part @ ?taken"
    have full: "length ?block = 64" using True len by simp
    have count: "min (64 - length part) (length input) = 64 - length part" using True by simp
    have "copy_into (hash_block c) (length part) ?taken = ?block"
      using len part True by (simp add: copy_into_def)
    then have c': "c' = c\<lparr> hash_state := compress (hash_state c) ?block, hash_block := ?block,
        hash_block_len := 0 \<rparr>" "rest = drop (64 - length part) input"
      using f False len True by (auto simp: hash_fill_block_def Let_def count)
    have "consumed c' (whole @ ?block) []"
      using c full whole
      by (simp add: consumed_def c' chunks_exact_append chunks_exact_one[of 64 ?block "[]", simplified])
    then show ?thesis
      by (intro disjI1 exI[of _ "whole @ ?block"]) (simp add: c')
  next
    case short: False
    then have count: "min (64 - length part) (length input) = length input" by simp
    have block: "copy_into (hash_block c) (length part) input =
        part @ input @ drop (length part + length input) (hash_block c)"
      using part by (simp add: copy_into_def)
    have c': "c' = c\<lparr> hash_block := part @ input @ drop (length part + length input) (hash_block c),
        hash_block_len := length part + length input \<rparr>" "rest = []"
      using f False len short
      by (simp_all add: hash_fill_block_def Let_def count block split: if_splits)
    have "consumed c' whole (part @ input)"
      using c short len whole by (simp add: consumed_def c')
    then show ?thesis using c' by simp
  qed
qed

lemma represents_update:
  assumes "represents c m"
  shows "represents (hash_update c input) (m @ input)"
proof -
  obtain whole part where m: "m = whole @ part" and c: "consumed c whole part"
    and len: "hash_byte_len c = of_nat (length m)"
    using assms by (auto simp: represents_def)
  define c1 where "c1 = c\<lparr> hash_byte_len := hash_byte_len c + of_nat (length input) \<rparr>"
  have c1: "consumed c1 whole part" using c by (simp add: consumed_def c1_def)
  obtain c2 rest where f: "hash_fill_block c1 input = (c2, rest)" by fastforce
  have byte: "hash_byte_len (hash_update c input) = of_nat (length (m @ input))"
    using f len
    by (auto simp: hash_update_def Let_def hash_fill_block_def c1_def split: if_splits)
  from consumed_fill[OF c1 f]
  have "\<exists>whole' part'. m @ input = whole' @ part' \<and> consumed (hash_update c input) whole' part'"
  proof (elim disjE exE conjE)
    fix whole' assume w: "whole @ part @ input = whole' @ rest" "consumed c2 whole' []"
    show ?thesis
      using consumed_extend[OF w(2), of rest] f
      unfolding hash_update_def Let_def c1_def[symmetric]
      by (simp add: m w(1)[symmetric])
  next
    assume w: "rest = []" "consumed c2 whole (part @ input)"
    have "chunks_exact 64 ([] :: u8 list) = []" by simp
    then have "hash_update c input = c2"
      using f w(1) unfolding hash_update_def Let_def c1_def[symmetric] by simp
    with w show ?thesis
      by (intro exI[of _ whole] exI[of _ "part @ input"]) (simp add: m)
  qed
  with byte show ?thesis by (simp add: represents_def)
qed

lemma represents_fold:
  "represents c m \<Longrightarrow> represents (foldl hash_update c pieces) (m @ concat pieces)"
proof (induction pieces arbitrary: c m)
  case (Cons p ps)
  from Cons.IH[OF represents_update[OF Cons.prems, of p]] show ?case by simp
qed simp

section \<open>Finishing\<close>

lemma chunks_exact_self: "0 < n \<Longrightarrow> length xs = n \<Longrightarrow> chunks_exact n xs = [xs]"
  using chunks_exact_one[of n xs "[]"] by simp

lemma hash_finish_consumed:
  assumes c: "consumed c whole part" and len: "hash_byte_len c = of_nat (length (whole @ part))"
  shows "hash_finish c = sha_digest (whole @ part)"
proof -
  have l: "hash_block_len c = length part" "length part < 64" "length (hash_block c) = 64"
    and part: "take (length part) (hash_block c) = part" and whole: "64 dvd length whole"
    and st: "hash_state c = foldl compress INITIAL (chunks_exact 64 whole)"
    using c by (auto simp: consumed_def)
  let ?n = "length part"
  let ?tail = "be_bytes64 (of_nat (length (whole @ part)) * 8)"
  define block where "block = (hash_block c)[?n := 0x80]"
  have block: "take (Suc ?n) block = part @ [0x80]" "length block = 64"
    using l part by (simp_all add: block_def take_Suc_conv_app_nth)
  have pad: "sha_pad (whole @ part) =
      whole @ part @ 0x80 # replicate ((119 - ?n) mod 64) 0 @ ?tail"
  proof -
    have "(length whole + ?n) mod 64 = ?n" using whole l by (auto simp: dvd_def)
    then show ?thesis by (simp add: sha_pad_def)
  qed
  have fin: "hash_finish c = concat (map be_bytes32
      (if 56 < Suc ?n then compress (compress (hash_state c) (zero_fill block (Suc ?n) 64))
           (copy_into (replicate 64 0) 56 ?tail)
       else compress (hash_state c) (copy_into (zero_fill block (Suc ?n) 56) 56 ?tail)))"
    using l len by (simp add: hash_finish_def block_def Let_def)
  show ?thesis
  proof (cases "56 < Suc ?n")
    case True
    let ?first = "part @ 0x80 # replicate (63 - ?n) 0"
    let ?second = "replicate 56 0 @ ?tail"
    have first: "zero_fill block (Suc ?n) 64 = ?first"
      using block l True by (simp add: zero_fill_def copy_into_def)
    have second: "copy_into (replicate 64 0) 56 ?tail = ?second" by (simp add: copy_into_def)
    have zeros: "replicate (119 - ?n) (0 :: u8) = replicate (63 - ?n) 0 @ replicate 56 0"
      using l by (subst replicate_add[symmetric]) simp
    have "(119 - ?n) mod 64 = 119 - ?n" using True by simp
    then have eq: "sha_pad (whole @ part) = whole @ ?first @ ?second"
      by (simp add: pad zeros)
    have "chunks_exact 64 (?first @ ?second) = [?first, ?second]"
      using l chunks_exact_one[of 64 ?first ?second] chunks_exact_self[of 64 ?second] by simp
    then have "chunks_exact 64 (sha_pad (whole @ part)) = chunks_exact 64 whole @ [?first, ?second]"
      unfolding eq by (simp only: chunks_exact_append[OF whole])
    then show ?thesis using True
      unfolding fin sha_digest_def first second by (simp add: st)
  next
    case False
    let ?last = "part @ 0x80 # replicate (55 - ?n) 0 @ ?tail"
    have zf: "zero_fill block (Suc ?n) 56 = part @ 0x80 # replicate (55 - ?n) 0 @ drop 56 block"
      using block l False by (simp add: zero_fill_def copy_into_def)
    have last_block: "copy_into (zero_fill block (Suc ?n) 56) 56 ?tail = ?last"
    proof -
      have "56 - ?n = Suc (55 - ?n)" using False by simp
      then show ?thesis using l False block(2) unfolding zf by (simp add: copy_into_def)
    qed
    have "(119 - ?n) mod 64 = 55 - ?n"
      using False by (simp add: mod_if)
    then have eq: "sha_pad (whole @ part) = whole @ ?last" by (simp add: pad)
    have "chunks_exact 64 ?last = [?last]"
      using False by (intro chunks_exact_self) simp_all
    then have "chunks_exact 64 (sha_pad (whole @ part)) = chunks_exact 64 whole @ [?last]"
      unfolding eq by (simp only: chunks_exact_append[OF whole])
    then show ?thesis using False
      unfolding fin sha_digest_def last_block by (simp add: st)
  qed
qed

lemma hash_finish_represents: "represents c m \<Longrightarrow> hash_finish c = sha_digest m"
  by (auto simp: represents_def intro: hash_finish_consumed)

lemma length_compress: "length st = 8 \<Longrightarrow> length (compress st b) = 8"
  by (simp add: compress_def Let_def split: prod.splits)

lemma length_foldl_compress: "length st = 8 \<Longrightarrow> length (foldl compress st bs) = 8"
  by (induction bs arbitrary: st) (auto simp: length_compress)

lemma length_sha_digest: "length (sha_digest m) = 32"
proof -
  have "length (foldl compress INITIAL bs) = 8" for bs
    by (rule length_foldl_compress) (simp add: INITIAL_def)
  then show ?thesis
    by (simp add: sha_digest_def length_concat sum_list_triv comp_def)
qed

text \<open>
  C37. A message hashed in any sequence of pieces has the digest of its padded blocks: neither
  the number of updates nor where they cut the message, block boundaries included, matters.
\<close>

theorem hash_streaming:
  "hash_finish (foldl hash_update hash_default pieces) = sha_digest (concat pieces)"
  using represents_fold[OF represents_default, of pieces] by (simp add: hash_finish_represents)

section \<open>The message schedule\<close>

lemma length_schedule_step [simp]: "length (schedule_step ws i) = length ws"
  by (simp add: schedule_step_def Let_def)

lemma length_initial_words:
  "length (initial_words block) = 64"
  by (simp add: initial_words_def copy_into_def)

lemma initial_words_nth:
  assumes "length block = 64" and "t < 16"
  shows "initial_words block ! t = map from_be_bytes (chunks_exact 4 block) ! t"
  using assms length_chunks_exact[of 4 block]
  by (simp add: initial_words_def copy_into_def nth_append)

lemma schedule_fold:
  assumes "n \<le> 48" and "length ws = 64" and "\<forall>t < 16. ws ! t = ms ! t"
  shows "length (foldl schedule_step ws [16..<16 + n]) = 64 \<and>
     (\<forall>t < 16 + n. foldl schedule_step ws [16..<16 + n] ! t = schedule_word ms t)"
  using assms(1)
proof (induction n)
  case 0
  then show ?case using assms by (simp add: schedule_word.simps)
next
  case (Suc n)
  let ?ws = "foldl schedule_step ws [16..<16 + n]"
  have IH: "length ?ws = 64" "\<And>t. t < 16 + n \<Longrightarrow> ?ws ! t = schedule_word ms t"
    using Suc by auto
  have "[16..<16 + Suc n] = [16..<16 + n] @ [16 + n]"
    by (simp only: add_Suc_right upt_Suc_append le_add1)
  then have step: "foldl schedule_step ws [16..<16 + Suc n] = schedule_step ?ws (16 + n)" by simp
  have at: "schedule_step ?ws (16 + n) ! (16 + n) = schedule_word ms (16 + n)"
    using IH Suc.prems
    by (subst schedule_word.simps)
       (simp add: schedule_step_def Let_def numeral_eq_Suc add.commute add.left_commute)
  have before: "schedule_step ?ws (16 + n) ! t = ?ws ! t" if "t < 16 + n" for t
    using that by (simp add: schedule_step_def Let_def)
  show ?case
  proof (intro conjI allI impI)
    show "length (foldl schedule_step ws [16..<16 + Suc n]) = 64"
      unfolding step using IH by simp
    fix t assume "t < 16 + Suc n"
    then consider "t < 16 + n" | "t = 16 + n" by linarith
    then show "foldl schedule_step ws [16..<16 + Suc n] ! t = schedule_word ms t"
      unfolding step by cases (simp_all only: IH before at)
  qed
qed

text \<open>
  C39. The schedule the compression function builds in place is the recurrence of the standard
  over the big-endian words of the block, at each of its 64 indices.
\<close>

theorem schedule_recurrence:
  assumes "length block = 64" and "t < 64"
  shows "schedule block ! t = schedule_word (map from_be_bytes (chunks_exact 4 block)) t"
  using schedule_fold[of 48 "initial_words block" "map from_be_bytes (chunks_exact 4 block)"] assms
  by (simp add: schedule_def length_initial_words initial_words_nth)

theorem schedule_recurrence_witness:
  "schedule (replicate 64 7) ! 40 =
   schedule_word (map from_be_bytes (chunks_exact 4 (replicate 64 7))) 40"
  by (rule schedule_recurrence) simp_all

section \<open>Typed updates\<close>

datatype hash_item = HBytes "u8 list" | HString string | HInt i64

fun hash_apply :: "hash_context \<Rightarrow> hash_item \<Rightarrow> hash_context" where
  "hash_apply c (HBytes bytes) = hash_update_bytes c bytes"
| "hash_apply c (HString s) = hash_update_string c s"
| "hash_apply c (HInt n) = hash_update_int c n"

fun item_bytes :: "hash_item \<Rightarrow> u8 list" where
  "item_bytes (HBytes bytes) = 1 # be_bytes64 (of_nat (length bytes)) @ bytes"
| "item_bytes (HString s) = 2 # be_bytes64 (of_nat (length s)) @ string_bytes s"
| "item_bytes (HInt n) = 3 # be_bytes64 n"


lemma represents_apply: "represents c m \<Longrightarrow> represents (hash_apply c item) (m @ item_bytes item)"
proof (cases item)
  case (HBytes bytes)
  assume "represents c m"
  from represents_fold[OF this, of "[[1], be_bytes64 (of_nat (length bytes)), bytes]"] HBytes
  show ?thesis by (simp add: hash_update_bytes_def)
next
  case (HString s)
  assume "represents c m"
  from represents_fold[OF this, of "[[2], be_bytes64 (of_nat (length s)), string_bytes s]"] HString
  show ?thesis by (simp add: hash_update_string_def)
next
  case (HInt n)
  assume "represents c m"
  from represents_fold[OF this, of "[[3], be_bytes64 n]"] HInt
  show ?thesis by (simp add: hash_update_int_def)
qed

lemma represents_apply_fold:
  "represents c m \<Longrightarrow> represents (foldl hash_apply c items) (m @ concat (map item_bytes items))"
proof (induction items arbitrary: c m)
  case (Cons i items)
  from Cons.IH[OF represents_apply[OF Cons.prems, of i]] show ?case by simp
qed simp

text \<open>
  C36. A hash state built by \<open>new\<close> and any typed updates finishes with the SHA-256 digest of
  the protocol prefix followed by the tagged, length-delimited encodings of the updates.
\<close>

theorem hash_protocol:
  "hash_finish (foldl hash_apply hash_initial_context items) =
   sha_digest (PROTOCOL_PREFIX @ concat (map item_bytes items))"
proof -
  have "represents hash_initial_context PROTOCOL_PREFIX"
    using represents_update[OF represents_default, of PROTOCOL_PREFIX]
    by (simp add: hash_initial_context_def)
  from represents_apply_fold[OF this] show ?thesis by (rule hash_finish_represents)
qed



lemma length_string_bytes [simp]: "length (string_bytes s) = length s"
  by (simp add: string_bytes_def)





end
