(* ===== verification/Heap.thy ===== *)
theory Heap
  imports Value
begin

text \<open>
  The object heaps (\<open>crates/telora-core/src/heap.rs\<close>). A heap is a Work heap, private to one
  execution, or a Main heap, shared and read-only while code runs. It holds objects that are
  named by handles, an interning table of texts and one of dictionary shapes. This theory has
  the data, the allocation and interning operations and the import of values and of linked
  bytecode; reading heaps through a view and publication to the Main heap are the theories
  \<open>Heap_View\<close> and \<open>Publish\<close>.

  A slot is an index cast to \<open>u32\<close>. The cache of exported shapes only shares allocations and
  is not part of the state.
\<close>

section \<open>Handles and runtime values\<close>

datatype storage = Work | Main

datatype handle = Handle (hd_storage: storage) (hd_slot: nat)

datatype intern_id = InternId (iid_storage: storage) (iid_slot: nat)

datatype shape_id = ShapeId (sid_storage: storage) (sid_slot: nat)

datatype (plugins only: code size) runtime_value =
    RInt i64
  | RFloat f64
  | RBuiltinAtom builtin_atom
  | RAtom intern_id
  | RShortString intern_id
  | RString handle
  | RBytes handle
  | RNativeType handle
  | ROpaque handle
  | RArray handle
  | RTuple handle
  | RTagged handle
  | RDict handle
  | RFunc handle
  | RDyn handle
  | RUpLink handle

datatype provenance = Prov_Unknown | Prov_Original loc | Prov_Generated loc

datatype rich_value = RichValue (rv_value: runtime_value) (rv_provenance: provenance)

definition rich_new :: "runtime_value \<Rightarrow> loc option \<Rightarrow> rich_value" where
  "rich_new v l =
     RichValue v (case l of Some l \<Rightarrow> Prov_Generated l | None \<Rightarrow> Prov_Unknown)"

definition rich_original :: "runtime_value \<Rightarrow> loc option \<Rightarrow> rich_value" where
  "rich_original v l =
     RichValue v (case l of Some l \<Rightarrow> Prov_Original l | None \<Rightarrow> Prov_Unknown)"

definition rich_unknown :: "runtime_value \<Rightarrow> rich_value" where
  "rich_unknown v = rich_new v None"

definition rich_loc :: "rich_value \<Rightarrow> loc option" where
  "rich_loc v = (case rv_provenance v of
     Prov_Unknown \<Rightarrow> None | Prov_Original l \<Rightarrow> Some l | Prov_Generated l \<Rightarrow> Some l)"

definition rich_with_loc :: "rich_value \<Rightarrow> loc option \<Rightarrow> rich_value" where
  "rich_with_loc v l = (if rich_loc v = l then v else rich_new (rv_value v) l)"

definition rich_rebase_generated :: "rich_value \<Rightarrow> loc option \<Rightarrow> rich_value" where
  "rich_rebase_generated v call_site = (case rv_provenance v of
     Prov_Original _ \<Rightarrow> v
   | _ \<Rightarrow> rich_new (rv_value v) call_site)"

definition rich_with_value :: "rich_value \<Rightarrow> runtime_value \<Rightarrow> rich_value" where
  "rich_with_value v w = RichValue w (rv_provenance v)"

lemma rv_value_simps [simp]:
  "rv_value (rich_new v l) = v" "rv_value (rich_original v l) = v"
  "rv_value (rich_unknown v) = v" "rv_value (rich_with_loc r l) = rv_value r"
  "rv_value (rich_rebase_generated r l) = rv_value r" "rv_value (rich_with_value r v) = v"
  by (simp_all add: rich_new_def rich_original_def rich_unknown_def rich_with_loc_def
      rich_rebase_generated_def rich_with_value_def split: provenance.splits)

section \<open>Objects and heaps\<close>

datatype (plugins only: code size) runtime_prototype =
    RP_Bytecode handle
  | RP_Native native_function

datatype (plugins only: code size) object =
    OReserved
  | OString string
  | OBytes "u8 list"
  | ONativeType native_type
  | OOpaque opaque_value
  | OArray "rich_value list"
  | OTuple "rich_value list"
  | OTagged rich_value rich_value
  | ODict shape_id "rich_value list"
  | OClosure identity runtime_prototype "rich_value list"
  | ODyn identity rich_value rich_value "type_scheme option" "string option"
  | OUpLink "rich_value option"
  | OByteCodeProto func_byte_code "rich_value list" "intern_id list" "runtime_prototype list"

datatype heap_error = HeapError string

record text_table =
  tt_values :: "string list"
  tt_slots :: "string \<rightharpoonup> nat"

definition text_table_default :: text_table where
  "text_table_default = \<lparr> tt_values = [], tt_slots = Map.empty \<rparr>"

definition text_find :: "text_table \<Rightarrow> string \<Rightarrow> nat option" where
  "text_find t s = tt_slots t s"

definition text_resolve :: "text_table \<Rightarrow> nat \<Rightarrow> string option" where
  "text_resolve t slot = nth_opt (tt_values t) slot"

definition text_insert :: "string \<Rightarrow> text_table \<Rightarrow> nat \<times> text_table" where
  "text_insert s t =
     (case text_find t s of
        Some slot \<Rightarrow> (slot, t)
      | None \<Rightarrow>
          let slot = as_u32 (length (tt_values t))
          in (slot, \<lparr> tt_values = tt_values t @ [s], tt_slots = (tt_slots t)(s \<mapsto> slot) \<rparr>))"

record heap =
  heap_storage :: storage
  heap_objects :: "object list"
  heap_text :: text_table
  heap_shapes :: "intern_id list list"
  heap_shape_slots :: "intern_id list \<rightharpoonup> nat"

definition heap_new :: "storage \<Rightarrow> heap" where
  "heap_new s =
     \<lparr> heap_storage = s, heap_objects = [], heap_text = text_table_default,
       heap_shapes = [], heap_shape_slots = Map.empty \<rparr>"

definition heap_work :: heap where
  "heap_work = heap_new Work"

definition heap_main :: heap where
  "heap_main = heap_new Main"

definition allocate :: "object \<Rightarrow> heap \<Rightarrow> handle \<times> heap" where
  "allocate ob h =
     (Handle (heap_storage h) (as_u32 (length (heap_objects h))),
      h\<lparr> heap_objects := heap_objects h @ [ob] \<rparr>)"

definition reserve :: "heap \<Rightarrow> handle \<times> heap" where
  "reserve h = allocate OReserved h"

definition heap_object :: "heap \<Rightarrow> handle \<Rightarrow> heap_error + object" where
  "heap_object h handle =
     (if hd_storage handle \<noteq> heap_storage h then
        Inl (HeapError ''object handle belongs to another heap'')
      else ok_or (HeapError ''object handle is out of bounds'')
             (nth_opt (heap_objects h) (hd_slot handle)))"

text \<open>Writing through \<open>object_mut\<close>.\<close>

definition set_object :: "handle \<Rightarrow> object \<Rightarrow> heap \<Rightarrow> heap" where
  "set_object handle ob h =
     h\<lparr> heap_objects := (heap_objects h)[hd_slot handle := ob] \<rparr>"

definition initialize :: "handle \<Rightarrow> object \<Rightarrow> heap \<Rightarrow> heap_error + heap" where
  "initialize handle ob h =
     rbind (heap_object h handle) (\<lambda>slot.
       if slot \<noteq> OReserved then Inl (HeapError ''heap slot is already initialized'')
       else Inr (set_object handle ob h))"

definition initialize_up_link :: "handle \<Rightarrow> rich_value \<Rightarrow> heap \<Rightarrow> heap_error + heap" where
  "initialize_up_link handle v h =
     (if hd_storage handle \<noteq> Work then Inl (HeapError ''Main up-links are read-only'')
      else rbind (heap_object h handle) (\<lambda>ob. case ob of
          OUpLink None \<Rightarrow> Inr (set_object handle (OUpLink (Some v)) h)
        | OUpLink (Some _) \<Rightarrow> Inl (HeapError ''up-link is already initialized'')
        | _ \<Rightarrow> Inl (HeapError ''handle is not an up-link'')))"

definition intern :: "string \<Rightarrow> heap \<Rightarrow> intern_id \<times> heap" where
  "intern s h =
     (let (slot, t) = text_insert s (heap_text h)
      in (InternId (heap_storage h) slot, h\<lparr> heap_text := t \<rparr>))"

definition find_text :: "heap \<Rightarrow> string \<Rightarrow> intern_id option" where
  "find_text h s = map_option (InternId (heap_storage h)) (text_find (heap_text h) s)"

definition resolve_text :: "heap \<Rightarrow> intern_id \<Rightarrow> heap_error + string" where
  "resolve_text h i =
     (if iid_storage i \<noteq> heap_storage h then
        Inl (HeapError ''intern ID belongs to another heap'')
      else ok_or (HeapError ''intern ID is out of bounds'')
             (text_resolve (heap_text h) (iid_slot i)))"

text \<open>A text already interned by the background heap keeps its id there.\<close>

definition background_find :: "heap option \<Rightarrow> string \<Rightarrow> intern_id option" where
  "background_find background s = Option.bind background (\<lambda>b. find_text b s)"

definition intern_with :: "heap option \<Rightarrow> string \<Rightarrow> heap \<Rightarrow> intern_id \<times> heap" where
  "intern_with background s h =
     (case background_find background s of Some i \<Rightarrow> (i, h) | None \<Rightarrow> intern s h)"

definition SHORT_TEXT_BYTES :: nat where
  "SHORT_TEXT_BYTES = 32"

definition heap_string :: "heap option \<Rightarrow> string \<Rightarrow> heap \<Rightarrow> runtime_value \<times> heap" where
  "heap_string background s h =
     (if length s \<le> SHORT_TEXT_BYTES then
        (case background_find background s of
           Some i \<Rightarrow> (RShortString i, h)
         | None \<Rightarrow> let (i, h') = intern s h in (RShortString i, h'))
      else let (handle, h') = allocate (OString s) h in (RString handle, h'))"

definition find_builtin_atom :: "string \<Rightarrow> builtin_atom option" where
  "find_builtin_atom s =
     (if s = ''None'' then Some BA_None
      else if s = ''Some'' then Some BA_Some
      else if s = ''Ok'' then Some BA_Ok
      else if s = ''Err'' then Some BA_Err
      else if s = ''True'' then Some BA_True
      else if s = ''False'' then Some BA_False
      else None)"

definition heap_atom :: "heap option \<Rightarrow> string \<Rightarrow> heap \<Rightarrow> runtime_value \<times> heap" where
  "heap_atom background s h =
     (case find_builtin_atom s of
        Some b \<Rightarrow> (RBuiltinAtom b, h)
      | None \<Rightarrow>
          (case background_find background s of
             Some i \<Rightarrow> (RAtom i, h)
           | None \<Rightarrow> let (i, h') = intern s h in (RAtom i, h')))"

definition intern_shape :: "intern_id list \<Rightarrow> heap \<Rightarrow> shape_id \<times> heap" where
  "intern_shape fs h =
     (case heap_shape_slots h fs of
        Some slot \<Rightarrow> (ShapeId (heap_storage h) slot, h)
      | None \<Rightarrow>
          let slot = as_u32 (length (heap_shapes h))
          in (ShapeId (heap_storage h) slot,
              h\<lparr> heap_shapes := heap_shapes h @ [fs],
                 heap_shape_slots := (heap_shape_slots h)(fs \<mapsto> slot) \<rparr>))"

definition heap_shape :: "heap \<Rightarrow> shape_id \<Rightarrow> heap_error + intern_id list" where
  "heap_shape h i =
     (if sid_storage i \<noteq> heap_storage h then
        Inl (HeapError ''shape ID belongs to another heap'')
      else ok_or (HeapError ''shape ID is out of bounds'') (nth_opt (heap_shapes h) (sid_slot i)))"

section \<open>Import of values\<close>

lemma size_enumerate [termination_simp]:
  assumes "p \<in> set (enumerate n vs)" and "(i, v) = p"
  shows "f v < Suc (size_list f vs)" and "f v < Suc (size_list f vs + k)"
proof -
  from assms have "v \<in> set vs" by (metis enumerate_eq_zip in_set_zipE)
  then have "f v \<le> size_list f vs" by (simp add: size_list_estimation')
  then show "f v < Suc (size_list f vs)" and "f v < Suc (size_list f vs + k)" by simp_all
qed

lemma size_zip_right [termination_simp]:
  assumes "p \<in> set (zip us vs)" and "(u, v) = p"
  shows "f v < Suc (size_list f vs)" and "f v < Suc (k + size_list f vs)"
proof -
  from assms have "v \<in> set vs" by (metis in_set_zipE)
  then have "f v \<le> size_list f vs" by (simp add: size_list_estimation')
  then show "f v < Suc (size_list f vs)" and "f v < Suc (k + size_list f vs)" by simp_all
qed

text \<open>
  An import updates the heap and remembers the functions it has linked by their address. What it
  did before an error stays in the heap.
\<close>

record import_state =
  im_heap :: heap
  im_forwarded :: "address \<rightharpoonup> handle"

type_synonym 'a importing = "(import_state, heap_error, 'a) eff"

text \<open>A heap operation that cannot fail, run on the heap of the import.\<close>

definition on_heap :: "(heap \<Rightarrow> 'a \<times> heap) \<Rightarrow> 'a importing" where
  "on_heap f = estate (\<lambda>s. case f (im_heap s) of (x, h) \<Rightarrow> (x, s\<lparr> im_heap := h \<rparr>))"

definition import_new :: "object \<Rightarrow> (handle \<Rightarrow> runtime_value) \<Rightarrow> runtime_value importing" where
  "import_new ob wrap = ebind (on_heap (allocate ob)) (\<lambda>handle. eret (wrap handle))"

definition import_atom :: "heap option \<Rightarrow> atom \<Rightarrow> runtime_value importing" where
  "import_atom background a = (case a of
     Atom_Builtin b \<Rightarrow> eret (RBuiltinAtom b)
   | Atom_Named name \<Rightarrow> on_heap (heap_atom background name))"

fun import_value_with ::
    "heap option \<Rightarrow> (string \<rightharpoonup> rich_value) \<Rightarrow> val \<Rightarrow> rich_value importing"
and link_prototype ::
    "heap option \<Rightarrow> (string \<rightharpoonup> rich_value) \<Rightarrow> prototype \<Rightarrow> runtime_prototype importing"
and link_bytecode_with ::
    "heap option \<Rightarrow> (string \<rightharpoonup> rich_value) \<Rightarrow> bytecode_function \<Rightarrow> handle importing"
where
  "import_value_with bg ext (VInt n) = eret (rich_unknown (RInt n))"
| "import_value_with bg ext (VFloat x) = eret (rich_unknown (RFloat x))"
| "import_value_with bg ext (VString s) =
     ebind (on_heap (heap_string bg s)) (\<lambda>v. eret (rich_unknown v))"
| "import_value_with bg ext (VBytes bs) =
     ebind (import_new (OBytes bs) RBytes) (\<lambda>v. eret (rich_unknown v))"
| "import_value_with bg ext (VNativeType t) =
     ebind (import_new (ONativeType t) RNativeType) (\<lambda>v. eret (rich_unknown v))"
| "import_value_with bg ext (VOpaque p) =
     ebind (import_new (OOpaque p) ROpaque) (\<lambda>v. eret (rich_unknown v))"
| "import_value_with bg ext (VAtom a) =
     ebind (import_atom bg a) (\<lambda>v. eret (rich_unknown v))"
| "import_value_with bg ext (VTagged tag payload) =
     ebind (import_atom bg tag) (\<lambda>t.
     ebind (import_value_with bg ext payload) (\<lambda>p.
     ebind (import_new (OTagged (rich_unknown t) p) RTagged) (\<lambda>v. eret (rich_unknown v))))"
| "import_value_with bg ext (VArray vs) =
     ebind (ecollect (import_value_with bg ext) vs) (\<lambda>xs.
     ebind (import_new (OArray xs) RArray) (\<lambda>v. eret (rich_unknown v)))"
| "import_value_with bg ext (VTuple vs) =
     ebind (ecollect (import_value_with bg ext) vs) (\<lambda>xs.
     ebind (import_new (OTuple xs) RTuple) (\<lambda>v. eret (rich_unknown v)))"
| "import_value_with bg ext (VDict fs vs) =
     ebind (ecollect (\<lambda>f. on_heap (intern_with bg f)) fs) (\<lambda>ids.
     ebind (on_heap (intern_shape ids)) (\<lambda>shape.
     ebind (ecollect (import_value_with bg ext) vs) (\<lambda>xs.
     ebind (import_new (ODict shape xs) RDict) (\<lambda>v. eret (rich_unknown v)))))"
| "import_value_with bg ext (VFunc identity p upvalues) =
     ebind (link_prototype bg ext p) (\<lambda>rp.
     ebind (ecollect (import_value_with bg ext) upvalues) (\<lambda>us.
     ebind (import_new (OClosure identity rp us) RFunc) (\<lambda>v. eret (rich_unknown v))))"
| "import_value_with bg ext (VDyn identity d w scheme origin') =
     ebind (import_value_with bg ext d) (\<lambda>descriptor.
     ebind (import_value_with bg ext w) (\<lambda>x.
     ebind (import_new (ODyn identity descriptor x scheme origin') RDyn) (\<lambda>v.
     eret (rich_unknown v))))"
| "link_prototype bg ext (Proto_Bytecode f) =
     ebind (link_bytecode_with bg ext f) (\<lambda>handle. eret (RP_Bytecode handle))"
| "link_prototype bg ext (Proto_Native f) = eret (RP_Native f)"
| "link_bytecode_with bg ext (BytecodeFunction address code vs externals texts protos) =
     ebind (eget (\<lambda>s. im_forwarded s address)) (\<lambda>known.
     case known of
       Some handle \<Rightarrow> eret handle
     | None \<Rightarrow>
         ebind (on_heap reserve) (\<lambda>handle.
         ebind (emodify (\<lambda>s. s\<lparr> im_forwarded := (im_forwarded s)(address \<mapsto> handle) \<rparr>)) (\<lambda>_.
         ebind (ecollect (\<lambda>(index, v).
             case nth_opt externals index of
               Some (Some key) \<Rightarrow>
                 elift (ok_or (HeapError ''external value link is unresolved'') (ext key))
             | _ \<Rightarrow> import_value_with bg ext v) (enumerate 0 vs)) (\<lambda>values.
         ebind (ecollect (\<lambda>t. on_heap (intern_with bg t)) texts) (\<lambda>text_ids.
         ebind (ecollect (\<lambda>f. ebind (link_bytecode_with bg ext f) (\<lambda>p. eret (RP_Bytecode p)))
             protos) (\<lambda>prototypes.
         ebind (eget im_heap) (\<lambda>h.
         ebind (elift (initialize handle (OByteCodeProto code values text_ids prototypes) h)) (\<lambda>h'.
         ebind (emodify (\<lambda>s. s\<lparr> im_heap := h' \<rparr>)) (\<lambda>_.
         eret handle)))))))))"

text \<open>The entry points start with nothing linked.\<close>

definition import_start :: "heap \<Rightarrow> import_state" where
  "import_start h = \<lparr> im_heap = h, im_forwarded = Map.empty \<rparr>"

definition import_value :: "heap option \<Rightarrow> val \<Rightarrow> heap \<Rightarrow> (heap_error + rich_value) \<times> heap" where
  "import_value bg v h =
     (case import_value_with bg Map.empty v (import_start h) of (r, s) \<Rightarrow> (r, im_heap s))"

definition link_bytecode_resolved ::
    "heap option \<Rightarrow> bytecode_function \<Rightarrow> (string \<rightharpoonup> rich_value) \<Rightarrow> heap \<Rightarrow>
      (heap_error + handle) \<times> heap" where
  "link_bytecode_resolved bg f ext h =
     (case link_bytecode_with bg ext f (import_start h) of (r, s) \<Rightarrow> (r, im_heap s))"

text \<open>Data read from a document comes with the location of every path.\<close>

datatype value_path_segment = Seg_Index nat | Seg_Key string

type_synonym value_path = "value_path_segment list"

fun import_sourced_at ::
    "heap option \<Rightarrow> val \<Rightarrow> (value_path \<rightharpoonup> loc) \<Rightarrow> value_path \<Rightarrow> rich_value importing"
where
  "import_sourced_at bg (VInt n) prov path = eret (rich_original (RInt n) (prov path))"
| "import_sourced_at bg (VFloat x) prov path = eret (rich_original (RFloat x) (prov path))"
| "import_sourced_at bg (VString s) prov path =
     ebind (on_heap (heap_string bg s)) (\<lambda>v. eret (rich_original v (prov path)))"
| "import_sourced_at bg (VBytes bs) prov path =
     ebind (import_new (OBytes bs) RBytes) (\<lambda>v. eret (rich_original v (prov path)))"
| "import_sourced_at bg (VNativeType t) prov path =
     ebind (import_new (ONativeType t) RNativeType) (\<lambda>v. eret (rich_original v (prov path)))"
| "import_sourced_at bg (VOpaque p) prov path =
     ebind (import_new (OOpaque p) ROpaque) (\<lambda>v. eret (rich_original v (prov path)))"
| "import_sourced_at bg (VAtom a) prov path =
     ebind (import_atom bg a) (\<lambda>v. eret (rich_original v (prov path)))"
| "import_sourced_at bg (VTagged tag payload) prov path =
     ebind (import_atom bg tag) (\<lambda>t.
     ebind (import_sourced_at bg payload prov (path @ [Seg_Index 0])) (\<lambda>p.
     ebind (import_new (OTagged (rich_original t (prov path)) p) RTagged) (\<lambda>v.
     eret (rich_original v (prov path)))))"
| "import_sourced_at bg (VArray vs) prov path =
     ebind (ecollect (\<lambda>(index, v). import_sourced_at bg v prov (path @ [Seg_Index index]))
       (enumerate 0 vs)) (\<lambda>xs.
     ebind (import_new (OArray xs) RArray) (\<lambda>v. eret (rich_original v (prov path))))"
| "import_sourced_at bg (VTuple vs) prov path =
     ebind (ecollect (\<lambda>(index, v). import_sourced_at bg v prov (path @ [Seg_Index index]))
       (enumerate 0 vs)) (\<lambda>xs.
     ebind (import_new (OTuple xs) RTuple) (\<lambda>v. eret (rich_original v (prov path))))"
| "import_sourced_at bg (VDict fs vs) prov path =
     ebind (ecollect (\<lambda>(f, v).
         ebind (on_heap (intern_with bg f)) (\<lambda>i.
         ebind (import_sourced_at bg v prov (path @ [Seg_Key f])) (\<lambda>x. eret (i, x))))
       (zip fs vs)) (\<lambda>pairs.
     ebind (on_heap (intern_shape (map fst pairs))) (\<lambda>shape.
     ebind (import_new (ODict shape (map snd pairs)) RDict) (\<lambda>v.
     eret (rich_original v (prov path)))))"
| "import_sourced_at bg (VFunc _ _ _) prov path =
     efail (HeapError ''sourced data cannot contain Func'')"
| "import_sourced_at bg (VDyn _ _ _ _ _) prov path =
     efail (HeapError ''sourced data cannot contain Dyn'')"

definition import_sourced_value ::
    "heap option \<Rightarrow> val \<Rightarrow> (value_path \<rightharpoonup> loc) \<Rightarrow> heap \<Rightarrow> (heap_error + rich_value) \<times> heap" where
  "import_sourced_value bg v prov h =
     (case import_sourced_at bg v prov [] (import_start h) of (r, s) \<Rightarrow> (r, im_heap s))"

section \<open>Interning tables\<close>

text \<open>
  The contract of the two interning tables of a heap, texts and dictionary shapes: a key put in
  the table can be looked up under the slot that came back, what was there stays there, and a key
  that is there already is not put again. \<open>room\<close> says that one more slot fits \<open>u32\<close>.
\<close>

locale interner =
  fixes put :: "'k \<Rightarrow> 't \<Rightarrow> nat \<times> 't"
    and look :: "'t \<Rightarrow> nat \<Rightarrow> 'k option"
    and search :: "'t \<Rightarrow> 'k \<Rightarrow> nat option"
    and ok :: "'t \<Rightarrow> bool"
    and room :: "'t \<Rightarrow> bool"
  assumes put_ok: "ok t \<Longrightarrow> room t \<Longrightarrow> ok (snd (put k t))"
    and put_look: "ok t \<Longrightarrow> room t \<Longrightarrow> look (snd (put k t)) (fst (put k t)) = Some k"
    and put_keep: "look t i = Some k' \<Longrightarrow> look (snd (put k t)) i = Some k'"
    and search_look: "ok t \<Longrightarrow> search t k = Some i \<longleftrightarrow> look t i = Some k"
    and put_found: "search t k = Some i \<Longrightarrow> put k t = (i, t)"
begin

lemma look_inj:
  assumes "ok t" "look t i = Some k" "look t j = Some k"
  shows "i = j"
  using assms search_look[of t k i] search_look[of t k j] by simp

lemma put_again:
  assumes "ok t" "room t"
  shows "put k (snd (put k t)) = put k t"
  using put_found[of "snd (put k t)" k "fst (put k t)"] put_ok put_look search_look assms
  by (metis prod.collapse)

lemma put_slot_eq_iff:
  assumes "ok t" "room t" "look t i = Some k'"
  shows "fst (put k t) = i \<longleftrightarrow> k = k'"
proof
  assume "fst (put k t) = i"
  with put_look[OF assms(1,2), of k] put_keep[OF assms(3), of k] show "k = k'" by simp
next
  assume "k = k'"
  with assms search_look[of t k i] put_found[of t k i] show "fst (put k t) = i" by simp
qed

lemma search_put_same: "ok t \<Longrightarrow> room t \<Longrightarrow> search (snd (put k t)) k = Some (fst (put k t))"
  using put_ok put_look search_look by metis

lemma search_keep:
  assumes "ok t" "room t" "search t k' = Some i"
  shows "search (snd (put k t)) k' = Some i"
  using assms put_keep put_ok search_look by metis

end

definition text_ok :: "text_table \<Rightarrow> bool" where
  "text_ok t \<longleftrightarrow> length (tt_values t) \<le> 2 ^ 32 \<and>
     (\<forall>s i. tt_slots t s = Some i \<longleftrightarrow> nth_opt (tt_values t) i = Some s)"

definition text_room :: "text_table \<Rightarrow> bool" where
  "text_room t \<longleftrightarrow> length (tt_values t) < 2 ^ 32"

lemma as_u32_lt: "n < 2 ^ 32 \<Longrightarrow> as_u32 n = n"
  by (simp add: as_u32_def)

lemma nth_opt_snoc_eq:
  "nth_opt (xs @ [x]) i = Some y \<longleftrightarrow> nth_opt xs i = Some y \<or> i = length xs \<and> x = y"
  by (auto simp: nth_append less_Suc_eq)

lemma text_insert_None:
  "text_find t s = None \<Longrightarrow> text_insert s t =
     (as_u32 (length (tt_values t)),
      \<lparr> tt_values = tt_values t @ [s],
        tt_slots = (tt_slots t)(s \<mapsto> as_u32 (length (tt_values t))) \<rparr>)"
  by (simp add: text_insert_def Let_def)

lemma text_insert_Some: "text_find t s = Some i \<Longrightarrow> text_insert s t = (i, t)"
  by (simp add: text_insert_def)

interpretation texts: interner text_insert text_resolve text_find text_ok text_room
proof
  fix t s i s'
  show "text_resolve t i = Some s' \<Longrightarrow> text_resolve (snd (text_insert s t)) i = Some s'"
    by (cases "text_find t s")
       (auto simp: text_insert_None text_insert_Some text_resolve_def nth_append)
  show found: "text_find t s = Some i \<Longrightarrow> text_insert s t = (i, t)"
    by (rule text_insert_Some)
  assume ok: "text_ok t"
  show "text_find t s = Some i \<longleftrightarrow> text_resolve t i = Some s"
    using ok by (simp only: text_ok_def text_find_def text_resolve_def)
  assume room: "text_room t"
  have slot: "as_u32 (length (tt_values t)) = length (tt_values t)"
    using room by (simp add: as_u32_lt text_room_def)
  show "text_ok (snd (text_insert s t))"
  proof (cases "text_find t s")
    case None
    then have new: "\<And>i. nth_opt (tt_values t) i \<noteq> Some s"
      using ok by (metis text_ok_def text_find_def option.distinct(1))
    have "((tt_slots t)(s \<mapsto> length (tt_values t))) s' = Some j \<longleftrightarrow>
        nth_opt (tt_values t @ [s]) j = Some s'" for s' j
      using ok new by (simp only: text_ok_def nth_opt_snoc_eq fun_upd_apply) auto
    with None room ok show ?thesis
      by (simp add: text_insert_None text_ok_def text_room_def slot del: nth_opt_eq_Some)
  qed (use ok in \<open>simp add: text_insert_Some\<close>)
  show "text_resolve (snd (text_insert s t)) (fst (text_insert s t)) = Some s"
  proof (cases "text_find t s")
    case None
    then show ?thesis by (simp add: text_insert_None text_resolve_def slot nth_append)
  next
    case (Some i)
    then show ?thesis using ok
      by (simp only: text_insert_Some text_ok_def text_resolve_def text_find_def fst_conv snd_conv)
  qed
qed

text \<open>The shape table is the pair of fields of the heap.\<close>

definition shape_put :: "intern_id list \<Rightarrow> heap \<Rightarrow> nat \<times> heap" where
  "shape_put fs h = (case intern_shape fs h of (i, h') \<Rightarrow> (sid_slot i, h'))"

definition shapes_ok :: "heap \<Rightarrow> bool" where
  "shapes_ok h \<longleftrightarrow> length (heap_shapes h) \<le> 2 ^ 32 \<and>
     (\<forall>fs i. heap_shape_slots h fs = Some i \<longleftrightarrow> nth_opt (heap_shapes h) i = Some fs)"

definition shapes_room :: "heap \<Rightarrow> bool" where
  "shapes_room h \<longleftrightarrow> length (heap_shapes h) < 2 ^ 32"

lemma intern_shape_None:
  "heap_shape_slots h fs = None \<Longrightarrow> intern_shape fs h =
     (ShapeId (heap_storage h) (as_u32 (length (heap_shapes h))),
      h\<lparr> heap_shapes := heap_shapes h @ [fs],
         heap_shape_slots := (heap_shape_slots h)(fs \<mapsto> as_u32 (length (heap_shapes h))) \<rparr>)"
  by (simp add: intern_shape_def Let_def)

lemma intern_shape_Some:
  "heap_shape_slots h fs = Some i \<Longrightarrow> intern_shape fs h = (ShapeId (heap_storage h) i, h)"
  by (simp add: intern_shape_def)

interpretation shapes: interner shape_put "\<lambda>h. nth_opt (heap_shapes h)" heap_shape_slots
  shapes_ok shapes_room
proof
  fix h fs fs' i
  show "nth_opt (heap_shapes h) i = Some fs' \<Longrightarrow>
      nth_opt (heap_shapes (snd (shape_put fs h))) i = Some fs'"
    by (cases "heap_shape_slots h fs")
       (auto simp: shape_put_def intern_shape_None intern_shape_Some nth_append)
  show "heap_shape_slots h fs = Some i \<Longrightarrow> shape_put fs h = (i, h)"
    by (simp add: shape_put_def intern_shape_Some)
  assume ok: "shapes_ok h"
  show "heap_shape_slots h fs = Some i \<longleftrightarrow> nth_opt (heap_shapes h) i = Some fs"
    using ok by (simp only: shapes_ok_def)
  assume room: "shapes_room h"
  have slot: "as_u32 (length (heap_shapes h)) = length (heap_shapes h)"
    using room by (simp add: as_u32_lt shapes_room_def)
  show "shapes_ok (snd (shape_put fs h))"
  proof (cases "heap_shape_slots h fs")
    case None
    then have new: "\<And>i. nth_opt (heap_shapes h) i \<noteq> Some fs"
      using ok by (metis shapes_ok_def option.distinct(1))
    have "((heap_shape_slots h)(fs \<mapsto> length (heap_shapes h))) gs = Some j \<longleftrightarrow>
        nth_opt (heap_shapes h @ [fs]) j = Some gs" for gs j
      using ok new by (simp only: shapes_ok_def nth_opt_snoc_eq fun_upd_apply) auto
    with None room ok show ?thesis
      by (simp add: shape_put_def intern_shape_None shapes_ok_def shapes_room_def slot
          del: nth_opt_eq_Some)
  qed (use ok in \<open>simp add: shape_put_def intern_shape_Some\<close>)
  show "nth_opt (heap_shapes (snd (shape_put fs h))) (fst (shape_put fs h)) = Some fs"
  proof (cases "heap_shape_slots h fs")
    case None
    then show ?thesis
      by (simp add: shape_put_def intern_shape_None slot nth_append)
  next
    case (Some i)
    then show ?thesis using ok
      by (simp only: shape_put_def intern_shape_Some shapes_ok_def fst_conv snd_conv prod.case
          shape_id.sel)
  qed
qed

end
