(* ===== verification/Heap_View.thy ===== *)
theory Heap_View
  imports Heap Bytecode
begin

text \<open>
  Reading heaps (\<open>HeapView\<close> of \<open>crates/telora-core/src/heap.rs\<close>): a view is the heap of the
  execution and the Main heap behind it, and resolves every handle in the heap its storage names.
  Structural equality and export follow the object graph; equality remembers the pairs of handles
  it has met, export the handles on its path, so both end on cyclic graphs. Their recursion is
  bounded by a fuel that is larger than the number of pairs (of objects) of the view; running out
  would be the error \<open>fuel_error\<close>, which the code does not have, and the lemmas show that it never
  comes out.
\<close>

record heap_view =
  hv_current :: heap
  hv_background :: "heap option"

definition view_heap :: "heap_view \<Rightarrow> storage \<Rightarrow> heap_error + heap" where
  "view_heap view s =
     (if s = heap_storage (hv_current view) then Inr (hv_current view)
      else case s of
        Main \<Rightarrow>
          (case hv_background view of
             Some b \<Rightarrow> if heap_storage b = Main then Inr b
                       else Inl (HeapError ''Main value has no Main world'')
           | None \<Rightarrow> Inl (HeapError ''Main value has no Main world''))
      | Work \<Rightarrow> Inl (HeapError ''value refers to a heap outside its view''))"

definition view_object :: "heap_view \<Rightarrow> handle \<Rightarrow> heap_error + object" where
  "view_object view handle =
     rbind (view_heap view (hd_storage handle)) (\<lambda>h. heap_object h handle)"

definition view_text :: "heap_view \<Rightarrow> intern_id \<Rightarrow> heap_error + string" where
  "view_text view i = rbind (view_heap view (iid_storage i)) (\<lambda>h. resolve_text h i)"

definition view_shape :: "heap_view \<Rightarrow> shape_id \<Rightarrow> heap_error + intern_id list" where
  "view_shape view i = rbind (view_heap view (sid_storage i)) (\<lambda>h. heap_shape h i)"

type_synonym bytecode_links =
  "func_byte_code \<times> rich_value list \<times> intern_id list \<times> runtime_prototype list"

definition view_bytecode :: "heap_view \<Rightarrow> handle \<Rightarrow> heap_error + bytecode_links" where
  "view_bytecode view handle =
     rbind (view_object view handle) (\<lambda>ob. case ob of
         OByteCodeProto code values text prototypes \<Rightarrow> Inr (code, values, text, prototypes)
       | _ \<Rightarrow> Inl (HeapError ''handle is not a bytecode prototype''))"

definition view_closure :: "heap_view \<Rightarrow> handle \<Rightarrow> heap_error + runtime_prototype \<times> rich_value list"
where
  "view_closure view handle =
     rbind (view_object view handle) (\<lambda>ob. case ob of
         OClosure _ p upvalues \<Rightarrow> Inr (p, upvalues)
       | _ \<Rightarrow> Inl (HeapError ''handle is not a closure''))"

definition function_arity :: "heap_view \<Rightarrow> handle \<Rightarrow> heap_error + nat" where
  "function_arity view handle =
     rbind (view_closure view handle) (\<lambda>(p, _). case p of
         RP_Native f \<Rightarrow> Inr (native_arity f)
       | RP_Bytecode ph \<Rightarrow>
           rbind (view_object view ph) (\<lambda>ob. case ob of
               OByteCodeProto code _ _ _ \<Rightarrow> Inr (code_parameter_count code)
             | _ \<Rightarrow> Inl (HeapError ''prototype handle refers to another object kind'')))"

definition view_up_link :: "heap_view \<Rightarrow> handle \<Rightarrow> heap_error + rich_value option" where
  "view_up_link view handle =
     rbind (view_object view handle) (\<lambda>ob. case ob of
         OUpLink v \<Rightarrow> Inr v
       | _ \<Rightarrow> Inl (HeapError ''handle is not an up-link''))"

definition view_dyn_parts :: "heap_view \<Rightarrow> handle \<Rightarrow> heap_error + identity \<times> rich_value \<times> rich_value"
where
  "view_dyn_parts view handle =
     rbind (view_object view handle) (\<lambda>ob. case ob of
         ODyn i descriptor v _ _ \<Rightarrow> Inr (i, descriptor, v)
       | _ \<Rightarrow> Inl (HeapError ''handle is not a Dyn''))"

definition view_sequence :: "heap_view \<Rightarrow> handle \<Rightarrow> bool \<Rightarrow> heap_error + rich_value list" where
  "view_sequence view handle tuple =
     rbind (view_object view handle) (\<lambda>ob. case ob of
         OArray vs \<Rightarrow> if \<not> tuple then Inr vs
             else Inl (HeapError ''handle is not the requested sequence kind'')
       | OTuple vs \<Rightarrow> if tuple then Inr vs
             else Inl (HeapError ''handle is not the requested sequence kind'')
       | _ \<Rightarrow> Inl (HeapError ''handle is not the requested sequence kind''))"

definition view_tagged :: "heap_view \<Rightarrow> handle \<Rightarrow> heap_error + rich_value \<times> rich_value" where
  "view_tagged view handle =
     rbind (view_object view handle) (\<lambda>ob. case ob of
         OTagged t p \<Rightarrow> Inr (t, p)
       | _ \<Rightarrow> Inl (HeapError ''handle is not a Tagged value''))"

text \<open>A field that does not resolve counts as the empty text, as \<open>unwrap_or\<close> does.\<close>

definition field_text :: "heap_view \<Rightarrow> intern_id \<Rightarrow> string" where
  "field_text view i = (case view_text view i of Inr t \<Rightarrow> t | Inl _ \<Rightarrow> [])"

definition view_dict_parts :: "heap_view \<Rightarrow> handle \<Rightarrow> heap_error + intern_id list \<times> rich_value list"
where
  "view_dict_parts view handle =
     rbind (view_object view handle) (\<lambda>ob. case ob of
         ODict shape values \<Rightarrow> rbind (view_shape view shape) (\<lambda>fs. Inr (fs, values))
       | _ \<Rightarrow> Inl (HeapError ''handle is not a Dict''))"

definition view_dict_get :: "heap_view \<Rightarrow> handle \<Rightarrow> intern_id \<Rightarrow> heap_error + rich_value option" where
  "view_dict_get view handle field =
     rbind (view_object view handle) (\<lambda>ob. case ob of
         ODict shape values \<Rightarrow>
           rbind (view_text view field) (\<lambda>wanted.
           rbind (view_shape view shape) (\<lambda>fs.
             Inr (Option.bind
               (binary_search_by (\<lambda>candidate.
                  if candidate = field then Ord_Equal
                  else cmp (field_text view candidate) wanted) fs 0 (length fs))
               (nth_opt values))))
       | _ \<Rightarrow> Inl (HeapError ''handle is not a Dict''))"

definition view_dict_get_text :: "heap_view \<Rightarrow> handle \<Rightarrow> string \<Rightarrow> heap_error + rich_value option" where
  "view_dict_get_text view handle field =
     rbind (view_dict_parts view handle) (\<lambda>(fs, values).
       Inr (Option.bind
         (binary_search_by (\<lambda>candidate. cmp (field_text view candidate) field) fs 0 (length fs))
         (nth_opt values)))"

definition view_dict_fields :: "heap_view \<Rightarrow> handle \<Rightarrow> heap_error + string list" where
  "view_dict_fields view handle =
     rbind (view_dict_parts view handle) (\<lambda>(fs, _). collect_results (view_text view) fs)"

definition view_string_text :: "heap_view \<Rightarrow> runtime_value \<Rightarrow> heap_error + string option" where
  "view_string_text view v = (case v of
     RShortString i \<Rightarrow> rbind (view_text view i) (\<lambda>t. Inr (Some t))
   | RString handle \<Rightarrow>
       rbind (view_object view handle) (\<lambda>ob. case ob of
           OString t \<Rightarrow> Inr (Some t)
         | _ \<Rightarrow> Inl (HeapError ''String handle refers to another object kind''))
   | _ \<Rightarrow> Inr None)"

definition view_atom_text :: "heap_view \<Rightarrow> runtime_value \<Rightarrow> heap_error + string option" where
  "view_atom_text view v = (case v of
     RBuiltinAtom a \<Rightarrow> Inr (Some (builtin_atom_name a))
   | RAtom i \<Rightarrow> rbind (view_text view i) (\<lambda>t. Inr (Some t))
   | _ \<Rightarrow> Inr None)"

section \<open>Structural equality\<close>

definition fuel_error :: heap_error where
  "fuel_error = HeapError ''fuel exhausted''"

type_synonym 'a comparing = "((handle \<times> handle) set, heap_error, 'a) eff"

type_synonym comparer = "runtime_value \<Rightarrow> runtime_value \<Rightarrow> bool comparing"

fun zip_equal :: "comparer \<Rightarrow> (rich_value \<times> rich_value) list \<Rightarrow> bool comparing" where
  "zip_equal eq [] = eret True"
| "zip_equal eq ((l, r) # rest) =
     ebind (eq (rv_value l) (rv_value r)) (\<lambda>same.
       if \<not> same then eret False else zip_equal eq rest)"

definition value_slices_equal ::
    "comparer \<Rightarrow> rich_value list \<Rightarrow> rich_value list \<Rightarrow> bool comparing" where
  "value_slices_equal eq ls rs =
     (if length ls \<noteq> length rs then eret False else zip_equal eq (zip ls rs))"

text \<open>A pair that is the same handle twice, or was met before, is equal; another is remembered.\<close>

definition unless_visited :: "handle \<Rightarrow> handle \<Rightarrow> bool comparing \<Rightarrow> bool comparing" where
  "unless_visited l r m =
     (if l = r then eret True
      else ebind (eget (\<lambda>visited. (l, r) \<in> visited)) (\<lambda>seen.
        if seen then eret True
        else ebind (emodify (insert (l, r))) (\<lambda>_. m)))"

definition sequence_values :: "object \<Rightarrow> heap_error + rich_value list" where
  "sequence_values ob = (case ob of
     OArray vs \<Rightarrow> Inr vs
   | OTuple vs \<Rightarrow> Inr vs
   | _ \<Rightarrow> Inl (HeapError ''sequence handle refers to another object kind''))"

definition sequence_handles_equal :: "heap_view \<Rightarrow> comparer \<Rightarrow> handle \<Rightarrow> handle \<Rightarrow> bool comparing" where
  "sequence_handles_equal view eq l r =
     unless_visited l r
       (ebind (elift (rbind (view_object view l) sequence_values)) (\<lambda>ls.
        ebind (elift (rbind (view_object view r) sequence_values)) (\<lambda>rs.
        value_slices_equal eq ls rs)))"

definition dict_object_parts :: "object \<Rightarrow> heap_error + shape_id \<times> rich_value list" where
  "dict_object_parts ob = (case ob of
     ODict shape values \<Rightarrow> Inr (shape, values)
   | _ \<Rightarrow> Inl (HeapError ''Dict handle refers to another object kind''))"

fun fields_equal :: "heap_view \<Rightarrow> (intern_id \<times> intern_id) list \<Rightarrow> heap_error + bool" where
  "fields_equal view [] = Inr True"
| "fields_equal view ((l, r) # rest) =
     rbind (view_text view l) (\<lambda>lt. rbind (view_text view r) (\<lambda>rt.
       if lt \<noteq> rt then Inr False else fields_equal view rest))"

definition dict_handles_equal :: "heap_view \<Rightarrow> comparer \<Rightarrow> handle \<Rightarrow> handle \<Rightarrow> bool comparing" where
  "dict_handles_equal view eq l r =
     unless_visited l r
       (ebind (elift (rbind (view_object view l) dict_object_parts)) (\<lambda>(lshape, ls).
        ebind (elift (rbind (view_object view r) dict_object_parts)) (\<lambda>(rshape, rs).
        ebind (elift (view_shape view lshape)) (\<lambda>lfs.
        ebind (elift (view_shape view rshape)) (\<lambda>rfs.
          if length lfs \<noteq> length rfs then eret False
          else ebind (elift (fields_equal view (zip lfs rfs))) (\<lambda>same.
            if \<not> same then eret False else value_slices_equal eq ls rs))))))"

definition tagged_handles_equal :: "heap_view \<Rightarrow> comparer \<Rightarrow> handle \<Rightarrow> handle \<Rightarrow> bool comparing" where
  "tagged_handles_equal view eq l r =
     unless_visited l r
       (ebind (elift (view_tagged view l)) (\<lambda>(ltag, lpayload).
        ebind (elift (view_tagged view r)) (\<lambda>(rtag, rpayload).
        ebind (eq (rv_value ltag) (rv_value rtag)) (\<lambda>same.
          if \<not> same then eret False else eq (rv_value lpayload) (rv_value rpayload)))))"

definition closure_identity :: "object \<Rightarrow> heap_error + identity" where
  "closure_identity ob = (case ob of
     OClosure i _ _ \<Rightarrow> Inr i
   | _ \<Rightarrow> Inl (HeapError ''Func handle refers to another object kind''))"

definition ids_equal :: "heap_view \<Rightarrow> intern_id \<Rightarrow> intern_id \<Rightarrow> heap_error + bool" where
  "ids_equal view l r =
     (if iid_storage l = iid_storage r then Inr (l = r)
      else rbind (view_text view l) (\<lambda>lt. rbind (view_text view r) (\<lambda>rt. Inr (lt = rt))))"

definition texts_equal ::
    "(heap_view \<Rightarrow> runtime_value \<Rightarrow> heap_error + string option) \<Rightarrow> heap_view \<Rightarrow>
      runtime_value \<Rightarrow> runtime_value \<Rightarrow> heap_error + bool" where
  "texts_equal get view l r =
     rbind (get view l) (\<lambda>lt. rbind (get view r) (\<lambda>rt. Inr (lt = rt)))"

text \<open>Objects that hold plain data, compared by \<open>part\<close> unless the handles are the same.\<close>

definition data_equal ::
    "heap_view \<Rightarrow> (object \<Rightarrow> heap_error + 'a) \<Rightarrow> ('a \<Rightarrow> 'a \<Rightarrow> bool) \<Rightarrow> handle \<Rightarrow> handle \<Rightarrow>
      heap_error + bool" where
  "data_equal view part same l r =
     (if l = r then Inr True
      else rbind (rbind (view_object view l) part) (\<lambda>x.
           rbind (rbind (view_object view r) part) (\<lambda>y. Inr (same x y))))"

definition bytes_part :: "object \<Rightarrow> heap_error + u8 list" where
  "bytes_part ob = (case ob of OBytes bs \<Rightarrow> Inr bs
     | _ \<Rightarrow> Inl (HeapError ''Bytes handle refers to another object kind''))"

definition opaque_part :: "object \<Rightarrow> heap_error + opaque_value" where
  "opaque_part ob = (case ob of OOpaque p \<Rightarrow> Inr p
     | _ \<Rightarrow> Inl (HeapError ''Opaque handle refers to another object kind''))"

definition native_type_part :: "object \<Rightarrow> heap_error + native_type" where
  "native_type_part ob = (case ob of ONativeType t \<Rightarrow> Inr t
     | _ \<Rightarrow> Inl (HeapError ''NativeType handle refers to another object kind''))"

definition is_up_link :: "runtime_value \<Rightarrow> bool" where
  "is_up_link v = (case v of RUpLink _ \<Rightarrow> True | _ \<Rightarrow> False)"

text \<open>The arms that do not go into the object graph.\<close>

definition flat_equal :: "heap_view \<Rightarrow> runtime_value \<Rightarrow> runtime_value \<Rightarrow> heap_error + bool" where
  "flat_equal view l r =
     (if is_up_link l \<or> is_up_link r then Inl (HeapError ''up-link escaped into equality'')
      else case (l, r) of
        (RFunc a, RFunc b) \<Rightarrow>
          rbind (rbind (view_object view a) closure_identity) (\<lambda>x.
          rbind (rbind (view_object view b) closure_identity) (\<lambda>y. Inr (x = y)))
      | (RDyn a, RDyn b) \<Rightarrow>
          rbind (view_dyn_parts view a) (\<lambda>(x, _, _).
          rbind (view_dyn_parts view b) (\<lambda>(y, _, _). Inr (x = y)))
      | (RInt a, RInt b) \<Rightarrow> Inr (a = b)
      | (RFloat a, RFloat b) \<Rightarrow> Inr (f64_eq a b)
      | (RBuiltinAtom a, RBuiltinAtom b) \<Rightarrow> Inr (a = b)
      | (RAtom a, RAtom b) \<Rightarrow> ids_equal view a b
      | (RShortString a, RShortString b) \<Rightarrow> ids_equal view a b
      | (RBuiltinAtom _, RAtom _) \<Rightarrow> texts_equal view_atom_text view l r
      | (RAtom _, RBuiltinAtom _) \<Rightarrow> texts_equal view_atom_text view l r
      | (RString a, RString b) \<Rightarrow>
          if a = b then Inr True else texts_equal view_string_text view l r
      | (RShortString _, RString _) \<Rightarrow> texts_equal view_string_text view l r
      | (RString _, RShortString _) \<Rightarrow> texts_equal view_string_text view l r
      | (RBytes a, RBytes b) \<Rightarrow> data_equal view bytes_part (=) a b
      | (ROpaque a, ROpaque b) \<Rightarrow> data_equal view opaque_part opaque_logical_eq a b
      | (RNativeType a, RNativeType b) \<Rightarrow> data_equal view native_type_part native_type_eq a b
      | _ \<Rightarrow> Inr False)"

fun values_equal_with :: "heap_view \<Rightarrow> nat \<Rightarrow> comparer" where
  "values_equal_with view 0 l r = efail fuel_error"
| "values_equal_with view (Suc n) l r = (case (l, r) of
     (RArray a, RArray b) \<Rightarrow> sequence_handles_equal view (values_equal_with view n) a b
   | (RTuple a, RTuple b) \<Rightarrow> sequence_handles_equal view (values_equal_with view n) a b
   | (RTagged a, RTagged b) \<Rightarrow> tagged_handles_equal view (values_equal_with view n) a b
   | (RDict a, RDict b) \<Rightarrow> dict_handles_equal view (values_equal_with view n) a b
   | _ \<Rightarrow> elift (flat_equal view l r))"

text \<open>The number of objects a view can reach.\<close>

definition view_size :: "heap_view \<Rightarrow> nat" where
  "view_size view = length (heap_objects (hv_current view)) +
     (case hv_background view of Some b \<Rightarrow> length (heap_objects b) | None \<Rightarrow> 0)"

definition values_equal :: "heap_view \<Rightarrow> rich_value \<Rightarrow> rich_value \<Rightarrow> heap_error + bool" where
  "values_equal view l r =
     fst (values_equal_with view (view_size view * view_size view + 1) (rv_value l) (rv_value r) {})"

section \<open>Export\<close>

text \<open>
  \<open>export_value_with\<close> rebuilds a value outside the heap. The handles on the path from the root are
  \<open>ex_visiting\<close>: meeting one of them again is the cycle error. An exported function is a new object
  whose address is the next one.
\<close>

record export_state =
  ex_visiting :: "handle set"
  ex_next :: address

type_synonym 'a exporting = "(export_state, heap_error, 'a) eff"

definition cycle_error :: heap_error where
  "cycle_error = HeapError ''cyclic heap values cannot cross the legacy Value boundary''"

definition visit_handle :: "handle \<Rightarrow> unit exporting" where
  "visit_handle handle =
     ebind (eget (\<lambda>s. handle \<in> ex_visiting s)) (\<lambda>seen.
       if seen then efail cycle_error
       else emodify (\<lambda>s. s\<lparr> ex_visiting := insert handle (ex_visiting s) \<rparr>))"

definition enter_object :: "heap_view \<Rightarrow> handle \<Rightarrow> object exporting" where
  "enter_object view handle = ebind (visit_handle handle) (\<lambda>_. elift (view_object view handle))"

definition leave_object :: "handle \<Rightarrow> unit exporting" where
  "leave_object handle = emodify (\<lambda>s. s\<lparr> ex_visiting := ex_visiting s - {handle} \<rparr>)"

text \<open>Enter an object, run \<open>body\<close> on the part of it that is wanted, leave.\<close>

definition with_object ::
    "heap_view \<Rightarrow> handle \<Rightarrow> (object \<Rightarrow> heap_error + 'p) \<Rightarrow> ('p \<Rightarrow> 'a exporting) \<Rightarrow> 'a exporting" where
  "with_object view handle part body =
     ebind (enter_object view handle) (\<lambda>ob.
     ebind (elift (part ob)) (\<lambda>p.
     ebind (body p) (\<lambda>x.
     ebind (leave_object handle) (\<lambda>_. eret x))))"

definition string_part :: "object \<Rightarrow> heap_error + string" where
  "string_part ob = (case ob of OString t \<Rightarrow> Inr t
     | _ \<Rightarrow> Inl (HeapError ''String handle refers to another object kind''))"

definition array_part :: "object \<Rightarrow> heap_error + rich_value list" where
  "array_part ob = (case ob of OArray vs \<Rightarrow> Inr vs
     | _ \<Rightarrow> Inl (HeapError ''sequence handle refers to another object kind''))"

definition tuple_part :: "object \<Rightarrow> heap_error + rich_value list" where
  "tuple_part ob = (case ob of OTuple vs \<Rightarrow> Inr vs
     | _ \<Rightarrow> Inl (HeapError ''sequence handle refers to another object kind''))"

definition tagged_part :: "object \<Rightarrow> heap_error + rich_value \<times> rich_value" where
  "tagged_part ob = (case ob of OTagged t p \<Rightarrow> Inr (t, p)
     | _ \<Rightarrow> Inl (HeapError ''Tagged handle refers to another object kind''))"

definition closure_part ::
    "object \<Rightarrow> heap_error + identity \<times> runtime_prototype \<times> rich_value list" where
  "closure_part ob = (case ob of OClosure i p us \<Rightarrow> Inr (i, p, us)
     | _ \<Rightarrow> Inl (HeapError ''Func handle refers to another object kind''))"

definition dyn_part ::
    "object \<Rightarrow> heap_error + identity \<times> rich_value \<times> rich_value \<times> type_scheme option \<times> string option"
where
  "dyn_part ob = (case ob of ODyn i d v scheme origin' \<Rightarrow> Inr (i, d, v, scheme, origin')
     | _ \<Rightarrow> Inl (HeapError ''Dyn handle refers to another object kind''))"

definition proto_part :: "object \<Rightarrow> heap_error + bytecode_links" where
  "proto_part ob = (case ob of OByteCodeProto code values text prototypes \<Rightarrow>
       Inr (code, values, text, prototypes)
     | _ \<Rightarrow> Inl (HeapError ''prototype handle refers to another object kind''))"

definition TYPE_METADATA_KINDS :: "string list" where
  "TYPE_METADATA_KINDS =
     [''Any'', ''Never'', ''Type'', ''Dyn'', ''TypeOf'', ''Int'', ''Float'', ''String'', ''Bytes'',
      ''Atom'', ''Array'', ''Dict'', ''Tagged'', ''Tuple'', ''Struct'', ''Enum'', ''Union'',
      ''Function'', ''WithAttributes'', ''Bound'']"

definition is_type_metadata_root :: "heap_view \<Rightarrow> runtime_value \<Rightarrow> heap_error + bool" where
  "is_type_metadata_root view v = (case v of
     RDict handle \<Rightarrow>
       rbind (view_dict_get_text view handle ''kind'') (\<lambda>kind. case kind of
         None \<Rightarrow> Inr False
       | Some k \<Rightarrow> (case rv_value k of
           RBuiltinAtom a \<Rightarrow> Inr (builtin_atom_name a \<in> set TYPE_METADATA_KINDS)
         | RAtom i \<Rightarrow> rbind (view_text view i) (\<lambda>t. Inr (t \<in> set TYPE_METADATA_KINDS))
         | _ \<Rightarrow> Inr False))
   | _ \<Rightarrow> Inr False)"

definition fresh_address :: "address exporting" where
  "fresh_address = estate (\<lambda>s. (ex_next s, s\<lparr> ex_next := Suc (ex_next s) \<rparr>))"

definition prototype_function :: "prototype \<Rightarrow> heap_error + bytecode_function" where
  "prototype_function p = (case p of
     Proto_Bytecode f \<Rightarrow> Inr f
   | Proto_Native _ \<Rightarrow>
       Inl (HeapError ''native prototype cannot occupy a bytecode link slot''))"

definition atom_of_val :: "val \<Rightarrow> heap_error + atom" where
  "atom_of_val v = (case v of VAtom a \<Rightarrow> Inr a
     | _ \<Rightarrow> Inl (HeapError ''Tagged tag is not an Atom''))"

fun export_value_with :: "heap_view \<Rightarrow> val option \<Rightarrow> nat \<Rightarrow> runtime_value \<Rightarrow> val exporting"
and export_prototype :: "heap_view \<Rightarrow> val option \<Rightarrow> nat \<Rightarrow> runtime_prototype \<Rightarrow> prototype exporting"
where
  "export_value_with view projection 0 v = efail fuel_error"
| "export_value_with view projection (Suc n) (RInt i) = eret (VInt i)"
| "export_value_with view projection (Suc n) (RFloat x) = eret (VFloat x)"
| "export_value_with view projection (Suc n) (RBuiltinAtom a) = eret (VAtom (Atom_Builtin a))"
| "export_value_with view projection (Suc n) (RAtom i) =
     ebind (elift (view_text view i)) (\<lambda>t. eret (val_atom t))"
| "export_value_with view projection (Suc n) (RShortString i) =
     ebind (elift (view_text view i)) (\<lambda>t. eret (VString t))"
| "export_value_with view projection (Suc n) (RString handle) =
     with_object view handle string_part (\<lambda>t. eret (VString t))"
| "export_value_with view projection (Suc n) (RBytes handle) =
     with_object view handle bytes_part (\<lambda>bs. eret (VBytes bs))"
| "export_value_with view projection (Suc n) (ROpaque handle) =
     with_object view handle opaque_part (\<lambda>p. eret (VOpaque p))"
| "export_value_with view projection (Suc n) (RNativeType handle) =
     with_object view handle native_type_part (\<lambda>t. eret (VNativeType t))"
| "export_value_with view projection (Suc n) (RArray handle) =
     ebind (with_object view handle array_part
       (ecollect (\<lambda>v. export_value_with view projection n (rv_value v))))
       (\<lambda>vs. eret (VArray vs))"
| "export_value_with view projection (Suc n) (RTuple handle) =
     ebind (with_object view handle tuple_part
       (ecollect (\<lambda>v. export_value_with view projection n (rv_value v))))
       (\<lambda>vs. eret (VTuple vs))"
| "export_value_with view projection (Suc n) (RTagged handle) =
     with_object view handle tagged_part (\<lambda>(tag, payload).
       ebind (export_value_with view projection n (rv_value tag)) (\<lambda>t.
       ebind (elift (atom_of_val t)) (\<lambda>a.
       ebind (export_value_with view projection n (rv_value payload)) (\<lambda>p.
       eret (VTagged a p)))))"
| "export_value_with view projection (Suc n) (RDict handle) =
     with_object view handle dict_object_parts (\<lambda>(shape, values).
       ebind (elift (rbind (view_shape view shape) (collect_results (view_text view)))) (\<lambda>fs.
       ebind (ecollect (\<lambda>v. export_value_with view projection n (rv_value v)) values) (\<lambda>vs.
       eret (VDict fs vs))))"
| "export_value_with view projection (Suc n) (RFunc handle) =
     with_object view handle closure_part (\<lambda>(identity, p, upvalues).
       ebind (export_prototype view projection n p) (\<lambda>q.
       ebind (ecollect (\<lambda>v. export_value_with view projection n (rv_value v)) upvalues) (\<lambda>us.
       eret (VFunc identity q us))))"
| "export_value_with view projection (Suc n) (RDyn handle) =
     with_object view handle dyn_part (\<lambda>(identity, d, v, scheme, origin').
       ebind (export_value_with view projection n (rv_value d)) (\<lambda>descriptor.
       ebind (export_value_with view projection n (rv_value v)) (\<lambda>w.
       eret (VDyn identity descriptor w scheme origin'))))"
| "export_value_with view projection (Suc n) (RUpLink handle) =
     ebind (elift (rbind (view_up_link view handle)
       (ok_or (HeapError ''up-link is uninitialized'')))) (\<lambda>linked.
     ebind (elift (if projection = None then Inr False
                   else is_type_metadata_root view (rv_value linked))) (\<lambda>root.
       if root then eret (the projection)
       else ebind (visit_handle handle) (\<lambda>_.
            ebind (export_value_with view projection n (rv_value linked)) (\<lambda>v.
            ebind (leave_object handle) (\<lambda>_. eret v)))))"
| "export_prototype view projection 0 p = efail fuel_error"
| "export_prototype view projection (Suc n) (RP_Native f) = eret (Proto_Native f)"
| "export_prototype view projection (Suc n) (RP_Bytecode handle) =
     with_object view handle proto_part (\<lambda>(code, values, text, prototypes).
       ebind (ecollect (\<lambda>v. export_value_with view projection n (rv_value v)) values) (\<lambda>vs.
       ebind (elift (collect_results (view_text view) text)) (\<lambda>texts.
       ebind (ecollect (\<lambda>q. ebind (export_prototype view projection n q) (\<lambda>x.
           elift (prototype_function x))) prototypes) (\<lambda>protos.
       ebind fresh_address (\<lambda>address.
       eret (Proto_Bytecode (from_linked_parts address code vs texts protos)))))))"

definition export_start :: "address \<Rightarrow> export_state" where
  "export_start next_address = \<lparr> ex_visiting = {}, ex_next = next_address \<rparr>"

definition export_value :: "heap_view \<Rightarrow> address \<Rightarrow> rich_value \<Rightarrow> heap_error + val" where
  "export_value view next_address v =
     fst (export_value_with view None (view_size view + 1) (rv_value v) (export_start next_address))"

definition export_value_projecting_up_links ::
    "heap_view \<Rightarrow> address \<Rightarrow> rich_value \<Rightarrow> val \<Rightarrow> heap_error + val" where
  "export_value_projecting_up_links view next_address v projection =
     fst (export_value_with view (Some projection) (view_size view + 1) (rv_value v)
       (export_start next_address))"

section \<open>Persistent values\<close>

text \<open>A \<open>PersistentValue\<close> is a value of the Main heap.\<close>

type_synonym persistent_value = rich_value

definition main_view :: "heap \<Rightarrow> heap_view" where
  "main_view h = \<lparr> hv_current = h, hv_background = None \<rparr>"

definition export_persistent :: "heap \<Rightarrow> address \<Rightarrow> persistent_value \<Rightarrow> heap_error + val" where
  "export_persistent h next_address v = export_value (main_view h) next_address v"

definition export_persistent_projecting_up_links ::
    "heap \<Rightarrow> address \<Rightarrow> persistent_value \<Rightarrow> val \<Rightarrow> heap_error + val" where
  "export_persistent_projecting_up_links h next_address v projection =
     export_value_projecting_up_links (main_view h) next_address v projection"

fun find_field :: "heap \<Rightarrow> string \<Rightarrow> (intern_id \<times> rich_value) list \<Rightarrow> heap_error + rich_value option"
where
  "find_field h name [] = Inr None"
| "find_field h name ((field, v) # rest) =
     rbind (resolve_text h field) (\<lambda>t. if t = name then Inr (Some v) else find_field h name rest)"

definition persistent_dict_get ::
    "heap \<Rightarrow> persistent_value \<Rightarrow> string \<Rightarrow> heap_error + persistent_value option" where
  "persistent_dict_get h v name =
     (if heap_storage h \<noteq> Main then Inl (HeapError ''persistent values require a Main world'')
      else case rv_value v of
        RDict handle \<Rightarrow>
          rbind (heap_object h handle) (\<lambda>ob. case ob of
              ODict shape values \<Rightarrow>
                rbind (heap_shape h shape) (\<lambda>fs. find_field h name (zip fs values))
            | _ \<Rightarrow> Inl (HeapError ''persistent Dict handle has another object kind''))
      | _ \<Rightarrow> Inl (HeapError ''persistent value is not a Dict''))"

definition value_handle :: "runtime_value \<Rightarrow> handle option" where
  "value_handle v = (case v of
     RString h \<Rightarrow> Some h | RBytes h \<Rightarrow> Some h | RNativeType h \<Rightarrow> Some h | ROpaque h \<Rightarrow> Some h
   | RArray h \<Rightarrow> Some h | RTuple h \<Rightarrow> Some h | RTagged h \<Rightarrow> Some h | RDict h \<Rightarrow> Some h
   | RFunc h \<Rightarrow> Some h | RDyn h \<Rightarrow> Some h | RUpLink h \<Rightarrow> Some h | _ \<Rightarrow> None)"

text \<open>What the walk pushes for an object; \<open>None\<close> means that an up-link has been found.\<close>

definition prototype_values :: "runtime_prototype list \<Rightarrow> runtime_value list" where
  "prototype_values ps =
     concat (map (\<lambda>p. case p of RP_Bytecode h \<Rightarrow> [RFunc h] | RP_Native _ \<Rightarrow> []) ps)"

definition object_pending :: "object \<Rightarrow> heap_error + runtime_value list option" where
  "object_pending ob = (case ob of
     OArray vs \<Rightarrow> Inr (Some (map rv_value vs))
   | OTuple vs \<Rightarrow> Inr (Some (map rv_value vs))
   | OTagged t p \<Rightarrow> Inr (Some [rv_value t, rv_value p])
   | ODict _ vs \<Rightarrow> Inr (Some (map rv_value vs))
   | OClosure _ p us \<Rightarrow> Inr (Some (map rv_value us @ prototype_values [p]))
   | ODyn _ d v _ _ \<Rightarrow> Inr (Some [rv_value d, rv_value v])
   | OByteCodeProto _ vs _ ps \<Rightarrow> Inr (Some (map rv_value vs @ prototype_values ps))
   | OReserved \<Rightarrow> Inl (HeapError ''heap object is uninitialized'')
   | OUpLink _ \<Rightarrow> Inr None
   | _ \<Rightarrow> Inr (Some []))"

text \<open>
  The stack of pending values is a list with its top first; each handle is expanded once, so
  the walk ends after at most as many expansions as the heap has objects.
\<close>

definition unvisited :: "heap \<Rightarrow> handle set \<Rightarrow> nat" where
  "unvisited h visited = card ({Handle (heap_storage h) i | i. i < length (heap_objects h)} - visited)"

function contains_up_link :: "heap \<Rightarrow> runtime_value list \<Rightarrow> handle set \<Rightarrow> heap_error + bool" where
  "contains_up_link h [] visited = Inr False"
| "contains_up_link h (v # pending) visited =
     (if is_up_link v then Inr True
      else case value_handle v of
        None \<Rightarrow> contains_up_link h pending visited
      | Some handle \<Rightarrow>
          if handle \<in> visited then contains_up_link h pending visited
          else (case heap_object h handle of
              Inl e \<Rightarrow> Inl e
            | Inr ob \<Rightarrow> (case object_pending ob of
                Inl e \<Rightarrow> Inl e
              | Inr None \<Rightarrow> Inr True
              | Inr (Some found) \<Rightarrow>
                  contains_up_link h (rev found @ pending) (insert handle visited))))"
  by pat_completeness auto

lemma unvisited_insert:
  assumes "heap_object h handle = Inr ob" and "handle \<notin> visited"
  shows "unvisited h (insert handle visited) < unvisited h visited"
proof -
  let ?all = "{Handle (heap_storage h) i | i. i < length (heap_objects h)}"
  have "?all = Handle (heap_storage h) ` {..<length (heap_objects h)}" by auto
  then have "finite ?all" by (metis finite_imageI finite_lessThan)
  moreover have "handle \<in> ?all"
    using assms(1) by (cases handle) (auto simp: heap_object_def split: if_splits)
  ultimately show ?thesis
    unfolding unvisited_def using assms(2) by (intro psubset_card_mono) auto
qed

termination contains_up_link
  by (relation "measures [\<lambda>(h, pending, visited). unvisited h visited,
        \<lambda>(h, pending, visited). length pending]")
     (auto simp: unvisited_insert)

definition persistent_contains_up_link :: "heap \<Rightarrow> persistent_value \<Rightarrow> heap_error + bool" where
  "persistent_contains_up_link h v = contains_up_link h [rv_value v] {}"

end
