(* ===== verification/Publish.thy ===== *)
theory Publish
  imports Heap_View
begin

text \<open>
  Publication (\<open>PendingCopy\<close>, \<open>publish_root\<close> and \<open>publish_value\<close> of
  \<open>crates/telora-core/src/heap.rs\<close>): the objects a Work value reaches are copied to the end of
  the Main heap, which is only written by the final commit. Each Work handle, text and shape is
  copied once and forwarded from then on, so shared and cyclic structure is kept. The recursion of
  \<open>copy_object\<close> is bounded by a fuel larger than the number of Work objects, each of which is
  entered once.
\<close>

record pending_copy =
  pc_target_storage :: storage
  pc_object_base :: nat
  pc_objects :: "object list"
  pc_text_base :: nat
  pc_text :: text_table
  pc_shape_base :: nat
  pc_shapes :: "intern_id list list"
  pc_objects_forwarded :: "handle \<rightharpoonup> handle"
  pc_text_forwarded :: "intern_id \<rightharpoonup> intern_id"
  pc_shapes_forwarded :: "shape_id \<rightharpoonup> shape_id"

definition pending_copy_new :: "heap \<Rightarrow> pending_copy" where
  "pending_copy_new target =
     \<lparr> pc_target_storage = heap_storage target,
       pc_object_base = as_u32 (length (heap_objects target)), pc_objects = [],
       pc_text_base = as_u32 (length (tt_values (heap_text target))), pc_text = text_table_default,
       pc_shape_base = as_u32 (length (heap_shapes target)), pc_shapes = [],
       pc_objects_forwarded = Map.empty, pc_text_forwarded = Map.empty,
       pc_shapes_forwarded = Map.empty \<rparr>"

type_synonym 'a copying = "(pending_copy, heap_error, 'a) eff"

definition copy_text :: "heap \<Rightarrow> heap_view \<Rightarrow> intern_id \<Rightarrow> intern_id copying" where
  "copy_text target source i =
     ebind (eget pc_target_storage) (\<lambda>storage.
     if iid_storage i = storage then
       ebind (elift (resolve_text target i)) (\<lambda>_. eret i)
     else ebind (eget (\<lambda>s. pc_text_forwarded s i)) (\<lambda>known. case known of
       Some j \<Rightarrow> eret j
     | None \<Rightarrow>
         ebind (elift (view_text source i)) (\<lambda>text.
         ebind (case find_text target text of
             Some j \<Rightarrow> eret j
           | None \<Rightarrow> estate (\<lambda>s. case text_insert text (pc_text s) of (slot, t) \<Rightarrow>
               (InternId storage (as_u32 (pc_text_base s + slot)), s\<lparr> pc_text := t \<rparr>)))
           (\<lambda>j.
         ebind (emodify (\<lambda>s. s\<lparr> pc_text_forwarded := (pc_text_forwarded s)(i \<mapsto> j) \<rparr>)) (\<lambda>_.
         eret j)))))"

definition copy_shape :: "heap \<Rightarrow> heap_view \<Rightarrow> shape_id \<Rightarrow> shape_id copying" where
  "copy_shape target source i =
     ebind (eget pc_target_storage) (\<lambda>storage.
     if sid_storage i = storage then
       ebind (elift (heap_shape target i)) (\<lambda>_. eret i)
     else ebind (eget (\<lambda>s. pc_shapes_forwarded s i)) (\<lambda>known. case known of
       Some j \<Rightarrow> eret j
     | None \<Rightarrow>
         ebind (elift (view_shape source i)) (\<lambda>source_fields.
         ebind (ecollect (copy_text target source) source_fields) (\<lambda>fs.
         ebind (case heap_shape_slots target fs of
             Some slot \<Rightarrow> eret (ShapeId storage slot)
           | None \<Rightarrow> estate (\<lambda>s. case position (\<lambda>shape. shape = fs) (pc_shapes s) of
               Some index \<Rightarrow> (ShapeId storage (as_u32 (pc_shape_base s + as_u32 index)), s)
             | None \<Rightarrow> (ShapeId storage (as_u32 (pc_shape_base s + as_u32 (length (pc_shapes s)))),
                 s\<lparr> pc_shapes := pc_shapes s @ [fs] \<rparr>)))
           (\<lambda>j.
         ebind (emodify (\<lambda>s. s\<lparr> pc_shapes_forwarded := (pc_shapes_forwarded s)(i \<mapsto> j) \<rparr>)) (\<lambda>_.
         eret j))))))"

text \<open>The graph walk, over the function that copies one object.\<close>

type_synonym object_copier = "handle \<Rightarrow> handle copying"

definition copy_value :: "heap \<Rightarrow> heap_view \<Rightarrow> object_copier \<Rightarrow> rich_value \<Rightarrow> rich_value copying" where
  "copy_value target source copy v =
     ebind (case rv_value v of
         RInt n \<Rightarrow> eret (RInt n)
       | RFloat x \<Rightarrow> eret (RFloat x)
       | RBuiltinAtom a \<Rightarrow> eret (RBuiltinAtom a)
       | RAtom i \<Rightarrow> ebind (copy_text target source i) (\<lambda>j. eret (RAtom j))
       | RShortString i \<Rightarrow> ebind (copy_text target source i) (\<lambda>j. eret (RShortString j))
       | RString h \<Rightarrow> ebind (copy h) (\<lambda>c. eret (RString c))
       | RBytes h \<Rightarrow> ebind (copy h) (\<lambda>c. eret (RBytes c))
       | RNativeType h \<Rightarrow> ebind (copy h) (\<lambda>c. eret (RNativeType c))
       | ROpaque h \<Rightarrow> ebind (copy h) (\<lambda>c. eret (ROpaque c))
       | RArray h \<Rightarrow> ebind (copy h) (\<lambda>c. eret (RArray c))
       | RTuple h \<Rightarrow> ebind (copy h) (\<lambda>c. eret (RTuple c))
       | RTagged h \<Rightarrow> ebind (copy h) (\<lambda>c. eret (RTagged c))
       | RDict h \<Rightarrow> ebind (copy h) (\<lambda>c. eret (RDict c))
       | RFunc h \<Rightarrow> ebind (copy h) (\<lambda>c. eret (RFunc c))
       | RDyn h \<Rightarrow> ebind (copy h) (\<lambda>c. eret (RDyn c))
       | RUpLink h \<Rightarrow> ebind (copy h) (\<lambda>c. eret (RUpLink c)))
       (\<lambda>copied. eret (rich_with_value v copied))"

definition copy_prototype :: "object_copier \<Rightarrow> runtime_prototype \<Rightarrow> runtime_prototype copying" where
  "copy_prototype copy p = (case p of
     RP_Bytecode h \<Rightarrow> ebind (copy h) (\<lambda>c. eret (RP_Bytecode c))
   | RP_Native f \<Rightarrow> eret (RP_Native f))"

definition copy_object_data :: "heap \<Rightarrow> heap_view \<Rightarrow> object_copier \<Rightarrow> object \<Rightarrow> object copying" where
  "copy_object_data target source copy ob =
     (let value = copy_value target source copy; values = ecollect (copy_value target source copy)
      in case ob of
        OReserved \<Rightarrow> efail (HeapError ''cannot copy an uninitialized object'')
      | OString t \<Rightarrow> eret (OString t)
      | OBytes bs \<Rightarrow> eret (OBytes bs)
      | OOpaque p \<Rightarrow> eret (OOpaque p)
      | ONativeType t \<Rightarrow> eret (ONativeType t)
      | OArray vs \<Rightarrow> ebind (values vs) (\<lambda>xs. eret (OArray xs))
      | OTuple vs \<Rightarrow> ebind (values vs) (\<lambda>xs. eret (OTuple xs))
      | OTagged t p \<Rightarrow> ebind (value t) (\<lambda>t'. ebind (value p) (\<lambda>p'. eret (OTagged t' p')))
      | ODict shape vs \<Rightarrow>
          ebind (copy_shape target source shape) (\<lambda>shape'.
          ebind (values vs) (\<lambda>xs. eret (ODict shape' xs)))
      | OClosure identity p us \<Rightarrow>
          ebind (copy_prototype copy p) (\<lambda>p'.
          ebind (values us) (\<lambda>xs. eret (OClosure identity p' xs)))
      | ODyn identity d v scheme origin' \<Rightarrow>
          ebind (value d) (\<lambda>d'. ebind (value v) (\<lambda>v'. eret (ODyn identity d' v' scheme origin')))
      | OUpLink v \<Rightarrow>
          ebind (elift (ok_or (HeapError ''cannot publish an uninitialized up-link'') v)) (\<lambda>w.
          ebind (value w) (\<lambda>w'. eret (OUpLink (Some w'))))
      | OByteCodeProto code vs texts protos \<Rightarrow>
          ebind (values vs) (\<lambda>xs.
          ebind (ecollect (copy_text target source) texts) (\<lambda>ts.
          ebind (ecollect (copy_prototype copy) protos) (\<lambda>ps.
          eret (OByteCodeProto code xs ts ps)))))"

fun copy_object :: "heap \<Rightarrow> heap_view \<Rightarrow> nat \<Rightarrow> object_copier" where
  "copy_object target source 0 handle = efail fuel_error"
| "copy_object target source (Suc n) handle =
     ebind (eget pc_target_storage) (\<lambda>storage.
     if hd_storage handle = storage then
       ebind (elift (heap_object target handle)) (\<lambda>_. eret handle)
     else ebind (eget (\<lambda>s. pc_objects_forwarded s handle)) (\<lambda>known. case known of
       Some copied \<Rightarrow> eret copied
     | None \<Rightarrow>
         ebind (elift (view_object source handle)) (\<lambda>ob.
         if ob = OReserved then efail (HeapError ''cannot copy an uninitialized object'')
         else
           ebind (eget (\<lambda>s. length (pc_objects s))) (\<lambda>index.
           ebind (eget (\<lambda>s. Handle storage (as_u32 (pc_object_base s + as_u32 index)))) (\<lambda>copied.
           ebind (emodify (\<lambda>s. s\<lparr>
               pc_objects_forwarded := (pc_objects_forwarded s)(handle \<mapsto> copied),
               pc_objects := pc_objects s @ [OReserved] \<rparr>)) (\<lambda>_.
           ebind (copy_object_data target source (copy_object target source n) ob) (\<lambda>data.
           ebind (emodify (\<lambda>s. s\<lparr>
               pc_objects := (pc_objects s)[hd_slot copied - pc_object_base s := data] \<rparr>)) (\<lambda>_.
           eret copied))))))))"

section \<open>Validation and commit\<close>

definition value_contains_foreign :: "storage \<Rightarrow> runtime_value \<Rightarrow> bool" where
  "value_contains_foreign target v = (case v of
     RAtom i \<Rightarrow> iid_storage i \<noteq> target
   | RShortString i \<Rightarrow> iid_storage i \<noteq> target
   | _ \<Rightarrow> (case value_handle v of Some h \<Rightarrow> hd_storage h \<noteq> target | None \<Rightarrow> False))"

definition rich_contains_foreign :: "storage \<Rightarrow> rich_value \<Rightarrow> bool" where
  "rich_contains_foreign target v = value_contains_foreign target (rv_value v)"

definition prototype_foreign :: "storage \<Rightarrow> runtime_prototype \<Rightarrow> bool" where
  "prototype_foreign target p = (case p of RP_Bytecode h \<Rightarrow> hd_storage h \<noteq> target | RP_Native _ \<Rightarrow> False)"

definition object_contains_foreign :: "storage \<Rightarrow> object \<Rightarrow> bool" where
  "object_contains_foreign target ob = (case ob of
     OReserved \<Rightarrow> True
   | OArray vs \<Rightarrow> list_ex (rich_contains_foreign target) vs
   | OTuple vs \<Rightarrow> list_ex (rich_contains_foreign target) vs
   | OTagged t p \<Rightarrow> rich_contains_foreign target t \<or> rich_contains_foreign target p
   | ODict shape vs \<Rightarrow> sid_storage shape \<noteq> target \<or> list_ex (rich_contains_foreign target) vs
   | OClosure _ _ us \<Rightarrow> list_ex (rich_contains_foreign target) us
   | ODyn _ d v _ _ \<Rightarrow> rich_contains_foreign target d \<or> rich_contains_foreign target v
   | OUpLink v \<Rightarrow> (case v of None \<Rightarrow> True | Some w \<Rightarrow> rich_contains_foreign target w)
   | OByteCodeProto _ vs texts protos \<Rightarrow>
       list_ex (rich_contains_foreign target) vs \<or> list_ex (\<lambda>i. iid_storage i \<noteq> target) texts \<or>
       list_ex (prototype_foreign target) protos
   | _ \<Rightarrow> False)"

definition pending_validate :: "pending_copy \<Rightarrow> heap_error + unit" where
  "pending_validate s =
     (if list_ex (object_contains_foreign (pc_target_storage s)) (pc_objects s) then
        Inl (HeapError ''copied object graph is not target-self-contained'')
      else Inr ())"

definition pending_commit :: "pending_copy \<Rightarrow> heap \<Rightarrow> heap" where
  "pending_commit s target =
     (let with_objects = target\<lparr> heap_objects := heap_objects target @ pc_objects s \<rparr>;
          with_text = with_objects\<lparr> heap_text :=
            foldl (\<lambda>t text. snd (text_insert text t)) (heap_text target) (tt_values (pc_text s)) \<rparr>
      in foldl (\<lambda>h shape. snd (intern_shape shape h)) with_text (pc_shapes s))"

definition copy_roots ::
    "heap \<Rightarrow> heap_view \<Rightarrow> rich_value list \<Rightarrow> heap_error + rich_value list \<times> heap" where
  "copy_roots target source roots =
     (let fuel = view_size source + 1 in
      case ecollect (copy_value target source (copy_object target source fuel)) roots
             (pending_copy_new target) of
        (Inl e, _) \<Rightarrow> Inl e
      | (Inr copied, s) \<Rightarrow>
          rbind (pending_validate s) (\<lambda>_. Inr (copied, pending_commit s target)))"

text \<open>On an error the target is as it was, so only success returns a heap.\<close>

definition publish_root :: "heap \<Rightarrow> heap \<Rightarrow> rich_value \<Rightarrow> heap_error + persistent_value \<times> heap" where
  "publish_root target current v =
     (if heap_storage target \<noteq> Main \<or> heap_storage current \<noteq> Work then
        Inl (HeapError ''publication requires a Work world and Main world'')
      else
        rbind (copy_roots target \<lparr> hv_current = current, hv_background = None \<rparr> [v])
          (\<lambda>(roots, target'). Inr (roots ! 0, target')))"

definition publish_value :: "heap \<Rightarrow> val \<Rightarrow> heap_error + persistent_value \<times> heap" where
  "publish_value target x =
     (case import_value (Some target) x heap_work of
        (Inl e, _) \<Rightarrow> Inl e
      | (Inr v, local) \<Rightarrow> publish_root target local v)"

end
