(* ===== verification/Query.thy ===== *)
theory Query
  imports Prelude
begin

text \<open>
  Cancellation of running queries (\<open>crates/telora-core/src/query.rs\<close>). The cancellation flag and
  the revision clock are shared with other threads, so a check is a function of what it reads
  from them: an observation is the flag and the clock at the moment of the check.
\<close>

type_synonym revision = u64

record observation =
  ob_cancelled :: bool
  ob_current :: revision

record query_context =
  qc_revision :: revision

datatype query_error =
    QE_Cancelled
  | QE_StaleRevision revision revision
  | QE_SnapshotRevision revision revision

fun query_error_message :: "query_error \<Rightarrow> string" where
  "query_error_message QE_Cancelled = ''query cancelled''"
| "query_error_message (QE_StaleRevision requested current) =
     ''query revision '' @ show_nat (unat requested) @ '' is stale; current revision is '' @
     show_nat (unat current)"
| "query_error_message (QE_SnapshotRevision requested snapshot) =
     ''query revision '' @ show_nat (unat requested) @ '' does not match snapshot revision '' @
     show_nat (unat snapshot)"


definition query_check :: "query_context \<Rightarrow> observation \<Rightarrow> query_error + unit" where
  "query_check q ob =
     (if ob_cancelled ob then Inl QE_Cancelled
      else if ob_current ob \<noteq> qc_revision q then
        Inl (QE_StaleRevision (qc_revision q) (ob_current ob))
      else Inr ())"

text \<open>A checkpoint yields once; the flag and the clock are read again when it is resumed.\<close>

definition query_checkpoint :: "query_context \<Rightarrow> observation \<Rightarrow> observation \<Rightarrow> query_error + unit" where
  "query_checkpoint q before resumed = rbind (query_check q before) (\<lambda>_. query_check q resumed)"




end
