(* ===== verification/Machine.thy ===== *)
theory Machine
  imports Publish Query
begin

text \<open>
  The state of the virtual machine (\<open>crates/telora-core/src/vm.rs\<close>): quotas and their account,
  run-time errors with their trace, call frames, the continuations of native functions that call
  back, and the register operations of the active frame.

  The frames and the native continuations are lists and trees whose head is the innermost one
  (the code pushes at the end of a vector). The functions of frames are their \<open>FuncByteCode\<close>:
  the machine only reads code, name and origins of them and takes links from the heap object of
  the prototype. A place where the code would panic (an index out of range, \<open>expect\<close>,
  \<open>unreachable!\<close>) is the failure \<open>VmPanic\<close>.
\<close>

section \<open>Quotas\<close>

definition MAX_CALL_DEPTH :: nat where
  "MAX_CALL_DEPTH = 1024"

definition MAX_STACK_SLOTS :: nat where
  "MAX_STACK_SLOTS = 1048576"

record quota =
  quota_fuel :: nat
  quota_stack_slots :: nat
  quota_allocation_bytes :: nat

definition quota_with_fuel :: "nat \<Rightarrow> quota" where
  "quota_with_fuel fuel =
     \<lparr> quota_fuel = fuel, quota_stack_slots = MAX_STACK_SLOTS,
       quota_allocation_bytes = usize_max \<rparr>"

text \<open>\<open>qa_checks\<close> counts the query checks made so far; it selects what the next one observes.\<close>

record quota_account =
  qa_quota :: quota
  qa_remaining_fuel :: nat
  qa_requested_allocation_bytes :: nat
  qa_query :: "query_context option"
  qa_checks :: nat
  qa_diagnostics :: "diagnostic list"

definition account_new :: "quota \<Rightarrow> quota_account" where
  "account_new q =
     \<lparr> qa_quota = q, qa_remaining_fuel = quota_fuel q, qa_requested_allocation_bytes = 0,
       qa_query = None, qa_checks = 0, qa_diagnostics = [] \<rparr>"

definition account_with_query :: "query_context \<Rightarrow> quota_account \<Rightarrow> quota_account" where
  "account_with_query query a = a\<lparr> qa_query := Some query \<rparr>"

definition take_diagnostics :: "quota_account \<Rightarrow> diagnostic list \<times> quota_account" where
  "take_diagnostics a = (qa_diagnostics a, a\<lparr> qa_diagnostics := [] \<rparr>)"

definition stack_limit :: "quota_account \<Rightarrow> nat" where
  "stack_limit a = min (quota_stack_slots (qa_quota a)) MAX_STACK_SLOTS"

definition account_charge :: "nat \<Rightarrow> quota_account \<Rightarrow> quota_account option" where
  "account_charge bytes a =
     Option.bind (checked_add_usize (qa_requested_allocation_bytes a) bytes) (\<lambda>requested.
       if quota_allocation_bytes (qa_quota a) < requested then None
       else Some (a\<lparr> qa_requested_allocation_bytes := requested \<rparr>))"

section \<open>Errors\<close>

datatype runtime_error_kind =
    EK_Cancelled | EK_FuelExhausted | EK_AllocationQuotaExceeded | EK_CallDepthExceeded
  | EK_DivisionByZero | EK_IntegerOverflow | EK_InvalidBytecode | EK_MissingField
  | EK_NoPatternMatched | EK_Panic | EK_ReportedDiagnostic | EK_RaisedBlame
  | EK_StackLimitExceeded | EK_TypeMismatch | EK_UninitializedDefinition | EK_DuplicateDefinition

datatype failure_class = Recoverable | Terminal

definition kind_class :: "runtime_error_kind \<Rightarrow> failure_class" where
  "kind_class k =
     (if k \<in> {EK_Cancelled, EK_FuelExhausted, EK_AllocationQuotaExceeded, EK_CallDepthExceeded,
              EK_InvalidBytecode, EK_StackLimitExceeded}
      then Terminal else Recoverable)"

record runtime_frame =
  rf_function :: string
  rf_instruction :: nat
  rf_origin :: "origin option"

record runtime_error =
  re_kind :: runtime_error_kind
  re_message :: string
  re_function :: string
  re_instruction :: nat
  re_trace :: "runtime_frame list"
  re_locations :: "(loc option \<times> loc option) option"
  re_rendered :: "string option"
  re_trace_includes_active_frame :: bool

definition vm_error :: "runtime_error_kind \<Rightarrow> string \<Rightarrow> func_byte_code \<Rightarrow> nat \<Rightarrow> runtime_error" where
  "vm_error kind message code pc =
     \<lparr> re_kind = kind, re_message = message, re_function = code_name code, re_instruction = pc,
       re_trace = [\<lparr> rf_function = code_name code, rf_instruction = pc,
                     rf_origin = code_origin_at code pc \<rparr>],
       re_locations = None, re_rendered = None, re_trace_includes_active_frame = True \<rparr>"

definition error_data_location :: "runtime_error \<Rightarrow> loc option" where
  "error_data_location e = (case re_locations e of None \<Rightarrow> None | Some (d, _) \<Rightarrow> d)"

definition error_rule_location :: "runtime_error \<Rightarrow> loc option" where
  "error_rule_location e = (case re_locations e of None \<Rightarrow> None | Some (_, r) \<Rightarrow> r)"

definition set_locations :: "loc option \<Rightarrow> loc option \<Rightarrow> runtime_error \<Rightarrow> runtime_error" where
  "set_locations data rule e =
     e\<lparr> re_locations := (if data \<noteq> None \<or> rule \<noteq> None then Some (data, rule) else None) \<rparr>"

definition set_data_location :: "loc option \<Rightarrow> runtime_error \<Rightarrow> runtime_error" where
  "set_data_location data e = set_locations data (error_rule_location e) e"

definition error_origin :: "runtime_error \<Rightarrow> origin option" where
  "error_origin e = (case re_trace e of [] \<Rightarrow> None | f # _ \<Rightarrow> rf_origin f)"

text \<open>The diagnostic of an error points at the data first, then at the rule or the operation.\<close>

definition error_diagnostic :: "runtime_error \<Rightarrow> diagnostic option" where
  "error_diagnostic e =
     (let operation = (case error_origin e of
            Some (Origin_Source l) \<Rightarrow> Some l
          | Some (Origin_Synthetic derived) \<Rightarrow> derived
          | None \<Rightarrow> None);
          rule = (case error_rule_location e of Some l \<Rightarrow> Some l | None \<Rightarrow> operation);
          secondary = (if error_rule_location e \<noteq> None then ''contract rule declared here''
                       else ''operation originated here'')
      in case (error_data_location e, rule) of
          (Some data, Some r) \<Rightarrow>
            if data \<noteq> r then
              Some (diagnostic_with_secondary (diagnostic_error (re_message e) data) secondary r)
            else Some (diagnostic_error (re_message e) data)
        | (Some data, None) \<Rightarrow> Some (diagnostic_error (re_message e) data)
        | (None, Some r) \<Rightarrow> Some (diagnostic_error (re_message e) r)
        | (None, None) \<Rightarrow> None)"

datatype native_limit = NL_Stack | NL_Allocation

record native_error =
  ne_message :: string
  ne_limit :: "native_limit option"

definition native_runtime_error ::
    "native_function \<Rightarrow> native_error \<Rightarrow> func_byte_code \<Rightarrow> nat \<Rightarrow> runtime_error" where
  "native_runtime_error native e code pc =
     vm_error (case ne_limit e of
         Some NL_Stack \<Rightarrow> EK_StackLimitExceeded
       | Some NL_Allocation \<Rightarrow> EK_AllocationQuotaExceeded
       | None \<Rightarrow> EK_TypeMismatch)
       (native_name native @ '': '' @ ne_message e) code pc"

section \<open>Frames and continuations\<close>

record array_state =
  as_function :: core_array
  as_source :: rich_value
  as_callback :: rich_value
  as_next_index :: nat
  as_accumulator :: "rich_value option"
  as_output :: "rich_value list"
  as_call_function :: func_byte_code
  as_call_pc :: nat
  as_trace_frame :: runtime_frame

record dict_state =
  ds_function :: core_dict
  ds_entries :: "(string \<times> rich_value) list"
  ds_callback :: rich_value
  ds_next_index :: nat
  ds_accumulator :: "rich_value option"
  ds_output :: "(string \<times> rich_value) list"
  ds_call_function :: func_byte_code
  ds_call_pc :: nat
  ds_trace_frame :: runtime_frame

datatype (plugins only: code size) return_target =
    RT_Root
  | RT_Register register "loc option"
  | RT_Native continuation
and continuation =
    ArrayContinuation array_state return_target
  | DictContinuation dict_state return_target

fun continuation_return_target :: "continuation \<Rightarrow> return_target" where
  "continuation_return_target (ArrayContinuation _ t) = t"
| "continuation_return_target (DictContinuation _ t) = t"

fun continuation_trace_frame :: "continuation \<Rightarrow> runtime_frame" where
  "continuation_trace_frame (ArrayContinuation s _) = as_trace_frame s"
| "continuation_trace_frame (DictContinuation s _) = ds_trace_frame s"

fun native_depth :: "return_target \<Rightarrow> nat" where
  "native_depth RT_Root = 0"
| "native_depth (RT_Register _ _) = 0"
| "native_depth (RT_Native (ArrayContinuation _ t)) = 1 + native_depth t"
| "native_depth (RT_Native (DictContinuation _ t)) = 1 + native_depth t"

text \<open>\<open>append_native_trace\<close>: the frames it appends.\<close>

fun native_trace :: "return_target \<Rightarrow> runtime_frame list" where
  "native_trace RT_Root = []"
| "native_trace (RT_Register _ _) = []"
| "native_trace (RT_Native (ArrayContinuation s t)) = as_trace_frame s # native_trace t"
| "native_trace (RT_Native (DictContinuation s t)) = ds_trace_frame s # native_trace t"

definition push_trace :: "runtime_frame list \<Rightarrow> runtime_error \<Rightarrow> runtime_error" where
  "push_trace fs e = e\<lparr> re_trace := re_trace e @ fs \<rparr>"

record execution_frame =
  fr_function :: func_byte_code
  fr_prototype :: handle
  fr_base :: nat
  fr_pc :: nat
  fr_return_target :: return_target

datatype vm_action =
    Act_Call rich_value "rich_value list" return_target func_byte_code nat
  | Act_Return rich_value return_target

datatype drive_outcome = Pending | Root rich_value

section \<open>The machine\<close>

text \<open>
  \<open>m_frames\<close> is the frame stack, active frame first; \<open>m_stack\<close> the register stack, oldest slot
  first; \<open>m_heap\<close> the Work heap; \<open>m_next_identity\<close> the next allocation of an \<open>Arc<()>\<close>.
\<close>

record machine =
  m_frames :: "execution_frame list"
  m_stack :: "rich_value option list"
  m_heap :: heap
  m_account :: quota_account
  m_next_identity :: identity

datatype vm_failure = VmError runtime_error | VmPanic

type_synonym 'a exec = "(machine, vm_failure, 'a) eff"

text \<open>
  What a native operation can change: it runs with the heap, the allocation account, the
  diagnostics and the identities, but not with fuel, frames or registers.
\<close>

record native_state =
  ns_heap :: heap
  ns_requested :: nat
  ns_limit :: nat
  ns_diagnostics :: "diagnostic list"
  ns_next_identity :: identity

text \<open>
  What the machine takes from outside: the Main heap, the sizes the compiler gives to \<open>Value\<close> and
  \<open>RichValue\<close>, what each query check observes, the escaping of \<open>Debug\<close> for strings (it rests on
  Unicode tables), host callbacks with the register slots left to them, and the native
  operations of the machine that this development does not model.
\<close>

record environment =
  env_background :: heap
  env_value_size :: nat
  env_rich_value_size :: nat
  env_observe :: "nat \<Rightarrow> observation"
  env_debug_str :: "string \<Rightarrow> string"
  env_callback ::
    "nat \<Rightarrow> rich_value list \<Rightarrow> rich_value list \<Rightarrow> nat \<Rightarrow> (native_state, native_error, rich_value option) eff"
  env_native ::
    "native_kind \<Rightarrow> rich_value list \<Rightarrow> rich_value list \<Rightarrow> func_byte_code \<Rightarrow> nat \<Rightarrow>
      (native_state, runtime_error, rich_value) eff"

definition fail :: "runtime_error_kind \<Rightarrow> string \<Rightarrow> func_byte_code \<Rightarrow> nat \<Rightarrow> 'a exec" where
  "fail kind message code pc = efail (VmError (vm_error kind message code pc))"

definition panic :: "'a exec" where
  "panic = efail VmPanic"

definition view_of :: "environment \<Rightarrow> machine \<Rightarrow> heap_view" where
  "view_of env m = \<lparr> hv_current = m_heap m, hv_background = Some (env_background env) \<rparr>"

fun heap_error_message :: "heap_error \<Rightarrow> string" where
  "heap_error_message (HeapError s) = s"

definition heap_vm_error :: "heap_error \<Rightarrow> func_byte_code \<Rightarrow> nat \<Rightarrow> runtime_error" where
  "heap_vm_error e code pc = vm_error EK_InvalidBytecode (heap_error_message e) code pc"

text \<open>A read of the heaps, its error turned into \<open>InvalidBytecode\<close>.\<close>

definition read_heap ::
    "environment \<Rightarrow> func_byte_code \<Rightarrow> nat \<Rightarrow> (heap_view \<Rightarrow> heap_error + 'a) \<Rightarrow> 'a exec" where
  "read_heap env code pc f =
     ebind (eget (\<lambda>m. f (view_of env m))) (\<lambda>r.
       elift (map_err (\<lambda>e. VmError (heap_vm_error e code pc)) r))"

definition on_work_heap :: "(heap \<Rightarrow> 'a \<times> heap) \<Rightarrow> 'a exec" where
  "on_work_heap f = estate (\<lambda>m. case f (m_heap m) of (x, h) \<Rightarrow> (x, m\<lparr> m_heap := h \<rparr>))"

definition fresh_identity :: "identity exec" where
  "fresh_identity =
     estate (\<lambda>m. (m_next_identity m, m\<lparr> m_next_identity := Suc (m_next_identity m) \<rparr>))"

section \<open>Charges\<close>

definition allocation_error :: "string \<Rightarrow> func_byte_code \<Rightarrow> nat \<Rightarrow> 'a exec" where
  "allocation_error message code pc = fail EK_AllocationQuotaExceeded message code pc"

definition charge_allocation :: "nat \<Rightarrow> func_byte_code \<Rightarrow> nat \<Rightarrow> unit exec" where
  "charge_allocation bytes code pc =
     ebind (eget m_account) (\<lambda>a. case account_charge bytes a of
         None \<Rightarrow> allocation_error (''allocation quota of '' @
           show_nat (quota_allocation_bytes (qa_quota a)) @ '' bytes exceeded'') code pc
       | Some a' \<Rightarrow> emodify (\<lambda>m. m\<lparr> m_account := a' \<rparr>))"

definition logical_value_bytes :: "environment \<Rightarrow> nat \<Rightarrow> func_byte_code \<Rightarrow> nat \<Rightarrow> nat exec" where
  "logical_value_bytes env count code pc =
     (case checked_mul_usize count (env_value_size env) of
        None \<Rightarrow> allocation_error ''allocation size overflowed'' code pc
      | Some bytes \<Rightarrow> eret bytes)"

definition charge_values :: "environment \<Rightarrow> nat \<Rightarrow> func_byte_code \<Rightarrow> nat \<Rightarrow> unit exec" where
  "charge_values env count code pc =
     ebind (logical_value_bytes env count code pc) (\<lambda>bytes. charge_allocation bytes code pc)"

definition consume_fuel :: "environment \<Rightarrow> func_byte_code \<Rightarrow> nat \<Rightarrow> unit exec" where
  "consume_fuel env code pc =
     ebind (eget (\<lambda>m. qa_query (m_account m))) (\<lambda>query.
     ebind (case query of
         None \<Rightarrow> eret ()
       | Some q \<Rightarrow>
           ebind (estate (\<lambda>m. (env_observe env (qa_checks (m_account m)),
               m\<lparr> m_account := (m_account m)\<lparr> qa_checks := Suc (qa_checks (m_account m)) \<rparr> \<rparr>))) (\<lambda>ob.
           case query_check q ob of
             Inl e \<Rightarrow> fail EK_Cancelled (query_error_message e) code pc
           | Inr _ \<Rightarrow> eret ())) (\<lambda>_.
     ebind (eget (\<lambda>m. qa_remaining_fuel (m_account m))) (\<lambda>fuel.
       if fuel = 0 then fail EK_FuelExhausted ''evaluation fuel exhausted'' code pc
       else emodify (\<lambda>m. m\<lparr> m_account := (m_account m)\<lparr> qa_remaining_fuel := fuel - 1 \<rparr> \<rparr>))))"

section \<open>Registers\<close>

definition read_register ::
    "rich_value option list \<Rightarrow> register \<Rightarrow> func_byte_code \<Rightarrow> nat \<Rightarrow> vm_failure + rich_value" where
  "read_register registers r code pc =
     (case nth_opt registers r of
        None \<Rightarrow> Inl (VmError (vm_error EK_InvalidBytecode
          (''register '' @ show_nat r @ '' is out of bounds'') code pc))
      | Some None \<Rightarrow> Inl (VmError (vm_error EK_InvalidBytecode
          (''register '' @ show_nat r @ '' is uninitialized'') code pc))
      | Some (Some v) \<Rightarrow> Inr v)"

text \<open>The registers of a frame are a window of the stack.\<close>

definition frame_registers :: "execution_frame \<Rightarrow> machine \<Rightarrow> rich_value option list" where
  "frame_registers frame m =
     take (code_register_count (fr_function frame)) (drop (fr_base frame) (m_stack m))"

definition get_register :: "execution_frame \<Rightarrow> register \<Rightarrow> rich_value exec" where
  "get_register frame r =
     ebind (eget (frame_registers frame)) (\<lambda>registers.
       elift (read_register registers r (fr_function frame) (fr_pc frame)))"

definition get_registers :: "execution_frame \<Rightarrow> register list \<Rightarrow> rich_value list exec" where
  "get_registers frame rs = ecollect (get_register frame) rs"

definition write_register ::
    "execution_frame \<Rightarrow> register \<Rightarrow> rich_value \<Rightarrow> func_byte_code \<Rightarrow> nat \<Rightarrow> unit exec" where
  "write_register frame r v code pc =
     ebind (eget (\<lambda>m. length (frame_registers frame m))) (\<lambda>n.
       if r < n then emodify (\<lambda>m. m\<lparr> m_stack := (m_stack m)[fr_base frame + r := Some v] \<rparr>)
       else fail EK_InvalidBytecode (''register '' @ show_nat r @ '' is out of bounds'') code pc)"

definition set_register :: "execution_frame \<Rightarrow> register \<Rightarrow> rich_value \<Rightarrow> unit exec" where
  "set_register frame r v = write_register frame r v (fr_function frame) (fr_pc frame)"

text \<open>\<open>read_call_arguments\<close>: the window after the callee, checked before it is read.\<close>

definition read_call_arguments :: "execution_frame \<Rightarrow> register \<Rightarrow> nat \<Rightarrow> rich_value list exec" where
  "read_call_arguments frame base argument_count =
     (let code = fr_function frame; pc = fr_pc frame in
      case Option.bind (checked_add_usize base 1) (\<lambda>start.
             map_option (\<lambda>end'. (start, end')) (checked_add_usize start argument_count)) of
        None \<Rightarrow> fail EK_InvalidBytecode ''call window overflows'' code pc
      | Some (start, end') \<Rightarrow>
          ebind (eget (frame_registers frame)) (\<lambda>registers.
          if length registers < end' then
            fail EK_InvalidBytecode ''call window is out of bounds'' code pc
          else ecollect (\<lambda>(index, slot). case slot of
              Some v \<Rightarrow> eret v
            | None \<Rightarrow> fail EK_InvalidBytecode
                (''call argument register '' @ show_nat (start + index) @ '' is uninitialized'')
                code pc)
            (enumerate 0 (take argument_count (drop start registers)))))"

section \<open>Type errors\<close>

definition runtime_bool :: "bool \<Rightarrow> rich_value" where
  "runtime_bool b = rich_unknown (RBuiltinAtom (if b then BA_True else BA_False))"

definition type_error :: "string \<Rightarrow> val \<Rightarrow> func_byte_code \<Rightarrow> nat \<Rightarrow> runtime_error" where
  "type_error expected actual code pc =
     vm_error EK_TypeMismatch (''expected '' @ expected @ '', got '' @ val_type_name actual) code pc"

text \<open>The exported value is only named, so the addresses of exported functions do not matter.\<close>

definition runtime_type_error ::
    "string \<Rightarrow> rich_value \<Rightarrow> heap_view \<Rightarrow> func_byte_code \<Rightarrow> nat \<Rightarrow> runtime_error" where
  "runtime_type_error expected actual view code pc =
     set_data_location (rich_loc actual)
       (case export_value view 0 actual of
          Inr v \<Rightarrow> type_error expected v code pc
        | Inl e \<Rightarrow> heap_vm_error e code pc)"

definition fail_type :: "environment \<Rightarrow> string \<Rightarrow> rich_value \<Rightarrow> func_byte_code \<Rightarrow> nat \<Rightarrow> 'a exec" where
  "fail_type env expected actual code pc =
     ebind (eget (view_of env)) (\<lambda>view.
       efail (VmError (runtime_type_error expected actual view code pc)))"

fun runtime_kind_name :: "runtime_value \<Rightarrow> string" where
  "runtime_kind_name (RInt _) = ''Int''"
| "runtime_kind_name (RFloat _) = ''Float''"
| "runtime_kind_name (RBuiltinAtom _) = ''Atom''"
| "runtime_kind_name (RAtom _) = ''Atom''"
| "runtime_kind_name (RShortString _) = ''String''"
| "runtime_kind_name (RString _) = ''String''"
| "runtime_kind_name (RBytes _) = ''Bytes''"
| "runtime_kind_name (ROpaque _) = ''Opaque''"
| "runtime_kind_name (RNativeType _) = ''Type''"
| "runtime_kind_name (RArray _) = ''Array''"
| "runtime_kind_name (RTuple _) = ''Tuple''"
| "runtime_kind_name (RTagged _) = ''Tagged''"
| "runtime_kind_name (RDict _) = ''Dict''"
| "runtime_kind_name (RFunc _) = ''Func''"
| "runtime_kind_name (RDyn _) = ''Dyn''"
| "runtime_kind_name (RUpLink _) = ''internal up-link''"

definition runtime_shallow_type_error ::
    "string \<Rightarrow> rich_value \<Rightarrow> func_byte_code \<Rightarrow> nat \<Rightarrow> runtime_error" where
  "runtime_shallow_type_error expected actual code pc =
     set_data_location (rich_loc actual)
       (vm_error EK_TypeMismatch
         (''expected '' @ expected @ '', got '' @ runtime_kind_name (rv_value actual)) code pc)"

definition runtime_numeric_type_error ::
    "rich_value \<Rightarrow> rich_value \<Rightarrow> heap_view \<Rightarrow> func_byte_code \<Rightarrow> nat \<Rightarrow> runtime_error" where
  "runtime_numeric_type_error left right view code pc =
     set_data_location (case rich_loc left of Some l \<Rightarrow> Some l | None \<Rightarrow> rich_loc right)
       (case (export_value view 0 left, export_value view 0 right) of
          (Inr l, Inr r) \<Rightarrow> vm_error EK_TypeMismatch
            (''numeric operands must have the same type, got '' @ val_type_name l @ '' and '' @
             val_type_name r) code pc
        | (Inl e, _) \<Rightarrow> heap_vm_error e code pc
        | (_, Inl e) \<Rightarrow> heap_vm_error e code pc)"

end
