(* ===== verification/Array_Natives.thy ===== *)
theory Array_Natives
  imports Machine
begin

text \<open>
  The operations of \<open>std/array\<close> (\<open>start_array_continuation\<close>, \<open>resume_array_continuation\<close> and
  \<open>next_array_action\<close> of \<open>crates/telora-core/src/vm.rs\<close>). Those without a callback return at
  once. The others suspend: \<open>next_array_action\<close> calls the callback on the next item with the
  continuation as return target, and the machine resumes the continuation with the result.
\<close>

definition new_at :: "func_byte_code \<Rightarrow> nat \<Rightarrow> runtime_value \<Rightarrow> rich_value" where
  "new_at code pc v = rich_new v (instruction_location code pc)"

text \<open>A native is called with as many arguments as it has parameters; \<open>arguments[i]\<close> beyond panics.\<close>

definition argument :: "rich_value list \<Rightarrow> nat \<Rightarrow> rich_value exec" where
  "argument arguments i = (case nth_opt arguments i of Some v \<Rightarrow> eret v | None \<Rightarrow> panic)"

definition expect_array ::
    "environment \<Rightarrow> rich_value \<Rightarrow> func_byte_code \<Rightarrow> nat \<Rightarrow> handle exec" where
  "expect_array env v code pc = (case rv_value v of
     RArray handle \<Rightarrow> eret handle
   | _ \<Rightarrow> fail_type env ''Array'' v code pc)"

definition read_array ::
    "environment \<Rightarrow> func_byte_code \<Rightarrow> nat \<Rightarrow> handle \<Rightarrow> rich_value list exec" where
  "read_array env code pc handle =
     read_heap env code pc (\<lambda>view. view_sequence view handle False)"

definition new_array :: "rich_value list \<Rightarrow> runtime_value exec" where
  "new_array vs = ebind (on_work_heap (allocate (OArray vs))) (\<lambda>handle. eret (RArray handle))"

definition new_tagged :: "rich_value \<Rightarrow> rich_value \<Rightarrow> runtime_value exec" where
  "new_tagged tag payload =
     ebind (on_work_heap (allocate (OTagged tag payload))) (\<lambda>handle. eret (RTagged handle))"

definition array_item ::
    "environment \<Rightarrow> rich_value \<Rightarrow> nat \<Rightarrow> func_byte_code \<Rightarrow> nat \<Rightarrow> rich_value exec" where
  "array_item env source index code pc = (case rv_value source of
     RArray handle \<Rightarrow>
       ebind (read_array env code pc handle) (\<lambda>vs. case nth_opt vs index of
           Some v \<Rightarrow> eret v
         | None \<Rightarrow> fail EK_InvalidBytecode ''Array continuation index is out of bounds'' code pc)
   | _ \<Rightarrow> panic)"

text \<open>A bool-valued callback result.\<close>

definition as_bool :: "rich_value \<Rightarrow> bool option" where
  "as_bool v = (case rv_value v of
     RBuiltinAtom BA_True \<Rightarrow> Some True
   | RBuiltinAtom BA_False \<Rightarrow> Some False
   | _ \<Rightarrow> None)"

definition is_fold :: "core_array \<Rightarrow> bool" where
  "is_fold f \<longleftrightarrow> f = Array_Fold \<or> f = Array_FoldControl"

text \<open>The value of an operation whose source is exhausted.\<close>

definition finish_array :: "environment \<Rightarrow> array_state \<Rightarrow> rich_value exec" where
  "finish_array env s =
     (let code = as_call_function s; pc = as_call_pc s in
      case as_function s of
        Array_Fold \<Rightarrow> (case as_accumulator s of Some v \<Rightarrow> eret v | None \<Rightarrow> panic)
      | Array_FoldControl \<Rightarrow> (case as_accumulator s of
            None \<Rightarrow> panic
          | Some acc \<Rightarrow>
              ebind (charge_values env 2 code pc) (\<lambda>_.
              ebind (on_work_heap (intern ''Continue'')) (\<lambda>tag.
              ebind (new_tagged (new_at code pc (RAtom tag)) acc) (\<lambda>v. eret (new_at code pc v)))))
      | Array_Any \<Rightarrow> eret (new_at code pc (RBuiltinAtom BA_False))
      | Array_All \<Rightarrow> eret (new_at code pc (RBuiltinAtom BA_True))
      | Array_Find \<Rightarrow> eret (new_at code pc (RBuiltinAtom BA_None))
      | Array_Map \<Rightarrow> ebind (new_array (as_output s)) (\<lambda>v. eret (new_at code pc v))
      | Array_Filter \<Rightarrow> ebind (new_array (as_output s)) (\<lambda>v. eret (new_at code pc v))
      | Array_FlatMap \<Rightarrow> ebind (new_array (as_output s)) (\<lambda>v. eret (new_at code pc v))
      | _ \<Rightarrow> panic)"

definition next_array_action ::
    "environment \<Rightarrow> array_state \<Rightarrow> return_target \<Rightarrow> vm_action exec" where
  "next_array_action env s target =
     (let code = as_call_function s; pc = as_call_pc s in
      case rv_value (as_source s) of
        RArray handle \<Rightarrow>
          ebind (read_array env code pc handle) (\<lambda>vs.
          if length vs \<le> as_next_index s then
            ebind (finish_array env s) (\<lambda>v. eret (Act_Return v target))
          else
            ebind (array_item env (as_source s) (as_next_index s) code pc) (\<lambda>item.
            ebind (if is_fold (as_function s)
                   then (case as_accumulator s of Some acc \<Rightarrow> eret [acc, item] | None \<Rightarrow> panic)
                   else eret [item]) (\<lambda>arguments.
            eret (Act_Call (as_callback s) arguments
              (RT_Native (ArrayContinuation (s\<lparr> as_next_index := as_next_index s + 1 \<rparr>) target))
              code pc))))
      | _ \<Rightarrow> panic)"

definition charge_array_output :: "environment \<Rightarrow> array_state \<Rightarrow> nat \<Rightarrow> unit exec" where
  "charge_array_output env s count = charge_values env count (as_call_function s) (as_call_pc s)"

definition push_output :: "rich_value list \<Rightarrow> array_state \<Rightarrow> array_state" where
  "push_output vs s = s\<lparr> as_output := as_output s @ vs \<rparr>"

definition FOLD_CONTROL_MESSAGE :: string where
  "FOLD_CONTROL_MESSAGE =
     ''std/array.fold_control callback must return '' @ [char_of (39 :: nat)] @ ''Continue(value) or ''
     @ [char_of (39 :: nat)] @ ''Break(value)''"

definition BOOL_MESSAGE :: string where
  "BOOL_MESSAGE =
     '' predicate must return '' @ [char_of (39 :: nat)] @ ''True or '' @ [char_of (39 :: nat)] @ ''False''"

text \<open>One callback result, for each operation that suspends.\<close>

definition resume_filter ::
    "environment \<Rightarrow> array_state \<Rightarrow> return_target \<Rightarrow> rich_value \<Rightarrow> vm_action exec" where
  "resume_filter env s target v =
     (let code = as_call_function s; pc = as_call_pc s in
      case as_bool v of
        Some True \<Rightarrow>
          ebind (array_item env (as_source s) (as_next_index s - 1) code pc) (\<lambda>item.
          ebind (charge_array_output env s 1) (\<lambda>_.
          next_array_action env (push_output [item] s) target))
      | Some False \<Rightarrow> next_array_action env s target
      | None \<Rightarrow> fail EK_TypeMismatch (''std/array.filter'' @ BOOL_MESSAGE) code pc)"

definition resume_flat_map ::
    "environment \<Rightarrow> array_state \<Rightarrow> return_target \<Rightarrow> rich_value \<Rightarrow> vm_action exec" where
  "resume_flat_map env s target v =
     (let code = as_call_function s; pc = as_call_pc s in
      case rv_value v of
        RArray handle \<Rightarrow>
          ebind (read_array env code pc handle) (\<lambda>vs.
          ebind (charge_array_output env s (length vs)) (\<lambda>_.
          next_array_action env (push_output vs s) target))
      | _ \<Rightarrow> fail EK_TypeMismatch ''std/array.flat_map callback must return an Array'' code pc)"

definition resume_fold_control ::
    "environment \<Rightarrow> array_state \<Rightarrow> return_target \<Rightarrow> rich_value \<Rightarrow> vm_action exec" where
  "resume_fold_control env s target v =
     (let code = as_call_function s; pc = as_call_pc s in
      case rv_value v of
        RTagged handle \<Rightarrow>
          ebind (read_heap env code pc (\<lambda>view. view_tagged view handle)) (\<lambda>(tag, payload).
          ebind (read_heap env code pc (\<lambda>view. view_atom_text view (rv_value tag))) (\<lambda>name.
          if name = Some ''Continue'' then
            next_array_action env (s\<lparr> as_accumulator := Some payload \<rparr>) target
          else if name = Some ''Break'' then eret (Act_Return v target)
          else fail EK_TypeMismatch FOLD_CONTROL_MESSAGE code pc))
      | _ \<Rightarrow> fail EK_TypeMismatch FOLD_CONTROL_MESSAGE code pc)"

definition resume_predicate ::
    "environment \<Rightarrow> array_state \<Rightarrow> return_target \<Rightarrow> rich_value \<Rightarrow> vm_action exec" where
  "resume_predicate env s target v =
     (let code = as_call_function s; pc = as_call_pc s in
      case as_bool v of
        None \<Rightarrow> fail EK_TypeMismatch (core_array_name (as_function s) @ BOOL_MESSAGE) code pc
      | Some matched \<Rightarrow>
          if as_function s = Array_Any \<and> matched then
            eret (Act_Return (new_at code pc (RBuiltinAtom BA_True)) target)
          else if as_function s = Array_All \<and> \<not> matched then
            eret (Act_Return (new_at code pc (RBuiltinAtom BA_False)) target)
          else if as_function s = Array_Find \<and> matched then
            ebind (array_item env (as_source s) (as_next_index s - 1) code pc) (\<lambda>item.
            ebind (charge_array_output env s 2) (\<lambda>_.
            ebind (new_tagged (new_at code pc (RBuiltinAtom BA_Some)) item) (\<lambda>found.
            eret (Act_Return (new_at code pc found) target))))
          else next_array_action env s target)"

definition resume_array_continuation ::
    "environment \<Rightarrow> array_state \<Rightarrow> return_target \<Rightarrow> rich_value \<Rightarrow> vm_action exec" where
  "resume_array_continuation env s target v = (case as_function s of
     Array_Map \<Rightarrow>
       ebind (charge_array_output env s 1) (\<lambda>_.
       next_array_action env (push_output [v] s) target)
   | Array_Filter \<Rightarrow> resume_filter env s target v
   | Array_FlatMap \<Rightarrow> resume_flat_map env s target v
   | Array_Fold \<Rightarrow> next_array_action env (s\<lparr> as_accumulator := Some v \<rparr>) target
   | Array_FoldControl \<Rightarrow> resume_fold_control env s target v
   | Array_Any \<Rightarrow> resume_predicate env s target v
   | Array_All \<Rightarrow> resume_predicate env s target v
   | Array_Find \<Rightarrow> resume_predicate env s target v
   | _ \<Rightarrow> panic)"

section \<open>Starting an operation\<close>

definition array_length ::
    "rich_value list \<Rightarrow> return_target \<Rightarrow> func_byte_code \<Rightarrow> nat \<Rightarrow> vm_action exec" where
  "array_length vs target code pc = (case i64_of (int (length vs)) of
     None \<Rightarrow> fail EK_IntegerOverflow ''Array length does not fit Int'' code pc
   | Some n \<Rightarrow> eret (Act_Return (new_at code pc (RInt n)) target))"

definition array_push ::
    "environment \<Rightarrow> rich_value list \<Rightarrow> rich_value list \<Rightarrow> return_target \<Rightarrow> func_byte_code \<Rightarrow> nat \<Rightarrow>
      vm_action exec" where
  "array_push env vs arguments target code pc =
     (case checked_add_usize (length vs) 1 of
        None \<Rightarrow> allocation_error ''Array push length overflowed'' code pc
      | Some output_len \<Rightarrow>
          ebind (charge_values env output_len code pc) (\<lambda>_.
          ebind (argument arguments 1) (\<lambda>item.
          ebind (new_array (vs @ [item])) (\<lambda>v.
          eret (Act_Return (new_at code pc v) target)))))"

definition concat_items ::
    "environment \<Rightarrow> func_byte_code \<Rightarrow> nat \<Rightarrow> rich_value list \<Rightarrow> rich_value list list exec" where
  "concat_items env code pc vs =
     ecollect (\<lambda>(index, array). case rv_value array of
         RArray handle \<Rightarrow> read_array env code pc handle
       | _ \<Rightarrow> fail EK_TypeMismatch
           (''std/array.concat item '' @ show_nat index @ '' must be an Array'') code pc)
       (enumerate 0 vs)"

definition array_concat ::
    "environment \<Rightarrow> rich_value list \<Rightarrow> return_target \<Rightarrow> func_byte_code \<Rightarrow> nat \<Rightarrow> vm_action exec" where
  "array_concat env vs target code pc =
     ebind (concat_items env code pc vs) (\<lambda>vss.
     ebind (charge_values env (length (concat vss)) code pc) (\<lambda>_.
     ebind (new_array (concat vss)) (\<lambda>v.
     eret (Act_Return (new_at code pc v) target))))"

definition zip_pair :: "rich_value \<times> rich_value \<Rightarrow> rich_value exec" where
  "zip_pair p = (case p of (left, right) \<Rightarrow>
     ebind (on_work_heap (allocate (OTuple [left, right]))) (\<lambda>handle.
     eret (rich_new (RTuple handle) (rich_loc left))))"

definition array_zip ::
    "environment \<Rightarrow> rich_value list \<Rightarrow> rich_value list \<Rightarrow> return_target \<Rightarrow> func_byte_code \<Rightarrow> nat \<Rightarrow>
      vm_action exec" where
  "array_zip env left arguments target code pc =
     ebind (argument arguments 0) (\<lambda>source.
     ebind (argument arguments 1) (\<lambda>other.
     ebind (expect_array env other code pc) (\<lambda>handle.
     ebind (read_array env code pc handle) (\<lambda>right.
     if length left \<noteq> length right then
       eret (Act_Return (new_at code pc (RBuiltinAtom BA_None)) target)
     else
       ebind (charge_values env (2 + length left * 3) code pc) (\<lambda>_.
       ebind (ecollect zip_pair (zip left right)) (\<lambda>pairs.
       ebind (new_array pairs) (\<lambda>array.
       ebind (new_tagged (rich_new (RBuiltinAtom BA_Some) (rich_loc source))
           (rich_new array (rich_loc source))) (\<lambda>v.
       eret (Act_Return (rich_new v (rich_loc source)) target)))))))))"

definition start_callback ::
    "environment \<Rightarrow> core_array \<Rightarrow> rich_value list \<Rightarrow> return_target \<Rightarrow> func_byte_code \<Rightarrow> nat \<Rightarrow>
      vm_action exec" where
  "start_callback env f arguments target code pc =
     ebind (argument arguments 0) (\<lambda>source.
     ebind (argument arguments (if is_fold f then 2 else 1)) (\<lambda>callback.
     case rv_value callback of
       RFunc handle \<Rightarrow>
         ebind (read_heap env code pc (\<lambda>view. function_arity view handle)) (\<lambda>actual.
         if actual \<noteq> (if is_fold f then 2 else 1) then
           fail EK_TypeMismatch
             (core_array_name f @ '' callback must accept '' @ show_nat (if is_fold f then 2 else 1) @
              '' arguments, got '' @ show_nat actual) code pc
         else ebind (if is_fold f then ebind (argument arguments 1) (\<lambda>v. eret (Some v))
                     else eret None) (\<lambda>accumulator.
           next_array_action env
             \<lparr> as_function = f, as_source = source, as_callback = callback, as_next_index = 0,
               as_accumulator = accumulator, as_output = [], as_call_function = code,
               as_call_pc = pc,
               as_trace_frame = \<lparr> rf_function = core_array_name f, rf_instruction = 0,
                                  rf_origin = code_origin_at code pc \<rparr> \<rparr> target))
     | _ \<Rightarrow> fail_type env ''Func'' callback code pc))"

definition start_array_continuation ::
    "environment \<Rightarrow> core_array \<Rightarrow> rich_value list \<Rightarrow> return_target \<Rightarrow> func_byte_code \<Rightarrow> nat \<Rightarrow>
      vm_action exec" where
  "start_array_continuation env f arguments target code pc =
     ebind (argument arguments 0) (\<lambda>source.
     ebind (expect_array env source code pc) (\<lambda>handle.
     ebind (read_array env code pc handle) (\<lambda>vs. case f of
         Array_Length \<Rightarrow> array_length vs target code pc
       | Array_Push \<Rightarrow> array_push env vs arguments target code pc
       | Array_Concat \<Rightarrow> array_concat env vs target code pc
       | Array_Zip \<Rightarrow> array_zip env vs arguments target code pc
       | _ \<Rightarrow> start_callback env f arguments target code pc)))"

end
