(* ===== verification/Dict_Natives.thy ===== *)
theory Dict_Natives
  imports Array_Natives
begin

text \<open>
  The operations of \<open>std/dict\<close> (\<open>run_core_dict\<close> and the dictionary continuations of
  \<open>crates/telora-core/src/vm.rs\<close>), and of \<open>std/eq\<close> and \<open>std/result\<close>. Entries are lists of
  fields and values; a dictionary object has its fields sorted, each one once.
\<close>

type_synonym entries = "(string \<times> rich_value) list"

section \<open>Entries\<close>

definition core_dict_entries ::
    "environment \<Rightarrow> rich_value \<Rightarrow> string \<Rightarrow> func_byte_code \<Rightarrow> nat \<Rightarrow> entries exec" where
  "core_dict_entries env v expected code pc = (case rv_value v of
     RDict handle \<Rightarrow>
       ebind (read_heap env code pc (\<lambda>view. view_dict_parts view handle)) (\<lambda>(fs, values).
       ecollect (\<lambda>(field, w).
           ebind (read_heap env code pc (\<lambda>view. view_text view field)) (\<lambda>t. eret (t, w)))
         (zip fs values))
   | _ \<Rightarrow> fail_type env expected v code pc)"

text \<open>\<open>try_fold\<close> of \<open>checked_add\<close> over \<open>u64\<close> lengths.\<close>

fun checked_sum :: "nat \<Rightarrow> nat list \<Rightarrow> nat option" where
  "checked_sum acc [] = Some acc"
| "checked_sum acc (n # ns) =
     Option.bind (checked_add_usize acc n) (\<lambda>t. checked_sum t ns)"

definition charge_core_dict_output ::
    "environment \<Rightarrow> nat \<Rightarrow> nat list \<Rightarrow> func_byte_code \<Rightarrow> nat \<Rightarrow> unit exec" where
  "charge_core_dict_output env value_slots text_lengths code pc =
     (case checked_sum 0 text_lengths of
        None \<Rightarrow> allocation_error ''std/dict allocation size overflowed'' code pc
      | Some text_bytes \<Rightarrow>
          ebind (logical_value_bytes env value_slots code pc) (\<lambda>value_bytes.
          case checked_add_usize text_bytes value_bytes of
            None \<Rightarrow> allocation_error ''std/dict allocation size overflowed'' code pc
          | Some bytes \<Rightarrow> charge_allocation bytes code pc))"

definition field_lengths :: "entries \<Rightarrow> nat list" where
  "field_lengths entries = map (\<lambda>(field, _). length field) entries"

definition allocate_core_dict_unchecked :: "entries \<Rightarrow> loc option \<Rightarrow> rich_value exec" where
  "allocate_core_dict_unchecked entries l =
     ebind (ecollect (\<lambda>(field, _). on_work_heap (intern field)) entries) (\<lambda>fs.
     ebind (on_work_heap (intern_shape fs)) (\<lambda>shape.
     ebind (on_work_heap (allocate (ODict shape (map snd entries)))) (\<lambda>handle.
     eret (rich_new (RDict handle) l))))"

definition allocate_core_dict ::
    "environment \<Rightarrow> entries \<Rightarrow> func_byte_code \<Rightarrow> nat \<Rightarrow> rich_value exec" where
  "allocate_core_dict env entries code pc =
     ebind (charge_core_dict_output env (length entries) (field_lengths entries) code pc) (\<lambda>_.
     allocate_core_dict_unchecked entries (instruction_location code pc))"

section \<open>Operations without a callback\<close>

definition dict_get ::
    "environment \<Rightarrow> rich_value list \<Rightarrow> func_byte_code \<Rightarrow> nat \<Rightarrow> rich_value exec" where
  "dict_get env arguments code pc =
     ebind (argument arguments 0) (\<lambda>dict. case rv_value dict of
       RDict handle \<Rightarrow>
         ebind (argument arguments 1) (\<lambda>key.
         ebind (read_heap env code pc (\<lambda>view. view_string_text view (rv_value key))) (\<lambda>text.
         case text of
           None \<Rightarrow> fail_type env ''String'' key code pc
         | Some t \<Rightarrow>
             ebind (read_heap env code pc (\<lambda>view. view_dict_get_text view handle t)) (\<lambda>found.
             case found of
               None \<Rightarrow> eret (rich_new (RBuiltinAtom BA_None) (rich_loc dict))
             | Some payload \<Rightarrow>
                 ebind (charge_values env 2 code pc) (\<lambda>_.
                 ebind (new_tagged (rich_new (RBuiltinAtom BA_Some) (rich_loc dict)) payload) (\<lambda>v.
                 eret (rich_new v (rich_loc dict)))))))
     | _ \<Rightarrow> fail_type env ''Dict'' dict code pc)"

definition new_string_at ::
    "environment \<Rightarrow> string \<Rightarrow> loc option \<Rightarrow> rich_value exec" where
  "new_string_at env t l =
     ebind (on_work_heap (heap_string (Some (env_background env)) t)) (\<lambda>v. eret (rich_new v l))"

definition dict_keys ::
    "environment \<Rightarrow> rich_value list \<Rightarrow> func_byte_code \<Rightarrow> nat \<Rightarrow> rich_value exec" where
  "dict_keys env arguments code pc =
     ebind (argument arguments 0) (\<lambda>dict.
     ebind (core_dict_entries env dict ''Dict'' code pc) (\<lambda>entries.
     ebind (charge_core_dict_output env (length entries) (field_lengths entries) code pc) (\<lambda>_.
     ebind (ecollect (\<lambda>(field, _). new_string_at env field (rich_loc dict)) entries) (\<lambda>values.
     ebind (new_array values) (\<lambda>v. eret (new_at code pc v))))))"

definition dict_values ::
    "environment \<Rightarrow> rich_value list \<Rightarrow> func_byte_code \<Rightarrow> nat \<Rightarrow> rich_value exec" where
  "dict_values env arguments code pc =
     ebind (argument arguments 0) (\<lambda>dict.
     ebind (core_dict_entries env dict ''Dict'' code pc) (\<lambda>entries.
     ebind (charge_core_dict_output env (length entries) [] code pc) (\<lambda>_.
     ebind (new_array (map snd entries)) (\<lambda>v. eret (new_at code pc v)))))"

definition dict_pair :: "environment \<Rightarrow> loc option \<Rightarrow> string \<times> rich_value \<Rightarrow> rich_value exec" where
  "dict_pair env l entry = (case entry of (field, v) \<Rightarrow>
     ebind (new_string_at env field l) (\<lambda>key.
     ebind (on_work_heap (allocate (OTuple [key, v]))) (\<lambda>handle.
     eret (rich_new (RTuple handle) l))))"

definition dict_pairs ::
    "environment \<Rightarrow> rich_value list \<Rightarrow> func_byte_code \<Rightarrow> nat \<Rightarrow> rich_value exec" where
  "dict_pairs env arguments code pc =
     ebind (argument arguments 0) (\<lambda>dict.
     ebind (core_dict_entries env dict ''Dict'' code pc) (\<lambda>entries.
     case checked_mul_usize (length entries) 3 of
       None \<Rightarrow> allocation_error ''std/dict.pairs allocation size overflowed'' code pc
     | Some slot_count \<Rightarrow>
         ebind (charge_core_dict_output env slot_count (field_lengths entries) code pc) (\<lambda>_.
         ebind (ecollect (dict_pair env (rich_loc dict)) entries) (\<lambda>pairs.
         ebind (new_array pairs) (\<lambda>v. eret (new_at code pc v))))))"

text \<open>\<open>windows(2).any\<close> and \<open>windows(2).find\<close>: the first field equal to the one after it.\<close>

fun adjacent_duplicate :: "('k \<times> 'v) list \<Rightarrow> 'k option" where
  "adjacent_duplicate ((k, _) # (l, w) # rest) =
     (if k = l then Some k else adjacent_duplicate ((l, w) # rest))"
| "adjacent_duplicate _ = None"

definition PAIR_MESSAGE :: "nat \<Rightarrow> string" where
  "PAIR_MESSAGE index =
     ''std/dict.from_pairs item '' @ show_nat index @ '' must be a two-element Tuple''"

definition pair_entry ::
    "environment \<Rightarrow> func_byte_code \<Rightarrow> nat \<Rightarrow> nat \<times> rich_value \<Rightarrow> (string \<times> rich_value) exec" where
  "pair_entry env code pc p = (case p of (index, item) \<Rightarrow> (case rv_value item of
     RTuple handle \<Rightarrow>
       ebind (read_heap env code pc (\<lambda>view. view_sequence view handle True)) (\<lambda>pair.
       if length pair \<noteq> 2 then fail EK_TypeMismatch (PAIR_MESSAGE index) code pc
       else ebind (read_heap env code pc (\<lambda>view. view_string_text view (rv_value (pair ! 0)))) (\<lambda>text.
         case text of
           None \<Rightarrow> fail EK_TypeMismatch
             (''std/dict.from_pairs item '' @ show_nat index @ '' key must be a String'') code pc
         | Some field \<Rightarrow> eret (field, pair ! 1)))
   | _ \<Rightarrow> fail EK_TypeMismatch (PAIR_MESSAGE index) code pc))"

definition dict_from_pairs ::
    "environment \<Rightarrow> rich_value list \<Rightarrow> func_byte_code \<Rightarrow> nat \<Rightarrow> rich_value exec" where
  "dict_from_pairs env arguments code pc =
     ebind (argument arguments 0) (\<lambda>array.
     ebind (expect_array env array code pc) (\<lambda>handle.
     ebind (read_array env code pc handle) (\<lambda>items.
     ebind (ecollect (pair_entry env code pc) (enumerate 0 items)) (\<lambda>unsorted.
     let entries = sort_key fst unsorted in
     case adjacent_duplicate entries of
       Some duplicate \<Rightarrow> fail EK_TypeMismatch
         (''std/dict.from_pairs contains duplicate field '' @ env_debug_str env duplicate) code pc
     | None \<Rightarrow> allocate_core_dict env entries code pc))))"

fun merge_entries :: "('k::linorder \<times> 'v) list \<Rightarrow> ('k \<times> 'v) list \<Rightarrow> ('k \<times> 'v) list" where
  "merge_entries (l # ls) (r # rs) = (case cmp (fst l) (fst r) of
     Ord_Less \<Rightarrow> l # merge_entries ls (r # rs)
   | Ord_Equal \<Rightarrow> r # merge_entries ls rs
   | Ord_Greater \<Rightarrow> r # merge_entries (l # ls) rs)"
| "merge_entries ls [] = ls"
| "merge_entries [] rs = rs"

definition dict_merge ::
    "environment \<Rightarrow> rich_value list \<Rightarrow> func_byte_code \<Rightarrow> nat \<Rightarrow> rich_value exec" where
  "dict_merge env arguments code pc =
     ebind (argument arguments 0) (\<lambda>a.
     ebind (core_dict_entries env a ''left Dict'' code pc) (\<lambda>left.
     ebind (argument arguments 1) (\<lambda>b.
     ebind (core_dict_entries env b ''right Dict'' code pc) (\<lambda>right.
     allocate_core_dict env (merge_entries left right) code pc))))"

definition run_core_dict ::
    "environment \<Rightarrow> core_dict \<Rightarrow> rich_value list \<Rightarrow> return_target \<Rightarrow> func_byte_code \<Rightarrow> nat \<Rightarrow>
      vm_action exec" where
  "run_core_dict env f arguments target code pc =
     ebind (case f of
         Dict_Get \<Rightarrow> dict_get env arguments code pc
       | Dict_Keys \<Rightarrow> dict_keys env arguments code pc
       | Dict_Values \<Rightarrow> dict_values env arguments code pc
       | Dict_Pairs \<Rightarrow> dict_pairs env arguments code pc
       | Dict_FromPairs \<Rightarrow> dict_from_pairs env arguments code pc
       | Dict_Merge \<Rightarrow> dict_merge env arguments code pc
       | _ \<Rightarrow> panic)
       (\<lambda>v. eret (Act_Return v target))"

section \<open>Operations with a callback\<close>

definition next_dict_action ::
    "environment \<Rightarrow> dict_state \<Rightarrow> return_target \<Rightarrow> vm_action exec" where
  "next_dict_action env s target =
     (let code = ds_call_function s; pc = ds_call_pc s in
      case nth_opt (ds_entries s) (ds_next_index s) of
        None \<Rightarrow>
          ebind (if ds_function s = Dict_Fold
                 then (case ds_accumulator s of Some v \<Rightarrow> eret v | None \<Rightarrow> panic)
                 else allocate_core_dict_unchecked (ds_output s) (instruction_location code pc))
            (\<lambda>v. eret (Act_Return v target))
      | Some (key, v) \<Rightarrow>
          ebind (if ds_function s = Dict_Fold then
              ebind (charge_allocation (length key) code pc) (\<lambda>_.
              case ds_accumulator s of
                None \<Rightarrow> panic
              | Some acc \<Rightarrow> ebind (new_string_at env key (rich_loc v)) (\<lambda>k. eret [acc, k, v]))
            else eret [v]) (\<lambda>arguments.
          eret (Act_Call (ds_callback s) arguments
            (RT_Native (DictContinuation (s\<lparr> ds_next_index := ds_next_index s + 1 \<rparr>) target))
            code pc)))"

definition push_entry :: "string \<times> rich_value \<Rightarrow> dict_state \<Rightarrow> dict_state" where
  "push_entry entry s = s\<lparr> ds_output := ds_output s @ [entry] \<rparr>"

definition resume_dict_continuation ::
    "environment \<Rightarrow> dict_state \<Rightarrow> return_target \<Rightarrow> rich_value \<Rightarrow> vm_action exec" where
  "resume_dict_continuation env s target v =
     (let code = ds_call_function s; pc = ds_call_pc s;
          entry = nth_opt (ds_entries s) (ds_next_index s - 1)
      in case ds_function s of
        Dict_MapValues \<Rightarrow> (case entry of
            None \<Rightarrow> panic
          | Some (key, _) \<Rightarrow>
              ebind (charge_core_dict_output env 1 [length key] code pc) (\<lambda>_.
              next_dict_action env (push_entry (key, v) s) target))
      | Dict_Filter \<Rightarrow> (case as_bool v of
            Some True \<Rightarrow> (case entry of
                None \<Rightarrow> panic
              | Some (key, w) \<Rightarrow>
                  ebind (charge_core_dict_output env 1 [length key] code pc) (\<lambda>_.
                  next_dict_action env (push_entry (key, w) s) target))
          | Some False \<Rightarrow> next_dict_action env s target
          | None \<Rightarrow> fail EK_TypeMismatch (''std/dict.filter'' @ BOOL_MESSAGE) code pc)
      | Dict_Fold \<Rightarrow> next_dict_action env (s\<lparr> ds_accumulator := Some v \<rparr>) target
      | _ \<Rightarrow> panic)"

definition start_dict_continuation ::
    "environment \<Rightarrow> core_dict \<Rightarrow> rich_value list \<Rightarrow> return_target \<Rightarrow> func_byte_code \<Rightarrow> nat \<Rightarrow>
      vm_action exec" where
  "start_dict_continuation env f arguments target code pc =
     ebind (argument arguments 0) (\<lambda>dict.
     ebind (core_dict_entries env dict ''Dict'' code pc) (\<lambda>entries.
     ebind (argument arguments (if f = Dict_Fold then 2 else 1)) (\<lambda>callback.
     case rv_value callback of
       RFunc handle \<Rightarrow>
         ebind (read_heap env code pc (\<lambda>view. function_arity view handle)) (\<lambda>actual.
         if actual \<noteq> (if f = Dict_Fold then 3 else 1) then
           fail EK_TypeMismatch
             (core_dict_name f @ '' callback must accept '' @
              show_nat (if f = Dict_Fold then 3 else 1) @ '' arguments, got '' @ show_nat actual)
             code pc
         else ebind (if f = Dict_Fold then ebind (argument arguments 1) (\<lambda>v. eret (Some v))
                     else eret None) (\<lambda>accumulator.
           next_dict_action env
             \<lparr> ds_function = f, ds_entries = entries, ds_callback = callback, ds_next_index = 0,
               ds_accumulator = accumulator, ds_output = [], ds_call_function = code,
               ds_call_pc = pc,
               ds_trace_frame = \<lparr> rf_function = core_dict_name f, rf_instruction = 0,
                                  rf_origin = code_origin_at code pc \<rparr> \<rparr> target))
     | _ \<Rightarrow> fail_type env ''Func'' callback code pc)))"

definition start_core_dict ::
    "environment \<Rightarrow> core_dict \<Rightarrow> rich_value list \<Rightarrow> return_target \<Rightarrow> func_byte_code \<Rightarrow> nat \<Rightarrow>
      vm_action exec" where
  "start_core_dict env f arguments target code pc =
     (if f \<in> {Dict_MapValues, Dict_Filter, Dict_Fold}
      then start_dict_continuation env f arguments target code pc
      else run_core_dict env f arguments target code pc)"

section \<open>Equality and results\<close>

definition run_core_eq ::
    "environment \<Rightarrow> core_eq \<Rightarrow> rich_value list \<Rightarrow> return_target \<Rightarrow> func_byte_code \<Rightarrow> nat \<Rightarrow>
      vm_action exec" where
  "run_core_eq env f arguments target code pc =
     ebind (argument arguments 0) (\<lambda>l.
     ebind (argument arguments 1) (\<lambda>r.
     ebind (read_heap env code pc (\<lambda>view. values_equal view l r)) (\<lambda>equal.
     eret (Act_Return (new_at code pc (RBuiltinAtom (if equal then BA_True else BA_False)))
       target))))"

definition quoted :: "string \<Rightarrow> string" where
  "quoted s = char_of (39 :: nat) # s"

definition UNWRAP_MESSAGE :: string where
  "UNWRAP_MESSAGE = ''std/result.unwrap expects '' @ quoted ''Ok(value) or '' @ quoted ''Err(message)''"

text \<open>The message and the locations of an \<open>'Err\<close> payload: a String or a structured dictionary.\<close>

definition blame_field ::
    "environment \<Rightarrow> func_byte_code \<Rightarrow> nat \<Rightarrow> handle \<Rightarrow> string \<Rightarrow> rich_value exec" where
  "blame_field env code pc handle name =
     ebind (read_heap env code pc (\<lambda>view. view_dict_get_text view handle name)) (\<lambda>found.
     case found of
       Some v \<Rightarrow> eret v
     | None \<Rightarrow> fail EK_TypeMismatch (''structured Err payload is missing '' @ name) code pc)"

definition blame_message ::
    "environment \<Rightarrow> func_byte_code \<Rightarrow> nat \<Rightarrow> handle \<Rightarrow> string exec" where
  "blame_message env code pc handle =
     ebind (read_heap env code pc (\<lambda>view. view_dict_get_text view handle ''message'')) (\<lambda>found.
     ebind (eget (view_of env)) (\<lambda>view.
     case Option.bind found (\<lambda>v. case view_string_text view (rv_value v) of
         Inr t \<Rightarrow> t | Inl _ \<Rightarrow> None) of
       Some t \<Rightarrow> eret t
     | None \<Rightarrow> fail EK_TypeMismatch ''structured Err payload message must be a String'' code pc))"

definition unwrap_error ::
    "environment \<Rightarrow> rich_value \<Rightarrow> func_byte_code \<Rightarrow> nat \<Rightarrow> (string \<times> loc option \<times> loc option) exec"
where
  "unwrap_error env payload code pc =
     ebind (read_heap env code pc (\<lambda>view. view_string_text view (rv_value payload))) (\<lambda>text.
     case text of
       Some message \<Rightarrow> eret (message, rich_loc payload, None)
     | None \<Rightarrow> (case rv_value payload of
         RDict handle \<Rightarrow>
           ebind (blame_message env code pc handle) (\<lambda>message.
           ebind (blame_field env code pc handle ''data'') (\<lambda>data.
           ebind (blame_field env code pc handle ''rule'') (\<lambda>rule.
           eret (message, rich_loc data, rich_loc rule))))
       | _ \<Rightarrow> fail EK_TypeMismatch
           ''std/result.unwrap Err payload must be a String or diagnostic Dict'' code pc))"

definition run_core_result ::
    "environment \<Rightarrow> core_result \<Rightarrow> rich_value list \<Rightarrow> return_target \<Rightarrow> func_byte_code \<Rightarrow> nat \<Rightarrow>
      vm_action exec" where
  "run_core_result env f arguments target code pc =
     ebind (argument arguments 0) (\<lambda>result. case rv_value result of
       RTagged handle \<Rightarrow>
         ebind (read_heap env code pc (\<lambda>view. view_tagged view handle)) (\<lambda>(tag, payload).
         ebind (read_heap env code pc (\<lambda>view. view_atom_text view (rv_value tag))) (\<lambda>name.
         if name = Some ''Ok'' then eret (Act_Return payload target)
         else if name = Some ''Err'' then
           ebind (unwrap_error env payload code pc) (\<lambda>(message, data, rule).
           efail (VmError (set_locations data rule (vm_error EK_TypeMismatch message code pc))))
         else fail EK_TypeMismatch UNWRAP_MESSAGE code pc))
     | _ \<Rightarrow> fail EK_TypeMismatch UNWRAP_MESSAGE code pc)"

end
