(* ===== verification/Native_Effects.thy ===== *)
theory Native_Effects
  imports Dict_Natives
begin

text \<open>
  What the native operations may do to the machine. They reach it through four primitive steps:
  allocating an object, interning a text or a shape, and charging the allocation account. The
  locale \<open>native_steps\<close> takes a preorder that contains those steps; every native operation then
  moves the machine within it. Its instances are the frame of the operations (fuel, frames and
  registers stay) here, and the growth of the heap and the bounds of the account further on.
\<close>

text \<open>
  A native operation of the machine hands the return target it was given to the action it
  answers with: it returns there, or calls back with a continuation that will.
\<close>

definition action_target :: "return_target \<Rightarrow> vm_action \<Rightarrow> bool" where
  "action_target target a \<longleftrightarrow> (case a of
     Act_Return _ t \<Rightarrow> t = target
   | Act_Call _ _ t _ _ \<Rightarrow> (\<exists>k. t = RT_Native k \<and> continuation_return_target k = target))"

lemmas action_target_simps [simp] = action_target_def [of _ "Act_Return _ _", simplified]
  action_target_def [of _ "Act_Call _ _ _ _ _", simplified]

lemma case_rules:
  "(\<And>x. eff_ok R Q (f1 x)) \<Longrightarrow> (\<And>x. eff_ok R Q (f2 x)) \<Longrightarrow> (\<And>x. eff_ok R Q (f3 x)) \<Longrightarrow>
   (\<And>x. eff_ok R Q (f4 x)) \<Longrightarrow> (\<And>x. eff_ok R Q (f5 x)) \<Longrightarrow> (\<And>x. eff_ok R Q (f6 x)) \<Longrightarrow>
   (\<And>x. eff_ok R Q (f7 x)) \<Longrightarrow> (\<And>x. eff_ok R Q (f8 x)) \<Longrightarrow> (\<And>x. eff_ok R Q (f9 x)) \<Longrightarrow>
   (\<And>x. eff_ok R Q (f10 x)) \<Longrightarrow> (\<And>x. eff_ok R Q (f11 x)) \<Longrightarrow> (\<And>x. eff_ok R Q (f12 x)) \<Longrightarrow>
   (\<And>x. eff_ok R Q (f13 x)) \<Longrightarrow> (\<And>x. eff_ok R Q (f14 x)) \<Longrightarrow> (\<And>x. eff_ok R Q (f15 x)) \<Longrightarrow>
   (\<And>x. eff_ok R Q (f16 x)) \<Longrightarrow>
   eff_ok R Q (case_runtime_value f1 f2 f3 f4 f5 f6 f7 f8 f9 f10 f11 f12 f13 f14 f15 f16 rv)"
  "eff_ok R Q a1 \<Longrightarrow> eff_ok R Q a2 \<Longrightarrow> eff_ok R Q a3 \<Longrightarrow> eff_ok R Q a4 \<Longrightarrow> eff_ok R Q a5 \<Longrightarrow>
   eff_ok R Q a6 \<Longrightarrow> eff_ok R Q a7 \<Longrightarrow> eff_ok R Q a8 \<Longrightarrow> eff_ok R Q a9 \<Longrightarrow> eff_ok R Q a10 \<Longrightarrow>
   eff_ok R Q a11 \<Longrightarrow> eff_ok R Q a12 \<Longrightarrow>
   eff_ok R Q (case_core_array a1 a2 a3 a4 a5 a6 a7 a8 a9 a10 a11 a12 ca)"
  "eff_ok R Q a1 \<Longrightarrow> eff_ok R Q a2 \<Longrightarrow> eff_ok R Q a3 \<Longrightarrow> eff_ok R Q a4 \<Longrightarrow> eff_ok R Q a5 \<Longrightarrow>
   eff_ok R Q a6 \<Longrightarrow> eff_ok R Q a7 \<Longrightarrow> eff_ok R Q a8 \<Longrightarrow> eff_ok R Q a9 \<Longrightarrow>
   eff_ok R Q (case_core_dict a1 a2 a3 a4 a5 a6 a7 a8 a9 cd)"
  by (auto split: runtime_value.splits core_array.splits core_dict.splits)

locale native_steps =
  fixes R :: "machine \<Rightarrow> machine \<Rightarrow> bool"
  assumes R_refl: "R m m"
    and R_trans: "R a b \<Longrightarrow> R b c \<Longrightarrow> R a c"
    and R_allocate: "R m (m\<lparr> m_heap := snd (allocate ob (m_heap m)) \<rparr>)"
    and R_intern: "R m (m\<lparr> m_heap := snd (intern t (m_heap m)) \<rparr>)"
    and R_intern_shape: "R m (m\<lparr> m_heap := snd (intern_shape fs (m_heap m)) \<rparr>)"
    and R_charge: "account_charge n (m_account m) = Some acc \<Longrightarrow> R m (m\<lparr> m_account := acc \<rparr>)"
begin

lemma pure:
  "Q x \<Longrightarrow> eff_ok R Q (eret x)" "eff_ok R Q (efail e)" "moves R (eget g)" "moves R (elift r)"
  by (simp_all add: eff_ok_pure R_refl)

lemma bind: "moves R m \<Longrightarrow> (\<And>x. eff_ok R Q (f x)) \<Longrightarrow> eff_ok R Q (ebind m f)"
  by (rule eff_ok_ebind) (auto intro: R_trans)

lemma collect: "(\<And>x. moves R (f x)) \<Longrightarrow> moves R (ecollect f xs)"
  by (rule eff_ok_ecollect) (auto intro: R_refl R_trans)

lemmas walk = TrueI pure bind collect eff_ok_cases case_rules

lemma fails:
  "eff_ok R Q (fail k msg code pc)" "eff_ok R Q panic" "eff_ok R Q (allocation_error msg code pc)"
  "eff_ok R Q (fail_type env expected v code pc)"
  unfolding fail_def panic_def allocation_error_def fail_type_def by (intro walk)+

lemma reads:
  "moves R (read_heap env code pc f)" "moves R (argument arguments i)"
  "moves R (expect_array env v code pc)" "moves R (read_array env code pc handle)"
  unfolding read_heap_def argument_def expect_array_def read_array_def
  by (intro walk fails)+

lemma on_heap_moves:
  "(\<And>m. R m (m\<lparr> m_heap := snd (f (m_heap m)) \<rparr>)) \<Longrightarrow> moves R (on_work_heap f)"
  by (auto simp: eff_ok_def on_work_heap_def estate_def split: prod.splits) (metis snd_conv)

lemma string_steps:
  "R m (m\<lparr> m_heap := snd (heap_string bg t (m_heap m)) \<rparr>)"
proof -
  have id: "m\<lparr> m_heap := m_heap m \<rparr> = m" by simp
  show ?thesis
    using R_intern[of m t] R_allocate[of m "OString t"] R_refl[of m]
    by (auto simp: heap_string_def id split: prod.splits option.splits if_splits)
qed

lemma heap_steps:
  "moves R (on_work_heap (allocate ob))" "moves R (on_work_heap (intern t))"
  "moves R (on_work_heap (intern_shape fs))" "moves R (on_work_heap (heap_string bg t))"
  by (rule on_heap_moves R_allocate R_intern R_intern_shape string_steps)+

lemma charge_step: "moves R (charge_allocation n code pc)"
proof (rule eff_okI)
  fix s r t assume "charge_allocation n code pc s = (r, t)"
  then show "R s t \<and> (\<forall>x. r = Inr x \<longrightarrow> True)"
    using R_charge[of n s] R_refl
    by (auto simp: charge_allocation_def ebind_def eget_def emodify_def
        allocation_error_def fail_def efail_def split: option.splits)
qed

lemma charges:
  "moves R (logical_value_bytes env k code pc)" "moves R (charge_values env k code pc)"
  unfolding logical_value_bytes_def charge_values_def by (intro walk fails charge_step)+

lemmas steps = walk fails reads heap_steps charge_step charges

lemma builds:
  "moves R (new_array vs)" "moves R (new_tagged tag payload)" "moves R (zip_pair p)"
  "moves R (new_string_at env t l)" "moves R (array_item env source i code pc)"
  "moves R (charge_array_output env s n)"
  unfolding new_array_def new_tagged_def zip_pair_def new_string_at_def array_item_def
    charge_array_output_def
  by (intro steps)+

lemma next_array: "eff_ok R (action_target target) (next_array_action env s target)"
proof -
  have "moves R (finish_array env s)"
    unfolding finish_array_def Let_def by (intro steps builds)
  then show ?thesis
    unfolding next_array_action_def Let_def by (intro steps builds) simp_all
qed

lemma resume_array:
  "eff_ok R (action_target target) (resume_array_continuation env s target v)"
proof -
  have "eff_ok R (action_target target) (resume_filter env s target v)"
    "eff_ok R (action_target target) (resume_flat_map env s target v)"
    "eff_ok R (action_target target) (resume_fold_control env s target v)"
    "eff_ok R (action_target target) (resume_predicate env s target v)"
    unfolding resume_filter_def resume_flat_map_def resume_fold_control_def
      resume_predicate_def Let_def
    by (intro steps builds next_array; simp)+
  then show ?thesis
    unfolding resume_array_continuation_def by (intro steps builds next_array)
qed

lemma start_array:
  "eff_ok R (action_target target) (start_array_continuation env f arguments target code pc)"
proof -
  have "moves R (concat_items env code pc vs)" for vs
    unfolding concat_items_def by (intro steps)
  then have "eff_ok R (action_target target) (array_length vs target code pc)"
    "eff_ok R (action_target target) (array_concat env vs target code pc)"
    "eff_ok R (action_target target) (array_push env vs arguments target code pc)"
    "eff_ok R (action_target target) (array_zip env vs arguments target code pc)"
    "eff_ok R (action_target target) (start_callback env f arguments target code pc)" for vs
    unfolding array_length_def array_concat_def array_push_def array_zip_def start_callback_def
    by (intro steps builds next_array; simp)+
  then show ?thesis
    unfolding start_array_continuation_def by (intro steps)
qed

lemma dict_output:
  "moves R (core_dict_entries env v expected code pc)"
  "moves R (charge_core_dict_output env n ls code pc)"
  "moves R (allocate_core_dict_unchecked entries l)"
  "moves R (allocate_core_dict env entries code pc)"
proof -
  show "moves R (core_dict_entries env v expected code pc)"
    unfolding core_dict_entries_def by (intro steps)
  show charge: "moves R (charge_core_dict_output env n ls code pc)" for n ls
    unfolding charge_core_dict_output_def by (intro steps)
  show new: "moves R (allocate_core_dict_unchecked entries l)" for l
    unfolding allocate_core_dict_unchecked_def by (intro steps)
  show "moves R (allocate_core_dict env entries code pc)"
    unfolding allocate_core_dict_def by (intro steps charge new)
qed

lemma core_dict: "eff_ok R (action_target target) (run_core_dict env f arguments target code pc)"
proof -
  have "moves R (dict_pair env l p)" for l p
    unfolding dict_pair_def by (intro steps builds)
  moreover have "moves R (pair_entry env code pc p)" for p
    unfolding pair_entry_def by (intro steps)
  ultimately have
    "moves R (dict_get env arguments code pc)" "moves R (dict_keys env arguments code pc)"
    "moves R (dict_values env arguments code pc)" "moves R (dict_pairs env arguments code pc)"
    "moves R (dict_from_pairs env arguments code pc)" "moves R (dict_merge env arguments code pc)"
    unfolding dict_get_def dict_keys_def dict_values_def dict_pairs_def dict_from_pairs_def
      dict_merge_def Let_def
    by (intro steps builds dict_output; simp)+
  then show ?thesis unfolding run_core_dict_def by (intro steps) simp_all
qed

lemma next_dict: "eff_ok R (action_target target) (next_dict_action env ds target)"
  unfolding next_dict_action_def Let_def by (intro steps builds dict_output) simp_all

lemma resume_dict: "eff_ok R (action_target target) (resume_dict_continuation env ds target v)"
  unfolding resume_dict_continuation_def Let_def by (intro steps dict_output next_dict)

lemma start_dict: "eff_ok R (action_target target) (start_core_dict env f arguments target code pc)"
proof -
  have "eff_ok R (action_target target) (start_dict_continuation env f arguments target code pc)"
    unfolding start_dict_continuation_def by (intro steps dict_output next_dict; simp)
  then show ?thesis unfolding start_core_dict_def by (intro steps core_dict)
qed

lemma core_eq: "eff_ok R (action_target target) (run_core_eq env feq arguments target code pc)"
  unfolding run_core_eq_def by (intro steps) simp

lemma core_result:
  "eff_ok R (action_target target) (run_core_result env fres arguments target code pc)"
proof -
  have "moves R (blame_field env code pc handle name)" "moves R (blame_message env code pc handle)"
    for handle name
    unfolding blame_field_def blame_message_def by (intro steps)+
  then have "moves R (unwrap_error env payload code pc)" for payload
    unfolding unwrap_error_def by (intro steps)
  then show ?thesis unfolding run_core_result_def by (intro steps) simp_all
qed

end

section \<open>Natives leave the control state alone\<close>

definition machine_fuel :: "machine \<Rightarrow> nat" where
  "machine_fuel m = qa_remaining_fuel (m_account m)"

definition same_control :: "machine \<Rightarrow> machine \<Rightarrow> bool" where
  "same_control a b \<longleftrightarrow>
     machine_fuel b = machine_fuel a \<and> m_frames b = m_frames a \<and> m_stack b = m_stack a \<and>
     qa_quota (m_account b) = qa_quota (m_account a) \<and>
     qa_query (m_account b) = qa_query (m_account a) \<and>
     qa_checks (m_account b) = qa_checks (m_account a)"

lemma account_charge_fields:
  assumes "account_charge n a = Some b"
  shows "b = a\<lparr> qa_requested_allocation_bytes := qa_requested_allocation_bytes a + n \<rparr>"
    and "qa_requested_allocation_bytes a + n \<le> quota_allocation_bytes (qa_quota a)"
  using assms
  by (auto simp: account_charge_def bind_eq_Some_conv split: if_splits)

interpretation control: native_steps same_control
  by unfold_locales
     (auto simp: same_control_def machine_fuel_def dest: account_charge_fields(1))

end
