(* ===== verification/Vm.thy ===== *)
theory Vm
  imports Native_Effects
begin

text \<open>
  Calls and returns of the virtual machine (\<open>make_execution_frame\<close> and \<open>drive_vm_action\<close> of
  \<open>crates/telora-core/src/vm.rs\<close>). An action is a call or a return; \<open>drive\<close> performs actions
  until a frame has been pushed, a caller's register has been written, or the root has returned.
  Every call consumes fuel and every return leaves a native continuation, so \<open>drive\<close> ends; this is
  its termination proof, not an assumption.
\<close>

section \<open>Frames\<close>

definition load_registers :: "nat \<Rightarrow> rich_value list \<Rightarrow> rich_value option list" where
  "load_registers count vs = map Some (take count vs) @ replicate (count - length vs) None"

definition make_execution_frame ::
    "func_byte_code \<Rightarrow> handle \<Rightarrow> rich_value list \<Rightarrow> rich_value list \<Rightarrow> return_target \<Rightarrow>
      execution_frame exec" where
  "make_execution_frame code prototype arguments captures target =
     (if length arguments \<noteq> code_parameter_count code then
        fail EK_TypeMismatch (''expected '' @ show_nat (code_parameter_count code) @
          '' arguments, got '' @ show_nat (length arguments)) code 0
      else if length captures \<noteq> code_capture_count code then
        fail EK_InvalidBytecode ''closure capture count does not match function signature'' code 0
      else
        ebind (eget (\<lambda>m. length (m_stack m))) (\<lambda>base.
        ebind (eget (\<lambda>m. stack_limit (m_account m))) (\<lambda>limit.
        case checked_add_usize base (code_register_count code) of
          None \<Rightarrow> fail EK_StackLimitExceeded ''Telora stack size overflowed'' code 0
        | Some end' \<Rightarrow>
            if limit < end' then
              fail EK_StackLimitExceeded
                (''Telora stack exceeds the limit of '' @ show_nat limit @ '' slots'') code 0
            else
              ebind (emodify (\<lambda>m. m\<lparr> m_stack := m_stack m @
                  load_registers (code_register_count code) (arguments @ captures) \<rparr>)) (\<lambda>_.
              if code_register_count code < length (arguments @ captures) then
                fail EK_InvalidBytecode ''function signature exceeds its register count'' code 0
              else eret \<lparr> fr_function = code, fr_prototype = prototype, fr_base = base, fr_pc = 0,
                          fr_return_target = target \<rparr>))))"

section \<open>Native operations\<close>

definition native_of :: "machine \<Rightarrow> native_state" where
  "native_of m =
     \<lparr> ns_heap = m_heap m, ns_requested = qa_requested_allocation_bytes (m_account m),
       ns_limit = quota_allocation_bytes (qa_quota (m_account m)),
       ns_diagnostics = qa_diagnostics (m_account m), ns_next_identity = m_next_identity m \<rparr>"

definition with_native :: "native_state \<Rightarrow> machine \<Rightarrow> machine" where
  "with_native ns m =
     m\<lparr> m_heap := ns_heap ns,
        m_account := (m_account m)\<lparr> qa_requested_allocation_bytes := ns_requested ns,
                                     qa_diagnostics := ns_diagnostics ns \<rparr>,
        m_next_identity := ns_next_identity ns \<rparr>"

definition as_native :: "('e \<Rightarrow> vm_failure) \<Rightarrow> (native_state, 'e, 'a) eff \<Rightarrow> 'a exec" where
  "as_native wrap f =
     (\<lambda>m. case f (native_of m) of (r, ns) \<Rightarrow> (map_err wrap r, with_native ns m))"

text \<open>
  \<open>CallContext\<close>: arguments, upvalues and the result take a window of registers, which the host
  callback may extend up to the stack limit; \<open>take_result\<close> drops the window again.
\<close>

definition run_synchronous ::
    "environment \<Rightarrow> native_function \<Rightarrow> rich_value list \<Rightarrow> rich_value list \<Rightarrow> func_byte_code \<Rightarrow> nat \<Rightarrow>
      rich_value exec" where
  "run_synchronous env native arguments upvalues code pc =
     (let window = length arguments + length upvalues + 1;
          stack_failure = (\<lambda>msg. efail (VmError (native_runtime_error native
            \<lparr> ne_message = msg, ne_limit = Some NL_Stack \<rparr> code pc)))
      in ebind (eget (\<lambda>m. length (m_stack m))) (\<lambda>base.
         ebind (eget (\<lambda>m. stack_limit (m_account m))) (\<lambda>limit.
         if usize_max < window then stack_failure ''native stack window is too large''
         else if usize_max < base + window then stack_failure ''Telora stack size overflowed''
         else if limit < base + window \<or> u32_max < window then
           stack_failure ''native call exceeds the Telora stack-slot limit''
         else
           ebind (as_native (\<lambda>e. VmError (native_runtime_error native e code pc))
             (env_callback env (native_callback native) arguments upvalues
               (limit - (base + window)))) (\<lambda>result.
           case result of
             None \<Rightarrow> fail EK_InvalidBytecode (native_name native @
               '': native function did not write its result register'') code pc
           | Some v \<Rightarrow> eret (rich_with_loc v
               (case rich_loc v of Some l \<Rightarrow> Some l | None \<Rightarrow> instruction_location code pc))))))"

definition run_native ::
    "environment \<Rightarrow> native_function \<Rightarrow> rich_value list \<Rightarrow> rich_value list \<Rightarrow> return_target \<Rightarrow>
      func_byte_code \<Rightarrow> nat \<Rightarrow> vm_action exec" where
  "run_native env native arguments upvalues target code pc = (case native_kind_of native of
     Kind_Synchronous \<Rightarrow>
       ebind (run_synchronous env native arguments upvalues code pc) (\<lambda>v.
       eret (Act_Return v target))
   | Kind_CoreArray f \<Rightarrow> start_array_continuation env f arguments target code pc
   | Kind_CoreDict f \<Rightarrow> start_core_dict env f arguments target code pc
   | Kind_CoreEq f \<Rightarrow> run_core_eq env f arguments target code pc
   | Kind_CoreResult f \<Rightarrow> run_core_result env f arguments target code pc
   | kind \<Rightarrow>
       ebind (as_native VmError (env_native env kind arguments upvalues code pc)) (\<lambda>v.
       eret (Act_Return v target)))"

definition resume_native ::
    "environment \<Rightarrow> continuation \<Rightarrow> rich_value \<Rightarrow> vm_action exec" where
  "resume_native env k v = (case k of
     ArrayContinuation s target \<Rightarrow> resume_array_continuation env s target v
   | DictContinuation s target \<Rightarrow> resume_dict_continuation env s target v)"

section \<open>Calls\<close>

definition map_failure :: "(runtime_error \<Rightarrow> runtime_error) \<Rightarrow> vm_failure \<Rightarrow> vm_failure" where
  "map_failure f e = (case e of VmError r \<Rightarrow> VmError (f r) | VmPanic \<Rightarrow> VmPanic)"

definition on_failure :: "(runtime_error \<Rightarrow> runtime_error) \<Rightarrow> 'a exec \<Rightarrow> 'a exec" where
  "on_failure f m = (\<lambda>s. case m s of (r, s') \<Rightarrow> (map_err (map_failure f) r, s'))"

definition logical_depth :: "execution_frame list \<Rightarrow> return_target \<Rightarrow> nat" where
  "logical_depth frames target =
     length frames + sum_list (map (\<lambda>f. native_depth (fr_return_target f)) frames) +
     native_depth target"

definition check_depth :: "return_target \<Rightarrow> func_byte_code \<Rightarrow> nat \<Rightarrow> unit exec" where
  "check_depth target code pc =
     ebind (eget m_frames) (\<lambda>frames.
       if MAX_CALL_DEPTH \<le> logical_depth frames target then
         fail EK_CallDepthExceeded
           (''call depth exceeds the limit of '' @ show_nat MAX_CALL_DEPTH @ '' frames'') code pc
       else eret ())"

text \<open>An atom applied to one value makes a tagged value.\<close>

definition construct_tagged ::
    "environment \<Rightarrow> rich_value \<Rightarrow> rich_value list \<Rightarrow> return_target \<Rightarrow> func_byte_code \<Rightarrow> nat \<Rightarrow>
      vm_action exec" where
  "construct_tagged env callee arguments target code pc =
     (if length arguments \<noteq> 1 then
        fail EK_TypeMismatch
          (''tag constructor expects 1 argument, got '' @ show_nat (length arguments)) code pc
      else
        ebind (charge_allocation (env_rich_value_size env * 2) code pc) (\<lambda>_.
        ebind (new_tagged callee (arguments ! 0)) (\<lambda>v.
        eret (Act_Return (rich_new v (rich_loc callee)) target))))"

definition expected_arity ::
    "environment \<Rightarrow> runtime_prototype \<Rightarrow> func_byte_code \<Rightarrow> nat \<Rightarrow> nat exec" where
  "expected_arity env p code pc = (case p of
     RP_Bytecode handle \<Rightarrow>
       ebind (read_heap env code pc (\<lambda>view. view_bytecode view handle)) (\<lambda>(callee_code, _, _, _).
       eret (code_parameter_count callee_code))
   | RP_Native native \<Rightarrow> eret (native_arity native))"

text \<open>An error of \<open>make_execution_frame\<close> is reported at the call.\<close>

definition push_frame ::
    "environment \<Rightarrow> handle \<Rightarrow> rich_value list \<Rightarrow> rich_value list \<Rightarrow> return_target \<Rightarrow>
      func_byte_code \<Rightarrow> nat \<Rightarrow> unit exec" where
  "push_frame env prototype arguments upvalues target code pc =
     ebind (read_heap env code pc (\<lambda>view. view_bytecode view prototype)) (\<lambda>(callee_code, _, _, _).
     ebind (on_failure (\<lambda>e. vm_error (re_kind e) (re_message e) code pc)
       (make_execution_frame callee_code prototype arguments upvalues target)) (\<lambda>frame.
     emodify (\<lambda>m. m\<lparr> m_frames := frame # m_frames m \<rparr>)))"

text \<open>\<open>None\<close> when a frame was pushed, otherwise the next action.\<close>

definition call_closure ::
    "environment \<Rightarrow> handle \<Rightarrow> rich_value list \<Rightarrow> return_target \<Rightarrow> func_byte_code \<Rightarrow> nat \<Rightarrow>
      vm_action option exec" where
  "call_closure env closure arguments target code pc =
     ebind (read_heap env code pc (\<lambda>view. view_closure view closure)) (\<lambda>(p, upvalues).
     ebind (expected_arity env p code pc) (\<lambda>arity.
     if length arguments \<noteq> arity then
       fail EK_TypeMismatch (''expected '' @ show_nat arity @ '' arguments, got '' @
         show_nat (length arguments)) code pc
     else case p of
       RP_Bytecode prototype \<Rightarrow>
         ebind (push_frame env prototype arguments upvalues target code pc) (\<lambda>_. eret None)
     | RP_Native native \<Rightarrow>
         ebind (run_native env native arguments upvalues target code pc) (\<lambda>a. eret (Some a))))"

definition dispatch_call ::
    "environment \<Rightarrow> rich_value \<Rightarrow> rich_value list \<Rightarrow> return_target \<Rightarrow> func_byte_code \<Rightarrow> nat \<Rightarrow>
      vm_action option exec" where
  "dispatch_call env callee arguments target code pc = (case rv_value callee of
     RBuiltinAtom _ \<Rightarrow>
       ebind (construct_tagged env callee arguments target code pc) (\<lambda>a. eret (Some a))
   | RAtom _ \<Rightarrow>
       ebind (construct_tagged env callee arguments target code pc) (\<lambda>a. eret (Some a))
   | RFunc closure \<Rightarrow> call_closure env closure arguments target code pc
   | _ \<Rightarrow> fail_type env ''Func'' callee code pc)"

definition call_value ::
    "environment \<Rightarrow> rich_value \<Rightarrow> rich_value list \<Rightarrow> return_target \<Rightarrow> func_byte_code \<Rightarrow> nat \<Rightarrow>
      vm_action option exec" where
  "call_value env callee arguments target code pc =
     ebind (on_failure (push_trace (native_trace target)) (consume_fuel env code pc)) (\<lambda>_.
     ebind (check_depth target code pc) (\<lambda>_.
     dispatch_call env callee arguments target code pc))"

section \<open>Returns\<close>

definition no_caller_error :: runtime_error where
  "no_caller_error =
     \<lparr> re_kind = EK_InvalidBytecode, re_message = ''return register has no caller'',
       re_function = ''<vm>'', re_instruction = 0, re_trace = [], re_locations = None,
       re_rendered = None, re_trace_includes_active_frame = False \<rparr>"

definition frame_window_ok :: "execution_frame \<Rightarrow> machine \<Rightarrow> bool" where
  "frame_window_ok frame m \<longleftrightarrow>
     fr_base frame + code_register_count (fr_function frame) \<le> length (m_stack m)"

definition return_to_register :: "rich_value \<Rightarrow> register \<Rightarrow> loc option \<Rightarrow> unit exec" where
  "return_to_register v destination call_site =
     ebind (eget m_frames) (\<lambda>frames. case frames of
         [] \<Rightarrow> efail (VmError no_caller_error)
       | caller # _ \<Rightarrow>
           ebind (eget (frame_window_ok caller)) (\<lambda>ok.
           if \<not> ok then panic
           else write_register caller destination (rich_rebase_generated v call_site)
             (fr_function caller) (fr_pc caller - 1)))"

section \<open>The action loop\<close>

lemma consume_fuel_less:
  "consume_fuel env code pc m = (Inr x, m') \<Longrightarrow> machine_fuel m' < machine_fuel m"
  by (auto simp: consume_fuel_def result_simps machine_fuel_def fail_def estate_def
      split: option.splits if_splits sum.splits)

text \<open>Everything after the fuel check of a call keeps the fuel and answers the call's target.\<close>

definition less_fuel :: "machine \<Rightarrow> machine \<Rightarrow> bool" where
  "less_fuel a b \<longleftrightarrow> machine_fuel b \<le> machine_fuel a"

interpretation fuel: native_steps less_fuel
  by unfold_locales
     (auto simp: less_fuel_def machine_fuel_def dest: account_charge_fields(1))

lemma as_native_fuel: "moves less_fuel (as_native wrap f)"
  by (auto simp: eff_ok_def as_native_def with_native_def less_fuel_def machine_fuel_def
      split: prod.splits)

lemma run_native_fuel:
  "eff_ok less_fuel (action_target target) (run_native env native arguments upvalues target code pc)"
proof -
  have "moves less_fuel (run_synchronous env native arguments upvalues code pc)"
    unfolding run_synchronous_def Let_def by (intro fuel.steps as_native_fuel)
  then show ?thesis
    unfolding run_native_def
    by (auto split: native_kind.splits
        intro!: fuel.steps fuel.start_array fuel.start_dict fuel.core_eq fuel.core_result
          as_native_fuel)
qed

lemma resume_native_ok:
  "eff_ok less_fuel (action_target (continuation_return_target k)) (resume_native env k v)"
  by (cases k) (simp_all add: resume_native_def fuel.resume_array fuel.resume_dict)

lemma emodify_fuel:
  "(\<And>m. machine_fuel (f m) = machine_fuel m) \<Longrightarrow> moves less_fuel (emodify f)"
  by (simp add: eff_ok_def emodify_def less_fuel_def)

lemma on_failure_ok: "eff_ok R Q m \<Longrightarrow> eff_ok R Q (on_failure f m)"
  by (auto simp: eff_ok_def on_failure_def split: prod.splits) (metis fst_conv snd_conv)+

lemma make_execution_frame_fuel:
  "moves less_fuel (make_execution_frame code prototype arguments captures target)"
  unfolding make_execution_frame_def
  by (intro fuel.steps emodify_fuel) (simp add: machine_fuel_def)

lemma after_fuel:
  "moves less_fuel (check_depth target code pc)"
  "moves less_fuel (construct_tagged env callee arguments target code pc)"
  "moves less_fuel (call_closure env closure arguments target code pc)"
proof -
  show "moves less_fuel (check_depth target code pc)"
    unfolding check_depth_def by (intro fuel.steps)
  show "moves less_fuel (construct_tagged env callee arguments target code pc)"
    unfolding construct_tagged_def by (intro fuel.steps fuel.builds)
  have "moves less_fuel (push_frame env prototype arguments upvalues target code pc)"
    for prototype upvalues
    unfolding push_frame_def
    by (intro fuel.steps on_failure_ok make_execution_frame_fuel emodify_fuel)
       (simp add: machine_fuel_def)
  moreover have "moves less_fuel (expected_arity env p code pc)" for p
    unfolding expected_arity_def by (cases p) (auto intro!: fuel.steps)
  moreover have "moves less_fuel (run_native env native arguments upvalues target code pc)"
    for native upvalues
    using run_native_fuel by (rule eff_ok_weaken) simp
  ultimately show "moves less_fuel (call_closure env closure arguments target code pc)"
    unfolding call_closure_def
    by (auto split: runtime_prototype.splits intro!: fuel.steps)
qed

lemma dispatch_call_fuel: "moves less_fuel (dispatch_call env callee arguments target code pc)"
  unfolding dispatch_call_def by (intro fuel.steps after_fuel)

lemma call_value_fuel:
  assumes "call_value env callee arguments target code pc m = (Inr a, m')"
  shows "machine_fuel m' < machine_fuel m"
proof -
  let ?rest = "ebind (check_depth target code pc) (\<lambda>_.
     dispatch_call env callee arguments target code pc)"
  have rest: "moves less_fuel ?rest"
    by (intro fuel.bind after_fuel dispatch_call_fuel)
  from assms obtain x t where
    fuel: "on_failure (push_trace (native_trace target)) (consume_fuel env code pc) m = (Inr x, t)"
    and run: "?rest t = (Inr a, m')"
    unfolding call_value_def ebind_eq_Inr[of "on_failure _ _"] by (elim exE conjE)
  from fuel have "consume_fuel env code pc m = (Inr x, t)"
    by (auto simp: on_failure_def split: prod.splits)
  then have "machine_fuel t < machine_fuel m" by (rule consume_fuel_less)
  moreover have "machine_fuel m' \<le> machine_fuel t"
    using eff_okD(1)[OF rest run] by (simp add: less_fuel_def)
  ultimately show ?thesis by simp
qed

definition action_rank :: "vm_action \<Rightarrow> nat" where
  "action_rank a = (case a of Act_Return _ t \<Rightarrow> Suc (native_depth t) | Act_Call _ _ _ _ _ \<Rightarrow> 0)"

lemma native_depth_continuation:
  "native_depth (RT_Native k) = Suc (native_depth (continuation_return_target k))"
  by (cases k) simp_all

lemma resume_native_decreases:
  assumes "resume_native env k v m = (Inr a, m')"
  shows "machine_fuel m' < machine_fuel m \<or>
    machine_fuel m' = machine_fuel m \<and> action_rank a < Suc (native_depth (RT_Native k))"
  using eff_okD[OF resume_native_ok assms]
  by (auto simp: less_fuel_def action_rank_def native_depth_continuation split: vm_action.splits)

function (sequential) drive ::
    "environment \<Rightarrow> vm_action \<Rightarrow> machine \<Rightarrow> (vm_failure + drive_outcome) \<times> machine" where
  "drive env (Act_Return v RT_Root) m = (Inr (Root v), m)"
| "drive env (Act_Return v (RT_Register destination call_site)) m =
     ebind (return_to_register v destination call_site) (\<lambda>_. eret Pending) m"
| "drive env (Act_Return v (RT_Native k)) m =
     (case resume_native env k v m of
        (Inl e, m') \<Rightarrow> (Inl (map_failure (push_trace [continuation_trace_frame k]) e), m')
      | (Inr a, m') \<Rightarrow> drive env a m')"
| "drive env (Act_Call callee arguments target code pc) m =
     (case call_value env callee arguments target code pc m of
        (Inl e, m') \<Rightarrow> (Inl e, m')
      | (Inr None, m') \<Rightarrow> (Inr Pending, m')
      | (Inr (Some a), m') \<Rightarrow> drive env a m')"
  by pat_completeness auto

termination drive
proof (relation "measures [\<lambda>(env, a, m). machine_fuel m, \<lambda>(env, a, m). action_rank a]")
  fix env v k m r and m' a
  assume "(r, m') = resume_native env k v m" "r = Inr a"
  then show "((env, a, m'), env, Act_Return v (RT_Native k), m)
      \<in> measures [\<lambda>(env, a, m). machine_fuel m, \<lambda>(env, a, m). action_rank a]"
    using resume_native_decreases[of env k v m a m'] by (auto simp: action_rank_def)
next
  fix env callee arguments target code pc m r and m' x a
  assume "(r, m') = call_value env callee arguments target code pc m" "r = Inr x" "x = Some a"
  then show "((env, a, m'), env, Act_Call callee arguments target code pc, m)
      \<in> measures [\<lambda>(env, a, m). machine_fuel m, \<lambda>(env, a, m). action_rank a]"
    using call_value_fuel[of env callee arguments target code pc m x m'] by simp
qed simp

end
