(* ===== verification/Interpreter.thy ===== *)
theory Interpreter
  imports Vm
begin

text \<open>
  The instruction loop of the virtual machine (\<open>Vm::execute_frame\<close> of
  \<open>crates/telora-core/src/vm.rs\<close>): one definition per group of opcodes, \<open>execute_step\<close> for one
  turn of the loop and \<open>run\<close> for the loop. A turn either consumes fuel, or leaves a frame, or
  moves the program counter of the active frame forward, so the loop is a total function.
\<close>

section \<open>Links and up-links\<close>

definition frame_links :: "environment \<Rightarrow> execution_frame \<Rightarrow> bytecode_links exec" where
  "frame_links env frame =
     read_heap env (fr_function frame) (fr_pc frame) (\<lambda>view. view_bytecode view (fr_prototype frame))"

definition frame_fail :: "execution_frame \<Rightarrow> runtime_error_kind \<Rightarrow> string \<Rightarrow> 'a exec" where
  "frame_fail frame kind message = fail kind message (fr_function frame) (fr_pc frame)"

definition frame_loc :: "execution_frame \<Rightarrow> loc option" where
  "frame_loc frame = instruction_location (fr_function frame) (fr_pc frame)"

definition text_link :: "environment \<Rightarrow> execution_frame \<Rightarrow> text_link_id \<Rightarrow> intern_id exec" where
  "text_link env frame field =
     ebind (frame_links env frame) (\<lambda>(_, _, text_links, _). case nth_opt text_links field of
         Some i \<Rightarrow> eret i
       | None \<Rightarrow> frame_fail frame EK_InvalidBytecode
           (''text link '' @ show_nat field @ '' is out of bounds''))"

definition op_load_const ::
    "environment \<Rightarrow> execution_frame \<Rightarrow> register \<Rightarrow> value_link_id \<Rightarrow> unit exec" where
  "op_load_const env frame dst link =
     ebind (frame_links env frame) (\<lambda>(_, values, _, _). case nth_opt values link of
         None \<Rightarrow> frame_fail frame EK_InvalidBytecode
           (''value link '' @ show_nat link @ '' is out of bounds'')
       | Some v \<Rightarrow> set_register frame dst (rich_with_loc v
           (case rich_loc v of Some l \<Rightarrow> Some l | None \<Rightarrow> frame_loc frame)))"

definition op_move :: "execution_frame \<Rightarrow> register \<Rightarrow> register \<Rightarrow> unit exec" where
  "op_move frame dst src = ebind (get_register frame src) (set_register frame dst)"

definition charge_slots :: "environment \<Rightarrow> execution_frame \<Rightarrow> nat \<Rightarrow> unit exec" where
  "charge_slots env frame count = charge_values env count (fr_function frame) (fr_pc frame)"

text \<open>Allocate an object and put the value that holds its handle into a register.\<close>

definition store_new ::
    "execution_frame \<Rightarrow> register \<Rightarrow> object \<Rightarrow> (handle \<Rightarrow> runtime_value) \<Rightarrow> unit exec" where
  "store_new frame dst ob wrap =
     ebind (on_work_heap (allocate ob)) (\<lambda>handle.
     set_register frame dst (rich_new (wrap handle) (frame_loc frame)))"

definition op_make_up_link :: "environment \<Rightarrow> execution_frame \<Rightarrow> register \<Rightarrow> unit exec" where
  "op_make_up_link env frame dst =
     ebind (charge_slots env frame 1) (\<lambda>_. store_new frame dst (OUpLink None) RUpLink)"

definition up_link_register :: "execution_frame \<Rightarrow> register \<Rightarrow> string \<Rightarrow> handle exec" where
  "up_link_register frame link message =
     ebind (get_register frame link) (\<lambda>v. case rv_value v of
         RUpLink handle \<Rightarrow> eret handle
       | _ \<Rightarrow> frame_fail frame EK_InvalidBytecode message)"

definition read_up_link ::
    "environment \<Rightarrow> execution_frame \<Rightarrow> handle \<Rightarrow> rich_value option exec" where
  "read_up_link env frame handle =
     read_heap env (fr_function frame) (fr_pc frame) (\<lambda>view. view_up_link view handle)"

definition op_read_up_link ::
    "environment \<Rightarrow> execution_frame \<Rightarrow> register \<Rightarrow> register \<Rightarrow> unit exec" where
  "op_read_up_link env frame dst link =
     ebind (up_link_register frame link ''up-link read operand is not an up-link'') (\<lambda>handle.
     ebind (read_up_link env frame handle) (\<lambda>found. case found of
         None \<Rightarrow> frame_fail frame EK_UninitializedDefinition
           ''definition was read before initialization''
       | Some v \<Rightarrow> set_register frame dst v))"

definition write_up_link :: "execution_frame \<Rightarrow> handle \<Rightarrow> rich_value \<Rightarrow> unit exec" where
  "write_up_link frame handle v =
     ebind (eget (\<lambda>m. initialize_up_link handle v (m_heap m))) (\<lambda>r. case r of
         Inl e \<Rightarrow> efail (VmError (heap_vm_error e (fr_function frame) (fr_pc frame)))
       | Inr h \<Rightarrow> emodify (\<lambda>m. m\<lparr> m_heap := h \<rparr>))"

definition op_initialize_up_link ::
    "environment \<Rightarrow> execution_frame \<Rightarrow> register \<Rightarrow> register \<Rightarrow> unit exec" where
  "op_initialize_up_link env frame link src =
     ebind (up_link_register frame link ''up-link initialization operand is not an up-link'') (\<lambda>handle.
     ebind (read_up_link env frame handle) (\<lambda>found.
     if found \<noteq> None then
       frame_fail frame EK_DuplicateDefinition ''definition was initialized more than once''
     else
       ebind (get_register frame src) (\<lambda>v. write_up_link frame handle v)))"

definition op_assert_up_link_ready ::
    "environment \<Rightarrow> execution_frame \<Rightarrow> register \<Rightarrow> unit exec" where
  "op_assert_up_link_ready env frame link =
     ebind (up_link_register frame link ''up-link assertion operand is not an up-link'') (\<lambda>handle.
     ebind (read_up_link env frame handle) (\<lambda>found.
     if found = None then
       frame_fail frame EK_UninitializedDefinition
         ''declaration was not initialized before block completion''
     else eret ()))"

definition op_assert_function_arity ::
    "environment \<Rightarrow> execution_frame \<Rightarrow> register \<Rightarrow> nat \<Rightarrow> unit exec" where
  "op_assert_function_arity env frame r arity =
     ebind (get_register frame r) (\<lambda>v. case rv_value v of
         RFunc handle \<Rightarrow>
           ebind (read_heap env (fr_function frame) (fr_pc frame)
             (\<lambda>view. function_arity view handle)) (\<lambda>actual.
           if actual \<noteq> arity then
             frame_fail frame EK_TypeMismatch (''definition must accept '' @ show_nat arity @
               '' arguments, got '' @ show_nat actual)
           else eret ())
       | _ \<Rightarrow> frame_fail frame EK_TypeMismatch (''definition must be a function accepting '' @
           show_nat arity @ '' arguments''))"

section \<open>Arithmetic and comparison\<close>

datatype numeric_operation = Num_Add | Num_Subtract | Num_Multiply | Num_Divide

fun checked_int :: "numeric_operation \<Rightarrow> i64 \<Rightarrow> i64 \<Rightarrow> i64 option" where
  "checked_int Num_Add a b = i64_checked_add a b"
| "checked_int Num_Subtract a b = i64_checked_sub a b"
| "checked_int Num_Multiply a b = i64_checked_mul a b"
| "checked_int Num_Divide a b = i64_checked_div a b"

fun float_binary :: "numeric_operation \<Rightarrow> f64 \<Rightarrow> f64 \<Rightarrow> f64" where
  "float_binary Num_Add a b = f64_add a b"
| "float_binary Num_Subtract a b = f64_sub a b"
| "float_binary Num_Multiply a b = f64_mul a b"
| "float_binary Num_Divide a b = f64_div a b"

definition fail_numeric_types ::
    "environment \<Rightarrow> execution_frame \<Rightarrow> rich_value \<Rightarrow> rich_value \<Rightarrow> 'a exec" where
  "fail_numeric_types env frame left right =
     ebind (eget (view_of env)) (\<lambda>view.
     efail (VmError (runtime_numeric_type_error left right view (fr_function frame) (fr_pc frame))))"

definition numeric_binary ::
    "environment \<Rightarrow> execution_frame \<Rightarrow> numeric_operation \<Rightarrow> rich_value \<Rightarrow> rich_value \<Rightarrow>
      rich_value exec" where
  "numeric_binary env frame op left right = (case (rv_value left, rv_value right) of
     (RInt a, RInt b) \<Rightarrow>
       if op = Num_Divide \<and> b = 0 then
         frame_fail frame EK_DivisionByZero ''integer division by zero''
       else (case checked_int op a b of
           None \<Rightarrow> frame_fail frame EK_IntegerOverflow ''integer arithmetic overflowed''
         | Some c \<Rightarrow> eret (rich_unknown (RInt c)))
   | (RFloat a, RFloat b) \<Rightarrow> eret (rich_unknown (RFloat (float_binary op a b)))
   | _ \<Rightarrow> fail_numeric_types env frame left right)"

text \<open>Sums and differences are located at the instruction; products and quotients are not.\<close>

definition op_numeric ::
    "environment \<Rightarrow> execution_frame \<Rightarrow> numeric_operation \<Rightarrow> register \<Rightarrow> register \<Rightarrow> register \<Rightarrow> unit exec"
where
  "op_numeric env frame op dst left right =
     ebind (get_register frame left) (\<lambda>l.
     ebind (get_register frame right) (\<lambda>r.
     ebind (numeric_binary env frame op l r) (\<lambda>v.
     set_register frame dst
       (if op = Num_Add \<or> op = Num_Subtract then rich_with_loc v (frame_loc frame) else v))))"

definition op_negate :: "environment \<Rightarrow> execution_frame \<Rightarrow> register \<Rightarrow> register \<Rightarrow> unit exec" where
  "op_negate env frame dst src =
     ebind (get_register frame src) (\<lambda>v.
     ebind (case rv_value v of
         RInt n \<Rightarrow> (case i64_checked_neg n of
             None \<Rightarrow> frame_fail frame EK_IntegerOverflow ''integer negation overflowed''
           | Some k \<Rightarrow> eret (RInt k))
       | RFloat x \<Rightarrow> eret (RFloat (f64_neg x))
       | _ \<Rightarrow> fail_type env ''numeric value'' v (fr_function frame) (fr_pc frame)) (\<lambda>w.
     set_register frame dst (rich_new w (frame_loc frame))))"

definition compare_equal ::
    "environment \<Rightarrow> execution_frame \<Rightarrow> rich_value \<Rightarrow> rich_value \<Rightarrow> bool exec" where
  "compare_equal env frame l r =
     read_heap env (fr_function frame) (fr_pc frame) (\<lambda>view. values_equal view l r)"

definition op_equal ::
    "environment \<Rightarrow> execution_frame \<Rightarrow> register \<Rightarrow> register \<Rightarrow> register \<Rightarrow> unit exec" where
  "op_equal env frame dst left right =
     ebind (get_register frame left) (\<lambda>l.
     ebind (get_register frame right) (\<lambda>r.
     ebind (compare_equal env frame l r) (\<lambda>equal.
     set_register frame dst (rich_with_loc (runtime_bool equal) (frame_loc frame)))))"

definition op_less_than ::
    "environment \<Rightarrow> execution_frame \<Rightarrow> register \<Rightarrow> register \<Rightarrow> register \<Rightarrow> unit exec" where
  "op_less_than env frame dst left right =
     ebind (get_register frame left) (\<lambda>l.
     ebind (get_register frame right) (\<lambda>r.
     ebind (case (rv_value l, rv_value r) of
         (RInt a, RInt b) \<Rightarrow> eret (sint a < sint b)
       | (RFloat a, RFloat b) \<Rightarrow> eret (f64_lt a b)
       | _ \<Rightarrow> fail_numeric_types env frame l r) (\<lambda>less.
     set_register frame dst (rich_with_loc (runtime_bool less) (frame_loc frame)))))"

section \<open>Sequences and strings\<close>

definition op_make_array ::
    "environment \<Rightarrow> execution_frame \<Rightarrow> register \<Rightarrow> register list \<Rightarrow> unit exec" where
  "op_make_array env frame dst items =
     ebind (get_registers frame items) (\<lambda>vs.
     ebind (charge_slots env frame (length vs)) (\<lambda>_. store_new frame dst (OArray vs) RArray))"

definition op_make_tuple ::
    "environment \<Rightarrow> execution_frame \<Rightarrow> register \<Rightarrow> register list \<Rightarrow> unit exec" where
  "op_make_tuple env frame dst items =
     ebind (get_registers frame items) (\<lambda>vs.
     ebind (charge_slots env frame (length vs)) (\<lambda>_. store_new frame dst (OTuple vs) RTuple))"

definition spread_array :: "environment \<Rightarrow> execution_frame \<Rightarrow> rich_value \<Rightarrow> rich_value list exec" where
  "spread_array env frame v = (case rv_value v of
     RArray handle \<Rightarrow> read_array env (fr_function frame) (fr_pc frame) handle
   | _ \<Rightarrow> frame_fail frame EK_TypeMismatch ''array spread operand must be an Array'')"

definition op_concat_arrays ::
    "environment \<Rightarrow> execution_frame \<Rightarrow> register \<Rightarrow> register list \<Rightarrow> unit exec" where
  "op_concat_arrays env frame dst arrays =
     ebind (get_registers frame arrays) (\<lambda>vs.
     ebind (ecollect (spread_array env frame) vs) (\<lambda>vss.
     ebind (charge_slots env frame (length (concat vss))) (\<lambda>_.
     store_new frame dst (OArray (concat vss)) RArray)))"

text \<open>\<open>decimal_length\<close>: the digits of the magnitude and the sign.\<close>

fun decimal_digits :: "nat \<Rightarrow> nat" where
  "decimal_digits n = (if n < 10 then 1 else Suc (decimal_digits (n div 10)))"

declare decimal_digits.simps [simp del]

definition decimal_length :: "i64 \<Rightarrow> nat" where
  "decimal_length n = decimal_digits (nat \<bar>sint n\<bar>) + (if sint n < 0 then 1 else 0)"

text \<open>
  The texts of the parts are read twice: the first pass measures them, the quota is charged with
  the sum, the second pass builds the string.
\<close>

definition part_text :: "environment \<Rightarrow> execution_frame \<Rightarrow> rich_value \<Rightarrow> string option exec" where
  "part_text env frame v =
     ebind (read_heap env (fr_function frame) (fr_pc frame)
       (\<lambda>view. view_string_text view (rv_value v))) (\<lambda>text. case text of
         Some t \<Rightarrow> eret (Some t)
       | None \<Rightarrow> read_heap env (fr_function frame) (fr_pc frame)
           (\<lambda>view. view_atom_text view (rv_value v)))"

definition part_length :: "environment \<Rightarrow> execution_frame \<Rightarrow> rich_value \<Rightarrow> nat exec" where
  "part_length env frame v = (case rv_value v of
     RInt n \<Rightarrow> eret (decimal_length n)
   | _ \<Rightarrow> ebind (part_text env frame v) (\<lambda>text. case text of
         Some t \<Rightarrow> eret (length t)
       | None \<Rightarrow> efail (VmError (runtime_shallow_type_error ''String, Int, or Atom interpolation value''
           v (fr_function frame) (fr_pc frame)))))"

definition part_string :: "environment \<Rightarrow> execution_frame \<Rightarrow> rich_value \<Rightarrow> string exec" where
  "part_string env frame v = (case rv_value v of
     RInt n \<Rightarrow> eret (show_int (sint n))
   | _ \<Rightarrow> ebind (part_text env frame v) (\<lambda>text. case text of
         Some t \<Rightarrow> eret t
       | None \<Rightarrow> panic))"

definition op_interpolate_string ::
    "environment \<Rightarrow> execution_frame \<Rightarrow> register \<Rightarrow> register list \<Rightarrow> unit exec" where
  "op_interpolate_string env frame dst parts =
     ebind (get_registers frame parts) (\<lambda>vs.
     ebind (ecollect (part_length env frame) vs) (\<lambda>lengths.
     ebind (charge_allocation (sum_list lengths) (fr_function frame) (fr_pc frame)) (\<lambda>_.
     ebind (ecollect (part_string env frame) vs) (\<lambda>texts.
     ebind (new_string_at env (concat texts) (frame_loc frame)) (\<lambda>v.
     set_register frame dst v)))))"

section \<open>Dictionaries\<close>

text \<open>The quota of a dictionary: the bytes of its fields and one slot per value.\<close>

definition charge_dict :: "environment \<Rightarrow> execution_frame \<Rightarrow> nat \<Rightarrow> nat \<Rightarrow> unit exec" where
  "charge_dict env frame text_bytes count =
     (let code = fr_function frame; pc = fr_pc frame in
      ebind (logical_value_bytes env count code pc) (\<lambda>value_bytes.
      case checked_add_usize text_bytes value_bytes of
        None \<Rightarrow> allocation_error ''Dict allocation size overflowed'' code pc
      | Some bytes \<Rightarrow> charge_allocation bytes code pc))"

fun sum_field_bytes ::
    "environment \<Rightarrow> execution_frame \<Rightarrow> nat \<Rightarrow> intern_id list \<Rightarrow> nat exec" where
  "sum_field_bytes env frame acc [] = eret acc"
| "sum_field_bytes env frame acc (i # is) =
     ebind (read_heap env (fr_function frame) (fr_pc frame) (\<lambda>view. view_text view i)) (\<lambda>t.
     case checked_add_usize acc (length t) of
       None \<Rightarrow> allocation_error ''Dict allocation size overflowed'' (fr_function frame) (fr_pc frame)
     | Some bytes \<Rightarrow> sum_field_bytes env frame bytes is)"

definition text_of_field :: "heap_view \<Rightarrow> intern_id \<Rightarrow> string option" where
  "text_of_field view i = (case view_text view i of Inr t \<Rightarrow> Some t | Inl _ \<Rightarrow> None)"

definition store_dict ::
    "execution_frame \<Rightarrow> register \<Rightarrow> intern_id list \<Rightarrow> rich_value list \<Rightarrow> unit exec" where
  "store_dict frame dst fs values =
     ebind (on_work_heap (intern_shape fs)) (\<lambda>shape.
     store_new frame dst (ODict shape values) RDict)"

definition dict_entry ::
    "environment \<Rightarrow> execution_frame \<Rightarrow> intern_id list \<Rightarrow> text_link_id \<times> register \<Rightarrow>
      (intern_id \<times> rich_value) exec" where
  "dict_entry env frame text_links entry = (case entry of (field, r) \<Rightarrow>
     (case nth_opt text_links field of
        None \<Rightarrow> frame_fail frame EK_InvalidBytecode
          (''text link '' @ show_nat field @ '' is out of bounds'')
      | Some i \<Rightarrow> ebind (get_register frame r) (\<lambda>v. eret (i, v))))"

definition op_make_dict ::
    "environment \<Rightarrow> execution_frame \<Rightarrow> register \<Rightarrow> (text_link_id \<times> register) list \<Rightarrow> unit exec" where
  "op_make_dict env frame dst fs =
     ebind (frame_links env frame) (\<lambda>(_, _, text_links, _).
     ebind (ecollect (dict_entry env frame text_links) fs) (\<lambda>unsorted.
     ebind (eget (view_of env)) (\<lambda>view.
     let entries = sort_key (\<lambda>e. field_text view (fst e)) unsorted in
     if adjacent_duplicate (map (\<lambda>(i, v). (text_of_field view i, v)) entries) \<noteq> None then
       frame_fail frame EK_InvalidBytecode ''Dict contains a duplicate field''
     else
       ebind (sum_field_bytes env frame 0 (map fst entries)) (\<lambda>text_bytes.
       ebind (charge_dict env frame text_bytes (length entries)) (\<lambda>_.
       store_dict frame dst (map fst entries) (map snd entries))))))"

text \<open>A \<open>BTreeMap\<close> is the list of its entries in the order of the keys.\<close>

fun btree_insert :: "'k::linorder \<Rightarrow> 'v \<Rightarrow> ('k \<times> 'v) list \<Rightarrow> ('k \<times> 'v) list" where
  "btree_insert k v [] = [(k, v)]"
| "btree_insert k v ((l, w) # rest) =
     (if k < l then (k, v) # (l, w) # rest
      else if k = l then (l, v) # rest
      else (l, w) # btree_insert k v rest)"

definition spread_dict ::
    "environment \<Rightarrow> execution_frame \<Rightarrow> rich_value \<Rightarrow> entries exec" where
  "spread_dict env frame dict = (case rv_value dict of
     RDict handle \<Rightarrow>
       ebind (read_heap env (fr_function frame) (fr_pc frame)
         (\<lambda>view. view_dict_parts view handle)) (\<lambda>(fs, values).
       ecollect (\<lambda>(field, v).
           ebind (read_heap env (fr_function frame) (fr_pc frame) (\<lambda>view. view_text view field))
             (\<lambda>t. eret (t, v))) (zip fs values))
   | _ \<Rightarrow> frame_fail frame EK_TypeMismatch ''Dict spread operand must be a Dict'')"

definition insert_entries :: "entries \<Rightarrow> entries \<Rightarrow> entries" where
  "insert_entries merged entries = foldl (\<lambda>acc (k, v). btree_insert k v acc) merged entries"

definition op_merge_dicts ::
    "environment \<Rightarrow> execution_frame \<Rightarrow> register \<Rightarrow> register list \<Rightarrow> unit exec" where
  "op_merge_dicts env frame dst dicts =
     ebind (get_registers frame dicts) (\<lambda>vs.
     ebind (ecollect (spread_dict env frame) vs) (\<lambda>spreads.
     let merged = foldl insert_entries [] spreads in
     case checked_sum 0 (field_lengths merged) of
       None \<Rightarrow> allocation_error ''Dict allocation size overflowed''
         (fr_function frame) (fr_pc frame)
     | Some text_bytes \<Rightarrow>
         ebind (charge_dict env frame text_bytes (length merged)) (\<lambda>_.
         ebind (ecollect (\<lambda>(field, _). on_work_heap (intern field)) merged) (\<lambda>fs.
         store_dict frame dst fs (map snd merged)))))"

definition op_get_field ::
    "environment \<Rightarrow> execution_frame \<Rightarrow> register \<Rightarrow> register \<Rightarrow> text_link_id \<Rightarrow> unit exec" where
  "op_get_field env frame dst dict field =
     ebind (text_link env frame field) (\<lambda>i.
     ebind (get_register frame dict) (\<lambda>d. case rv_value d of
         RDict handle \<Rightarrow>
           ebind (read_heap env (fr_function frame) (fr_pc frame)
             (\<lambda>view. view_dict_get view handle i)) (\<lambda>found. case found of
               Some v \<Rightarrow> set_register frame dst v
             | None \<Rightarrow> ebind (eget (view_of env)) (\<lambda>view.
                 frame_fail frame EK_MissingField (''Dict has no field '' @ env_debug_str env
                   (case view_text view i of Inr t \<Rightarrow> t | Inl _ \<Rightarrow> ''<invalid>''))))
       | _ \<Rightarrow> fail_type env ''Dict'' d (fr_function frame) (fr_pc frame)))"

definition op_field_exists ::
    "environment \<Rightarrow> execution_frame \<Rightarrow> register \<Rightarrow> register \<Rightarrow> text_link_id \<Rightarrow> unit exec" where
  "op_field_exists env frame dst r field =
     ebind (text_link env frame field) (\<lambda>i.
     ebind (get_register frame r) (\<lambda>d.
     ebind (case rv_value d of
         RDict handle \<Rightarrow>
           ebind (read_heap env (fr_function frame) (fr_pc frame)
             (\<lambda>view. view_dict_get view handle i)) (\<lambda>found. eret (found \<noteq> None))
       | _ \<Rightarrow> eret False) (\<lambda>exists.
     set_register frame dst (runtime_bool exists))))"

section \<open>Patterns\<close>

definition op_is_dict :: "execution_frame \<Rightarrow> register \<Rightarrow> register \<Rightarrow> unit exec" where
  "op_is_dict frame dst r =
     ebind (get_register frame r) (\<lambda>v.
     set_register frame dst (runtime_bool (case rv_value v of RDict _ \<Rightarrow> True | _ \<Rightarrow> False)))"

definition op_tuple_length_equals ::
    "environment \<Rightarrow> execution_frame \<Rightarrow> register \<Rightarrow> register \<Rightarrow> nat \<Rightarrow> unit exec" where
  "op_tuple_length_equals env frame dst r len =
     ebind (get_register frame r) (\<lambda>v.
     ebind (eget (view_of env)) (\<lambda>view.
     set_register frame dst (runtime_bool (case rv_value v of
         RTuple handle \<Rightarrow> (case view_sequence view handle True of
             Inr items \<Rightarrow> length items = len | Inl _ \<Rightarrow> False)
       | _ \<Rightarrow> False))))"

definition op_get_tuple ::
    "environment \<Rightarrow> execution_frame \<Rightarrow> register \<Rightarrow> register \<Rightarrow> nat \<Rightarrow> unit exec" where
  "op_get_tuple env frame dst tuple index =
     ebind (get_register frame tuple) (\<lambda>v. case rv_value v of
         RTuple handle \<Rightarrow>
           ebind (read_heap env (fr_function frame) (fr_pc frame)
             (\<lambda>view. view_sequence view handle True)) (\<lambda>items. case nth_opt items index of
               Some item \<Rightarrow> set_register frame dst item
             | None \<Rightarrow> frame_fail frame EK_InvalidBytecode
                 (''tuple index '' @ show_nat index @ '' is out of bounds''))
       | _ \<Rightarrow> fail_type env ''Tuple'' v (fr_function frame) (fr_pc frame))"

definition read_tagged ::
    "environment \<Rightarrow> execution_frame \<Rightarrow> handle \<Rightarrow> (rich_value \<times> rich_value) exec" where
  "read_tagged env frame handle =
     read_heap env (fr_function frame) (fr_pc frame) (\<lambda>view. view_tagged view handle)"

definition op_tagged_tag_equals ::
    "environment \<Rightarrow> execution_frame \<Rightarrow> register \<Rightarrow> register \<Rightarrow> register \<Rightarrow> unit exec" where
  "op_tagged_tag_equals env frame dst r tag =
     ebind (get_register frame r) (\<lambda>v.
     ebind (get_register frame tag) (\<lambda>expected.
     ebind (case rv_value v of
         RTagged handle \<Rightarrow>
           ebind (read_tagged env frame handle) (\<lambda>(actual, _). compare_equal env frame actual expected)
       | _ \<Rightarrow> eret False) (\<lambda>matches.
     set_register frame dst (runtime_bool matches))))"

definition op_get_tagged_payload ::
    "environment \<Rightarrow> execution_frame \<Rightarrow> register \<Rightarrow> register \<Rightarrow> unit exec" where
  "op_get_tagged_payload env frame dst r =
     ebind (get_register frame r) (\<lambda>v. case rv_value v of
         RTagged handle \<Rightarrow>
           ebind (read_tagged env frame handle) (\<lambda>(_, payload). set_register frame dst payload)
       | _ \<Rightarrow> fail_type env ''Tagged'' v (fr_function frame) (fr_pc frame))"

definition op_make_closure ::
    "environment \<Rightarrow> execution_frame \<Rightarrow> register \<Rightarrow> proto_link_id \<Rightarrow> register list \<Rightarrow> unit exec" where
  "op_make_closure env frame dst prototype captures =
     ebind (frame_links env frame) (\<lambda>(_, _, _, prototypes). case nth_opt prototypes prototype of
         None \<Rightarrow> frame_fail frame EK_InvalidBytecode
           (''prototype link '' @ show_nat prototype @ '' is out of bounds'')
       | Some p \<Rightarrow>
           ebind (get_registers frame captures) (\<lambda>vs.
           ebind (charge_slots env frame (length vs)) (\<lambda>_.
           ebind fresh_identity (\<lambda>identity.
           store_new frame dst (OClosure identity p vs) RFunc))))"

section \<open>Control\<close>

definition set_pc :: "nat \<Rightarrow> unit exec" where
  "set_pc pc = ebind (eget m_frames) (\<lambda>frames. case frames of
     [] \<Rightarrow> panic
   | f # fs \<Rightarrow> emodify (\<lambda>m. m\<lparr> m_frames := f\<lparr> fr_pc := pc \<rparr> # fs \<rparr>))"

text \<open>Leave the active frame: its registers are dropped with it.\<close>

definition pop_frame :: "execution_frame exec" where
  "pop_frame = ebind (eget m_frames) (\<lambda>frames. case frames of
     [] \<Rightarrow> panic
   | f # fs \<Rightarrow>
       ebind (emodify (\<lambda>m. m\<lparr> m_frames := fs, m_stack := take (fr_base f) (m_stack m) \<rparr>)) (\<lambda>_.
       eret f))"

definition op_call ::
    "environment \<Rightarrow> execution_frame \<Rightarrow> register \<Rightarrow> nat \<Rightarrow> drive_outcome exec" where
  "op_call env frame base argument_count =
     ebind (get_register frame base) (\<lambda>callee.
     ebind (read_call_arguments frame base argument_count) (\<lambda>arguments.
     ebind (set_pc (fr_pc frame + 1)) (\<lambda>_.
     drive env (Act_Call callee arguments (RT_Register base (frame_loc frame))
       (fr_function frame) (fr_pc frame)))))"

definition op_tail_call ::
    "environment \<Rightarrow> execution_frame \<Rightarrow> register \<Rightarrow> nat \<Rightarrow> drive_outcome exec" where
  "op_tail_call env frame base argument_count =
     ebind (get_register frame base) (\<lambda>callee.
     ebind (read_call_arguments frame base argument_count) (\<lambda>arguments.
     ebind pop_frame (\<lambda>completed.
     drive env (Act_Call callee arguments (fr_return_target completed)
       (fr_function frame) (fr_pc frame)))))"

definition op_return :: "environment \<Rightarrow> execution_frame \<Rightarrow> register \<Rightarrow> drive_outcome exec" where
  "op_return env frame src =
     ebind (get_register frame src) (\<lambda>v.
     ebind pop_frame (\<lambda>completed.
     drive env (Act_Return v (fr_return_target completed))))"

text \<open>A taken jump; one that does not go forward is paid for.\<close>

definition op_jump :: "environment \<Rightarrow> execution_frame \<Rightarrow> nat \<Rightarrow> unit exec" where
  "op_jump env frame target =
     (if length (code_instructions (fr_function frame)) \<le> target then
        frame_fail frame EK_InvalidBytecode
          (''jump target '' @ show_nat target @ '' is out of bounds'')
      else
        ebind (if target \<le> fr_pc frame then consume_fuel env (fr_function frame) (fr_pc frame)
               else eret ()) (\<lambda>_.
        set_pc target))"

definition op_jump_if_false ::
    "environment \<Rightarrow> execution_frame \<Rightarrow> register \<Rightarrow> nat \<Rightarrow> unit exec" where
  "op_jump_if_false env frame condition target =
     ebind (get_register frame condition) (\<lambda>v. case as_bool v of
         Some True \<Rightarrow> set_pc (fr_pc frame + 1)
       | Some False \<Rightarrow> op_jump env frame target
       | None \<Rightarrow> fail_type env (quoted ''True or '' @ quoted ''False'') v
           (fr_function frame) (fr_pc frame))"

definition op_panic :: "environment \<Rightarrow> execution_frame \<Rightarrow> register \<Rightarrow> 'a exec" where
  "op_panic env frame message =
     (let code = fr_function frame; pc = fr_pc frame in
      ebind (get_register frame message) (\<lambda>v. case rv_value v of
          RShortString i \<Rightarrow>
            ebind (read_heap env code pc (\<lambda>view. view_text view i)) (\<lambda>t.
            frame_fail frame EK_Panic t)
        | RString handle \<Rightarrow>
            ebind (read_heap env code pc (\<lambda>view. view_object view handle)) (\<lambda>ob. case ob of
                OString t \<Rightarrow> frame_fail frame EK_Panic t
              | _ \<Rightarrow> fail_type env ''String'' v code pc)
        | _ \<Rightarrow> fail_type env ''String'' v code pc))"

definition raised_field ::
    "environment \<Rightarrow> execution_frame \<Rightarrow> handle \<Rightarrow> string \<Rightarrow> rich_value exec" where
  "raised_field env frame handle name =
     ebind (read_heap env (fr_function frame) (fr_pc frame)
       (\<lambda>view. view_dict_get_text view handle name)) (\<lambda>found. case found of
         Some v \<Rightarrow> eret v
       | None \<Rightarrow> frame_fail frame EK_InvalidBytecode (''BlameError is missing '' @ name))"

definition op_raise :: "environment \<Rightarrow> execution_frame \<Rightarrow> register \<Rightarrow> 'a exec" where
  "op_raise env frame r =
     (let code = fr_function frame; pc = fr_pc frame in
      ebind (get_register frame r) (\<lambda>structured. case rv_value structured of
          RDict handle \<Rightarrow>
            ebind (read_heap env code pc (\<lambda>view. view_dict_fields view handle)) (\<lambda>fs.
            if fs \<noteq> [''data'', ''message'', ''rule''] then fail_type env ''BlameError'' structured code pc
            else
              ebind (raised_field env frame handle ''data'') (\<lambda>data.
              ebind (raised_field env frame handle ''message'') (\<lambda>message.
              ebind (raised_field env frame handle ''rule'') (\<lambda>rule.
              ebind (read_heap env code pc
                (\<lambda>view. view_string_text view (rv_value message))) (\<lambda>text. case text of
                  None \<Rightarrow> fail_type env ''String'' message code pc
                | Some t \<Rightarrow> efail (VmError (set_locations (rich_loc data) (rich_loc rule)
                    (vm_error EK_RaisedBlame t code pc))))))))
        | _ \<Rightarrow> fail_type env ''BlameError'' structured code pc))"

section \<open>One turn of the loop\<close>

text \<open>The opcodes that fall through to the next instruction.\<close>

fun execute_data :: "environment \<Rightarrow> execution_frame \<Rightarrow> opcode \<Rightarrow> unit exec" where
  "execute_data env f (Op_LoadConst dst v) = op_load_const env f dst v"
| "execute_data env f (Op_Move dst src) = op_move f dst src"
| "execute_data env f (Op_MakeUpLink dst) = op_make_up_link env f dst"
| "execute_data env f (Op_ReadUpLink dst link) = op_read_up_link env f dst link"
| "execute_data env f (Op_InitializeUpLink link src) = op_initialize_up_link env f link src"
| "execute_data env f (Op_AssertUpLinkReady link) = op_assert_up_link_ready env f link"
| "execute_data env f (Op_AssertFunctionArity r n) = op_assert_function_arity env f r n"
| "execute_data env f (Op_Add dst l r) = op_numeric env f Num_Add dst l r"
| "execute_data env f (Op_Subtract dst l r) = op_numeric env f Num_Subtract dst l r"
| "execute_data env f (Op_Multiply dst l r) = op_numeric env f Num_Multiply dst l r"
| "execute_data env f (Op_Divide dst l r) = op_numeric env f Num_Divide dst l r"
| "execute_data env f (Op_Negate dst src) = op_negate env f dst src"
| "execute_data env f (Op_Equal dst l r) = op_equal env f dst l r"
| "execute_data env f (Op_LessThan dst l r) = op_less_than env f dst l r"
| "execute_data env f (Op_MakeArray dst rs) = op_make_array env f dst rs"
| "execute_data env f (Op_ConcatArrays dst rs) = op_concat_arrays env f dst rs"
| "execute_data env f (Op_MakeTuple dst rs) = op_make_tuple env f dst rs"
| "execute_data env f (Op_InterpolateString dst rs) = op_interpolate_string env f dst rs"
| "execute_data env f (Op_MakeDict dst fs) = op_make_dict env f dst fs"
| "execute_data env f (Op_MergeDicts dst rs) = op_merge_dicts env f dst rs"
| "execute_data env f (Op_GetField dst d i) = op_get_field env f dst d i"
| "execute_data env f (Op_FieldExists dst r i) = op_field_exists env f dst r i"
| "execute_data env f (Op_IsDict dst r) = op_is_dict f dst r"
| "execute_data env f (Op_TupleLengthEquals dst r n) = op_tuple_length_equals env f dst r n"
| "execute_data env f (Op_GetTuple dst t i) = op_get_tuple env f dst t i"
| "execute_data env f (Op_TaggedTagEquals dst r t) = op_tagged_tag_equals env f dst r t"
| "execute_data env f (Op_GetTaggedPayload dst r) = op_get_tagged_payload env f dst r"
| "execute_data env f (Op_MakeClosure dst p rs) = op_make_closure env f dst p rs"
| "execute_data env f (Op_Fail message) = frame_fail f EK_NoPatternMatched message"
| "execute_data env f (Op_Panic r) = op_panic env f r"
| "execute_data env f (Op_Raise r) = op_raise env f r"
| "execute_data env f _ = panic"

definition pending :: "unit exec \<Rightarrow> drive_outcome exec" where
  "pending m = ebind m (\<lambda>_. eret Pending)"

definition execute_opcode ::
    "environment \<Rightarrow> execution_frame \<Rightarrow> opcode \<Rightarrow> drive_outcome exec" where
  "execute_opcode env f op = (case op of
     Op_Call base n \<Rightarrow> op_call env f base n
   | Op_TailCall base n \<Rightarrow> op_tail_call env f base n
   | Op_Return src \<Rightarrow> op_return env f src
   | Op_Jump target \<Rightarrow> pending (op_jump env f target)
   | Op_JumpIfFalse condition target \<Rightarrow> pending (op_jump_if_false env f condition target)
   | _ \<Rightarrow> pending (ebind (execute_data env f op) (\<lambda>_. set_pc (fr_pc f + 1))))"

text \<open>The slice of the frame's registers is taken before the opcode is looked at.\<close>

definition execute_step :: "environment \<Rightarrow> drive_outcome exec" where
  "execute_step env = ebind (eget m_frames) (\<lambda>frames. case frames of
     [] \<Rightarrow> panic
   | f # _ \<Rightarrow> (case nth_opt (code_instructions (fr_function f)) (fr_pc f) of
       None \<Rightarrow> frame_fail f EK_InvalidBytecode ''instruction pointer is out of bounds''
     | Some op \<Rightarrow>
         ebind (eget (frame_window_ok f)) (\<lambda>ok.
         if ok then execute_opcode env f op else panic)))"

end
