(* ===== verification/Run.thy ===== *)
theory Run
  imports Interpreter
begin

text \<open>
  The loop of \<open>Vm::execute_frame\<close> (\<open>crates/telora-core/src/vm.rs\<close>) as a total function, and the
  entry points that link a function, run it and read the result. \<open>instruction_steps\<close> extends the
  contract of the native operations by what the data opcodes do besides: writing a register,
  initialising an up-link and making an identity.
\<close>

section \<open>What a data opcode does to the machine\<close>

locale instruction_steps = native_steps +
  assumes R_write: "R m (m\<lparr> m_stack := (m_stack m)[i := Some v] \<rparr>)"
    and R_identity: "R m (m\<lparr> m_next_identity := Suc (m_next_identity m) \<rparr>)"
    and R_up_link: "initialize_up_link handle w (m_heap m) = Inr h \<Longrightarrow> R m (m\<lparr> m_heap := h \<rparr>)"
begin

lemma register_steps:
  "moves R (get_register f r)" "moves R (get_registers f rs)"
  "moves R (write_register f r v code pc)" "moves R (set_register f r v)"
proof -
  show get: "moves R (get_register f r)" for r
    unfolding get_register_def by (intro steps)
  show "moves R (get_registers f rs)"
    unfolding get_registers_def by (intro steps get)
  have "moves R (emodify (\<lambda>m. m\<lparr> m_stack := (m_stack m)[fr_base f + r := Some v] \<rparr>))"
    by (simp add: eff_ok_def emodify_def R_write)
  then show w: "moves R (write_register f r v code pc)" for code pc
    unfolding write_register_def by (intro steps)
  show "moves R (set_register f r v)"
    unfolding set_register_def by (rule w)
qed

lemma identity_step: "moves R fresh_identity"
  by (simp add: eff_ok_def fresh_identity_def estate_def R_identity)

lemma up_link_step: "moves R (write_up_link f handle v)"
proof (rule eff_okI)
  fix s r t assume "write_up_link f handle v s = (r, t)"
  then show "R s t \<and> (\<forall>x. r = Inr x \<longrightarrow> True)"
    using R_up_link[of handle v s] R_refl
    by (auto simp: write_up_link_def ebind_def eget_def emodify_def efail_def split: sum.splits)
qed

lemma frame_steps:
  "eff_ok R Q (frame_fail f k msg)" "moves R (frame_links env f)" "moves R (text_link env f i)"
  "moves R (charge_slots env f n)" "moves R (store_new f dst ob wrap)"
  "moves R (read_up_link env f handle)" "moves R (up_link_register f link msg)"
  "eff_ok R Q (fail_numeric_types env f l r)" "moves R (compare_equal env f l r)"
proof -
  show fail: "eff_ok R Q (frame_fail f k msg)" for Q :: "'z \<Rightarrow> bool" and k msg
    unfolding frame_fail_def by (rule fails)
  show links: "moves R (frame_links env f)" unfolding frame_links_def by (rule reads)
  show "moves R (text_link env f i)" unfolding text_link_def by (intro steps links fail)
  show "moves R (charge_slots env f n)" unfolding charge_slots_def by (rule charges)
  show "moves R (store_new f dst ob wrap)" unfolding store_new_def by (intro steps register_steps)
  show "moves R (read_up_link env f handle)" unfolding read_up_link_def by (rule reads)
  show "moves R (up_link_register f link msg)"
    unfolding up_link_register_def by (intro steps register_steps fail)
  show "eff_ok R Q (fail_numeric_types env f l r)"
    unfolding fail_numeric_types_def by (intro steps)
  show "moves R (compare_equal env f l r)" unfolding compare_equal_def by (rule reads)
qed

lemmas data_steps = steps register_steps frame_steps identity_step up_link_step builds

lemma link_opcodes:
  "moves R (op_load_const env f dst link)" "moves R (op_move f dst src)"
  "moves R (op_make_up_link env f dst)" "moves R (op_read_up_link env f dst up)"
  "moves R (op_initialize_up_link env f up src)" "moves R (op_assert_up_link_ready env f up)"
  "moves R (op_assert_function_arity env f r n)"
  unfolding op_load_const_def op_move_def op_make_up_link_def op_read_up_link_def
    op_initialize_up_link_def op_assert_up_link_ready_def op_assert_function_arity_def
  by (intro data_steps)+

lemma arithmetic_opcodes:
  "moves R (op_numeric env f num dst l r)" "moves R (op_negate env f dst l)"
  "moves R (op_equal env f dst l r)" "moves R (op_less_than env f dst l r)"
proof -
  have "moves R (numeric_binary env f num a b)" for a b
    unfolding numeric_binary_def by (intro data_steps)
  then show "moves R (op_numeric env f num dst l r)"
    unfolding op_numeric_def by (intro data_steps)
  show "moves R (op_negate env f dst l)" "moves R (op_equal env f dst l r)"
    "moves R (op_less_than env f dst l r)"
    unfolding op_negate_def op_equal_def op_less_than_def by (intro data_steps)+
qed

lemma sequence_opcodes:
  "moves R (op_make_array env f dst rs)" "moves R (op_make_tuple env f dst rs)"
  "moves R (op_concat_arrays env f dst rs)" "moves R (op_interpolate_string env f dst rs)"
proof -
  show "moves R (op_make_array env f dst rs)" "moves R (op_make_tuple env f dst rs)"
    unfolding op_make_array_def op_make_tuple_def by (intro data_steps)+
  have "moves R (spread_array env f v)" for v unfolding spread_array_def by (intro data_steps)
  then show "moves R (op_concat_arrays env f dst rs)"
    unfolding op_concat_arrays_def by (intro data_steps)
  have part: "moves R (part_text env f v)" for v unfolding part_text_def by (intro data_steps)
  have "moves R (part_length env f v)" "moves R (part_string env f v)" for v
    unfolding part_length_def part_string_def by (intro data_steps part)+
  then show "moves R (op_interpolate_string env f dst rs)"
    unfolding op_interpolate_string_def by (intro data_steps)
qed

lemma dict_opcodes:
  "moves R (op_make_dict env f dst fs)" "moves R (op_merge_dicts env f dst rs)"
  "moves R (op_get_field env f dst r i)" "moves R (op_field_exists env f dst r i)"
proof -
  have charge: "moves R (charge_dict env f n k)" for n k
    unfolding charge_dict_def Let_def by (intro data_steps)
  have sum_bytes: "moves R (sum_field_bytes env f acc ids)" for acc ids
    by (induction ids arbitrary: acc) (auto intro!: data_steps)
  have store: "moves R (store_dict f dst ids vs)" for ids vs
    unfolding store_dict_def by (intro data_steps)
  have entry: "moves R (dict_entry env f ts e)" for ts e
    unfolding dict_entry_def by (intro data_steps)
  show "moves R (op_make_dict env f dst fs)"
    unfolding op_make_dict_def Let_def by (intro data_steps charge sum_bytes store entry)
  have spread: "moves R (spread_dict env f d)" for d
    unfolding spread_dict_def by (intro data_steps)
  show "moves R (op_merge_dicts env f dst rs)"
    unfolding op_merge_dicts_def Let_def by (intro data_steps charge store spread)
  show "moves R (op_get_field env f dst r i)" "moves R (op_field_exists env f dst r i)"
    unfolding op_get_field_def op_field_exists_def by (intro data_steps)+
qed

lemma pattern_opcodes:
  "moves R (op_is_dict f dst r)" "moves R (op_tuple_length_equals env f dst r n)"
  "moves R (op_get_tuple env f dst r n)" "moves R (op_tagged_tag_equals env f dst r q)"
  "moves R (op_get_tagged_payload env f dst r)" "moves R (op_make_closure env f dst p rs)"
proof -
  have tagged: "moves R (read_tagged env f handle)" for handle
    unfolding read_tagged_def by (rule reads)
  show "moves R (op_is_dict f dst r)" "moves R (op_tuple_length_equals env f dst r n)"
    "moves R (op_get_tuple env f dst r n)" "moves R (op_tagged_tag_equals env f dst r q)"
    "moves R (op_get_tagged_payload env f dst r)" "moves R (op_make_closure env f dst p rs)"
    unfolding op_is_dict_def op_tuple_length_equals_def op_get_tuple_def op_tagged_tag_equals_def
      op_get_tagged_payload_def op_make_closure_def
    by (intro data_steps tagged)+
qed

lemma failing_opcodes: "eff_ok R Q (op_panic env f r)" "eff_ok R Q (op_raise env f r)"
proof -
  have field: "moves R (raised_field env f handle name)" for handle name
    unfolding raised_field_def by (intro data_steps)
  have object: "eff_ok R Q a \<Longrightarrow> (\<And>t. eff_ok R Q (b t)) \<Longrightarrow>
      eff_ok R Q (case ob of OString t \<Rightarrow> b t | _ \<Rightarrow> a)" for a b ob
    by (cases ob) simp_all
  show "eff_ok R Q (op_panic env f r)"
    unfolding op_panic_def Let_def by (intro data_steps object)
  show "eff_ok R Q (op_raise env f r)"
    unfolding op_raise_def Let_def by (intro data_steps field)
qed

lemma execute_data_moves: "moves R (execute_data env f op)"
  by (cases op)
     (simp_all add: link_opcodes arithmetic_opcodes sequence_opcodes dict_opcodes
       pattern_opcodes failing_opcodes frame_steps fails)

end

section \<open>Data opcodes leave fuel and frames alone\<close>

definition same_frames :: "machine \<Rightarrow> machine \<Rightarrow> bool" where
  "same_frames a b \<longleftrightarrow>
     machine_fuel b = machine_fuel a \<and> m_frames b = m_frames a \<and>
     length (m_stack b) = length (m_stack a) \<and>
     qa_quota (m_account b) = qa_quota (m_account a) \<and>
     qa_query (m_account b) = qa_query (m_account a) \<and>
     qa_checks (m_account b) = qa_checks (m_account a)"

interpretation data: instruction_steps same_frames
  by unfold_locales
     (auto simp: same_frames_def machine_fuel_def dest: account_charge_fields(1))

lemma as_native_control: "moves same_control (as_native wrap f)"
  by (auto simp: eff_ok_def as_native_def with_native_def same_control_def machine_fuel_def
      split: prod.splits)

lemma resume_native_control: "moves same_control (resume_native env k v)"
  by (cases k)
     (auto simp: resume_native_def
       intro: eff_ok_weaken[OF control.resume_array] eff_ok_weaken[OF control.resume_dict])

lemma consume_fuel_frames:
  assumes "consume_fuel env code pc m = (r, m')"
  shows "m_frames m' = m_frames m" "m_stack m' = m_stack m" "machine_fuel m' \<le> machine_fuel m"
    "qa_quota (m_account m') = qa_quota (m_account m)"
  using assms
  by (auto simp: consume_fuel_def ebind_def eget_def eret_def emodify_def estate_def fail_def
      efail_def machine_fuel_def split: option.splits if_splits sum.splits prod.splits)

lemma call_value_fuel_le:
  assumes "call_value env callee arguments target code pc m = (r, m')"
  shows "machine_fuel m' \<le> machine_fuel m"
proof -
  have "moves less_fuel (on_failure g (consume_fuel env code pc))" for g
    by (rule on_failure_ok) (auto intro!: eff_okI dest: consume_fuel_frames(3) simp: less_fuel_def)
  then have "moves less_fuel (call_value env callee arguments target code pc)"
    unfolding call_value_def by (intro fuel.bind after_fuel dispatch_call_fuel)
  from eff_okD(1)[OF this assms] show ?thesis by (simp add: less_fuel_def)
qed

lemma return_to_register_frames: "moves same_frames (return_to_register v destination call_site)"
  unfolding return_to_register_def
  by (auto split: list.splits simp: panic_def
      intro!: data.walk data.register_steps)

lemma drive_fuel: "drive env a m = (r, m') \<Longrightarrow> machine_fuel m' \<le> machine_fuel m"
proof (induction env a m arbitrary: r m' rule: drive.induct)
  case (2 env v destination call_site m)
  have "moves same_frames (ebind (return_to_register v destination call_site) (\<lambda>_. eret Pending))"
    by (intro data.walk return_to_register_frames)
  from eff_okD(1)[OF this 2[unfolded drive.simps]] show ?case by (simp add: same_frames_def)
next
  case (3 env v k m)
  obtain q t where q: "resume_native env k v m = (q, t)" by fastforce
  then have "machine_fuel t = machine_fuel m"
    using eff_okD(1)[OF resume_native_control] by (auto simp: same_control_def)
  with q 3 show ?case by (cases q) fastforce+
next
  case (4 env callee arguments target code pc m)
  obtain q t where q: "call_value env callee arguments target code pc m = (q, t)" by fastforce
  then have le: "machine_fuel t \<le> machine_fuel m" by (rule call_value_fuel_le)
  show ?case
  proof (cases "\<exists>b. q = Inr (Some b)")
    case True
    then obtain b where b: "q = Inr (Some b)" by blast
    with q 4(2) have "drive env b t = (r, m')" by simp
    with 4(1)[OF q[symmetric] b refl] le show ?thesis by fastforce
  next
    case False
    with q 4(2) le show ?thesis by (auto split: sum.splits option.splits)
  qed
qed simp

lemma drive_call_fuel:
  assumes "drive env (Act_Call callee arguments target code pc) m = (Inr out, m')"
  shows "machine_fuel m' < machine_fuel m"
proof -
  obtain q t where q: "call_value env callee arguments target code pc m = (q, t)" by fastforce
  with assms obtain x where x: "q = Inr x" by (cases q) auto
  with q have "machine_fuel t < machine_fuel m" by (auto dest: call_value_fuel)
  moreover have "machine_fuel m' \<le> machine_fuel t"
  proof (cases x)
    case None
    with q x assms show ?thesis by simp
  next
    case (Some b)
    with q x assms have "drive env b t = (Inr out, m')" by simp
    then show ?thesis by (rule drive_fuel)
  qed
  ultimately show ?thesis by simp
qed

text \<open>A return that consumes no fuel ends in a register of the frame below and pushes nothing.\<close>

lemma drive_return_frames:
  "drive env (Act_Return v target) m = (Inr out, m') \<Longrightarrow>
   machine_fuel m' < machine_fuel m \<or>
   machine_fuel m' = machine_fuel m \<and> m_frames m' = m_frames m"
proof (induction "native_depth target" arbitrary: v target m rule: less_induct)
  case less
  show ?case
  proof (cases target)
    case RT_Root
    with less.prems show ?thesis by auto
  next
    case (RT_Register destination call_site)
    have "moves same_frames (ebind (return_to_register v destination call_site) (\<lambda>_. eret Pending))"
      by (intro data.walk return_to_register_frames)
    from eff_okD(1)[OF this less.prems[unfolded RT_Register drive.simps]]
    show ?thesis by (simp add: same_frames_def)
  next
    case (RT_Native k)
    with less.prems obtain a t where a: "resume_native env k v m = (Inr a, t)"
      and d: "drive env a t = (Inr out, m')"
      by (auto split: prod.splits sum.splits)
    have t: "machine_fuel t = machine_fuel m" "m_frames t = m_frames m"
      using eff_okD(1)[OF resume_native_control a] by (simp_all add: same_control_def)
    show ?thesis
    proof (cases a)
      case (Act_Call c args tgt code pc)
      with d t show ?thesis using drive_call_fuel by fastforce
    next
      case (Act_Return w tgt)
      with eff_okD(2)[OF resume_native_ok a] RT_Native
      have "native_depth tgt < native_depth target" by (simp add: native_depth_continuation)
      from less.hyps[OF this, of w t] d[unfolded Act_Return] t show ?thesis by auto
    qed
  qed
qed

section \<open>Every turn makes progress\<close>

lemma read_call_arguments_moves: "moves same_frames (read_call_arguments f base n)"
  unfolding read_call_arguments_def Let_def by (intro data.steps)

definition remaining_code :: "machine \<Rightarrow> nat" where
  "remaining_code m = (case m_frames m of
     [] \<Rightarrow> 0
   | f # _ \<Rightarrow> length (code_instructions (fr_function f)) - fr_pc f)"

definition progress :: "(machine \<times> machine) set" where
  "progress = measures [machine_fuel, \<lambda>m. length (m_frames m), remaining_code]"

lemma wf_progress: "wf progress"
  by (simp add: progress_def)

lemma set_pc_fields:
  assumes "set_pc pc m = (r, m')"
  shows "machine_fuel m' = machine_fuel m" "m_stack m' = m_stack m"
    "length (m_frames m') = length (m_frames m)"
  using assms
  by (auto simp: set_pc_def ebind_def eget_def emodify_def panic_def efail_def machine_fuel_def
      split: list.splits)

lemma set_pc_progress:
  assumes "set_pc pc m = (Inr u, m')" and "m_frames m = f # fs"
    and "fr_pc f < pc" and "fr_pc f < length (code_instructions (fr_function f))"
  shows "(m', m) \<in> progress"
  using assms
  by (auto simp: set_pc_def result_simps progress_def remaining_code_def machine_fuel_def)

lemma progress_same_frames:
  "same_frames m t \<Longrightarrow> (m', t) \<in> progress \<Longrightarrow> (m', m) \<in> progress"
  by (auto simp: same_frames_def progress_def remaining_code_def)

lemma progress_less_fuel: "machine_fuel m' < machine_fuel m \<Longrightarrow> (m', m) \<in> progress"
  by (simp add: progress_def)

lemma pop_frame_frames:
  assumes "pop_frame m = (Inr c, t)" and "m_frames m = f # fs"
  shows "m_frames t = fs" "machine_fuel t = machine_fuel m" "c = f"
    "m_stack t = take (fr_base f) (m_stack m)"
  using assms by (auto simp: pop_frame_def result_simps machine_fuel_def)

lemma control_step_progress:
  assumes m: "m_frames m = f # fs" and pc: "fr_pc f < length (code_instructions (fr_function f))"
  shows "pending (op_jump env f target) m = (Inr out, m') \<Longrightarrow> (m', m) \<in> progress"
    and "pending (op_jump_if_false env f condition target) m = (Inr out, m') \<Longrightarrow> (m', m) \<in> progress"
proof -
  have jump: "(t', t) \<in> progress"
    if "op_jump env f target t = (Inr u, t')" "m_frames t = f # fs" for t t' u
  proof (cases "target \<le> fr_pc f")
    case True
    with that pc obtain w x where "consume_fuel env (fr_function f) (fr_pc f) t = (Inr w, x)"
      "set_pc target x = (Inr u, t')"
      by (auto simp: op_jump_def elim!: ebind_cases)
    then show ?thesis
      using consume_fuel_less set_pc_fields(1) by (intro progress_less_fuel) metis
  next
    case False
    with that pc have "set_pc target t = (Inr u, t')" 
      by (auto simp: op_jump_def frame_fail_def fail_def result_simps split: if_splits)
    then show ?thesis by (rule set_pc_progress) (use False pc that in auto)
  qed
  show "(m', m) \<in> progress" if "pending (op_jump env f target) m = (Inr out, m')"
    using that m by (auto simp: pending_def result_simps elim!: ebind_cases intro: jump)
  show "(m', m) \<in> progress" if "pending (op_jump_if_false env f condition target) m = (Inr out, m')"
  proof -
    from that obtain v t u where t: "get_register f condition m = (Inr v, t)"
      and r: "(case as_bool v of Some True \<Rightarrow> set_pc (fr_pc f + 1)
         | Some False \<Rightarrow> op_jump env f target
         | None \<Rightarrow> fail_type env (quoted ''True or '' @ quoted ''False'') v
             (fr_function f) (fr_pc f)) t = (Inr u, m')"
      by (auto simp: pending_def op_jump_if_false_def result_simps elim!: ebind_cases)
    from eff_okD(1)[OF data.register_steps(1) t] have same: "same_frames m t" .
    with m have "m_frames t = f # fs" by (simp add: same_frames_def)
    with r pc jump have "(m', t) \<in> progress"
      by (auto simp: fail_type_def result_simps intro: set_pc_progress
          split: option.splits bool.splits)
    with same show ?thesis by (rule progress_same_frames)
  qed
qed

lemma call_step_progress:
  assumes m: "m_frames m = f # fs"
  shows "op_call env f base n m = (Inr out, m') \<Longrightarrow> (m', m) \<in> progress"
    and "op_tail_call env f base n m = (Inr out, m') \<Longrightarrow> (m', m) \<in> progress"
    and "op_return env f src m = (Inr out, m') \<Longrightarrow> (m', m) \<in> progress"
proof -
  have read: "get_register f r t = (Inr v, u) \<Longrightarrow> same_frames t u"
    "read_call_arguments f r k t = (Inr vs, u) \<Longrightarrow> same_frames t u" for r k t u v vs
    using eff_okD(1)[OF data.register_steps(1)] eff_okD(1)[OF read_call_arguments_moves] by blast+
  show "(m', m) \<in> progress" if "op_call env f base n m = (Inr out, m')"
  proof -
    from that obtain c t vs u w x where
      "get_register f base m = (Inr c, t)" "read_call_arguments f base n t = (Inr vs, u)"
      "set_pc (fr_pc f + 1) u = (Inr w, x)"
      "drive env (Act_Call c vs (RT_Register base (frame_loc f)) (fr_function f) (fr_pc f)) x
        = (Inr out, m')"
      by (auto simp: op_call_def elim!: ebind_cases)
    then show ?thesis
      using read(1)[of base m c t] read(2)[of base n t vs u] set_pc_fields(1)[of _ u _ x]
        drive_call_fuel
      by (intro progress_less_fuel) (metis same_frames_def)
  qed
  show "(m', m) \<in> progress" if "op_tail_call env f base n m = (Inr out, m')"
  proof -
    from that obtain c t vs u w x where
      "get_register f base m = (Inr c, t)" "read_call_arguments f base n t = (Inr vs, u)"
      "pop_frame u = (Inr w, x)"
      "drive env (Act_Call c vs (fr_return_target w) (fr_function f) (fr_pc f)) x = (Inr out, m')"
      by (auto simp: op_tail_call_def elim!: ebind_cases)
    then show ?thesis
      using read(1)[of base m c t] read(2)[of base n t vs u] pop_frame_frames(2)[of u w x f fs]
        drive_call_fuel m
      by (intro progress_less_fuel) (metis same_frames_def)
  qed
  show "(m', m) \<in> progress" if "op_return env f src m = (Inr out, m')"
  proof -
    from that obtain v t w x where "get_register f src m = (Inr v, t)" and
      pop: "pop_frame t = (Inr w, x)" and
      "drive env (Act_Return v (fr_return_target w)) x = (Inr out, m')"
      by (auto simp: op_return_def elim!: ebind_cases)
    then have "same_frames m t" by (intro read(1))
    moreover from this have "m_frames t = f # fs" using m by (simp add: same_frames_def)
    with pop have "m_frames x = fs" "machine_fuel x = machine_fuel t"
      by (auto dest: pop_frame_frames)
    ultimately show ?thesis
      using drive_return_frames[OF \<open>drive env _ x = _\<close>] m
      by (auto simp: progress_def same_frames_def)
  qed
qed

lemma execute_step_progress:
  assumes "execute_step env m = (Inr out, m')"
  shows "(m', m) \<in> progress"
proof -
  from assms obtain f fs op where m: "m_frames m = f # fs"
    and op: "nth_opt (code_instructions (fr_function f)) (fr_pc f) = Some op"
    and run: "execute_opcode env f op m = (Inr out, m')"
    by (auto simp: execute_step_def panic_def frame_fail_def fail_def result_simps
        split: list.splits option.splits if_splits)
  have pc: "fr_pc f < length (code_instructions (fr_function f))"
    using op by simp
  have data: "(m', m) \<in> progress"
    if "pending (ebind (execute_data env f op) (\<lambda>_. set_pc (fr_pc f + 1))) m = (Inr out, m')"
  proof -
    from that obtain x t u where x: "execute_data env f op m = (Inr x, t)"
      and u: "set_pc (fr_pc f + 1) t = (Inr u, m')"
      by (auto simp: pending_def result_simps elim!: ebind_cases)
    from eff_okD(1)[OF data.execute_data_moves x] have same: "same_frames m t" .
    with m have "m_frames t = f # fs" by (simp add: same_frames_def)
    have "(m', t) \<in> progress"
      by (rule set_pc_progress[OF u \<open>m_frames t = f # fs\<close>]) (use pc in auto)
    with same show ?thesis by (rule progress_same_frames)
  qed
  show ?thesis
    using run control_step_progress[OF m pc] call_step_progress[OF m] data
    by (cases op) (auto simp: execute_opcode_def)
qed

section \<open>The loop\<close>

function run :: "environment \<Rightarrow> machine \<Rightarrow> (vm_failure + rich_value) \<times> machine" where
  "run env m = (case execute_step env m of
     (Inl e, m') \<Rightarrow> (Inl e, m')
   | (Inr (Root v), m') \<Rightarrow> (Inr v, m')
   | (Inr Pending, m') \<Rightarrow> run env m')"
  by pat_completeness auto

termination run
proof (relation "inv_image progress snd")
  show "wf (inv_image progress snd)" using wf_progress by (rule wf_inv_image)
qed (auto simp: eq_commute[of _ "execute_step _ _"] dest: execute_step_progress)

declare run.simps [simp del]

end
