(* ===== verification/World.thy ===== *)
theory World
  imports Run
begin

text \<open>
  The entry points of the machine (\<open>Vm::execute\<close> to \<open>Vm::execute_frame\<close> and \<open>WorkWorld\<close> in
  \<open>crates/telora-core/src/vm.rs\<close>): a function is linked into a fresh Work heap, its arguments
  and captures are imported, the loop runs, and the trace of an error is completed from the frames
  that are left. The result stays in the Work heap until it is exported or published.

  The linker runs on a thread of its own in the code; that starting or joining it fails is not
  modelled. \<open>identity\<close> is the first identity not in use.
\<close>

section \<open>Traces\<close>

definition frame_trace :: "bool \<Rightarrow> nat \<times> execution_frame \<Rightarrow> runtime_frame list" where
  "frame_trace includes_active = (\<lambda>(index, f).
     (if index \<noteq> 0 \<or> \<not> includes_active then
        [\<lparr> rf_function = code_name (fr_function f), rf_instruction = fr_pc f - 1,
           rf_origin = code_origin_at (fr_function f) (fr_pc f - 1) \<rparr>]
      else []) @ native_trace (fr_return_target f))"

definition finish_trace :: "execution_frame list \<Rightarrow> runtime_error \<Rightarrow> runtime_error" where
  "finish_trace frames e =
     (push_trace (concat (map (frame_trace (re_trace_includes_active_frame e)) (enumerate 0 frames))) e)
       \<lparr> re_trace_includes_active_frame := False \<rparr>"

section \<open>Running a function\<close>

record work_world =
  ww_heap :: heap
  ww_root :: rich_value

definition machine_start :: "heap \<Rightarrow> quota_account \<Rightarrow> identity \<Rightarrow> machine" where
  "machine_start h account identity =
     \<lparr> m_frames = [], m_stack = [], m_heap = h, m_account = account, m_next_identity = identity \<rparr>"

text \<open>The values are imported one by one, in order, each as a root of its own.\<close>

definition import_into :: "environment \<Rightarrow> func_byte_code \<Rightarrow> val list \<Rightarrow> rich_value list exec" where
  "import_into env code vs =
     ecollect (\<lambda>v. ebind (on_work_heap (import_value (Some (env_background env)) v)) (\<lambda>r.
       elift (map_err (\<lambda>e. VmError (heap_vm_error e code 0)) r))) vs"

definition start_frame ::
    "environment \<Rightarrow> (string \<rightharpoonup> persistent_value) \<Rightarrow> bytecode_function \<Rightarrow> val list \<Rightarrow> val list \<Rightarrow>
      unit exec" where
  "start_frame env externals f arguments captures =
     (let code = bf_code f in
      ebind (on_work_heap (link_bytecode_resolved (Some (env_background env)) f externals)) (\<lambda>linked.
      ebind (elift (map_err (\<lambda>e. VmError (heap_vm_error e code 0)) linked)) (\<lambda>prototype.
      ebind (import_into env code arguments) (\<lambda>args.
      ebind (import_into env code captures) (\<lambda>capts.
      ebind (make_execution_frame code prototype args capts RT_Root) (\<lambda>frame.
      emodify (\<lambda>m. m\<lparr> m_frames := [frame] \<rparr>)))))))"

definition run_traced :: "environment \<Rightarrow> rich_value exec" where
  "run_traced env = (\<lambda>m. case run env m of
     (Inl e, m') \<Rightarrow> (Inl (map_failure (finish_trace (m_frames m')) e), m')
   | (Inr v, m') \<Rightarrow> (Inr v, m'))"

definition execute_frame ::
    "environment \<Rightarrow> (string \<rightharpoonup> persistent_value) \<Rightarrow> bytecode_function \<Rightarrow> val list \<Rightarrow> val list \<Rightarrow>
      quota_account \<Rightarrow> identity \<Rightarrow> (vm_failure + work_world) \<times> quota_account" where
  "execute_frame env externals f arguments captures account identity =
     (case ebind (start_frame env externals f arguments captures) (\<lambda>_. run_traced env)
        (machine_start heap_work account identity) of
        (Inl e, m) \<Rightarrow> (Inl e, m_account m)
      | (Inr root', m) \<Rightarrow> (Inr \<lparr> ww_heap = m_heap m, ww_root = root' \<rparr>, m_account m))"

section \<open>Reported diagnostics\<close>

definition fail_on_reported_error ::
    "quota_account \<Rightarrow> nat \<Rightarrow> func_byte_code \<Rightarrow> runtime_error + unit" where
  "fail_on_reported_error account start code =
     (case find (\<lambda>d. diag_severity d = Severity_Error) (drop start (qa_diagnostics account)) of
        None \<Rightarrow> Inr ()
      | Some d \<Rightarrow> Inl (set_locations
          (map_option label_location (find label_primary (diag_labels d)))
          (map_option label_location (find (\<lambda>l. \<not> label_primary l) (rev (diag_labels d))))
          (vm_error EK_ReportedDiagnostic (diag_message d) code 0)))"

definition execute_function_with_captures_in_work ::
    "environment \<Rightarrow> (string \<rightharpoonup> persistent_value) \<Rightarrow> bytecode_function \<Rightarrow> val list \<Rightarrow> val list \<Rightarrow>
      quota_account \<Rightarrow> identity \<Rightarrow> (vm_failure + work_world) \<times> quota_account" where
  "execute_function_with_captures_in_work env externals f captures arguments account identity =
     (case execute_frame env externals f arguments captures account identity of
        (Inl e, account') \<Rightarrow> (Inl e, account')
      | (Inr arena, account') \<Rightarrow>
          (case fail_on_reported_error account' (length (qa_diagnostics account)) (bf_code f) of
             Inl e \<Rightarrow> (Inl (VmError e), account')
           | Inr _ \<Rightarrow> (Inr arena, account')))"

definition execute_in_work ::
    "environment \<Rightarrow> (string \<rightharpoonup> persistent_value) \<Rightarrow> bytecode_function \<Rightarrow> val list \<Rightarrow>
      quota_account \<Rightarrow> identity \<Rightarrow> (vm_failure + work_world) \<times> quota_account" where
  "execute_in_work env externals f arguments account identity =
     execute_function_with_captures_in_work env externals f [] arguments account identity"

definition world_export :: "work_world \<Rightarrow> heap \<Rightarrow> address \<Rightarrow> heap_error + val" where
  "world_export w background address =
     export_value \<lparr> hv_current = ww_heap w, hv_background = Some background \<rparr> address (ww_root w)"

definition world_publish :: "work_world \<Rightarrow> heap \<Rightarrow> heap_error + persistent_value \<times> heap" where
  "world_publish w target = publish_root target (ww_heap w) (ww_root w)"

text \<open>Without a background of its own, a function runs over an empty Main heap.\<close>

definition execute_with_account ::
    "environment \<Rightarrow> bytecode_function \<Rightarrow> val list \<Rightarrow> quota_account \<Rightarrow> identity \<Rightarrow> address \<Rightarrow>
      (vm_failure + val) \<times> quota_account" where
  "execute_with_account env f arguments account identity address =
     (case execute_in_work (env\<lparr> env_background := heap_main \<rparr>) Map.empty f arguments account identity of
        (Inl e, account') \<Rightarrow> (Inl e, account')
      | (Inr arena, account') \<Rightarrow>
          (map_err (\<lambda>e. VmError (heap_vm_error e (bf_code f) 0)) (world_export arena heap_main address),
           account'))"

definition execute_with_quota_and_args ::
    "environment \<Rightarrow> bytecode_function \<Rightarrow> val list \<Rightarrow> quota \<Rightarrow> identity \<Rightarrow> address \<Rightarrow> vm_failure + val" where
  "execute_with_quota_and_args env f arguments q identity address =
     fst (execute_with_account env f arguments (account_new q) identity address)"

definition execute_with_args ::
    "environment \<Rightarrow> bytecode_function \<Rightarrow> val list \<Rightarrow> nat \<Rightarrow> identity \<Rightarrow> address \<Rightarrow> vm_failure + val" where
  "execute_with_args env f arguments fuel identity address =
     execute_with_quota_and_args env f arguments (quota_with_fuel fuel) identity address"

end
