(* ===== verification/Samples.thy ===== *)
theory Samples
  imports World
begin

text \<open>
  Concrete inputs for the theorems about the machine: a host without callbacks and a function
  that is given by its code, one constant and two registers; and the rewrite rules that evaluate
  the machine on them.
\<close>

lemmas eff_eval = ebind_def eget_def eret_def efail_def emodify_def elift_def estate_def

lemmas heap_eval = on_work_heap_def on_heap_def allocate_def reserve_def initialize_def
  heap_object_def set_object_def heap_main_def heap_work_def heap_new_def text_table_default_def
  nth_opt_def as_u32_def

lemmas view_eval = view_of_def view_bytecode_def view_object_def view_heap_def read_heap_def
  view_closure_def function_arity_def

lemmas register_eval = get_register_def get_registers_def set_register_def write_register_def
  frame_registers_def read_register_def

lemmas start_eval = start_frame_def import_into_def link_bytecode_resolved_def import_start_def
  make_execution_frame_def machine_start_def account_new_def quota_with_fuel_def stack_limit_def
  MAX_STACK_SLOTS_def load_registers_def checked_add_usize_def usize_max_def

lemmas step_eval = execute_step_def execute_opcode_def frame_window_ok_def pending_def set_pc_def
  pop_frame_def

definition quiet_host :: environment where
  "quiet_host =
     \<lparr> env_background = heap_main, env_value_size = 16, env_rich_value_size = 24,
       env_observe = (\<lambda>_. \<lparr> ob_cancelled = False, ob_current = 0 \<rparr>), env_debug_str = (\<lambda>s. s),
       env_callback = (\<lambda>_ _ _ _. efail \<lparr> ne_message = ''no host'', ne_limit = None \<rparr>),
       env_native = (\<lambda>_ _ _ code pc. efail (vm_error EK_InvalidBytecode ''no host'' code pc)) \<rparr>"

definition sample_code :: "opcode list \<Rightarrow> func_byte_code" where
  "sample_code ops =
     \<lparr> code_name = ''sample'', code_parameter_count = 0, code_capture_count = 0,
       code_register_count = 2, code_instructions = ops, code_debug_origins = [] \<rparr>"

definition sample_bytecode :: "opcode list \<Rightarrow> bytecode_function" where
  "sample_bytecode ops = BytecodeFunction 0 (sample_code ops) [VInt 7] [None] [] []"

definition sample_heap :: "opcode list \<Rightarrow> heap" where
  "sample_heap ops = heap_work
     \<lparr> heap_objects := [OByteCodeProto (sample_code ops) [rich_unknown (RInt 7)] [] []] \<rparr>"

definition sample_frame :: "opcode list \<Rightarrow> nat \<Rightarrow> execution_frame" where
  "sample_frame ops pc =
     \<lparr> fr_function = sample_code ops, fr_prototype = Handle Work 0, fr_base = 0, fr_pc = pc,
       fr_return_target = RT_Root \<rparr>"

text \<open>The sample in the middle of a run: at \<open>pc\<close>, with the given registers.\<close>

definition sample_machine ::
    "opcode list \<Rightarrow> nat \<Rightarrow> rich_value option \<Rightarrow> rich_value option \<Rightarrow> machine" where
  "sample_machine ops pc a b =
     \<lparr> m_frames = [sample_frame ops pc], m_stack = [a, b], m_heap = sample_heap ops,
       m_account = account_new (quota_with_fuel 10), m_next_identity = 0 \<rparr>"

lemmas sample_eval = quiet_host_def sample_bytecode_def sample_code_def sample_heap_def
  sample_frame_def sample_machine_def

lemma replicate_two: "replicate 2 x = [x, x]"
  by (simp add: numeral_2_eq_2)

lemma sample_started:
  "start_frame quiet_host Map.empty (sample_bytecode ops) [] []
     (machine_start heap_work (account_new (quota_with_fuel 10)) 0) =
   (Inr (), sample_machine ops 0 None None)"
  by (simp add: eff_eval start_eval heap_eval sample_eval replicate_two Let_def)

lemma sample_load:
  "execute_step quiet_host (sample_machine [Op_LoadConst 0 0, Op_Return 0] 0 None None) =
   (Inr Pending, sample_machine [Op_LoadConst 0 0, Op_Return 0] 1 (Some (rich_unknown (RInt 7))) None)"
  by (simp add: eff_eval step_eval view_eval heap_eval register_eval sample_eval op_load_const_def
      frame_links_def frame_loc_def instruction_location_def code_origin_at_def origin_at_def
      rich_loc_def rich_unknown_def rich_new_def rich_with_loc_def)

lemma sample_return:
  "run quiet_host (sample_machine [Op_LoadConst 0 0, Op_Return 0] 0 None None) =
   (Inr (rich_unknown (RInt 7)),
    (sample_machine [Op_LoadConst 0 0, Op_Return 0] 0 None None)\<lparr> m_frames := [], m_stack := [] \<rparr>)"
  by (subst run.simps, simp add: sample_load, subst run.simps)
     (simp add: eff_eval step_eval view_eval heap_eval register_eval sample_eval op_return_def)

text \<open>A tail call of the tag constructor \<open>'Ok\<close> on the constant: the root gets the tagged value.\<close>

lemma sample_tail_call:
  "execute_step quiet_host (sample_machine [Op_TailCall 0 1] 0
     (Some (rich_unknown (RBuiltinAtom BA_Ok))) (Some (rich_unknown (RInt 7)))) =
   (Inr (Root (rich_unknown (RTagged (Handle Work 1)))),
    (sample_machine [Op_TailCall 0 1] 0 None None)\<lparr> m_frames := [], m_stack := [],
      m_heap := snd (allocate (OTagged (rich_unknown (RBuiltinAtom BA_Ok)) (rich_unknown (RInt 7)))
        (sample_heap [Op_TailCall 0 1])),
      m_account := (account_new (quota_with_fuel 10))
        \<lparr> qa_remaining_fuel := 9, qa_requested_allocation_bytes := 48 \<rparr> \<rparr>)"
  by (simp add: eff_eval step_eval view_eval heap_eval register_eval sample_eval start_eval
      op_tail_call_def read_call_arguments_def call_value_def on_failure_def consume_fuel_def
      check_depth_def logical_depth_def MAX_CALL_DEPTH_def dispatch_call_def construct_tagged_def
      charge_allocation_def account_charge_def new_tagged_def enumerate_eq_zip rich_loc_def
      rich_unknown_def rich_new_def Let_def)

text \<open>The environment does nothing, so it keeps within every reflexive relation.\<close>

lemma quiet_host_steps:
  "env_callback quiet_host i arguments upvalues slots ns =
     (Inl \<lparr> ne_message = ''no host'', ne_limit = None \<rparr>, ns)"
  "env_native quiet_host kind arguments upvalues code pc ns =
     (Inl (vm_error EK_InvalidBytecode ''no host'' code pc), ns)"
  by (simp_all add: quiet_host_def efail_def)

end
