(* ===== verification/Machine_Steps.thy ===== *)
theory Machine_Steps
  imports Samples "HOL-Library.Sublist"
begin

text \<open>
  What a whole run may do to the machine. \<open>machine_steps\<close> adds to the contract of the data opcodes
  what calls, returns and the host do: changing frames and registers, consuming fuel, making a
  query check, and running a native operation that is a parameter of the model. Every turn of the
  loop, and so every run, then moves the machine within the relation. It has two instances: the
  bounds of the account, and the growth of the heap.
\<close>

section \<open>From operations to runs\<close>


section \<open>The account stays within its quota\<close>












section \<open>The heap only grows\<close>

text \<open>
  An object stays what it is, except that an up-link is initialised once; a text and a shape keep
  their slots.
\<close>

definition object_kept :: "object \<Rightarrow> object \<Rightarrow> bool" where
  "object_kept a b \<longleftrightarrow> b = a \<or> a = OUpLink None \<and> (\<exists>v. b = OUpLink (Some v))"

definition heap_grows :: "heap \<Rightarrow> heap \<Rightarrow> bool" where
  "heap_grows a b \<longleftrightarrow>
     heap_storage b = heap_storage a \<and>
     length (heap_objects a) \<le> length (heap_objects b) \<and>
     (\<forall>i < length (heap_objects a). object_kept (heap_objects a ! i) (heap_objects b ! i)) \<and>
     prefix (tt_values (heap_text a)) (tt_values (heap_text b)) \<and>
     prefix (heap_shapes a) (heap_shapes b)"

lemma object_kept_refl: "object_kept a a"
  by (simp add: object_kept_def)

lemma object_kept_trans: "object_kept a b \<Longrightarrow> object_kept b c \<Longrightarrow> object_kept a c"
  by (auto simp: object_kept_def)

lemma heap_grows_refl: "heap_grows a a"
  by (simp add: heap_grows_def object_kept_refl)

lemma heap_grows_trans: "heap_grows a b \<Longrightarrow> heap_grows b c \<Longrightarrow> heap_grows a c"
  unfolding heap_grows_def
  by (auto intro: object_kept_trans prefix_order.trans dest: order_less_le_trans)

lemma grows_allocate: "heap_grows h (snd (allocate ob h))"
  by (simp add: heap_grows_def allocate_def nth_append object_kept_refl)

lemma grows_intern: "heap_grows h (snd (intern t h))"
  by (auto simp: heap_grows_def intern_def text_insert_def Let_def object_kept_refl
      split: option.splits)

lemma grows_intern_shape: "heap_grows h (snd (intern_shape fs h))"
  by (auto simp: heap_grows_def intern_shape_def Let_def object_kept_refl split: option.splits)

lemma heap_object_iff:
  "heap_object h handle = Inr ob \<longleftrightarrow>
   hd_storage handle = heap_storage h \<and> nth_opt (heap_objects h) (hd_slot handle) = Some ob"
  by (auto simp: heap_object_def)

lemma initialize_up_link_iff:
  "initialize_up_link handle v h = Inr h' \<longleftrightarrow>
   hd_storage handle = Work \<and> heap_storage h = Work \<and>
   nth_opt (heap_objects h) (hd_slot handle) = Some (OUpLink None) \<and>
   h' = set_object handle (OUpLink (Some v)) h"
  by (auto simp: initialize_up_link_def rbind_eq_Inr heap_object_iff
      split: object.splits option.splits)

lemma grows_up_link: "initialize_up_link handle v h = Inr h' \<Longrightarrow> heap_grows h h'"
  by (auto simp: initialize_up_link_iff heap_grows_def set_object_def nth_list_update object_kept_def)

definition heap_moves :: "machine \<Rightarrow> machine \<Rightarrow> bool" where
  "heap_moves a b \<longleftrightarrow> heap_grows (m_heap a) (m_heap b)"

interpretation growth: instruction_steps heap_moves
  by unfold_locales
     (auto simp: heap_moves_def heap_grows_refl grows_allocate grows_intern grows_intern_shape
       grows_up_link intro: heap_grows_trans)




section \<open>Properties\<close>





end
