(* ===== verification/Frames.thy ===== *)
theory Frames
  imports Machine_Steps
begin

text \<open>
  The shape of the frame stack in every state the loop reaches: the register windows of the
  frames lie one after the other on the stack and fill it, the outermost frame returns to the
  root and every other one to the frame below it, the call depth and the stack stay within their
  limits. The loop is a step relation here; the invariant is proved by rule induction.
\<close>

section \<open>The invariant\<close>

fun stack_layout :: "execution_frame list \<Rightarrow> nat \<Rightarrow> bool" where
  "stack_layout [] n \<longleftrightarrow> n = 0"
| "stack_layout (f # fs) n \<longleftrightarrow>
     n = fr_base f + code_register_count (fr_function f) \<and> stack_layout fs (fr_base f)"

fun returns_to_root :: "return_target \<Rightarrow> bool" where
  "returns_to_root RT_Root \<longleftrightarrow> True"
| "returns_to_root (RT_Register _ _) \<longleftrightarrow> False"
| "returns_to_root (RT_Native (ArrayContinuation _ t)) \<longleftrightarrow> returns_to_root t"
| "returns_to_root (RT_Native (DictContinuation _ t)) \<longleftrightarrow> returns_to_root t"

fun targets_ok :: "execution_frame list \<Rightarrow> bool" where
  "targets_ok [] \<longleftrightarrow> True"
| "targets_ok (f # fs) \<longleftrightarrow> (returns_to_root (fr_return_target f) \<longleftrightarrow> fs = []) \<and> targets_ok fs"

definition frames_ok :: "machine \<Rightarrow> bool" where
  "frames_ok m \<longleftrightarrow>
     stack_layout (m_frames m) (length (m_stack m)) \<and> targets_ok (m_frames m) \<and>
     logical_depth (m_frames m) RT_Root \<le> MAX_CALL_DEPTH \<and>
     length (m_stack m) \<le> stack_limit (m_account m)"

lemma returns_to_root_native:
  "returns_to_root (RT_Native k) \<longleftrightarrow> returns_to_root (continuation_return_target k)"
  by (cases k) simp_all

text \<open>Everything but the program counter of the frames matters.\<close>

definition same_shape :: "machine \<Rightarrow> machine \<Rightarrow> bool" where
  "same_shape a b \<longleftrightarrow>
     map (\<lambda>f. f\<lparr> fr_pc := 0 \<rparr>) (m_frames b) = map (\<lambda>f. f\<lparr> fr_pc := 0 \<rparr>) (m_frames a) \<and>
     length (m_stack b) = length (m_stack a) \<and>
     qa_quota (m_account b) = qa_quota (m_account a)"

lemma shape_layout:
  "map (\<lambda>f. f\<lparr> fr_pc := 0 \<rparr>) fs = map (\<lambda>f. f\<lparr> fr_pc := 0 \<rparr>) gs \<Longrightarrow>
   stack_layout fs n = stack_layout gs n \<and> targets_ok fs = targets_ok gs \<and>
   logical_depth fs t = logical_depth gs t \<and> length fs = length gs"
proof (induction fs arbitrary: gs n)
  case Nil
  then show ?case by simp
next
  case (Cons f fs)
  then obtain g hs where gs: "gs = g # hs" by (cases gs) auto
  with Cons.prems have "f\<lparr> fr_pc := 0 \<rparr> = g\<lparr> fr_pc := 0 \<rparr>" and
    rest: "map (\<lambda>f. f\<lparr> fr_pc := 0 \<rparr>) fs = map (\<lambda>f. f\<lparr> fr_pc := 0 \<rparr>) hs" by simp_all
  then have "fr_base f = fr_base g" "fr_function f = fr_function g"
    "fr_return_target f = fr_return_target g"
    by (metis execution_frame.select_convs execution_frame.surjective
        execution_frame.update_convs(4))+
  with Cons.IH[OF rest, of "fr_base f"] gs show ?case by (auto simp: logical_depth_def)
qed

lemma same_shape_frames_ok: "same_shape a b \<Longrightarrow> frames_ok a \<Longrightarrow> frames_ok b"
  using shape_layout[of "m_frames b" "m_frames a"]
  by (simp add: same_shape_def frames_ok_def stack_limit_def)

lemma same_frames_shape: "same_frames a b \<Longrightarrow> same_shape a b"
  by (simp add: same_frames_def same_shape_def)

lemma same_control_frames: "same_control a b \<Longrightarrow> same_frames a b"
  by (simp add: same_control_def same_frames_def)


section \<open>Calls\<close>

definition pushed :: "return_target \<Rightarrow> machine \<Rightarrow> machine \<Rightarrow> bool" where
  "pushed target m m' \<longleftrightarrow> (\<exists>f. m_frames m' = f # m_frames m \<and> fr_return_target f = target \<and>
     fr_base f = length (m_stack m) \<and>
     length (m_stack m') = length (m_stack m) + code_register_count (fr_function f) \<and>
     length (m_stack m') \<le> stack_limit (m_account m) \<and>
     qa_quota (m_account m') = qa_quota (m_account m))"

lemma length_load_registers [simp]: "length (load_registers n vs) = n"
  by (simp add: load_registers_def)

lemma make_execution_frame_result:
  assumes "make_execution_frame code prototype arguments captures target m = (Inr f, m')"
  shows "m_frames m' = m_frames m" "m_account m' = m_account m"
    "fr_base f = length (m_stack m)" "fr_return_target f = target"
    "length (m_stack m') = length (m_stack m) + code_register_count (fr_function f)"
    "length (m_stack m') \<le> stack_limit (m_account m)" "fr_function f = code" "fr_pc f = 0"
  using assms
  by (auto simp: make_execution_frame_def fail_def result_simps split: if_splits option.splits)

lemma read_heap_pure: "read_heap env code pc f m = (Inr x, m') \<Longrightarrow> m' = m"
  by (auto simp: read_heap_def result_simps)

lemma push_frame_result:
  assumes "push_frame env prototype arguments upvalues target code pc m = (Inr u, m')"
  shows "pushed target m m'"
proof -
  from assms obtain links f t where
    "on_failure (\<lambda>e. vm_error (re_kind e) (re_message e) code pc)
       (make_execution_frame links prototype arguments upvalues target) m = (Inr f, t)"
    and m': "m' = t\<lparr> m_frames := f # m_frames t \<rparr>"
    by (auto simp: push_frame_def result_simps elim!: ebind_cases dest!: read_heap_pure)
  then have "make_execution_frame links prototype arguments upvalues target m = (Inr f, t)"
    by (auto simp: on_failure_def split: prod.splits)
  from make_execution_frame_result[OF this] m' show ?thesis
    by (auto simp: pushed_def)
qed

lemma run_native_control:
  "eff_ok same_control (action_target target)
     (run_native env native arguments upvalues target code pc)"
proof -
  have "moves same_control (run_synchronous env native arguments upvalues code pc)"
    unfolding run_synchronous_def Let_def by (intro control.steps as_native_control)
  then show ?thesis
    unfolding run_native_def
    by (auto split: native_kind.splits
        intro!: control.steps control.start_array control.start_dict control.core_eq
          control.core_result as_native_control)
qed

lemma construct_tagged_control:
  "eff_ok same_control (action_target target) (construct_tagged env callee arguments target code pc)"
  unfolding construct_tagged_def by (intro control.steps control.builds) simp

text \<open>A call that does not fail has pushed a frame, or left the frames alone and goes on.\<close>

definition called :: "return_target \<Rightarrow> machine \<Rightarrow> vm_action option \<Rightarrow> machine \<Rightarrow> bool" where
  "called target m x m' \<longleftrightarrow> (case x of
     None \<Rightarrow> pushed target m m'
   | Some a \<Rightarrow> same_control m m' \<and> action_target target a)"

lemma some_action:
  "eff_ok same_control (action_target target) c \<Longrightarrow>
   ebind c (\<lambda>a. eret (Some a)) m = (Inr x, m') \<Longrightarrow> called target m x m'"
  by (auto simp: called_def result_simps elim!: ebind_cases dest: eff_okD)

lemma call_closure_result:
  assumes "call_closure env closure arguments target code pc m = (Inr x, m')"
  shows "called target m x m'"
proof -
  have arity: "expected_arity env p code pc m = (Inr n, t) \<Longrightarrow> t = m" for p n t
    by (auto simp: expected_arity_def result_simps split: runtime_prototype.splits
        elim!: ebind_cases dest!: read_heap_pure)
  from assms obtain p us where
    "(case p of
       RP_Bytecode prototype \<Rightarrow>
         ebind (push_frame env prototype arguments us target code pc) (\<lambda>_. eret None)
     | RP_Native native \<Rightarrow>
         ebind (run_native env native arguments us target code pc) (\<lambda>a. eret (Some a))) m
      = (Inr x, m')"
    by (auto simp: call_closure_def fail_def result_simps elim!: ebind_cases
        dest!: read_heap_pure arity split: if_splits)
  then show ?thesis
    by (cases p)
       (auto simp: called_def[of _ _ None] result_simps some_action[OF run_native_control]
         elim!: ebind_cases dest: push_frame_result)
qed

lemma dispatch_call_result:
  assumes "dispatch_call env callee arguments target code pc m = (Inr x, m')"
  shows "called target m x m'"
  using assms some_action[OF construct_tagged_control] call_closure_result
  by (auto simp: dispatch_call_def fail_type_def result_simps split: runtime_value.splits)

lemma call_value_result:
  assumes "call_value env callee arguments target code pc m = (Inr x, m')"
  shows "logical_depth (m_frames m) target < MAX_CALL_DEPTH"
    and "\<exists>t. m_frames t = m_frames m \<and> m_stack t = m_stack m \<and>
      qa_quota (m_account t) = qa_quota (m_account m) \<and> called target t x m'"
proof -
  from assms obtain u t v s where
    fuel: "on_failure (push_trace (native_trace target)) (consume_fuel env code pc) m = (Inr u, t)"
    and depth: "check_depth target code pc t = (Inr v, s)"
    and rest: "dispatch_call env callee arguments target code pc s = (Inr x, m')"
    by (auto simp: call_value_def elim!: ebind_cases)
  from fuel have "consume_fuel env code pc m = (Inr u, t)"
    by (auto simp: on_failure_def split: prod.splits)
  from consume_fuel_frames[OF this] have t: "m_frames t = m_frames m" "m_stack t = m_stack m"
    "qa_quota (m_account t) = qa_quota (m_account m)" by simp_all
  from depth have "s = t" "logical_depth (m_frames t) target < MAX_CALL_DEPTH"
    by (auto simp: check_depth_def fail_def result_simps split: if_splits)
  with t show "logical_depth (m_frames m) target < MAX_CALL_DEPTH" by simp
  from dispatch_call_result[OF rest] t \<open>s = t\<close>
  show "\<exists>t. m_frames t = m_frames m \<and> m_stack t = m_stack m \<and>
      qa_quota (m_account t) = qa_quota (m_account m) \<and> called target t x m'" by blast
qed


section \<open>Actions\<close>

text \<open>The frames below an action: its target is the root exactly when there are none.\<close>

fun action_returns_to_root :: "vm_action \<Rightarrow> bool" where
  "action_returns_to_root (Act_Return _ t) = returns_to_root t"
| "action_returns_to_root (Act_Call _ _ t _ _) = returns_to_root t"

lemma action_target_root:
  "action_target target a \<Longrightarrow> action_returns_to_root a = returns_to_root target"
  by (cases a) (auto simp: returns_to_root_native)

lemma pushed_frames_ok:
  assumes "pushed target m m'" and "frames_ok m" and "returns_to_root target \<longleftrightarrow> m_frames m = []"
    and "logical_depth (m_frames m) target < MAX_CALL_DEPTH"
  shows "frames_ok m'"
  using assms by (auto simp: pushed_def frames_ok_def logical_depth_def stack_limit_def)

lemma return_to_register_shape:
  assumes "return_to_register v destination call_site m = (Inr u, m')"
  shows "same_frames m m'" and "m_frames m \<noteq> []"
  using assms eff_okD(1)[OF return_to_register_frames assms]
  by (auto simp: return_to_register_def result_simps split: list.splits)

definition outcome_ok :: "drive_outcome \<Rightarrow> machine \<Rightarrow> bool" where
  "outcome_ok out m \<longleftrightarrow> frames_ok m \<and> (out = Pending \<longleftrightarrow> m_frames m \<noteq> [])"

lemma drive_frames_ok:
  "drive env a m = (Inr out, m') \<Longrightarrow> frames_ok m \<Longrightarrow>
   action_returns_to_root a \<longleftrightarrow> m_frames m = [] \<Longrightarrow> outcome_ok out m'"
proof (induction env a m arbitrary: out m' rule: drive.induct)
  case (1 env v m)
  then show ?case by (auto simp: outcome_ok_def)
next
  case (2 env v destination call_site m)
  then obtain u where u: "return_to_register v destination call_site m = (Inr u, m')"
    and out: "out = Pending"
    by (auto simp: result_simps elim!: ebind_cases)
  from return_to_register_shape[OF u] 2(2) out show ?case
    by (auto simp: outcome_ok_def same_frames_def
        dest: same_shape_frames_ok[OF same_frames_shape[OF return_to_register_shape(1)[OF u]]])
next
  case (3 env v k m)
  from 3(2) obtain b t where b: "resume_native env k v m = (Inr b, t)"
    and d: "drive env b t = (Inr out, m')"
    by (auto split: prod.splits sum.splits)
  from eff_okD[OF resume_native_control b] have same: "same_control m t" by simp
  have "action_target (continuation_return_target k) b"
    using eff_okD(2)[OF resume_native_ok b] by simp
  then have "action_returns_to_root b \<longleftrightarrow> m_frames t = []"
    using 3(4) same by (simp add: action_target_root returns_to_root_native same_control_def)
  with 3(1)[OF b[symmetric] refl d] same_shape_frames_ok[OF same_frames_shape[OF
      same_control_frames[OF same]] 3(3)] show ?case by simp
next
  case (4 env callee arguments target code pc m)
  from 4(2) obtain x t where x: "call_value env callee arguments target code pc m = (Inr x, t)"
    by (auto split: prod.splits sum.splits)
  from call_value_result[OF x] obtain s where depth: "logical_depth (m_frames m) target < MAX_CALL_DEPTH"
    and s: "m_frames s = m_frames m" "m_stack s = m_stack m"
      "qa_quota (m_account s) = qa_quota (m_account m)" and called: "called target s x t"
    by blast
  have ok: "frames_ok s" using 4(3) s by (simp add: frames_ok_def stack_limit_def)
  show ?case
  proof (cases x)
    case None
    with called have pushed: "pushed target s t" by (simp add: called_def)
    with None x 4(2) have "out = Pending" "m' = t" by auto
    with pushed pushed_frames_ok[OF pushed ok] 4(4) depth s show ?thesis
      by (auto simp: outcome_ok_def pushed_def)
  next
    case (Some b)
    with called have same: "same_control s t" and "action_target target b"
      by (simp_all add: called_def)
    then have "action_returns_to_root b \<longleftrightarrow> m_frames t = []"
      using 4(4) s by (simp add: action_target_root same_control_def)
    moreover from Some x 4(2) have "drive env b t = (Inr out, m')" by simp
    ultimately show ?thesis
      using 4(1)[OF x[symmetric] refl Some] same_shape_frames_ok[OF same_frames_shape[OF
        same_control_frames[OF same]] ok] by blast
  qed
qed

section \<open>Turns\<close>

lemma set_pc_shape:
  assumes "set_pc pc m = (Inr u, m')"
  shows "same_shape m m'" and "m_frames m \<noteq> []" and "m_frames m' \<noteq> []"
  using assms by (auto simp: set_pc_def panic_def same_shape_def result_simps split: list.splits)

lemma same_shape_trans: "same_shape a b \<Longrightarrow> same_shape b c \<Longrightarrow> same_shape a c"
  by (simp add: same_shape_def)

lemma same_shape_nonempty: "same_shape a b \<Longrightarrow> m_frames b = [] \<longleftrightarrow> m_frames a = []"
  by (auto simp: same_shape_def)

lemma read_shape:
  "get_register f r m = (Inr v, t) \<Longrightarrow> same_frames m t"
  "read_call_arguments f r k m = (Inr vs, t) \<Longrightarrow> same_frames m t"
  using eff_okD(1)[OF data.register_steps(1)] eff_okD(1)[OF read_call_arguments_moves] by blast+

text \<open>After the active frame is left, the frames below it are well formed for its target.\<close>

lemma pop_frame_ok:
  assumes "pop_frame m = (Inr c, m')" and "frames_ok m"
  shows "frames_ok m' \<and> (returns_to_root (fr_return_target c) \<longleftrightarrow> m_frames m' = [])"
  using assms
  by (cases "m_frames m")
     (auto simp: pop_frame_def panic_def result_simps frames_ok_def logical_depth_def stack_limit_def
       min_def)

lemma jump_shape:
  assumes "op_jump env f target m = (Inr u, m')"
  shows "same_shape m m'" and "m_frames m' \<noteq> []"
proof -
  from assms obtain x t where "(if target \<le> fr_pc f
      then consume_fuel env (fr_function f) (fr_pc f) else eret ()) m = (Inr x, t)"
    and set: "set_pc target t = (Inr u, m')"
    by (auto simp: op_jump_def frame_fail_def fail_def result_simps elim!: ebind_cases
        split: if_splits)
  then have "same_shape m t"
    by (auto simp: result_simps same_shape_def dest: consume_fuel_frames split: if_splits)
  with set_pc_shape[OF set] show "same_shape m m'" "m_frames m' \<noteq> []"
    by (auto intro: same_shape_trans)
qed

lemma pending_jump:
  assumes "pending c m = (Inr out, m')" and "\<And>u. c m = (Inr u, m') \<Longrightarrow> same_shape m m' \<and> m_frames m' \<noteq> []"
    and "frames_ok m"
  shows "outcome_ok out m'"
  using assms by (auto simp: pending_def result_simps outcome_ok_def elim!: ebind_cases
      dest: same_shape_frames_ok)

lemma execute_opcode_frames_ok:
  assumes "execute_opcode env f op m = (Inr out, m')" and "frames_ok m" and "m_frames m \<noteq> []"
  shows "outcome_ok out m'"
proof -
  have data: "outcome_ok out m'"
    if "pending (ebind (execute_data env f op) (\<lambda>_. set_pc (fr_pc f + 1))) m = (Inr out, m')"
    using that
  proof (rule pending_jump)
    fix u assume "ebind (execute_data env f op) (\<lambda>_. set_pc (fr_pc f + 1)) m = (Inr u, m')"
    then obtain x t where x: "execute_data env f op m = (Inr x, t)"
      and set: "set_pc (fr_pc f + 1) t = (Inr u, m')" by (elim ebind_cases) auto
    from eff_okD(1)[OF data.execute_data_moves x] set_pc_shape[OF set]
    show "same_shape m m' \<and> m_frames m' \<noteq> []"
      by (auto intro: same_shape_trans dest: same_frames_shape)
  qed fact
  have jump: "outcome_ok out m'" if "pending (op_jump env f target) m = (Inr out, m')" for target
    using that jump_shape assms(2) by (intro pending_jump[OF that]) auto
  have branch: "outcome_ok out m'"
    if "pending (op_jump_if_false env f condition target) m = (Inr out, m')" for condition target
    using that
  proof (rule pending_jump)
    fix u assume "op_jump_if_false env f condition target m = (Inr u, m')"
    then obtain v t where v: "get_register f condition m = (Inr v, t)" and
      "set_pc (fr_pc f + 1) t = (Inr u, m') \<or> op_jump env f target t = (Inr u, m')"
      by (auto simp: op_jump_if_false_def fail_type_def result_simps elim!: ebind_cases
          split: option.splits bool.splits)
    with read_shape(1)[OF v] show "same_shape m m' \<and> m_frames m' \<noteq> []"
      using set_pc_shape jump_shape same_frames_shape same_shape_trans by metis
  qed fact
  show ?thesis
  proof (cases op)
    case (Op_Call base n)
    with assms(1) obtain c t vs u w x where
      r: "get_register f base m = (Inr c, t)" "read_call_arguments f base n t = (Inr vs, u)"
        "set_pc (fr_pc f + 1) u = (Inr w, x)" and
      d: "drive env (Act_Call c vs (RT_Register base (frame_loc f)) (fr_function f) (fr_pc f)) x
        = (Inr out, m')"
      by (auto simp: execute_opcode_def op_call_def elim!: ebind_cases)
    have "same_shape m x"
      using r by (meson read_shape same_frames_shape same_shape_trans set_pc_shape(1))
    from drive_frames_ok[OF d] same_shape_frames_ok[OF this assms(2)] same_shape_nonempty[OF this]
    show ?thesis using assms(3) by simp
  next
    case (Op_TailCall base n)
    with assms(1) obtain c t vs u w x where
      r: "get_register f base m = (Inr c, t)" "read_call_arguments f base n t = (Inr vs, u)" and
      pop: "pop_frame u = (Inr w, x)" and
      d: "drive env (Act_Call c vs (fr_return_target w) (fr_function f) (fr_pc f)) x = (Inr out, m')"
      by (auto simp: execute_opcode_def op_tail_call_def elim!: ebind_cases)
    have "frames_ok u"
      using r assms(2) by (meson read_shape same_frames_shape same_shape_trans same_shape_frames_ok)
    from pop_frame_ok[OF pop this] drive_frames_ok[OF d] show ?thesis by simp
  next
    case (Op_Return src)
    with assms(1) obtain v t w x where
      r: "get_register f src m = (Inr v, t)" and pop: "pop_frame t = (Inr w, x)" and
      d: "drive env (Act_Return v (fr_return_target w)) x = (Inr out, m')"
      by (auto simp: execute_opcode_def op_return_def elim!: ebind_cases)
    have "frames_ok t"
      using r assms(2) by (meson read_shape same_frames_shape same_shape_frames_ok)
    from pop_frame_ok[OF pop this] drive_frames_ok[OF d] show ?thesis by simp
  qed (use assms(1) data jump branch in \<open>simp_all add: execute_opcode_def\<close>)
qed

lemma execute_step_frames_ok:
  assumes "execute_step env m = (Inr out, m')" and "frames_ok m"
  shows "outcome_ok out m'"
  using assms execute_opcode_frames_ok
  by (auto simp: execute_step_def panic_def frame_fail_def fail_def result_simps
      split: list.splits option.splits if_splits)


section \<open>Reachable states\<close>

inductive reaches :: "environment \<Rightarrow> machine \<Rightarrow> machine \<Rightarrow> bool" for env m where
  reaches_start: "reaches env m m"
| reaches_turn: "reaches env m s \<Longrightarrow> execute_step env s = (Inr Pending, t) \<Longrightarrow> reaches env m t"

inductive_simps execute_turn: "reaches env m t"

lemma reaches_frames_ok:
  "reaches env m t \<Longrightarrow> frames_ok m \<Longrightarrow> m_frames m \<noteq> [] \<Longrightarrow> frames_ok t \<and> m_frames t \<noteq> []"
  by (induction rule: reaches.induct) (auto dest!: execute_step_frames_ok simp: outcome_ok_def)

text \<open>The loop stops in a state it reaches, with the outcome of that turn.\<close>

lemma run_last_turn:
  assumes "run env m = (r, m')"
  obtains t out where "reaches env m t" "execute_step env t = (out, m')"
    "r = (case out of Inl e \<Rightarrow> Inl e | Inr (Root v) \<Rightarrow> Inr v)" "out \<noteq> Inr Pending"
proof -
  have "\<exists>t out. reaches env s t \<and> execute_step env t = (out, m') \<and> out \<noteq> Inr Pending \<and>
      r = (case out of Inl e \<Rightarrow> Inl e | Inr (Root v) \<Rightarrow> Inr v)"
    if "run env s = (r, m')" for s
    using that
  proof (induction env s rule: run.induct)
    case (1 env s)
    obtain q t where q: "execute_step env s = (q, t)" by fastforce
    show ?case
    proof (cases "q = Inr Pending")
      case True
      with q 1(2) have "run env t = (r, m')" by (subst (asm) run.simps) simp
      from 1(1)[OF q[symmetric] True refl this] obtain u out where "reaches env t u"
        and u: "execute_step env u = (out, m')" "out \<noteq> Inr Pending"
          "r = (case out of Inl e \<Rightarrow> Inl e | Inr (Root v) \<Rightarrow> Inr v)" by blast
      from \<open>reaches env t u\<close> have "reaches env s u"
        by induction (use q True in \<open>auto intro: reaches.intros\<close>)
      with u show ?thesis by blast
    next
      case False
      with q 1(2) have "t = m'" "r = (case q of Inl e \<Rightarrow> Inl e | Inr (Root v) \<Rightarrow> Inr v)"
        by (subst (asm) run.simps; auto split: sum.splits drive_outcome.splits)+
      with q False show ?thesis by (blast intro: reaches_start)
    qed
  qed
  from this[OF assms] that show ?thesis by blast
qed

lemma on_work_heap_frames: "moves same_control (on_work_heap f)"
  by (auto simp: eff_ok_def on_work_heap_def estate_def same_control_def machine_fuel_def
      split: prod.splits)

text \<open>A computation that, started without frames, ends with the frame of \<open>code\<close> alone.\<close>

definition enters :: "func_byte_code \<Rightarrow> 'a exec \<Rightarrow> bool" where
  "enters code c \<longleftrightarrow> (\<forall>m u m'. m_frames m = [] \<longrightarrow> m_stack m = [] \<longrightarrow> c m = (Inr u, m') \<longrightarrow>
     frames_ok m' \<and> (\<exists>frame. m_frames m' = [frame] \<and> fr_function frame = code \<and> fr_pc frame = 0))"

lemma enters_bind:
  assumes "moves same_control c" and "\<And>x. enters code (k x)"
  shows "enters code (ebind c k)"
  unfolding enters_def
proof (intro allI impI)
  fix m u m' assume "m_frames m = []" "m_stack m = []" "ebind c k m = (Inr u, m')"
  moreover from this obtain x t where "c m = (Inr x, t)" "k x t = (Inr u, m')"
    by (auto simp: result_simps)
  ultimately have "m_frames t = []" "m_stack t = []" and k: "k x t = (Inr u, m')"
    using eff_okD(1)[OF assms(1), of m "Inr x" t] by (simp_all add: same_control_def)
  then show "frames_ok m' \<and>
      (\<exists>frame. m_frames m' = [frame] \<and> fr_function frame = code \<and> fr_pc frame = 0)"
    using assms(2)[of x, unfolded enters_def, rule_format, of t u m'] by blast
qed

lemma enters_frame:
  "enters code (ebind (make_execution_frame code proto args capts RT_Root)
     (\<lambda>frame. emodify (\<lambda>m. m\<lparr> m_frames := [frame] \<rparr>)))"
  unfolding enters_def
proof (intro allI impI)
  fix m u m'
  assume m: "m_frames m = []" "m_stack m = []" and
    "ebind (make_execution_frame code proto args capts RT_Root)
       (\<lambda>frame. emodify (\<lambda>m. m\<lparr> m_frames := [frame] \<rparr>)) m = (Inr u, m')"
  then obtain frame t where frame: "make_execution_frame code proto args capts RT_Root m = (Inr frame, t)"
    and m': "m' = t\<lparr> m_frames := [frame] \<rparr>" by (auto simp: result_simps)
  from make_execution_frame_result[OF frame] m m'
  show "frames_ok m' \<and>
      (\<exists>frame. m_frames m' = [frame] \<and> fr_function frame = code \<and> fr_pc frame = 0)"
    by (auto simp: frames_ok_def logical_depth_def MAX_CALL_DEPTH_def)
qed

lemma start_frame_ok:
  assumes "start_frame env externals f arguments captures (machine_start h account identity) = (Inr u, m)"
  shows "frames_ok m" and "\<exists>frame. m_frames m = [frame] \<and> fr_function frame = bf_code f \<and> fr_pc frame = 0"
proof -
  have "moves same_control (import_into env (bf_code f) vs)" for vs
    unfolding import_into_def by (intro control.steps on_work_heap_frames)
  then have "enters (bf_code f) (start_frame env externals f arguments captures)"
    unfolding start_frame_def Let_def
    by (intro enters_bind enters_frame control.pure on_work_heap_frames)
  from this[unfolded enters_def, rule_format, OF _ _ assms] show "frames_ok m"
    "\<exists>frame. m_frames m = [frame] \<and> fr_function frame = bf_code f \<and> fr_pc frame = 0"
    by (auto simp: machine_start_def)
qed

section \<open>Properties\<close>

text \<open>
  C1. In every state a started function reaches, the register windows of its frames partition the
  stack, the outermost frame and no other returns to the root, at most 1024 calls are open, native
  ones included, and the stack is within its limit.
\<close>

theorem reachable_frames_ok:
  assumes "start_frame env externals f arguments captures (machine_start h account identity) = (Inr u, m)"
    and "reaches env m t"
  shows "frames_ok t \<and> m_frames t \<noteq> []"
  using reaches_frames_ok[OF assms(2)] start_frame_ok[OF assms(1)] by auto

theorem reachable_frames_ok_witness:
  "\<exists>t. reaches quiet_host (sample_machine [Op_LoadConst 0 0, Op_Return 0] 0 None None) t \<and>
     fr_pc (hd (m_frames t)) = 1 \<and> frames_ok t"
  using reachable_frames_ok[OF sample_started reaches_turn[OF reaches_start sample_load]]
    reaches_turn[OF reaches_start sample_load]
  by (intro exI[of _ "sample_machine [Op_LoadConst 0 0, Op_Return 0] 1 (Some (rich_unknown (RInt 7))) None"])
     (simp add: sample_machine_def sample_frame_def)

text \<open>
  C2. The loop always ends: each of its turns that does not end it consumes fuel, or leaves the
  active frame for good, or moves its program counter forward, in this order of importance.
\<close>

theorem turn_makes_progress:
  assumes "execute_step env m = (Inr Pending, m')"
  shows "machine_fuel m' < machine_fuel m \<or>
    machine_fuel m' = machine_fuel m \<and> (length (m_frames m') < length (m_frames m) \<or>
      length (m_frames m') = length (m_frames m) \<and> remaining_code m' < remaining_code m)"
  using execute_step_progress[OF assms] by (auto simp: progress_def)

theorem turn_makes_progress_witness:
  "remaining_code (sample_machine [Op_LoadConst 0 0, Op_Return 0] 1
     (Some (rich_unknown (RInt 7))) None) <
   remaining_code (sample_machine [Op_LoadConst 0 0, Op_Return 0] 0 None None)"
  using turn_makes_progress[OF sample_load]
  by (simp add: sample_machine_def machine_fuel_def)

text \<open>
  C5. When a function returns, every frame has been left and no register is in use.
\<close>

theorem run_returns_clean:
  assumes "start_frame env externals f arguments captures (machine_start h account identity) = (Inr u, m)"
    and "run env m = (Inr v, m')"
  shows "m_frames m' = [] \<and> m_stack m' = []"
proof -
  from run_last_turn[OF assms(2)] obtain t out where t: "reaches env m t"
    and last: "execute_step env t = (out, m')" "Inr v = (case out of Inl e \<Rightarrow> Inl e | Inr (Root w) \<Rightarrow> Inr w)"
      "out \<noteq> Inr Pending" by metis
  then have "execute_step env t = (Inr (Root v), m')"
    by (cases out) (auto split: drive_outcome.splits)
  moreover have "frames_ok t"
    using reaches_frames_ok[OF t] start_frame_ok[OF assms(1)] by auto
  ultimately have "outcome_ok (Root v) m'" by (rule execute_step_frames_ok)
  then show ?thesis by (auto simp: outcome_ok_def frames_ok_def)
qed

theorem run_returns_clean_witness:
  "case run quiet_host (sample_machine [Op_LoadConst 0 0, Op_Return 0] 0 None None) of
     (r, m) \<Rightarrow> r = Inr (rich_unknown (RInt 7)) \<and> m_frames m = [] \<and> m_stack m = []"
  using run_returns_clean[OF sample_started sample_return] by (simp add: sample_return)

lemma drive_depth:
  "drive env a m = (Inr out, m') \<Longrightarrow> length (m_frames m') \<le> Suc (length (m_frames m))"
proof (induction env a m arbitrary: out m' rule: drive.induct)
  case (2 env v destination call_site m)
  then obtain u where "return_to_register v destination call_site m = (Inr u, m')"
    by (auto simp: result_simps elim!: ebind_cases)
  from return_to_register_shape(1)[OF this] show ?case by (simp add: same_frames_def)
next
  case (3 env v k m)
  then obtain b t where b: "resume_native env k v m = (Inr b, t)" "drive env b t = (Inr out, m')"
    by (auto split: prod.splits sum.splits)
  from eff_okD(1)[OF resume_native_control b(1)] 3(1)[OF b(1)[symmetric] refl b(2)]
  show ?case by (simp add: same_control_def)
next
  case (4 env callee arguments target code pc m)
  then obtain x t where x: "call_value env callee arguments target code pc m = (Inr x, t)"
    by (auto split: prod.splits sum.splits)
  from call_value_result(2)[OF x] obtain s where s: "m_frames s = m_frames m" "called target s x t"
    by blast
  show ?case
  proof (cases x)
    case None
    with s x 4(2) show ?thesis by (auto simp: called_def pushed_def)
  next
    case (Some b)
    with x 4(2) have "drive env b t = (Inr out, m')" by simp
    with 4(1)[OF x[symmetric] refl Some] s Some show ?thesis
      by (auto simp: called_def same_control_def)
  qed
qed simp

text \<open>
  C6. A tail call runs in the place of its caller: it never makes the frame stack higher.
\<close>

theorem tail_call_keeps_depth:
  assumes "execute_step env m = (Inr out, m')" and "m_frames m = f # fs"
    and "nth_opt (code_instructions (fr_function f)) (fr_pc f) = Some (Op_TailCall base n)"
  shows "length (m_frames m') \<le> length (m_frames m)"
proof -
  from assms obtain c t vs u w x where
    r: "get_register f base m = (Inr c, t)" "read_call_arguments f base n t = (Inr vs, u)" and
    pop: "pop_frame u = (Inr w, x)" and
    d: "drive env (Act_Call c vs (fr_return_target w) (fr_function f) (fr_pc f)) x = (Inr out, m')"
    by (auto simp: execute_step_def execute_opcode_def op_tail_call_def panic_def result_simps
        elim!: ebind_cases split: if_splits)
  from r have "m_frames u = f # fs"
    using assms(2) by (auto dest!: read_shape simp: same_frames_def)
  with pop_frame_frames(1)[OF pop] drive_depth[OF d] assms(2) show ?thesis by simp
qed

theorem tail_call_keeps_depth_witness:
  "length (m_frames (snd (execute_step quiet_host (sample_machine [Op_TailCall 0 1] 0
     (Some (rich_unknown (RBuiltinAtom BA_Ok))) (Some (rich_unknown (RInt 7))))))) \<le> 1"
  using tail_call_keeps_depth[OF sample_tail_call] unfolding sample_tail_call snd_conv
  by (simp add: sample_machine_def sample_frame_def sample_code_def)

end
