(* ===== verification/Graph_Walks.thy ===== *)
theory Graph_Walks
  imports Samples
begin

text \<open>
  The walks over the object graph end: equality of values, which remembers the pairs of handles it
  has compared, and export, which remembers the handles on its path, give the same answer for
  every fuel above the number of pairs (of objects) of the view, and that answer is never the
  error of the fuel. The code has no fuel, so this is the termination of its recursion, on cyclic
  graphs too. \<open>settled\<close> and \<open>restored\<close> are the relations between two runs with different fuels
  that the operations of the walks preserve.
\<close>

section \<open>Errors of the heap\<close>

definition honest :: "heap_error + 'a \<Rightarrow> bool" where
  "honest r \<longleftrightarrow> r \<noteq> Inl fuel_error"

lemma honest_simps [simp]:
  "honest (Inr x)" "honest (Inl (HeapError s)) \<longleftrightarrow> s \<noteq> ''fuel exhausted''"
  "honest (ok_or e opt) \<longleftrightarrow> opt \<noteq> None \<or> e \<noteq> fuel_error"
  by (auto simp: honest_def fuel_error_def ok_or_def split: option.splits)

lemma honest_bind [intro!]:
  "honest r \<Longrightarrow> (\<And>x. r = Inr x \<Longrightarrow> honest (f x)) \<Longrightarrow> honest (rbind r f)"
  by (cases r) (auto simp: honest_def)

lemma honest_heap [simp]: "honest (view_heap view s)" "honest (heap_object h handle)"
  "honest (resolve_text h i)" "honest (heap_shape h sh)"
  by (auto simp: view_heap_def heap_object_def resolve_text_def heap_shape_def fuel_error_def
      split: option.splits storage.splits)

lemma honest_view [simp]:
  "honest (view_object view handle)" "honest (view_text view i)" "honest (view_shape view sh)"
  by (auto simp: view_object_def view_text_def view_shape_def)

lemma honest_parts [simp]:
  "honest (sequence_values ob)" "honest (dict_object_parts ob)" "honest (closure_identity ob)"
  "honest (bytes_part ob)" "honest (opaque_part ob)" "honest (native_type_part ob)"
  "honest (string_part ob)" "honest (array_part ob)" "honest (tuple_part ob)"
  "honest (tagged_part ob)" "honest (closure_part ob)" "honest (dyn_part ob)" "honest (proto_part ob)"
  by (cases ob; simp add: sequence_values_def dict_object_parts_def closure_identity_def
      bytes_part_def opaque_part_def native_type_part_def string_part_def array_part_def
      tuple_part_def tagged_part_def closure_part_def dyn_part_def proto_part_def)+

lemma honest_tagged [simp]: "honest (view_tagged view handle)" "honest (view_dyn_parts view handle)"
  by (auto simp: view_tagged_def view_dyn_parts_def split: object.splits)

lemma honest_texts [simp]: "honest (view_string_text view v)" "honest (view_atom_text view v)"
  by (auto simp: view_string_text_def view_atom_text_def split: runtime_value.splits object.splits)

lemma honest_fields [simp]: "honest (fields_equal view ps)"
  by (induction view ps rule: fields_equal.induct) auto

lemma honest_flat [simp]: "honest (flat_equal view l r)"
  unfolding flat_equal_def ids_equal_def texts_equal_def data_equal_def
  by (auto split: runtime_value.splits)

section \<open>Equality\<close>

definition settled ::
    "(handle \<times> handle) set \<Rightarrow> 'a comparing \<Rightarrow> 'a comparing \<Rightarrow> bool" where
  "settled A m m' \<longleftrightarrow>
     (\<forall>s. A \<subseteq> s \<longrightarrow> m' s = m s \<and> s \<subseteq> snd (m s) \<and> honest (fst (m s)))"

lemma settledD:
  assumes "settled A m m'" and "A \<subseteq> s"
  shows "m' s = m s" "s \<subseteq> snd (m s)" "honest (fst (m s))"
  using assms by (simp_all add: settled_def)

lemma settled_pure: "settled A (eret x) (eret x)"
  by (simp add: settled_def eret_def)

lemma settled_lift: "honest r \<Longrightarrow> settled A (elift r) (elift r)"
  by (simp add: settled_def elift_def)

lemma settled_bind:
  assumes "settled A m m'" and "\<And>x. settled A (f x) (f' x)"
  shows "settled A (ebind m f) (ebind m' f')"
  unfolding settled_def
proof (intro allI impI)
  fix s assume s: "A \<subseteq> s"
  obtain q t where q: "m s = (q, t)" by fastforce
  with settledD[OF assms(1) s] have m: "m' s = (q, t)" "s \<subseteq> t" "honest q" by simp_all
  show "ebind m' f' s = ebind m f s \<and> s \<subseteq> snd (ebind m f s) \<and> honest (fst (ebind m f s))"
  proof (cases q)
    case (Inr x)
    from s m(2) have "A \<subseteq> t" by blast
    from settledD[OF assms(2)[of x] this] Inr q m show ?thesis by (auto simp: ebind_def)
  qed (use q m in \<open>simp add: ebind_def honest_def\<close>)
qed

lemma settled_lift_bind:
  "honest r \<Longrightarrow> (\<And>x. r = Inr x \<Longrightarrow> settled A (f x) (f' x)) \<Longrightarrow>
   settled A (ebind (elift r) f) (ebind (elift r) f')"
  by (cases r) (auto simp: settled_def[of A "ebind _ _"] settledD settled_def[of A "Pair _"]
      ebind_def elift_def honest_def)

lemma settled_if: "settled A a a' \<Longrightarrow> settled A b b' \<Longrightarrow>
   settled A (if c then a else b) (if c then a' else b')"
  by simp

lemma settled_prod:
  "(\<And>a b. p = (a, b) \<Longrightarrow> settled A (f a b) (f' a b)) \<Longrightarrow>
   settled A (case p of (a, b) \<Rightarrow> f a b) (case p of (a, b) \<Rightarrow> f' a b)"
  by (cases p) simp

lemma settled_unless_visited:
  "(l \<noteq> r \<Longrightarrow> (l, r) \<notin> A \<Longrightarrow> settled (insert (l, r) A) m m') \<Longrightarrow>
   settled A (unless_visited l r m) (unless_visited l r m')"
  unfolding settled_def[of _ "unless_visited _ _ _"]
proof (intro allI impI)
  fix s assume s: "A \<subseteq> s"
  assume m: "l \<noteq> r \<Longrightarrow> (l, r) \<notin> A \<Longrightarrow> settled (insert (l, r) A) m m'"
  show "unless_visited l r m' s = unless_visited l r m s \<and> s \<subseteq> snd (unless_visited l r m s) \<and>
      honest (fst (unless_visited l r m s))"
  proof (cases "l = r \<or> (l, r) \<in> s")
    case True
    then show ?thesis by (auto simp: unless_visited_def ebind_def eget_def eret_def)
  next
    case False
    with s have "settled (insert (l, r) A) m m'" by (intro m) auto
    from settledD[OF this insert_mono[OF s]] False show ?thesis
      by (auto simp: unless_visited_def ebind_def eget_def emodify_def)
  qed
qed

lemma settled_zip:
  "(\<And>a b. settled A (eq a b) (eq' a b)) \<Longrightarrow> settled A (zip_equal eq ps) (zip_equal eq' ps)"
  by (induction eq ps rule: zip_equal.induct)
     (auto intro!: settled_pure settled_bind settled_if)

lemmas settled_intros = settled_pure settled_lift settled_bind settled_if settled_zip

text \<open>The handles a view can resolve.\<close>

definition view_handles :: "heap_view \<Rightarrow> handle set" where
  "view_handles view = {handle. \<exists>ob. view_object view handle = Inr ob}"

definition heap_handles :: "heap \<Rightarrow> handle set" where
  "heap_handles h = Handle (heap_storage h) ` {..<length (heap_objects h)}"

lemma heap_object_handles: "heap_object h handle = Inr ob \<Longrightarrow> handle \<in> heap_handles h"
  by (cases handle) (auto simp: heap_object_def heap_handles_def split: if_splits)

lemma card_heap_handles: "finite (heap_handles h)" "card (heap_handles h) = length (heap_objects h)"
  by (auto simp: heap_handles_def card_image inj_on_def)

lemma view_handles_card: "finite (view_handles view)" "card (view_handles view) \<le> view_size view"
proof -
  let ?bg = "case hv_background view of Some b \<Rightarrow> heap_handles b | None \<Rightarrow> {}"
  have sub: "view_handles view \<subseteq> heap_handles (hv_current view) \<union> ?bg"
    by (auto simp: view_handles_def view_object_def view_heap_def result_simps
        split: if_splits storage.splits option.splits dest: heap_object_handles)
      (metis storage.exhaust)+
  moreover have fin: "finite (heap_handles (hv_current view) \<union> ?bg)"
    by (auto simp: card_heap_handles split: option.splits)
  ultimately show "finite (view_handles view)" by (rule finite_subset)
  have "card (heap_handles (hv_current view) \<union> ?bg) \<le> view_size view"
    using card_Un_le[of "heap_handles (hv_current view)" ?bg]
    by (auto simp: view_size_def card_heap_handles split: option.splits)
  with card_mono[OF fin sub] show "card (view_handles view) \<le> view_size view" by simp
qed

definition view_pairs :: "heap_view \<Rightarrow> (handle \<times> handle) set" where
  "view_pairs view = view_handles view \<times> view_handles view"

lemma view_pairs_card: "finite (view_pairs view)" "card (view_pairs view) \<le> view_size view * view_size view"
  using view_handles_card[of view] by (auto simp: view_pairs_def card_cartesian_product mult_le_mono)

lemma view_pairs_less:
  assumes "view_object view l = Inr x" "view_object view r = Inr y" "(l, r) \<notin> A"
    and "card (view_pairs view - A) < Suc n"
  shows "card (view_pairs view - insert (l, r) A) < n"
proof -
  have "(l, r) \<in> view_pairs view - A"
    using assms by (auto simp: view_pairs_def view_handles_def)
  then have "card (view_pairs view - insert (l, r) A) < card (view_pairs view - A)"
    using view_pairs_card(1) by (intro psubset_card_mono) auto
  with assms(4) show ?thesis by simp
qed

lemma settled_slices:
  "(\<And>a b. settled A (eq a b) (eq' a b)) \<Longrightarrow>
   settled A (value_slices_equal eq ls rs) (value_slices_equal eq' ls rs)"
  by (simp add: value_slices_equal_def settled_pure settled_zip)

lemma view_tagged_object: "view_tagged view handle = Inr p \<Longrightarrow> \<exists>ob. view_object view handle = Inr ob"
  by (auto simp: view_tagged_def result_simps)

lemma values_equal_settled:
  "card (view_pairs view - A) < n \<Longrightarrow> card (view_pairs view - A) < n' \<Longrightarrow>
   settled A (values_equal_with view n l r) (values_equal_with view n' l r)"
proof (induction n arbitrary: n' l r A)
  case (Suc n)
  then obtain k where n': "n' = Suc k" by (cases n') auto
  have deeper: "settled (insert (a, b) A) (values_equal_with view n u v) (values_equal_with view k u v)"
    if "view_object view a = Inr x" "view_object view b = Inr y" "(a, b) \<notin> A" for a b x y u v
    using Suc.IH view_pairs_less[OF that] Suc.prems n' by blast
  have sequence: "settled A (sequence_handles_equal view (values_equal_with view n) a b)
      (sequence_handles_equal view (values_equal_with view k) a b)" for a b
    unfolding sequence_handles_equal_def
    by (intro settled_unless_visited settled_lift_bind settled_slices)
       (auto simp: result_simps intro: deeper)
  have dict: "settled A (dict_handles_equal view (values_equal_with view n) a b)
      (dict_handles_equal view (values_equal_with view k) a b)" for a b
    unfolding dict_handles_equal_def
    by (intro settled_unless_visited settled_lift_bind settled_prod settled_slices settled_if
        settled_pure)
       (auto simp: result_simps intro: deeper)
  have tagged: "settled A (tagged_handles_equal view (values_equal_with view n) a b)
      (tagged_handles_equal view (values_equal_with view k) a b)" for a b
    unfolding tagged_handles_equal_def
    by (intro settled_unless_visited settled_lift_bind settled_prod settled_bind settled_if
        settled_pure)
       (auto dest!: view_tagged_object intro: deeper)
  show ?case
    using sequence dict tagged
    by (cases l; cases r; simp add: n' settled_lift)
qed simp

section \<open>Export\<close>

definition restored :: "handle set \<Rightarrow> 'a exporting \<Rightarrow> 'a exporting \<Rightarrow> bool" where
  "restored A m m' \<longleftrightarrow>
     (\<forall>s. ex_visiting s = A \<longrightarrow> m' s = m s \<and> honest (fst (m s)) \<and>
       (\<forall>x. fst (m s) = Inr x \<longrightarrow> ex_visiting (snd (m s)) = A))"

lemma restoredD:
  assumes "restored A m m'" and "ex_visiting s = A"
  shows "m' s = m s" "honest (fst (m s))" "m s = (Inr x, t) \<Longrightarrow> ex_visiting t = A"
  using assms by (auto simp: restored_def)

lemma restored_pure: "restored A (eret x) (eret x)" "restored A fresh_address fresh_address"
  by (simp_all add: restored_def eret_def fresh_address_def estate_def)

lemma restored_lift: "honest r \<Longrightarrow> restored A (elift r) (elift r)"
  by (simp add: restored_def elift_def)

lemma restored_bind:
  assumes "restored A m m'" and "\<And>x. restored A (f x) (f' x)"
  shows "restored A (ebind m f) (ebind m' f')"
  unfolding restored_def
proof (intro allI impI)
  fix s :: export_state assume s: "ex_visiting s = A"
  obtain q t where q: "m s = (q, t)" by fastforce
  show "ebind m' f' s = ebind m f s \<and> honest (fst (ebind m f s)) \<and>
      (\<forall>x. fst (ebind m f s) = Inr x \<longrightarrow> ex_visiting (snd (ebind m f s)) = A)"
  proof (cases q)
    case (Inl e)
    with restoredD(1,2)[OF assms(1) s] q show ?thesis by (simp add: ebind_def honest_def)
  next
    case (Inr x)
    with q restoredD(3)[OF assms(1) s, of x t] have "ex_visiting t = A" by simp
    with assms(2)[of x] restoredD(1)[OF assms(1) s] q Inr show ?thesis
      by (simp add: ebind_def restored_def)
  qed
qed

lemma restored_lift_bind:
  "honest r \<Longrightarrow> (\<And>x. r = Inr x \<Longrightarrow> restored A (f x) (f' x)) \<Longrightarrow>
   restored A (ebind (elift r) f) (ebind (elift r) f')"
  by (cases r) (auto simp: restored_def ebind_def elift_def honest_def)

lemma restored_collect:
  "(\<And>x. restored A (f x) (f' x)) \<Longrightarrow> restored A (ecollect f xs) (ecollect f' xs)"
  by (induction xs) (auto intro!: restored_pure restored_bind)

lemma restored_prod:
  "(\<And>a b. p = (a, b) \<Longrightarrow> restored A (f a b) (f' a b)) \<Longrightarrow>
   restored A (case p of (a, b) \<Rightarrow> f a b) (case p of (a, b) \<Rightarrow> f' a b)"
  by (cases p) simp

lemma restored_if: "restored A a a' \<Longrightarrow> restored A b b' \<Longrightarrow>
   restored A (if c then a else b) (if c then a' else b')"
  by simp

definition visiting :: "handle \<Rightarrow> 'a exporting \<Rightarrow> 'a exporting" where
  "visiting handle m =
     ebind (visit_handle handle) (\<lambda>_. ebind m (\<lambda>x. ebind (leave_object handle) (\<lambda>_. eret x)))"

lemma with_object_visiting:
  "with_object view handle part body =
     visiting handle (ebind (elift (view_object view handle)) (\<lambda>ob. ebind (elift (part ob)) body))"
  by (simp add: with_object_def enter_object_def visiting_def ebind_assoc)

lemma restored_visiting:
  assumes "handle \<notin> A \<Longrightarrow> restored (insert handle A) m m'"
  shows "restored A (visiting handle m) (visiting handle m')"
  unfolding restored_def
proof (intro allI impI)
  fix s :: export_state assume s: "ex_visiting s = A"
  show "visiting handle m' s = visiting handle m s \<and> honest (fst (visiting handle m s)) \<and>
      (\<forall>x. fst (visiting handle m s) = Inr x \<longrightarrow> ex_visiting (snd (visiting handle m s)) = A)"
  proof (cases "handle \<in> A")
    case True
    with s show ?thesis
      by (simp add: visiting_def visit_handle_def ebind_def eget_def efail_def cycle_error_def)
  next
    case False
    let ?s = "s\<lparr> ex_visiting := insert handle A \<rparr>"
    have enter: "visiting handle c s =
        ebind c (\<lambda>x. ebind (leave_object handle) (\<lambda>_. eret x)) ?s" for c :: "'a exporting"
      using False s
      by (simp add: visiting_def visit_handle_def ebind_def eget_def emodify_def)
    obtain q t where q: "m ?s = (q, t)" by fastforce
    have vis: "ex_visiting ?s = insert handle A" by simp
    from restoredD(1,2)[OF assms[OF False] vis] q
    have m': "m' ?s = (q, t)" and honest: "honest q" by simp_all
    show ?thesis
    proof (cases q)
      case (Inl e)
      with honest show ?thesis by (simp add: enter ebind_def q m' honest_def)
    next
      case (Inr x)
      with q have "m ?s = (Inr x, t)" by simp
      from restoredD(3)[OF assms[OF False] vis this] have "ex_visiting t = insert handle A" .
      with False Inr show ?thesis
        by (simp add: enter ebind_def q m' leave_object_def emodify_def eret_def)
    qed
  qed
qed

lemma view_handles_less:
  assumes "view_object view handle = Inr ob" "handle \<notin> A" "card (view_handles view - A) < Suc n"
  shows "card (view_handles view - insert handle A) < n"
proof -
  have "handle \<in> view_handles view - A" using assms by (auto simp: view_handles_def)
  then have "card (view_handles view - insert handle A) < card (view_handles view - A)"
    using view_handles_card(1) by (intro psubset_card_mono) auto
  with assms(3) show ?thesis by simp
qed

lemma honest_collect: "(\<And>x. honest (f x)) \<Longrightarrow> honest (collect_results f xs)"
  by (induction xs) auto

lemma honest_export [simp]:
  "honest (view_up_link view handle)" "honest (is_type_metadata_root view v)"
  "honest (atom_of_val x)" "honest (prototype_function p)"
  "honest (collect_results (view_text view) is)"
  by (auto simp: view_up_link_def is_type_metadata_root_def view_dict_get_text_def
      view_dict_parts_def atom_of_val_def prototype_function_def
      split: object.splits runtime_value.splits option.splits val.splits prototype.splits
      intro!: honest_collect)

lemma restored_with_object:
  assumes "\<And>ob. honest (part ob)"
    and "\<And>ob p. view_object view handle = Inr ob \<Longrightarrow> handle \<notin> A \<Longrightarrow>
      restored (insert handle A) (body p) (body' p)"
  shows "restored A (with_object view handle part body) (with_object view handle part body')"
  unfolding with_object_visiting
  by (intro restored_visiting restored_lift_bind) (simp_all add: assms)

lemma up_link_visiting:
  "ebind (visit_handle handle) (\<lambda>_. ebind m (\<lambda>v. ebind (leave_object handle) (\<lambda>_. eret v))) =
   visiting handle m"
  by (simp add: visiting_def)

lemmas restored_intros = restored_pure restored_lift restored_collect restored_prod restored_if
  restored_bind

lemma export_restored:
  "card (view_handles view - A) < n \<Longrightarrow> card (view_handles view - A) < n' \<Longrightarrow>
   restored A (export_value_with view projection n v) (export_value_with view projection n' v) \<and>
   restored A (export_prototype view projection n p) (export_prototype view projection n' p)"
proof (induction n arbitrary: n' v p A)
  case (Suc n)
  then obtain k where n': "n' = Suc k" by (cases n') auto
  have deeper:
    "restored (insert h A) (export_value_with view projection n u) (export_value_with view projection k u)"
    "restored (insert h A) (export_prototype view projection n q) (export_prototype view projection k q)"
    if "view_object view h = Inr ob" "h \<notin> A" for h ob u q
    using Suc.IH view_handles_less[OF that] Suc.prems n' by blast+
  have link: "\<exists>ob. view_object view h = Inr ob" if "view_up_link view h = Inr x" for h x
    using that by (auto simp: view_up_link_def result_simps)
  have "restored A (export_value_with view projection (Suc n) v)
      (export_value_with view projection (Suc k) v)"
  proof (cases v)
    case (RUpLink h)
    have "restored A (visiting h (export_value_with view projection n (rv_value w)))
        (visiting h (export_value_with view projection k (rv_value w)))"
      if "view_up_link view h = Inr x" for w x
      using link[OF that] by (auto intro: restored_visiting deeper)
    then show ?thesis
      unfolding RUpLink export_value_with.simps up_link_visiting
      by (intro restored_lift_bind restored_if restored_pure)
         (auto simp: result_simps fuel_error_def)
  qed (simp_all, (intro restored_intros restored_with_object; auto simp: deeper)+)
  moreover have "restored A (export_prototype view projection (Suc n) p)
      (export_prototype view projection (Suc k) p)"
    by (cases p) (simp_all, (intro restored_intros restored_with_object; auto simp: deeper)+)
  ultimately show ?case using n' by simp
qed simp

section \<open>Properties\<close>

text \<open>
  C8. Equality of two values ends on every object graph, cyclic ones included: any recursion
  depth above the number of pairs of objects of the view gives the answer of \<open>values_equal\<close>, which
  is a truth value or an error of the heap, never the error of a depth that was too small.
\<close>

theorem values_equal_ends:
  assumes "view_size view * view_size view < n"
  shows "fst (values_equal_with view n (rv_value l) (rv_value r) {}) = values_equal view l r \<and>
    values_equal view l r \<noteq> Inl fuel_error"
proof -
  let ?k = "view_size view * view_size view + 1"
  have small: "card (view_pairs view - {}) < n" "card (view_pairs view - {}) < ?k"
    using view_pairs_card(2)[of view] assms by simp_all
  from values_equal_settled[OF small(2,1), of "rv_value l" "rv_value r"] show ?thesis
    by (simp add: settled_def values_equal_def honest_def)
qed

text \<open>Two arrays that contain themselves.\<close>

definition knot :: heap_view where
  "knot = \<lparr> hv_current = heap_work\<lparr> heap_objects :=
      [OArray [rich_unknown (RArray (Handle Work 1))],
       OArray [rich_unknown (RArray (Handle Work 0))]] \<rparr>, hv_background = None \<rparr>"

theorem values_equal_ends_witness:
  "fst (values_equal_with knot 50 (RArray (Handle Work 0)) (RArray (Handle Work 1)) {}) =
     values_equal knot (rich_unknown (RArray (Handle Work 0))) (rich_unknown (RArray (Handle Work 1)))"
  using values_equal_ends[of knot 50 "rich_unknown (RArray (Handle Work 0))"
      "rich_unknown (RArray (Handle Work 1))"]
  by (simp add: knot_def view_size_def rich_unknown_def rich_new_def)

text \<open>
  C9. Export ends on every object graph: any recursion depth above the number of objects of the
  view gives the answer of \<open>export_value\<close>, with or without a projection of up-links, and that answer
  is never the error of a depth that was too small. A graph with a cycle is an error of its own.
\<close>

theorem export_ends:
  assumes "view_size view < n"
  shows "fst (export_value_with view None n (rv_value v) (export_start a)) = export_value view a v \<and>
    fst (export_value_with view (Some x) n (rv_value v) (export_start a)) =
      export_value_projecting_up_links view a v x \<and>
    export_value view a v \<noteq> Inl fuel_error \<and>
    export_value_projecting_up_links view a v x \<noteq> Inl fuel_error"
proof -
  let ?k = "view_size view + 1"
  have small: "card (view_handles view - {}) < n" "card (view_handles view - {}) < ?k"
    using view_handles_card(2)[of view] assms by simp_all
  from export_restored[OF small(2,1)]
  have "restored {} (export_value_with view pj ?k (rv_value v)) (export_value_with view pj n (rv_value v))"
    for pj by blast
  then show ?thesis
    by (simp add: restored_def export_value_def export_value_projecting_up_links_def honest_def
        export_start_def)
qed

theorem export_ends_witness:
  "export_value knot 0 (rich_unknown (RArray (Handle Work 0))) \<noteq> Inl fuel_error \<and>
   fst (export_value_with knot None 10 (RArray (Handle Work 0)) (export_start 0)) = Inl cycle_error"
proof -
  have "export_value knot 0 (rich_unknown (RArray (Handle Work 0))) \<noteq> Inl fuel_error"
    using export_ends[of knot 10 "rich_unknown (RArray (Handle Work 0))" 0]
    by (simp add: knot_def view_size_def)
  moreover have "fst (export_value_with knot None 10 (RArray (Handle Work 0)) (export_start 0)) =
      Inl cycle_error"
    by (simp add: knot_def eval_nat_numeral with_object_def enter_object_def visit_handle_def
        export_start_def eff_eval view_eval heap_eval array_part_def rich_unknown_def rich_new_def)
  ultimately show ?thesis ..
qed

end
