(* ===== verification/Import_Export.thy ===== *)
theory Import_Export
  imports Graph_Walks Machine_Steps
begin

text \<open>
  Values cross the boundary of the heap and come back: importing a value without bytecode
  succeeds, and exporting the result gives the value again, whatever else is in the heaps and
  wherever the texts of the value were interned. \<open>denotes\<close> relates a value to its image in a view;
  it survives everything a run does to the heap. The shared interning is covered by the laws of
  the interning tables (locale \<open>interner\<close>).
\<close>

section \<open>The image of a value\<close>






section \<open>The image survives\<close>









section \<open>Export of the image\<close>













section \<open>Import\<close>

text \<open>
  The heaps an import works on: the tables agree with their indices and a background is the Main
  heap behind a Work heap. \<open>room\<close> says that every slot so far fits \<open>u32\<close>.
\<close>

definition tables_ok :: "heap option \<Rightarrow> heap \<Rightarrow> bool" where
  "tables_ok bg h \<longleftrightarrow> text_ok (heap_text h) \<and> shapes_ok h \<and>
     (case bg of None \<Rightarrow> True
      | Some b \<Rightarrow> heap_storage b = Main \<and> heap_storage h = Work \<and> text_ok (heap_text b))"

definition room :: "heap \<Rightarrow> bool" where
  "room h \<longleftrightarrow> length (heap_objects h) \<le> 2 ^ 32 \<and> length (tt_values (heap_text h)) \<le> 2 ^ 32 \<and>
     length (heap_shapes h) \<le> 2 ^ 32"


definition on_view :: "heap option \<Rightarrow> heap \<Rightarrow> heap_view" where
  "on_view bg h = \<lparr> hv_current = h, hv_background = bg \<rparr>"










lemma tables_ok_fields:
  "tables_ok bg (h\<lparr> heap_objects := xs \<rparr>) = tables_ok bg h"
  "text_ok t \<Longrightarrow> tables_ok bg h \<Longrightarrow> tables_ok bg (h\<lparr> heap_text := t \<rparr>)"
  by (simp_all add: tables_ok_def shapes_ok_def split: option.splits)

lemma intern_tables:
  assumes "room (snd (intern t h))" and "tables_ok bg h"
  shows "tables_ok bg (snd (intern t h))"
    and "view_text (on_view bg (snd (intern t h))) (fst (intern t h)) = Inr t"
proof -
  let ?T = "heap_text h"
  have ok: "text_ok ?T" using assms(2) by (simp add: tables_ok_def)
  have "text_ok (snd (text_insert t ?T)) \<and>
      text_resolve (snd (text_insert t ?T)) (fst (text_insert t ?T)) = Some t"
  proof (cases "text_find ?T t")
    case None
    with assms(1) have "text_room ?T"
      by (simp add: room_def intern_def text_insert_None text_room_def)
    with ok show ?thesis by (simp add: texts.put_ok texts.put_look)
  next
    case (Some i)
    with ok show ?thesis by (simp add: texts.put_found texts.search_look)
  qed
  then show "tables_ok bg (snd (intern t h))"
    and "view_text (on_view bg (snd (intern t h))) (fst (intern t h)) = Inr t"
    using assms(2) by (simp_all add: intern_def case_prod_unfold Let_def tables_ok_fields view_text_def
        on_view_def view_heap_def resolve_text_def)
qed

lemma background_text:
  assumes "tables_ok bg h" and "background_find bg t = Some i"
  shows "view_text (on_view bg h) i = Inr t"
  using assms by (auto simp: background_find_def find_text_def tables_ok_def view_text_def
      on_view_def view_heap_def resolve_text_def texts.search_look[symmetric] bind_eq_Some_conv
      split: option.splits)

















section \<open>Property\<close>



text \<open>
  C13. Interning is canonical: interning a text again gives the same id and leaves the heap as it is,
  and no other id of the storage the id lives in names that text, in the Work heap and in the Main
  heap behind it.
\<close>

theorem intern_canonical:
  assumes "tables_ok bg h" and "room (snd (intern_with bg t h))" and "intern_with bg t h = (i, h')"
  shows "intern_with bg t h' = (i, h') \<and> view_text (on_view bg h') i = Inr t \<and>
    (\<forall>j. view_text (on_view bg h') j = Inr t \<longrightarrow> iid_storage j = iid_storage i \<longrightarrow> j = i)"
proof (cases "background_find bg t")
  case (Some k)
  then obtain b where b: "bg = Some b" "text_find (heap_text b) t = Some (iid_slot k)"
    "heap_storage b = Main" "heap_storage h = Work" "text_ok (heap_text b)" "iid_storage k = Main"
    using assms(1) by (auto simp: background_find_def find_text_def tables_ok_def bind_eq_Some_conv
        split: option.splits)
  then have slot: "text_resolve (heap_text b) j = Some t \<longleftrightarrow> j = iid_slot k" for j
    using texts.search_look[of "heap_text b" t j] by auto
  from assms(3) Some have "i = k" "h' = h" by (simp_all add: intern_with_def)
  with Some b slot background_text[OF assms(1) Some] show ?thesis
    by (auto simp: intern_with_def view_text_def on_view_def view_heap_def resolve_text_def
        intro: intern_id.expand)
next
  case None
  with assms(3) have run: "intern t h = (i, h')" by (simp add: intern_with_def)
  have ok: "tables_ok bg h'" "view_text (on_view bg h') i = Inr t"
    using intern_tables[OF _ assms(1), of t] assms(2,3) None run by (simp_all add: intern_with_def)
  have own: "iid_storage i = heap_storage h'"
    using run by (auto simp: intern_def split: prod.splits)
  with ok have found: "text_find (heap_text h') t = Some (iid_slot i)"
    by (simp add: view_text_def on_view_def view_heap_def resolve_text_def tables_ok_def
        texts.search_look[symmetric])
  then have "intern t h' = (i, h')"
    using own by (cases i) (simp add: intern_def text_insert_Some)
  moreover have "j = i" if "view_text (on_view bg h') j = Inr t" "iid_storage j = iid_storage i" for j
    using that own ok(1) found
    by (intro intern_id.expand)
       (simp add: view_text_def on_view_def view_heap_def resolve_text_def tables_ok_def
         texts.search_look[symmetric])
  ultimately show ?thesis using ok(2) None by (simp add: intern_with_def)
qed

theorem intern_canonical_witness:
  "intern_with (Some heap_main) ''a'' (snd (intern_with (Some heap_main) ''a'' heap_work)) =
     intern_with (Some heap_main) ''a'' heap_work"
proof -
  let ?r = "intern_with (Some heap_main) ''a'' heap_work"
  have "tables_ok (Some heap_main) heap_work"
    by (simp add: tables_ok_def heap_main_def heap_work_def heap_new_def text_ok_def shapes_ok_def
        text_table_default_def)
  moreover have "room (snd ?r)"
    by (simp add: intern_with_def background_find_def find_text_def text_find_def intern_def
        text_insert_def Let_def heap_main_def heap_work_def heap_new_def text_table_default_def room_def)
  ultimately show ?thesis using intern_canonical[of "Some heap_main" heap_work "''a''" "fst ?r" "snd ?r"]
    by simp
qed

end
