(* ===== verification/Types.thy ===== *)
theory Types
  imports Heap "HOL-Library.Product_Lexorder"
begin

text \<open>
  Type descriptors (\<open>TypeDescriptor\<close> of \<open>crates/telora-core/src/types.rs\<close>), the structural
  functions on them, the join of branch types and assignability. A \<open>BTreeMap\<close> is the list of its
  entries in the order of the keys, strictly ascending. The type
  is parameterised by what it knows of a nominal type, so that \<open>map_descr nt_id\<close> gives the data that
  the derived \<open>PartialEq\<close> compares: \<open>NativeType\<close> compares its id only.
\<close>

section \<open>Descriptors\<close>

datatype (plugins only: code size) 'n descr =
    TBound u32
  | TInference u32
  | TAny
  | TNever
  | TType
  | TDyn
  | TTypeOf "'n descr"
  | TInt
  | TFloat
  | TString
  | TBytes
  | TOpaque 'n
  | TAtom atom
  | TArray "'n descr"
  | TDict "'n descr"
  | TTagged atom "'n descr"
  | TTuple "'n descr list"
  | TStruct "(string \<times> 'n descr) list"
  | TEnum "(string \<times> 'n descr option) list"
  | TUnion "'n descr list"
  | TFunction "'n descr list" "'n descr"

type_synonym type_descriptor = "native_type descr"

definition type_eq :: "type_descriptor \<Rightarrow> type_descriptor \<Rightarrow> bool" where
  "type_eq a b \<longleftrightarrow> map_descr nt_id a = map_descr nt_id b"

record type_parameter =
  tp_id :: u32
  tp_name :: string
  tp_location :: loc

record scheme =
  sc_parameters :: "type_parameter list"
  sc_body :: type_descriptor

text \<open>Recursion through the entries of a map.\<close>

lemma size_field [termination_simp]:
  "(k, t) \<in> set fs \<Longrightarrow> f t < Suc (size_list (\<lambda>x. Suc (f (snd x))) fs)"
  by (induction fs) auto

lemma size_variant [termination_simp]:
  "(k, Some t) \<in> set vs \<Longrightarrow> f t < Suc (size_list (\<lambda>x. Suc (size_option f (snd x))) vs)"
  by (induction vs) auto

section \<open>Printing\<close>

fun join_with :: "string \<Rightarrow> string list \<Rightarrow> string" where
  "join_with sep [] = []"
| "join_with sep [s] = s"
| "join_with sep (s # ss) = s @ sep @ join_with sep ss"

fun display_with :: "(u32 \<Rightarrow> string) \<Rightarrow> type_descriptor \<Rightarrow> string" where
  "display_with bound (TBound p) = bound p"
| "display_with bound (TInference v) = ''?'' @ show_nat (unat v)"
| "display_with bound TAny = ''Any''"
| "display_with bound TNever = ''Never''"
| "display_with bound TType = ''Type''"
| "display_with bound TDyn = ''Dyn''"
| "display_with bound (TTypeOf t) = ''TypeOf('' @ display_with bound t @ '')''"
| "display_with bound TInt = ''Int''"
| "display_with bound TFloat = ''Float''"
| "display_with bound TString = ''String''"
| "display_with bound TBytes = ''Bytes''"
| "display_with bound (TOpaque n) = ''opaque('' @ nt_qualified_name n @ '')''"
| "display_with bound (TAtom a) = CHR 0x27 # atom_name a"
| "display_with bound (TArray t) = ''Array<'' @ display_with bound t @ ''>''"
| "display_with bound (TDict t) = ''Dict<'' @ display_with bound t @ ''>''"
| "display_with bound (TTagged a t) =
     CHR 0x27 # atom_name a @ ''('' @ display_with bound t @ '')''"
| "display_with bound (TTuple ts) =
     ''('' @ join_with '', '' (map (display_with bound) ts) @ '')''"
| "display_with bound (TStruct fs) =
     ''{'' @ join_with '', '' (map (\<lambda>(k, t). k @ '': '' @ display_with bound t) fs) @ ''}''"
| "display_with bound (TEnum vs) =
     ''enum {'' @ join_with '', '' (map (\<lambda>(k, p). case p of
        None \<Rightarrow> k | Some t \<Rightarrow> k @ ''('' @ display_with bound t @ '')'') vs) @ ''}''"
| "display_with bound (TUnion ts) = join_with '' | '' (map (display_with bound) ts)"
| "display_with bound (TFunction ps r) =
     ''Fn('' @ join_with '', '' (map (display_with bound) ps) @ '') -> '' @ display_with bound r"

text \<open>A parameter without a name is printed as its number.\<close>

definition parameter_number :: "u32 \<Rightarrow> string" where
  "parameter_number p = ''T'' @ show_nat (unat p)"

definition display_name :: "type_descriptor \<Rightarrow> string" where
  "display_name = display_with parameter_number"

definition display_scheme_descriptor :: "(u32 \<rightharpoonup> string) \<Rightarrow> type_descriptor \<Rightarrow> string" where
  "display_scheme_descriptor names =
     display_with (\<lambda>p. case names p of Some name \<Rightarrow> name | None \<Rightarrow> parameter_number p)"

definition scheme_display_name :: "scheme \<Rightarrow> string" where
  "scheme_display_name s =
     (let names = map_of (rev (map (\<lambda>p. (tp_id p, tp_name p)) (sc_parameters s)));
          body = display_scheme_descriptor names (sc_body s)
      in if sc_parameters s = [] then body
         else ''for('' @ join_with '', '' (map tp_name (sc_parameters s)) @ '') '' @ body)"

text \<open>
  The derived \<open>Debug\<close> form, which only breaks ties between types that are displayed alike. How a
  string is quoted is the parameter \<open>quote\<close>.
\<close>

fun debug_atom :: "(string \<Rightarrow> string) \<Rightarrow> atom \<Rightarrow> string" where
  "debug_atom quote (Atom_Builtin b) = ''Builtin('' @ builtin_atom_name b @ '')''"
| "debug_atom quote (Atom_Named name) = ''Named('' @ quote name @ '')''"

definition debug_native_type :: "(string \<Rightarrow> string) \<Rightarrow> native_type \<Rightarrow> string" where
  "debug_native_type quote n =
     ''NativeType { id: NativeTypeId { module: NativeModuleId('' @
     show_nat (unat (nti_module (nt_id n))) @ ''), local: '' @
     show_nat (unat (nti_local (nt_id n))) @ '' }, qualified_name: '' @
     quote (nt_qualified_name n) @ '' }''"

fun debug_descriptor :: "(string \<Rightarrow> string) \<Rightarrow> type_descriptor \<Rightarrow> string" where
  "debug_descriptor q (TBound p) = ''Bound(TypeParameterId('' @ show_nat (unat p) @ ''))''"
| "debug_descriptor q (TInference v) =
     ''Inference(InferenceVariableId('' @ show_nat (unat v) @ ''))''"
| "debug_descriptor q TAny = ''Any''"
| "debug_descriptor q TNever = ''Never''"
| "debug_descriptor q TType = ''Type''"
| "debug_descriptor q TDyn = ''Dyn''"
| "debug_descriptor q (TTypeOf t) = ''TypeOf('' @ debug_descriptor q t @ '')''"
| "debug_descriptor q TInt = ''Int''"
| "debug_descriptor q TFloat = ''Float''"
| "debug_descriptor q TString = ''String''"
| "debug_descriptor q TBytes = ''Bytes''"
| "debug_descriptor q (TOpaque n) = ''Opaque('' @ debug_native_type q n @ '')''"
| "debug_descriptor q (TAtom a) = ''Atom('' @ debug_atom q a @ '')''"
| "debug_descriptor q (TArray t) = ''Array('' @ debug_descriptor q t @ '')''"
| "debug_descriptor q (TDict t) = ''Dict('' @ debug_descriptor q t @ '')''"
| "debug_descriptor q (TTagged a t) =
     ''Tagged { tag: '' @ debug_atom q a @ '', payload: '' @ debug_descriptor q t @ '' }''"
| "debug_descriptor q (TTuple ts) =
     ''Tuple(['' @ join_with '', '' (map (debug_descriptor q) ts) @ ''])''"
| "debug_descriptor q (TStruct fs) =
     ''Struct({'' @ join_with '', '' (map (\<lambda>(k, t). q k @ '': '' @ debug_descriptor q t) fs) @ ''})''"
| "debug_descriptor q (TEnum vs) =
     ''Enum({'' @ join_with '', '' (map (\<lambda>(k, p). q k @ '': '' @ (case p of
        None \<Rightarrow> ''None'' | Some t \<Rightarrow> ''Some('' @ debug_descriptor q t @ '')'')) vs) @ ''})''"
| "debug_descriptor q (TUnion ts) =
     ''Union(['' @ join_with '', '' (map (debug_descriptor q) ts) @ ''])''"
| "debug_descriptor q (TFunction ps r) =
     ''Function { parameters: ['' @ join_with '', '' (map (debug_descriptor q) ps) @
     ''], result: '' @ debug_descriptor q r @ '' }''"

section \<open>Structural questions\<close>

text \<open>The payloads of the variants that have one.\<close>

definition payloads :: "(string \<times> 'a option) list \<Rightarrow> 'a list" where
  "payloads vs = concat (map (\<lambda>(_, p). case p of None \<Rightarrow> [] | Some t \<Rightarrow> [t]) vs)"

lemma payloads_simps [simp]:
  "payloads [] = []" "payloads ((k, None) # vs) = payloads vs"
  "payloads ((k, Some t) # vs) = t # payloads vs"
  by (simp_all add: payloads_def)

lemma set_payloads: "t \<in> set (payloads vs) \<longleftrightarrow> (\<exists>k. (k, Some t) \<in> set vs)"
  by (induction vs) (auto simp: payloads_def split: option.splits)

lemma size_payload [termination_simp]:
  "t \<in> set (payloads vs) \<Longrightarrow> f t < Suc (size_list (\<lambda>x. Suc (size_option f (snd x))) vs)"
  by (auto simp: set_payloads size_variant)

fun contains_type_variable :: "type_descriptor \<Rightarrow> bool" where
  "contains_type_variable (TInference _) = True"
| "contains_type_variable (TBound _) = False"
| "contains_type_variable (TArray t) = contains_type_variable t"
| "contains_type_variable (TDict t) = contains_type_variable t"
| "contains_type_variable (TTypeOf t) = contains_type_variable t"
| "contains_type_variable (TTagged _ t) = contains_type_variable t"
| "contains_type_variable (TTuple ts) = list_ex contains_type_variable ts"
| "contains_type_variable (TUnion ts) = list_ex contains_type_variable ts"
| "contains_type_variable (TStruct fs) = list_ex (\<lambda>(_, t). contains_type_variable t) fs"
| "contains_type_variable (TEnum vs) = list_ex contains_type_variable (payloads vs)"
| "contains_type_variable (TFunction ps r) =
     (list_ex contains_type_variable ps \<or> contains_type_variable r)"
| "contains_type_variable _ = False"

fun contains_bound_parameters :: "type_descriptor \<Rightarrow> bool" where
  "contains_bound_parameters (TBound _) = True"
| "contains_bound_parameters (TArray t) = contains_bound_parameters t"
| "contains_bound_parameters (TDict t) = contains_bound_parameters t"
| "contains_bound_parameters (TTypeOf t) = contains_bound_parameters t"
| "contains_bound_parameters (TTagged _ t) = contains_bound_parameters t"
| "contains_bound_parameters (TTuple ts) = list_ex contains_bound_parameters ts"
| "contains_bound_parameters (TUnion ts) = list_ex contains_bound_parameters ts"
| "contains_bound_parameters (TStruct fs) = list_ex (\<lambda>(_, t). contains_bound_parameters t) fs"
| "contains_bound_parameters (TEnum vs) = list_ex contains_bound_parameters (payloads vs)"
| "contains_bound_parameters (TFunction ps r) =
     (list_ex contains_bound_parameters ps \<or> contains_bound_parameters r)"
| "contains_bound_parameters _ = False"

fun contains_runtime_never_leaf :: "type_descriptor \<Rightarrow> bool" where
  "contains_runtime_never_leaf TNever = True"
| "contains_runtime_never_leaf (TArray t) = contains_runtime_never_leaf t"
| "contains_runtime_never_leaf (TDict t) = contains_runtime_never_leaf t"
| "contains_runtime_never_leaf (TTagged _ t) = contains_runtime_never_leaf t"
| "contains_runtime_never_leaf (TTuple ts) = list_ex contains_runtime_never_leaf ts"
| "contains_runtime_never_leaf (TStruct fs) = list_ex (\<lambda>(_, t). contains_runtime_never_leaf t) fs"
| "contains_runtime_never_leaf _ = False"

fun contains_metatype :: "type_descriptor \<Rightarrow> bool" where
  "contains_metatype TType = True"
| "contains_metatype (TTypeOf t) = contains_metatype t"
| "contains_metatype (TArray t) = contains_metatype t"
| "contains_metatype (TDict t) = contains_metatype t"
| "contains_metatype (TTagged _ t) = contains_metatype t"
| "contains_metatype (TTuple ts) = list_ex contains_metatype ts"
| "contains_metatype (TUnion ts) = list_ex contains_metatype ts"
| "contains_metatype (TStruct fs) = list_ex (\<lambda>(_, t). contains_metatype t) fs"
| "contains_metatype (TEnum vs) = list_ex contains_metatype (payloads vs)"
| "contains_metatype (TFunction ps r) = (list_ex contains_metatype ps \<or> contains_metatype r)"
| "contains_metatype _ = False"

text \<open>The variables (the bound parameters) of a type in the order of their first occurrence.\<close>

definition push_new :: "'a \<Rightarrow> 'a list \<Rightarrow> 'a list" where
  "push_new x xs = (if x \<in> set xs then xs else xs @ [x])"

fun collect_inference_variables :: "type_descriptor \<Rightarrow> u32 list \<Rightarrow> u32 list" where
  "collect_inference_variables (TInference v) acc = push_new v acc"
| "collect_inference_variables (TArray t) acc = collect_inference_variables t acc"
| "collect_inference_variables (TDict t) acc = collect_inference_variables t acc"
| "collect_inference_variables (TTypeOf t) acc = collect_inference_variables t acc"
| "collect_inference_variables (TTagged _ t) acc = collect_inference_variables t acc"
| "collect_inference_variables (TTuple ts) acc = fold collect_inference_variables ts acc"
| "collect_inference_variables (TUnion ts) acc = fold collect_inference_variables ts acc"
| "collect_inference_variables (TStruct fs) acc =
     fold (\<lambda>(_, t). collect_inference_variables t) fs acc"
| "collect_inference_variables (TEnum vs) acc =
     fold collect_inference_variables (payloads vs) acc"
| "collect_inference_variables (TFunction ps r) acc =
     collect_inference_variables r (fold collect_inference_variables ps acc)"
| "collect_inference_variables _ acc = acc"

fun collect_bound_parameters :: "type_descriptor \<Rightarrow> u32 list \<Rightarrow> u32 list" where
  "collect_bound_parameters (TBound p) acc = push_new p acc"
| "collect_bound_parameters (TArray t) acc = collect_bound_parameters t acc"
| "collect_bound_parameters (TDict t) acc = collect_bound_parameters t acc"
| "collect_bound_parameters (TTypeOf t) acc = collect_bound_parameters t acc"
| "collect_bound_parameters (TTagged _ t) acc = collect_bound_parameters t acc"
| "collect_bound_parameters (TTuple ts) acc = fold collect_bound_parameters ts acc"
| "collect_bound_parameters (TUnion ts) acc = fold collect_bound_parameters ts acc"
| "collect_bound_parameters (TStruct fs) acc = fold (\<lambda>(_, t). collect_bound_parameters t) fs acc"
| "collect_bound_parameters (TEnum vs) acc =
     fold collect_bound_parameters (payloads vs) acc"
| "collect_bound_parameters (TFunction ps r) acc =
     collect_bound_parameters r (fold collect_bound_parameters ps acc)"
| "collect_bound_parameters _ acc = acc"

section \<open>Structural maps\<close>

text \<open>
  The maps over descriptors of the code rebuild a node from its mapped children and treat a few
  constructors apart.
\<close>

fun children :: "'n descr \<Rightarrow> 'n descr list" where
  "children (TTypeOf t) = [t]"
| "children (TArray t) = [t]"
| "children (TDict t) = [t]"
| "children (TTagged _ t) = [t]"
| "children (TTuple ts) = ts"
| "children (TStruct fs) = map snd fs"
| "children (TEnum vs) = payloads vs"
| "children (TUnion ts) = ts"
| "children (TFunction ps r) = ps @ [r]"
| "children _ = []"

fun map_children :: "('n descr \<Rightarrow> 'n descr) \<Rightarrow> 'n descr \<Rightarrow> 'n descr" where
  "map_children f (TTypeOf t) = TTypeOf (f t)"
| "map_children f (TArray t) = TArray (f t)"
| "map_children f (TDict t) = TDict (f t)"
| "map_children f (TTagged a t) = TTagged a (f t)"
| "map_children f (TTuple ts) = TTuple (map f ts)"
| "map_children f (TStruct fs) = TStruct (map (\<lambda>(k, t). (k, f t)) fs)"
| "map_children f (TEnum vs) = TEnum (map (\<lambda>(k, p). (k, map_option f p)) vs)"
| "map_children f (TUnion ts) = TUnion (map f ts)"
| "map_children f (TFunction ps r) = TFunction (map f ps) (f r)"
| "map_children f t = t"

lemma size_children [termination_simp]: "x \<in> set (children t) \<Longrightarrow> size x < size t"
  by (cases t) (auto simp: less_Suc_eq_le size_list_estimation' termination_simp
      dest: size_payload[where f = size])

lemma map_children_cong [fundef_cong]:
  "t = u \<Longrightarrow> (\<And>x. x \<in> set (children u) \<Longrightarrow> f x = g x) \<Longrightarrow> map_children f t = map_children g u"
  by (cases u) (auto simp: set_payloads intro!: map_option_cong, force)

lemma payloads_map: "payloads (map (\<lambda>(k, p). (k, map_option f p)) vs) = map f (payloads vs)"
  by (induction vs) (auto simp: payloads_def split: option.splits)

lemma children_map_children: "children (map_children f t) = map f (children t)"
  by (cases t) (auto simp: payloads_map)

fun erase_type_variables :: "type_descriptor \<Rightarrow> type_descriptor" where
  "erase_type_variables t = (case t of
     TBound _ \<Rightarrow> TAny
   | TInference _ \<Rightarrow> TAny
   | _ \<Rightarrow> map_children erase_type_variables t)"

fun erase_type_witnesses :: "type_descriptor \<Rightarrow> type_descriptor" where
  "erase_type_witnesses t = (case t of
     TTypeOf _ \<Rightarrow> TType
   | _ \<Rightarrow> map_children erase_type_witnesses t)"

fun bind_inference_variables :: "(u32 \<rightharpoonup> u32) \<Rightarrow> type_descriptor \<Rightarrow> type_descriptor" where
  "bind_inference_variables replacements t = (case t of
     TInference v \<Rightarrow> (case replacements v of None \<Rightarrow> t | Some p \<Rightarrow> TBound p)
   | _ \<Rightarrow> map_children (bind_inference_variables replacements) t)"

declare erase_type_variables.simps [simp del] erase_type_witnesses.simps [simp del]
  bind_inference_variables.simps [simp del]

section \<open>Unions and joins\<close>

fun flatten_union :: "type_descriptor \<Rightarrow> type_descriptor list" where
  "flatten_union (TUnion ts) = concat (map flatten_union ts)"
| "flatten_union t = [t]"

text \<open>\<open>Vec::dedup\<close> drops an element that equals the one kept before it.\<close>

fun dedup_types :: "type_descriptor list \<Rightarrow> type_descriptor list" where
  "dedup_types (a # b # ts) =
     (if type_eq b a then dedup_types (a # ts) else a # dedup_types (b # ts))"
| "dedup_types ts = ts"

definition union_key :: "(string \<Rightarrow> string) \<Rightarrow> type_descriptor \<Rightarrow> string \<times> string" where
  "union_key quote t = (display_name t, debug_descriptor quote t)"

definition canonical_union :: "(string \<Rightarrow> string) \<Rightarrow> type_descriptor list \<Rightarrow> type_descriptor" where
  "canonical_union quote types =
     (let flattened = concat (map flatten_union types)
      in if TAny \<in> set flattened then TAny
         else
           let kept = (if list_ex (\<lambda>t. t \<noteq> TNever) flattened
                       then filter (\<lambda>t. t \<noteq> TNever) flattened else flattened);
               members = dedup_types (sort_key (union_key quote) kept)
           in case members of
                [] \<Rightarrow> TNever
              | [t] \<Rightarrow> t
              | _ \<Rightarrow> TUnion members)"

fun substitute_bound_parameters ::
    "(string \<Rightarrow> string) \<Rightarrow> (u32 \<rightharpoonup> type_descriptor) \<Rightarrow> type_descriptor \<Rightarrow> type_descriptor" where
  "substitute_bound_parameters quote replacements t = (case t of
     TBound p \<Rightarrow> (case replacements p of Some u \<Rightarrow> u | None \<Rightarrow> t)
   | TUnion ts \<Rightarrow> canonical_union quote (map (substitute_bound_parameters quote replacements) ts)
   | _ \<Rightarrow> map_children (substitute_bound_parameters quote replacements) t)"

declare substitute_bound_parameters.simps [simp del]

section \<open>Assignability\<close>

text \<open>\<open>atom_from_name\<close> names a builtin atom where there is one.\<close>

definition atom_from_name :: "string \<Rightarrow> atom" where
  "atom_from_name name =
     (if name = ''None'' then Atom_Builtin BA_None
      else if name = ''Some'' then Atom_Builtin BA_Some
      else if name = ''Ok'' then Atom_Builtin BA_Ok
      else if name = ''Err'' then Atom_Builtin BA_Err
      else if name = ''True'' then Atom_Builtin BA_True
      else if name = ''False'' then Atom_Builtin BA_False
      else Atom_Named name)"

definition enum_variant_type :: "string \<Rightarrow> type_descriptor option \<Rightarrow> type_descriptor" where
  "enum_variant_type name payload = (case payload of
     None \<Rightarrow> TAtom (atom_from_name name)
   | Some t \<Rightarrow> TTagged (atom_from_name name) t)"

definition enum_of :: "type_descriptor \<Rightarrow> (string \<times> type_descriptor option) list option" where
  "enum_of t = (case t of TEnum vs \<Rightarrow> Some vs | _ \<Rightarrow> None)"

definition union_of :: "type_descriptor \<Rightarrow> type_descriptor list option" where
  "union_of t = (case t of TUnion ts \<Rightarrow> Some ts | _ \<Rightarrow> None)"

text \<open>
  The arms of \<open>assignable\<close> that compare components: the pairs of components of two types of
  matching shape. Where there is none, the code compares the types for equality.
\<close>

definition matching_parts ::
    "type_descriptor \<Rightarrow> type_descriptor \<Rightarrow> (type_descriptor \<times> type_descriptor) list option" where
  "matching_parts a e = (case a of
     TTypeOf p \<Rightarrow> (case e of TType \<Rightarrow> Some [] | TTypeOf q \<Rightarrow> Some [(p, q)] | _ \<Rightarrow> None)
   | TArray p \<Rightarrow> (case e of TArray q \<Rightarrow> Some [(p, q)] | _ \<Rightarrow> None)
   | TDict p \<Rightarrow> (case e of TDict q \<Rightarrow> Some [(p, q)] | _ \<Rightarrow> None)
   | TTagged t p \<Rightarrow> (case e of
       TTagged u q \<Rightarrow> if t = u then Some [(p, q)] else None | _ \<Rightarrow> None)
   | TTuple ps \<Rightarrow> (case e of
       TTuple qs \<Rightarrow> if length ps = length qs then Some (zip ps qs) else None | _ \<Rightarrow> None)
   | TStruct fs \<Rightarrow> (case e of
       TDict q \<Rightarrow> Some (map (\<lambda>(_, p). (p, q)) fs)
     | TStruct gs \<Rightarrow>
         if length fs = length gs \<and> list_all (\<lambda>(name, _). map_of fs name \<noteq> None) gs then
           Some (map (\<lambda>(name, q). (the (map_of fs name), q)) gs)
         else None
     | _ \<Rightarrow> None)
   | TFunction ps r \<Rightarrow> (case e of
       TFunction qs s \<Rightarrow> if length ps = length qs then Some (zip ps qs @ [(r, s)]) else None
     | _ \<Rightarrow> None)
   | _ \<Rightarrow> None)"

text \<open>The other arms, in the order of the code: bottom and top, enums, unions.\<close>

function assignable :: "type_descriptor \<Rightarrow> type_descriptor \<Rightarrow> bool" where
  "assignable a e =
     (if a = TNever \<or> a = TAny \<or> e = TAny then True
      else case (enum_of a, enum_of e) of
        (Some us, Some vs) \<Rightarrow>
          length us = length vs \<and>
          list_all (\<lambda>(name, q). case map_of us name of
              None \<Rightarrow> False
            | Some None \<Rightarrow> q = None
            | Some (Some p) \<Rightarrow> (case q of None \<Rightarrow> False | Some q \<Rightarrow> assignable p q)) vs
      | (None, Some vs) \<Rightarrow> (case union_of a of
          Some us \<Rightarrow> list_all (\<lambda>u. assignable u e) us
        | None \<Rightarrow> list_ex (\<lambda>(name, q). assignable a (enum_variant_type name q)) vs)
      | (Some us, None) \<Rightarrow> list_all (\<lambda>(name, p). assignable (enum_variant_type name p) e) us
      | (None, None) \<Rightarrow> (case union_of e of
          Some vs \<Rightarrow> list_ex (\<lambda>v. assignable a v) vs
        | None \<Rightarrow> (case union_of a of
            Some us \<Rightarrow> list_all (\<lambda>u. assignable u e) us
          | None \<Rightarrow> (case matching_parts a e of
              Some parts \<Rightarrow> list_all (\<lambda>(p, q). assignable p q) parts
            | None \<Rightarrow> type_eq a e))))"
  by pat_completeness auto

lemma entry_size: "size_prod (\<lambda>_. 0) f = (\<lambda>x. Suc (f (snd x)))"
  by (simp add: fun_eq_iff split_paired_all)

lemma size_enum_variant: "(name, q) \<in> set vs \<Longrightarrow> size (enum_variant_type name q) < size (TEnum vs)"
  by (induction vs) (auto simp: enum_variant_type_def split: option.splits)

lemma size_entry: "map_of fs k = Some t \<Longrightarrow> size t < size (TStruct fs)"
  by (auto simp: entry_size dest!: map_of_SomeD size_field[where f = size])

lemma size_entry_payload: "map_of vs k = Some (Some t) \<Longrightarrow> size t < size (TEnum vs)"
  by (auto simp: entry_size dest!: map_of_SomeD size_variant[where f = size])

lemma size_member:
  "t \<in> set ts \<Longrightarrow> size t < size (TUnion ts)" "t \<in> set ts \<Longrightarrow> size t < size (TTuple ts)"
  "t \<in> set ts \<Longrightarrow> size t < size (TFunction ts r)" "(k, t) \<in> set fs \<Longrightarrow> size t < size (TStruct fs)"
  "(k, Some t) \<in> set vs \<Longrightarrow> size t < size (TEnum vs)"
  by (auto simp: less_Suc_eq_le size_list_estimation' trans_le_add1 intro: size_field size_variant
      dest: size_field[where f = size] size_variant[where f = size])

lemma of_SomeD: "enum_of t = Some vs \<Longrightarrow> t = TEnum vs" "union_of t = Some ts \<Longrightarrow> t = TUnion ts"
  by (simp_all add: enum_of_def union_of_def split: descr.splits)

lemma matching_parts_children:
  assumes "matching_parts a e = Some parts" and "(p, q) \<in> set parts"
  shows "p \<in> set (children a)" and "q \<in> set (children e)"
  using assms
  by (auto simp: matching_parts_def list_all_iff split: descr.splits if_splits elim!: in_set_zipE)
     (force dest: map_of_SomeD simp: rev_image_eqI)+

termination assignable
  by (relation "measure (\<lambda>(a, e). size a + size e)")
     (auto simp del: descr.size dest!: of_SomeD of_SomeD[OF sym]
       dest: size_enum_variant size_entry_payload size_member matching_parts_children size_children
       intro: add_strict_mono add_less_le_mono)

declare assignable.simps [simp del]

definition join_types ::
    "(string \<Rightarrow> string) \<Rightarrow> type_descriptor \<Rightarrow> type_descriptor \<Rightarrow> type_descriptor" where
  "join_types quote left right =
     (if type_eq left right then left
      else if left = TNever then right
      else if right = TNever then left
      else if left = TAny \<or> right = TAny then TAny
      else if assignable left TType \<and> assignable right TType then TType
      else case (assignable left right, assignable right left) of
        (True, False) \<Rightarrow> right
      | (False, True) \<Rightarrow> left
      | _ \<Rightarrow> canonical_union quote [left, right])"

definition common_type :: "type_descriptor list \<Rightarrow> type_descriptor option" where
  "common_type types = (case types of
     [] \<Rightarrow> None
   | first # _ \<Rightarrow>
       if list_all (\<lambda>item. type_eq item first) types then Some first
       else if list_all (\<lambda>item. assignable item TType) types then Some TType
       else None)"

section \<open>Shapes of the core library\<close>

definition option_descriptor :: "type_descriptor \<Rightarrow> type_descriptor" where
  "option_descriptor item = TEnum [(''None'', None), (''Some'', Some item)]"

definition option_parts :: "(string \<times> type_descriptor option) list \<Rightarrow> type_descriptor option" where
  "option_parts vs =
     (if length vs = 2 \<and> map_of vs ''None'' = Some None then Option.bind (map_of vs ''Some'') (\<lambda>p. p)
      else None)"

definition blame_error_descriptor :: type_descriptor where
  "blame_error_descriptor = TStruct [(''data'', TAny), (''message'', TString), (''rule'', TAny)]"

definition result_descriptor :: "type_descriptor \<Rightarrow> type_descriptor \<Rightarrow> type_descriptor" where
  "result_descriptor ok err = TEnum [(''Err'', Some err), (''Ok'', Some ok)]"

definition result_parts :: "type_descriptor \<Rightarrow> (type_descriptor \<times> type_descriptor) option" where
  "result_parts t = (case t of
     TEnum vs \<Rightarrow>
       if length vs \<noteq> 2 then None
       else (case (map_of vs ''Ok'', map_of vs ''Err'') of
           (Some (Some ok), Some (Some err)) \<Rightarrow> Some (ok, err)
         | _ \<Rightarrow> None)
   | _ \<Rightarrow> None)"

definition fold_control_descriptor :: "type_descriptor \<Rightarrow> type_descriptor \<Rightarrow> type_descriptor" where
  "fold_control_descriptor state result =
     TEnum [(''Break'', Some result), (''Continue'', Some state)]"

definition normalized_bool_descriptor :: type_descriptor where
  "normalized_bool_descriptor = TEnum [(''False'', None), (''True'', None)]"

definition normalized_severity_descriptor :: type_descriptor where
  "normalized_severity_descriptor = TEnum [(''Error'', None), (''Info'', None), (''Warn'', None)]"

section \<open>Schemes\<close>

definition inferred_type_parameter_name :: "nat \<Rightarrow> string" where
  "inferred_type_parameter_name index =
     (if index < 26 then [char_of (65 + index)] else ''T'' @ show_nat index)"

definition validate_publishable_scheme :: "scheme \<Rightarrow> string + unit" where
  "validate_publishable_scheme s =
     (if contains_type_variable (sc_body s) then
        Inl (''body contains unresolved '' @ display_name (sc_body s))
      else case find (\<lambda>p. p \<notin> tp_id ` set (sc_parameters s))
                  (collect_bound_parameters (sc_body s) []) of
          Some p \<Rightarrow> Inl (''body references unbound parameter T'' @ show_nat (unat p))
        | None \<Rightarrow> Inr ())"

text \<open>A loop that stops at the first \<open>None\<close>.\<close>

fun fold_option :: "('a \<Rightarrow> 's \<Rightarrow> 's option) \<Rightarrow> 'a list \<Rightarrow> 's \<Rightarrow> 's option" where
  "fold_option f [] s = Some s"
| "fold_option f (x # xs) s = Option.bind (f x s) (fold_option f xs)"

lemma fold_option_cong [fundef_cong]:
  "xs = ys \<Longrightarrow> s = t \<Longrightarrow> (\<And>x s. x \<in> set ys \<Longrightarrow> f x s = g x s) \<Longrightarrow>
   fold_option f xs s = fold_option g ys t"
  by (induction ys arbitrary: xs s t) (auto intro!: bind_option_cong)

text \<open>The pairs \<open>collect\<close> goes on with, \<open>None\<close> when the shapes differ.\<close>

definition collect_pairs ::
    "type_descriptor \<Rightarrow> type_descriptor \<Rightarrow> (type_descriptor \<times> type_descriptor) list option" where
  "collect_pairs a e = (case a of
     TArray p \<Rightarrow> (case e of TArray q \<Rightarrow> Some [(p, q)] | _ \<Rightarrow> Some [])
   | TDict p \<Rightarrow> (case e of TDict q \<Rightarrow> Some [(p, q)] | _ \<Rightarrow> Some [])
   | TTypeOf p \<Rightarrow> (case e of TTypeOf q \<Rightarrow> Some [(p, q)] | _ \<Rightarrow> Some [])
   | TTagged t p \<Rightarrow> (case e of
       TTagged u q \<Rightarrow> if t = u then Some [(p, q)] else None | _ \<Rightarrow> Some [])
   | TTuple ps \<Rightarrow> (case e of
       TTuple qs \<Rightarrow> if length ps = length qs then Some (zip ps qs) else None | _ \<Rightarrow> Some [])
   | TStruct fs \<Rightarrow> (case e of
       TStruct gs \<Rightarrow>
         if length fs = length gs \<and> list_all (\<lambda>(name, _). map_of fs name \<noteq> None) gs then
           Some (map (\<lambda>(name, q). (the (map_of fs name), q)) gs)
         else None
     | _ \<Rightarrow> Some [])
   | TEnum us \<Rightarrow> (case e of
       TEnum vs \<Rightarrow>
         if length us = length vs \<and>
            list_all (\<lambda>(name, q). case map_of us name of
                None \<Rightarrow> False | Some p \<Rightarrow> (p = None) = (q = None)) vs then
           Some (concat (map (\<lambda>(name, q). case (map_of us name, q) of
               (Some (Some p), Some q) \<Rightarrow> [(p, q)] | _ \<Rightarrow> []) vs))
         else None
     | _ \<Rightarrow> Some [])
   | TFunction ps r \<Rightarrow> (case e of
       TFunction qs s \<Rightarrow> if length ps = length qs then Some (zip ps qs @ [(r, s)]) else None
     | _ \<Rightarrow> Some [])
   | _ \<Rightarrow> Some [])"

definition bound_of :: "type_descriptor \<Rightarrow> u32 option" where
  "bound_of t = (case t of TBound p \<Rightarrow> Some p | _ \<Rightarrow> None)"

function collect_replacements ::
    "type_descriptor \<times> type_descriptor \<Rightarrow> (u32 \<rightharpoonup> type_descriptor) \<Rightarrow> (u32 \<rightharpoonup> type_descriptor) option" where
  "collect_replacements (a, e) r =
     (case bound_of a of
        Some p \<Rightarrow> (case r p of
            Some existing \<Rightarrow> if assignable existing e \<and> assignable e existing then Some r else None
          | None \<Rightarrow> Some (r(p \<mapsto> e)))
      | None \<Rightarrow> (case collect_pairs a e of
            None \<Rightarrow> None
          | Some pairs \<Rightarrow> fold_option collect_replacements pairs r))"
  by pat_completeness auto

lemma collect_pairs_children:
  assumes "collect_pairs a e = Some pairs" and "(p, q) \<in> set pairs"
  shows "p \<in> set (children a)"
  using assms
  by (auto simp: collect_pairs_def list_all_iff set_payloads
      split: descr.splits if_splits option.splits elim!: in_set_zipE)
     (force dest: map_of_SomeD simp: rev_image_eqI)+

termination collect_replacements
  by (relation "measure (\<lambda>((a, e), r). size a)") (auto dest: collect_pairs_children size_children)

definition scheme_assignable :: "(string \<Rightarrow> string) \<Rightarrow> scheme \<Rightarrow> type_descriptor \<Rightarrow> bool" where
  "scheme_assignable quote s expected =
     (case collect_replacements (sc_body s, expected) Map.empty of
        None \<Rightarrow> False
      | Some replacements \<Rightarrow>
          let instantiated = substitute_bound_parameters quote replacements (sc_body s)
          in \<not> contains_bound_parameters instantiated \<and> assignable instantiated expected)"

section \<open>Where two types differ\<close>

fun find_map :: "('a \<Rightarrow> 'b option) \<Rightarrow> 'a list \<Rightarrow> 'b option" where
  "find_map f [] = None"
| "find_map f (x # xs) = (case f x of Some y \<Rightarrow> Some y | None \<Rightarrow> find_map f xs)"

lemma find_map_cong [fundef_cong]:
  "xs = ys \<Longrightarrow> (\<And>x. x \<in> set ys \<Longrightarrow> f x = g x) \<Longrightarrow> find_map f xs = find_map g ys"
  by (induction ys arbitrary: xs) (auto split: option.splits)

text \<open>A key of \<open>actual\<close> that \<open>expected\<close> does not have.\<close>

definition extra_key :: "(string \<times> 'a) list \<Rightarrow> (string \<times> 'b) list \<Rightarrow> value_path option" where
  "extra_key actual expected =
     map_option (\<lambda>(name, _). [Seg_Key name])
       (find (\<lambda>(name, _). map_of expected name = None) actual)"

text \<open>The path to the first place where the types differ, \<open>None\<close> when they agree.\<close>

function incompatibility_path :: "type_descriptor \<Rightarrow> type_descriptor \<Rightarrow> value_path option" where
  "incompatibility_path a e =
     (let otherwise = (if assignable a e then None else Some []) in
      if a = TAny \<or> e = TAny then None
      else case a of
        TStruct fs \<Rightarrow> (case e of
            TStruct gs \<Rightarrow>
              (case find_map (\<lambda>(name, q). map_option (\<lambda>path. Seg_Key name # path)
                  (case map_of fs name of None \<Rightarrow> Some [] | Some p \<Rightarrow> incompatibility_path p q)) gs of
                 Some path \<Rightarrow> Some path
               | None \<Rightarrow> extra_key fs gs)
          | TDict q \<Rightarrow>
              find_map (\<lambda>(name, p). map_option (\<lambda>path. Seg_Key name # path)
                (incompatibility_path p q)) fs
          | _ \<Rightarrow> otherwise)
      | TEnum us \<Rightarrow> (case e of
            TEnum vs \<Rightarrow>
              (case find_map (\<lambda>(name, q). map_option (\<lambda>path. Seg_Key name # path)
                  (case map_of us name of
                     None \<Rightarrow> Some []
                   | Some None \<Rightarrow> if q = None then None else Some []
                   | Some (Some p) \<Rightarrow>
                       (case q of None \<Rightarrow> Some [] | Some q \<Rightarrow> incompatibility_path p q))) vs of
                 Some path \<Rightarrow> Some path
               | None \<Rightarrow> extra_key us vs)
          | _ \<Rightarrow> otherwise)
      | TTuple ps \<Rightarrow> (case e of
            TTuple qs \<Rightarrow>
              if length ps \<noteq> length qs then Some []
              else find_map (\<lambda>(index, p, q). map_option (\<lambda>path. Seg_Index index # path)
                (incompatibility_path p q)) (enumerate 0 (zip ps qs))
          | _ \<Rightarrow> otherwise)
      | TArray p \<Rightarrow> (case e of TArray q \<Rightarrow> incompatibility_path p q | _ \<Rightarrow> otherwise)
      | TDict p \<Rightarrow> (case e of TDict q \<Rightarrow> incompatibility_path p q | _ \<Rightarrow> otherwise)
      | TTagged t p \<Rightarrow> (case e of
            TTagged u q \<Rightarrow> if t \<noteq> u then Some [] else incompatibility_path p q | _ \<Rightarrow> otherwise)
      | _ \<Rightarrow> otherwise)"
  by pat_completeness auto

termination incompatibility_path
  by (relation "measure (\<lambda>(a, e). size a)")
     (auto simp del: descr.size simp: enumerate_eq_zip elim!: in_set_zipE
       dest: size_entry size_entry_payload size_member intro: size_children)

declare collect_replacements.simps [simp del] incompatibility_path.simps [simp del]

end
