(* ===== verification/Assignability.thy ===== *)
theory Assignability
  imports Types "HOL-Library.Multiset"
begin

text \<open>
  What the relation between types promises. The canonical union of a list of types depends on its
  members only, whatever their order and nesting; the join of two types is symmetric and, for types
  without unions, an upper bound; assignability is reflexive on those types; and a path to a
  difference is reported exactly when there is one.
\<close>

section \<open>Well-formed types\<close>

lemma children_induct [case_names node]:
  assumes "\<And>t. (\<And>x. x \<in> set (children t) \<Longrightarrow> P x) \<Longrightarrow> P t"
  shows "P t"
  by (induction t rule: measure_induct_rule[of size]) (blast intro: assms size_children)

text \<open>The keys of every map in a type are distinct.\<close>

definition own_keys_ok :: "type_descriptor \<Rightarrow> bool" where
  "own_keys_ok t \<longleftrightarrow> (case t of
     TStruct fs \<Rightarrow> distinct (map fst fs) | TEnum vs \<Rightarrow> distinct (map fst vs) | _ \<Rightarrow> True)"

fun keys_ok :: "type_descriptor \<Rightarrow> bool" where
  "keys_ok t \<longleftrightarrow> own_keys_ok t \<and> list_all keys_ok (children t)"

fun union_free :: "type_descriptor \<Rightarrow> bool" where
  "union_free t \<longleftrightarrow> union_of t = None \<and> list_all union_free (children t)"

declare keys_ok.simps [simp del] union_free.simps [simp del]

lemma keys_ok_children: "keys_ok t \<Longrightarrow> x \<in> set (children t) \<Longrightarrow> keys_ok x"
  by (subst (asm) keys_ok.simps) (simp add: list_all_iff)

lemma union_free_children: "union_free t \<Longrightarrow> x \<in> set (children t) \<Longrightarrow> union_free x"
  by (subst (asm) union_free.simps) (simp add: list_all_iff)

lemma distinct_keys:
  "keys_ok (TStruct fs) \<Longrightarrow> distinct (map fst fs)" "keys_ok (TEnum vs) \<Longrightarrow> distinct (map fst vs)"
  by (simp_all add: keys_ok.simps own_keys_ok_def)

section \<open>Reflexivity\<close>

lemma assignable_enum:
  "assignable (TEnum us) (TEnum vs) \<longleftrightarrow> length us = length vs \<and>
     list_all (\<lambda>(name, q). case map_of us name of
         None \<Rightarrow> False
       | Some None \<Rightarrow> q = None
       | Some (Some p) \<Rightarrow> (case q of None \<Rightarrow> False | Some q \<Rightarrow> assignable p q)) vs"
  by (subst assignable.simps) (simp add: enum_of_def)

lemma assignable_matching:
  assumes "matching_parts a e = Some parts"
  shows "assignable a e \<longleftrightarrow> list_all (\<lambda>(p, q). assignable p q) parts"
proof -
  have "enum_of a = None" "union_of a = None" "enum_of e = None" "union_of e = None"
    "a \<noteq> TNever" "a \<noteq> TAny" "e \<noteq> TAny"
    using assms by (auto simp: matching_parts_def enum_of_def union_of_def split: descr.splits)
  with assms show ?thesis by (subst assignable.simps) simp
qed

lemma assignable_refl:
  "union_free t \<Longrightarrow> keys_ok t \<Longrightarrow> assignable t t"
proof (induction t rule: children_induct)
  case (node t)
  have child: "assignable x x" if "x \<in> set (children t)" for x
    using node that by (blast intro: union_free_children keys_ok_children)
  consider (enum) vs where "t = TEnum vs" | (parts) parts where "matching_parts t t = Some parts"
      "\<forall>(p, q) \<in> set parts. p = q \<and> p \<in> set (children t)"
    | (leaf) "matching_parts t t = None" "enum_of t = None"
  proof (cases t)
    case (TStruct fs)
    then have "distinct (map fst fs)" using node.prems(2) by (simp add: distinct_keys)
    then have entries: "map_of fs k = Some x" if "(k, x) \<in> set fs" for k x using that by simp
    then have "matching_parts t t = Some (map (\<lambda>(_, x). (x, x)) fs)"
      by (auto simp: matching_parts_def TStruct list_all_iff)
    then show thesis using that(2) TStruct by force
  qed (auto simp: matching_parts_def enum_of_def set_zip in_set_conv_nth intro: that)
  then show ?case
  proof cases
    case enum
    then have "distinct (map fst vs)" using node.prems(2) by (simp add: distinct_keys)
    then have "map_of vs k = Some p" if "(k, p) \<in> set vs" for k p using that by simp
    with enum child show ?thesis
      by (fastforce simp: assignable_enum list_all_iff set_payloads split: option.splits)
  next
    case parts
    with child show ?thesis by (auto simp: assignable_matching list_all_iff)
  next
    case leaf
    moreover have "union_of t = None" using node.prems(1) by (simp add: union_free.simps)
    ultimately show ?thesis by (subst assignable.simps) (simp add: type_eq_def)
  qed
qed

section \<open>Reported differences\<close>

lemma find_map_None: "find_map f xs = None \<longleftrightarrow> (\<forall>x \<in> set xs. f x = None)"
  by (induction xs) (auto split: option.splits)

lemma extra_key_None: "extra_key us vs = None \<longleftrightarrow> fst ` set us \<subseteq> fst ` set vs"
  by (auto simp: extra_key_def find_None_iff map_of_eq_None_iff) force+

lemma or_else_None: "(case x of None \<Rightarrow> y | Some z \<Rightarrow> Some z) = None \<longleftrightarrow> x = None \<and> y = None"
  by (cases x) auto

lemma same_size_keys:
  assumes "distinct (map fst us)" "distinct (map fst vs)" "fst ` set vs \<subseteq> fst ` set us"
  shows "length us = length vs \<longleftrightarrow> fst ` set us \<subseteq> fst ` set vs"
proof -
  have "length us = card (fst ` set us)" "length vs = card (fst ` set vs)"
    using assms(1,2) distinct_card[of "map fst us"] distinct_card[of "map fst vs"] by simp_all
  with assms(3) card_subset_eq[OF finite_imageI[OF finite_set] assms(3)] show ?thesis
    by (metis order_refl subset_antisym)
qed

lemma assignable_any: "assignable a TAny" "assignable TAny e" "assignable TNever e"
  by (simp_all add: assignable.simps)

lemma ball_enumerate:
  "(\<forall>x \<in> set (enumerate n xs). P (fst (snd x)) (snd (snd x))) \<longleftrightarrow> (\<forall>x \<in> set xs. P (fst x) (snd x))"
  by (induction xs arbitrary: n) auto

lemma incompatibility_tuple:
  assumes "\<And>x y. x \<in> set ps \<Longrightarrow> y \<in> set qs \<Longrightarrow> incompatibility_path x y = None \<longleftrightarrow> assignable x y"
  shows "incompatibility_path (TTuple ps) (TTuple qs) = None \<longleftrightarrow> assignable (TTuple ps) (TTuple qs)"
proof (cases "length ps = length qs")
  case True
  then have "incompatibility_path (TTuple ps) (TTuple qs) = None \<longleftrightarrow>
      (\<forall>(p, q) \<in> set (zip ps qs). incompatibility_path p q = None)"
    by (subst incompatibility_path.simps)
       (simp add: find_map_None Let_def case_prod_beta
         ball_enumerate[where P = "\<lambda>p q. incompatibility_path p q = None"])
  also have "\<dots> \<longleftrightarrow> (\<forall>(p, q) \<in> set (zip ps qs). assignable p q)"
  proof (rule ball_cong[OF refl])
    fix x assume x: "x \<in> set (zip ps qs)"
    obtain p q where pq: "x = (p, q)" by (cases x)
    from x have "p \<in> set ps" "q \<in> set qs" unfolding pq by (auto elim: in_set_zipE)
    then show "(case x of (p, q) \<Rightarrow> incompatibility_path p q = None) \<longleftrightarrow>
        (case x of (p, q) \<Rightarrow> assignable p q)"
      by (simp add: pq assms)
  qed
  finally show ?thesis using True
    by (simp add: assignable_matching matching_parts_def list_all_iff)
next
  case False
  then have "\<not> assignable (TTuple ps) (TTuple qs)"
    by (subst assignable.simps)
       (auto simp: enum_of_def union_of_def matching_parts_def type_eq_def dest: map_eq_imp_length_eq)
  with False show ?thesis by (subst incompatibility_path.simps) (simp add: Let_def)
qed

lemma assignable_struct:
  "assignable (TStruct fs) (TStruct gs) \<longleftrightarrow>
     (\<forall>(k, y) \<in> set gs. case map_of fs k of None \<Rightarrow> False | Some x \<Rightarrow> assignable x y) \<and>
     length fs = length gs"
proof (cases "length fs = length gs \<and> list_all (\<lambda>(k, _). map_of fs k \<noteq> None) gs")
  case True
  then show ?thesis
    by (auto simp: assignable_matching matching_parts_def list_all_iff split: option.splits)
next
  case False
  have "\<not> type_eq (TStruct fs) (TStruct gs)"
  proof
    assume "type_eq (TStruct fs) (TStruct gs)"
    then have same: "map (map_prod id (map_descr nt_id)) fs = map (map_prod id (map_descr nt_id)) gs"
      by (simp add: type_eq_def)
    then have "map (fst \<circ> map_prod id (map_descr nt_id)) fs = map (fst \<circ> map_prod id (map_descr nt_id)) gs"
      by (metis map_map)
    then have "map fst fs = map fst gs" by simp
    then have "fst ` set gs = fst ` set fs" "length fs = length gs"
      by (metis list.set_map, metis length_map)
    with False show False by (force simp: list_all_iff map_of_eq_None_iff)
  qed
  with False show ?thesis
    by (subst assignable.simps)
       (auto simp: enum_of_def union_of_def matching_parts_def list_all_iff split: option.splits)
qed

lemma incompatibility_struct:
  assumes "distinct (map fst fs)" "distinct (map fst gs)"
    and "\<And>x y. x \<in> snd ` set fs \<Longrightarrow> y \<in> snd ` set gs \<Longrightarrow>
      incompatibility_path x y = None \<longleftrightarrow> assignable x y"
  shows "incompatibility_path (TStruct fs) (TStruct gs) = None \<longleftrightarrow> assignable (TStruct fs) (TStruct gs)"
proof -
  let ?at = "\<lambda>f. \<forall>(k, y) \<in> set gs. case map_of fs k of None \<Rightarrow> False | Some x \<Rightarrow> f x y"
  have "incompatibility_path (TStruct fs) (TStruct gs) = None \<longleftrightarrow>
      ?at (\<lambda>x y. incompatibility_path x y = None) \<and> fst ` set fs \<subseteq> fst ` set gs"
    by (subst incompatibility_path.simps)
       (simp add: or_else_None find_map_None extra_key_None Let_def,
        auto split: option.splits)
  also have "?at (\<lambda>x y. incompatibility_path x y = None) \<longleftrightarrow> ?at assignable"
  proof (rule ball_cong[OF refl])
    fix entry assume entry: "entry \<in> set gs"
    obtain k y where ky: "entry = (k, y)" by (cases entry)
    have "incompatibility_path x y = None \<longleftrightarrow> assignable x y" if "map_of fs k = Some x" for x
      using assms(3) that entry ky map_of_SomeD[of fs k x] by (metis image_eqI snd_conv)
    then show "(case entry of (k, y) \<Rightarrow> case map_of fs k of None \<Rightarrow> False
          | Some x \<Rightarrow> incompatibility_path x y = None) \<longleftrightarrow>
        (case entry of (k, y) \<Rightarrow> case map_of fs k of None \<Rightarrow> False | Some x \<Rightarrow> assignable x y)"
      by (simp add: ky split: option.splits)
  qed
  also have "?at assignable \<and> fst ` set fs \<subseteq> fst ` set gs \<longleftrightarrow> ?at assignable \<and> length fs = length gs"
  proof (intro conj_cong refl)
    assume at: "?at assignable"
    have "fst ` set gs \<subseteq> fst ` set fs"
    proof (clarsimp)
      fix k y assume "(k, y) \<in> set gs"
      with at have "map_of fs k \<noteq> None" by (fastforce split: option.splits)
      then show "k \<in> fst ` set fs" by (simp add: map_of_eq_None_iff)
    qed
    from same_size_keys[OF assms(1,2) this] show "fst ` set fs \<subseteq> fst ` set gs \<longleftrightarrow> length fs = length gs" ..
  qed
  also have "\<dots> \<longleftrightarrow> assignable (TStruct fs) (TStruct gs)" by (rule assignable_struct[symmetric])
  finally show ?thesis .
qed

lemma incompatibility_enum:
  assumes "distinct (map fst us)" "distinct (map fst vs)"
    and "\<And>x y. x \<in> set (payloads us) \<Longrightarrow> y \<in> set (payloads vs) \<Longrightarrow>
      incompatibility_path x y = None \<longleftrightarrow> assignable x y"
  shows "incompatibility_path (TEnum us) (TEnum vs) = None \<longleftrightarrow> assignable (TEnum us) (TEnum vs)"
proof -
  let ?ok = "\<lambda>f (k, q). case map_of us k of None \<Rightarrow> False
      | Some None \<Rightarrow> q = None | Some (Some x) \<Rightarrow> (case q of None \<Rightarrow> False | Some y \<Rightarrow> f x y)"
  have "incompatibility_path (TEnum us) (TEnum vs) = None \<longleftrightarrow>
      (\<forall>v \<in> set vs. ?ok (\<lambda>x y. incompatibility_path x y = None) v) \<and> fst ` set us \<subseteq> fst ` set vs"
    by (subst incompatibility_path.simps)
       (simp add: or_else_None find_map_None extra_key_None Let_def,
        auto split: option.splits if_splits)
  also have "(\<forall>v \<in> set vs. ?ok (\<lambda>x y. incompatibility_path x y = None) v) \<longleftrightarrow>
      (\<forall>v \<in> set vs. ?ok assignable v)"
  proof (rule ball_cong[OF refl])
    fix v assume v: "v \<in> set vs"
    obtain k q where kq: "v = (k, q)" by (cases v)
    have "incompatibility_path x y = None \<longleftrightarrow> assignable x y" if "map_of us k = Some (Some x)" "q = Some y" for x y
      using that v kq by (intro assms(3)) (auto simp: set_payloads dest: map_of_SomeD)
    then show "?ok (\<lambda>x y. incompatibility_path x y = None) v \<longleftrightarrow> ?ok assignable v"
      by (simp add: kq split: option.splits)
  qed
  also have "(\<forall>v \<in> set vs. ?ok assignable v) \<and> fst ` set us \<subseteq> fst ` set vs \<longleftrightarrow>
      (\<forall>v \<in> set vs. ?ok assignable v) \<and> length us = length vs"
  proof (intro conj_cong refl)
    assume ok: "\<forall>v \<in> set vs. ?ok assignable v"
    have "fst ` set vs \<subseteq> fst ` set us"
    proof (clarsimp)
      fix k q assume "(k, q) \<in> set vs"
      with ok have "map_of us k \<noteq> None" by (fastforce split: option.splits)
      then show "k \<in> fst ` set us" by (simp add: map_of_eq_None_iff)
    qed
    from same_size_keys[OF assms(1,2) this] show "fst ` set us \<subseteq> fst ` set vs \<longleftrightarrow> length us = length vs" ..
  qed
  also have "\<dots> \<longleftrightarrow> assignable (TEnum us) (TEnum vs)"
    by (auto simp: assignable_enum list_all_iff)
  finally show ?thesis .
qed

lemma incompatibility_other:
  assumes "\<not> (\<exists>fs gs. a = TStruct fs \<and> e = TStruct gs)" "\<not> (\<exists>us vs. a = TEnum us \<and> e = TEnum vs)"
    and "\<not> (\<exists>ps qs. a = TTuple ps \<and> e = TTuple qs)"
    and "\<And>x y. x \<in> set (children a) \<Longrightarrow> y \<in> set (children e) \<Longrightarrow>
      incompatibility_path x y = None \<longleftrightarrow> assignable x y"
  shows "incompatibility_path a e = None \<longleftrightarrow> assignable a e"
proof -
  consider (array) p q where "a = TArray p" "e = TArray q" | (dict) p q where "a = TDict p" "e = TDict q"
    | (fields) fs q where "a = TStruct fs" "e = TDict q"
    | (tagged) t p u q where "a = TTagged t p" "e = TTagged u q"
    | (other) "incompatibility_path a e = (if a = TAny \<or> e = TAny then None
        else if assignable a e then None else Some [])"
  proof (cases a)
    case (TArray p)
    with that show thesis by (cases e) (auto simp: incompatibility_path.simps Let_def)
  next
    case (TDict p)
    with that show thesis by (cases e) (auto simp: incompatibility_path.simps Let_def)
  next
    case (TStruct fs)
    with that assms show thesis by (cases e) (auto simp: incompatibility_path.simps Let_def)
  next
    case (TTagged t p)
    with that show thesis by (cases e) (auto simp: incompatibility_path.simps Let_def)
  next
    case (TTuple ps)
    with that assms show thesis by (cases e) (auto simp: incompatibility_path.simps Let_def)
  next
    case (TEnum us)
    with that assms show thesis by (cases e) (auto simp: incompatibility_path.simps Let_def)
  qed (auto simp: incompatibility_path.simps Let_def intro: that)
  then show ?thesis
  proof cases
    case fields
    then have part: "incompatibility_path p q = None \<longleftrightarrow> assignable p q" if "(k, p) \<in> set fs" for k p
      using assms(4)[of p q] that by force
    with fields show ?thesis
      by (subst incompatibility_path.simps)
         (auto simp: find_map_None assignable_matching matching_parts_def list_all_iff Let_def)
  next
    case tagged
    have "\<not> assignable a e" if "t \<noteq> u"
      using that tagged
      by (simp add: assignable.simps enum_of_def union_of_def matching_parts_def type_eq_def)
    with tagged assms(4) show ?thesis
      by (subst incompatibility_path.simps)
         (auto simp: assignable_matching matching_parts_def Let_def)
  next
    case other
    then show ?thesis by (auto simp: assignable_any)
  next
    case array
    with assms(4)[of p q] show ?thesis
      by (simp add: incompatibility_path.simps[of "TArray p"] assignable_matching
          matching_parts_def Let_def)
  next
    case dict
    with assms(4)[of p q] show ?thesis
      by (simp add: incompatibility_path.simps[of "TDict p"] assignable_matching
          matching_parts_def Let_def)
  qed
qed

text \<open>
  C14. A difference between two types is reported, with the path to it, exactly when the one is not
  assignable to the other.
\<close>

theorem incompatibility_path_iff:
  assumes "keys_ok a" and "keys_ok e"
  shows "incompatibility_path a e = None \<longleftrightarrow> assignable a e"
  using assms
proof (induction a arbitrary: e rule: children_induct)
  case (node a)
  have child: "incompatibility_path x y = None \<longleftrightarrow> assignable x y"
    if "x \<in> set (children a)" "y \<in> set (children e)" for x y
    using node that by (blast intro: keys_ok_children)
  consider fs gs where "a = TStruct fs" "e = TStruct gs" | us vs where "a = TEnum us" "e = TEnum vs"
    | ps qs where "a = TTuple ps" "e = TTuple qs"
    | "\<not> (\<exists>fs gs. a = TStruct fs \<and> e = TStruct gs)" "\<not> (\<exists>us vs. a = TEnum us \<and> e = TEnum vs)"
      "\<not> (\<exists>ps qs. a = TTuple ps \<and> e = TTuple qs)"
    by blast
  then show ?case
  proof cases
    case 1
    with node.prems child show ?thesis by (simp add: incompatibility_struct distinct_keys)
  next
    case 2
    with node.prems child show ?thesis by (simp add: incompatibility_enum distinct_keys)
  next
    case 3
    with child show ?thesis by (simp add: incompatibility_tuple)
  next
    case 4
    from incompatibility_other[OF this child] show ?thesis .
  qed
qed

theorem incompatibility_path_iff_witness:
  "incompatibility_path (TStruct [(''a'', TInt)]) (TStruct [(''a'', TFloat)]) \<noteq> None"
proof -
  have "keys_ok (TStruct [(''a'', TInt)])" "keys_ok (TStruct [(''a'', TFloat)])"
    by (simp_all add: keys_ok.simps own_keys_ok_def)
  then show ?thesis
    by (simp add: incompatibility_path_iff assignable_struct)
       (simp add: assignable.simps enum_of_def union_of_def matching_parts_def type_eq_def)
qed

section \<open>Canonical unions\<close>

text \<open>
  The types that may meet in a union: the order tells them apart, and a nominal type has one name.
\<close>

definition one_name :: "type_descriptor set \<Rightarrow> bool" where
  "one_name ts \<longleftrightarrow> (\<forall>a \<in> ts. \<forall>b \<in> ts. type_eq a b \<longrightarrow> a = b)"

definition told_apart :: "(string \<Rightarrow> string) \<Rightarrow> type_descriptor set \<Rightarrow> bool" where
  "told_apart quote ts \<longleftrightarrow> inj_on (union_key quote) ts \<and> one_name ts"

lemma one_name_subset: "one_name ts \<Longrightarrow> us \<subseteq> ts \<Longrightarrow> one_name us"
  by (auto simp: one_name_def)

lemma type_eq_one_name: "one_name ts \<Longrightarrow> a \<in> ts \<Longrightarrow> b \<in> ts \<Longrightarrow> type_eq a b \<longleftrightarrow> a = b"
  by (auto simp: one_name_def type_eq_def)

definition members :: "type_descriptor list \<Rightarrow> type_descriptor list" where
  "members ts = concat (map flatten_union ts)"

lemma flatten_not_union: "x \<in> set (flatten_union t) \<Longrightarrow> flatten_union x = [x]"
  by (induction t rule: flatten_union.induct) auto

lemma members_of_members: "set ts \<subseteq> set (members us) \<Longrightarrow> members ts = ts"
  by (induction ts) (auto simp: members_def dest: flatten_not_union)

lemma dedup_one_name: "one_name (set ts) \<Longrightarrow> dedup_types ts = remdups_adj ts"
proof (induction ts rule: dedup_types.induct)
  case (1 a b ts)
  have "type_eq b a \<longleftrightarrow> a = b" using type_eq_one_name[OF 1(3), of b a] by auto
  moreover have "one_name (set (a # ts))" "one_name (set (b # ts))"
    by (rule one_name_subset[OF 1(3)], force)+
  ultimately show ?case using 1(1,2) by (cases "a = b") simp_all
qed simp_all

lemma strict_key_unique:
  fixes f :: "'a \<Rightarrow> 'b::linorder"
  assumes "set us = set vs" "sorted_wrt (<) (map f us)" "sorted_wrt (<) (map f vs)"
    and "inj_on f (set us)"
  shows "us = vs"
proof -
  have "set (map f us) = set (map f vs)" using assms(1) by simp
  with assms(2,3) have "map f us = map f vs"
    by (intro sorted_distinct_set_unique) (simp_all add: strict_sorted_iff)
  with assms(1,4) show ?thesis by (simp add: inj_on_map_eq_map)
qed

lemma strict_remdups_adj:
  fixes f :: "'a \<Rightarrow> 'b::linorder"
  shows "sorted (map f ts) \<Longrightarrow> inj_on f (set ts) \<Longrightarrow> sorted_wrt (<) (map f (remdups_adj ts))"
proof (induction ts rule: remdups_adj.induct)
  case (3 x y xs)
  show ?case
  proof (cases "x = y")
    case True
    with 3(1)[OF True] 3(3,4) show ?thesis by simp
  next
    case False
    then have "f x \<noteq> f y" using 3(4) by (simp add: inj_on_def)
    moreover have "f x \<le> f y" "\<forall>z \<in> set xs. f y \<le> f z" using 3(3) by simp_all
    ultimately have below: "f x < f z" if "z \<in> set (y # xs)" for z
      using that by (metis le_neq_trans less_le_trans set_ConsD)
    have "sorted_wrt (<) (map f (remdups_adj (y # xs)))"
      using 3(3,4) by (intro 3(2)[OF False]) (simp_all add: inj_on_insert)
    moreover have "set (remdups_adj (y # xs)) = set (y # xs)" by (rule remdups_adj_set)
    ultimately show ?thesis
      using False below by (simp del: remdups_adj_set remdups_adj.simps add: remdups_adj.simps(3))
  qed
qed simp_all

lemma sorted_members_eq:
  assumes "told_apart quote (set us)" and "set us = set vs"
  shows "dedup_types (sort_key (union_key quote) us) = dedup_types (sort_key (union_key quote) vs)"
proof -
  let ?sort = "\<lambda>ts. remdups_adj (sort_key (union_key quote) ts)"
  have "dedup_types (sort_key (union_key quote) ts) = ?sort ts" if "set ts = set us" for ts
    using assms(1) that by (intro dedup_one_name) (simp add: told_apart_def)
  moreover have "?sort us = ?sort vs"
    using assms by (intro strict_key_unique[where f = "union_key quote"] strict_remdups_adj)
      (simp_all add: told_apart_def)
  ultimately show ?thesis using assms(2) by simp
qed

lemma canonical_union_members:
  "canonical_union quote ts =
     (if TAny \<in> set (members ts) then TAny
      else let kept = (if set (members ts) \<subseteq> {TNever} then members ts
                       else filter (\<lambda>t. t \<noteq> TNever) (members ts));
               us = dedup_types (sort_key (union_key quote) kept)
           in case us of [] \<Rightarrow> TNever | [t] \<Rightarrow> t | _ \<Rightarrow> TUnion us)"
proof -
  have "list_ex (\<lambda>t. t \<noteq> TNever) (members ts) \<longleftrightarrow> \<not> set (members ts) \<subseteq> {TNever}"
    by (auto simp: list_ex_iff)
  then show ?thesis by (simp add: canonical_union_def members_def[symmetric] Let_def)
qed

lemma canonical_union_set:
  assumes "told_apart quote (set (members us))" and "set (members us) = set (members vs)"
  shows "canonical_union quote us = canonical_union quote vs"
proof -
  have apart: "told_apart quote S" if "S \<subseteq> set (members us)" for S
    using assms(1) that by (auto simp: told_apart_def intro: inj_on_subset one_name_subset)
  have "dedup_types (sort_key (union_key quote) (filter P (members us))) =
      dedup_types (sort_key (union_key quote) (filter P (members vs)))" for P
    using assms(2) by (intro sorted_members_eq apart) auto
  from this[of "\<lambda>_. True"] this[of "\<lambda>t. t \<noteq> TNever"] show ?thesis
    unfolding canonical_union_members assms(2) by simp
qed

lemma members_canonical:
  assumes "told_apart quote (set (members ts))"
  shows "set (members [canonical_union quote ts]) =
    (if TAny \<in> set (members ts) then {TAny}
     else if set (members ts) \<subseteq> {TNever} then {TNever} else set (members ts) - {TNever})"
proof (cases "TAny \<in> set (members ts)")
  case True
  then show ?thesis by (simp add: canonical_union_members members_def[of "[TAny]"])
next
  case False
  define kept where "kept = (if set (members ts) \<subseteq> {TNever} then members ts
      else filter (\<lambda>t. t \<noteq> TNever) (members ts))"
  define us where "us = dedup_types (sort_key (union_key quote) kept)"
  have "set kept \<subseteq> set (members ts)" by (auto simp: kept_def)
  then have "one_name (set kept)" using assms by (auto simp: told_apart_def intro: one_name_subset)
  then have set_us: "set us = set kept" unfolding us_def by (subst dedup_one_name) auto
  then have "set us \<subseteq> set (members ts)" by (auto simp: kept_def)
  then have flat: "members us = us" by (rule members_of_members)
  have "canonical_union quote ts = (case us of [] \<Rightarrow> TNever | [t] \<Rightarrow> t | _ \<Rightarrow> TUnion us)"
    using False unfolding us_def kept_def by (simp add: canonical_union_members Let_def)
  then have "members [canonical_union quote ts] = (if us = [] then [TNever] else us)"
  proof (cases us)
    case (Cons u vs)
    with \<open>set us \<subseteq> set (members ts)\<close> have "flatten_union u = [u]"
      by (auto simp: members_def dest: flatten_not_union)
    moreover have "members [TUnion us] = us" using flat by (simp add: members_def)
    moreover assume "canonical_union quote ts = (case us of [] \<Rightarrow> TNever | [t] \<Rightarrow> t | _ \<Rightarrow> TUnion us)"
    ultimately show ?thesis using Cons by (cases vs) (simp_all add: members_def)
  qed (simp add: members_def)
  then have *: "set (members [canonical_union quote ts]) = (if kept = [] then {TNever} else set kept)"
    using set_us by (cases us; cases kept) simp_all
  show ?thesis
  proof (cases "set (members ts) \<subseteq> {TNever}")
    case True
    then have "kept = members ts" by (simp add: kept_def)
    with True False * show ?thesis by (cases "members ts") auto
  next
    case some: False
    then have "kept = filter (\<lambda>t. t \<noteq> TNever) (members ts)" by (simp add: kept_def)
    with some False * show ?thesis by (auto simp: filter_empty_conv)
  qed
qed

lemma canonical_union_never:
  assumes "set (members ts) \<subseteq> {TNever}"
  shows "canonical_union quote ts = TNever"
proof -
  let ?sorted = "sort_key (union_key quote) (members ts)"
  have all: "?sorted = replicate (length ?sorted) TNever"
    using assms by (intro replicate_eqI) auto
  have "one_name (set ?sorted)" using assms by (auto simp: one_name_def)
  then have "dedup_types ?sorted = remdups_adj (replicate (length ?sorted) TNever)"
    using all by (metis dedup_one_name)
  then have "dedup_types ?sorted = [] \<or> dedup_types ?sorted = [TNever]"
    by (simp add: remdups_adj_replicate)
  with assms show ?thesis by (auto simp: canonical_union_members Let_def)
qed

lemma canonical_union_kept:
  assumes "told_apart quote (set (members us) - {TNever})"
    and any: "TAny \<in> set (members us) \<longleftrightarrow> TAny \<in> set (members vs)"
    and rest: "TAny \<notin> set (members us) \<Longrightarrow> set (members us) - {TNever} = set (members vs) - {TNever}"
  shows "canonical_union quote us = canonical_union quote vs"
proof (cases "TAny \<in> set (members us)")
  case True
  with any show ?thesis by (simp add: canonical_union_members)
next
  case no_any: False
  note rest = rest[OF this]
  show ?thesis
  proof (cases "set (members us) \<subseteq> {TNever}")
    case True
    then have "set (members vs) \<subseteq> {TNever}" using rest by auto
    with True show ?thesis by (simp add: canonical_union_never)
  next
    case False
    moreover have "\<not> set (members vs) \<subseteq> {TNever}" using False rest by auto
    moreover have "dedup_types (sort_key (union_key quote) (filter (\<lambda>t. t \<noteq> TNever) (members us))) =
        dedup_types (sort_key (union_key quote) (filter (\<lambda>t. t \<noteq> TNever) (members vs)))"
      using assms(1) rest by (intro sorted_members_eq) (auto simp: set_diff_eq cong: conj_cong)
    ultimately show ?thesis using no_any any by (simp add: canonical_union_members)
  qed
qed

text \<open>
  C15. The union of a list of types depends on the set of its members alone: their order, their
  repetition, and how they were grouped into unions before do not matter.
\<close>

theorem canonical_union_canonical:
  assumes "told_apart quote (set (members (us @ ts)))"
  shows "(\<forall>vs. set (members vs) = set (members (us @ ts)) \<longrightarrow>
      canonical_union quote vs = canonical_union quote (us @ ts)) \<and>
    canonical_union quote (canonical_union quote us # ts) = canonical_union quote (us @ ts)"
proof
  show "\<forall>vs. set (members vs) = set (members (us @ ts)) \<longrightarrow>
      canonical_union quote vs = canonical_union quote (us @ ts)"
    using canonical_union_set assms by metis
  have split: "set (members (us @ ts)) = set (members us) \<union> set (members ts)"
    "set (members (t # ts)) = set (members [t]) \<union> set (members ts)" for t
    by (auto simp: members_def)
  have "told_apart quote (set (members us))"
    using assms by (auto simp: split told_apart_def intro: inj_on_subset one_name_subset)
  note flat = members_canonical[OF this]
  have "canonical_union quote (us @ ts) = canonical_union quote (canonical_union quote us # ts)"
    using assms
    by (intro canonical_union_kept)
       (auto simp: split flat told_apart_def intro: inj_on_subset one_name_subset split: if_splits)
  then show "canonical_union quote (canonical_union quote us # ts) = canonical_union quote (us @ ts)" ..
qed

lemma told_apart_sample: "told_apart (\<lambda>s. s) {TInt, TString}"
  by (auto simp: told_apart_def one_name_def inj_on_def union_key_def display_name_def type_eq_def)

theorem canonical_union_canonical_witness:
  "canonical_union (\<lambda>s. s) [canonical_union (\<lambda>s. s) [TString, TInt], TInt] =
     canonical_union (\<lambda>s. s) [TInt, TString]"
proof -
  have S: "set (members ([TString, TInt] @ [TInt])) = {TInt, TString}" "set (members [TInt, TString]) = {TInt, TString}"
    by (auto simp: members_def)
  have apart: "told_apart (\<lambda>s. s) (set (members ([TString, TInt] @ [TInt])))"
    unfolding S by (rule told_apart_sample)
  from canonical_union_canonical[OF apart] show ?thesis unfolding S using S(2) by metis
qed

section \<open>Joins\<close>

lemma closed_leaves [simp]:
  "union_free (TAtom x)" "union_free (TTagged x t) = union_free t" "union_free TInt" "union_free TString"
  "keys_ok (TAtom x)" "keys_ok (TTagged x t) = keys_ok t" "keys_ok TInt" "keys_ok TString"
  by (subst union_free.simps keys_ok.simps, simp add: union_of_def own_keys_ok_def)+

lemma assignable_variant:
  assumes "(name, q) \<in> set vs" and "union_free (TEnum vs)" and "keys_ok (TEnum vs)"
  shows "assignable (enum_variant_type name q) (TEnum vs)"
proof -
  have "union_free (enum_variant_type name q)" "keys_ok (enum_variant_type name q)"
    using assms union_free_children[of "TEnum vs"] keys_ok_children[of "TEnum vs"]
    by (auto simp: enum_variant_type_def set_payloads split: option.splits)
  then have "assignable (enum_variant_type name q) (enum_variant_type name q)"
    by (rule assignable_refl)
  moreover have "enum_of (enum_variant_type name q) = None" "union_of (enum_variant_type name q) = None"
    by (simp_all add: enum_variant_type_def enum_of_def union_of_def split: option.splits)
  ultimately show ?thesis using assms(1)
    by (subst assignable.simps) (auto simp: enum_of_def list_ex_iff)
qed

lemma assignable_member:
  assumes "t \<in> set ts" and "union_free t" and "keys_ok t"
  shows "assignable t (TUnion ts)"
proof (cases "enum_of t")
  case None
  with assignable_refl[OF assms(2,3)] assms(1) show ?thesis
    by (subst assignable.simps) (auto simp: enum_of_def union_of_def list_ex_iff)
next
  case (Some vs)
  then have t: "t = TEnum vs" by (rule of_SomeD)
  have "assignable (enum_variant_type name q) (TUnion ts)" if "(name, q) \<in> set vs" for name q
  proof -
    have "assignable (enum_variant_type name q) t"
      using assignable_variant[OF that] assms(2,3) by (simp add: t)
    moreover have "enum_of (enum_variant_type name q) = None"
      by (simp add: enum_variant_type_def enum_of_def split: option.splits)
    ultimately show ?thesis using assms(1)
      by (subst assignable.simps) (auto simp: enum_of_def union_of_def list_ex_iff)
  qed
  then show ?thesis unfolding t
    by (subst assignable.simps) (auto simp: enum_of_def list_all_iff)
qed

text \<open>
  C16. The join of the types of two branches does not depend on their order.
\<close>

theorem join_types_symmetric:
  assumes "told_apart quote (set (members [a, b]))" and "one_name {a, b}"
  shows "join_types quote a b = join_types quote b a"
proof -
  have "set (members [b, a]) = set (members [a, b])" by (auto simp: members_def)
  then have "canonical_union quote [a, b] = canonical_union quote [b, a]"
    using assms(1) by (intro canonical_union_set) simp_all
  moreover have "type_eq a b \<longleftrightarrow> a = b" "type_eq b a \<longleftrightarrow> a = b"
    using type_eq_one_name[OF assms(2), of a b] type_eq_one_name[OF assms(2), of b a] by auto
  ultimately show ?thesis
    by (auto simp: join_types_def split: bool.splits)
qed

theorem join_types_symmetric_witness:
  "join_types (\<lambda>s. s) TString TInt = join_types (\<lambda>s. s) TInt TString"
proof (rule join_types_symmetric)
  show "told_apart (\<lambda>s. s) (set (members [TString, TInt]))"
    using told_apart_sample by (simp add: members_def insert_commute)
qed (auto simp: one_name_def type_eq_def)

text \<open>
  C17. The join of two types without unions is an upper bound of both.
\<close>

theorem join_types_upper:
  assumes "told_apart quote (set (members [a, b]))" and "one_name {a, b}"
    and "union_free a" and "union_free b" and "keys_ok a" and "keys_ok b"
  shows "assignable a (join_types quote a b) \<and> assignable b (join_types quote a b)"
proof -
  have refl: "assignable a a" "assignable b b" using assms(3-6) by (simp_all add: assignable_refl)
  have flat: "flatten_union a = [a]" "flatten_union b = [b]"
    using assms(3,4) by (cases a; cases b; simp add: union_free.simps union_of_def)+
  show ?thesis
  proof (cases "a = b \<or> a = TNever \<or> b = TNever \<or> a = TAny \<or> b = TAny")
    case True
    moreover have "type_eq a b \<longleftrightarrow> a = b" using type_eq_one_name[OF assms(2), of a b] by simp
    ultimately show ?thesis using refl by (auto simp: join_types_def assignable_any)
  next
    case False
    then have "\<not> type_eq a b" using type_eq_one_name[OF assms(2), of a b] by simp
    moreover have "canonical_union quote [a, b] = TUnion [a, b] \<or> canonical_union quote [a, b] = TUnion [b, a]"
    proof -
      have two: "members [a, b] = [a, b]" by (simp add: members_def flat)
      have "sort_key (union_key quote) [a, b] = [a, b] \<or> sort_key (union_key quote) [a, b] = [b, a]"
        by (simp add: sort_key_def)
      with False type_eq_one_name[OF assms(2), of a b] type_eq_one_name[OF assms(2), of b a] show ?thesis
        by (auto simp: canonical_union_members two)
    qed
    ultimately show ?thesis using False refl assms(3-6)
      by (auto simp: join_types_def assignable_any assignable_member split: bool.splits)
  qed
qed

theorem join_types_upper_witness:
  "assignable TString (join_types (\<lambda>s. s) TString TInt)"
proof -
  have "told_apart (\<lambda>s. s) (set (members [TString, TInt]))"
    using told_apart_sample by (simp add: members_def insert_commute)
  moreover have "one_name {TString, TInt}" by (auto simp: one_name_def type_eq_def)
  ultimately show ?thesis
    using join_types_upper[of "\<lambda>s. s" TString TInt] by simp
qed

end
