(* ===== verification/Ast.thy ===== *)
theory Ast
  imports Value Source
begin

text \<open>
  The syntax tree of a program (\<open>crates/telora-core/src/ast.rs\<close>). The structs that hold expressions
  are types over the type of expressions, so that only \<open>ExprKind\<close> and the located expression are
  recursive; \<open>Box\<close> and \<open>Vec\<close> are the contents and the list.
\<close>

section \<open>Located values and patterns\<close>

datatype (plugins only: code size) 'a located = Located (located_value: 'a) (located_at: loc)

type_synonym ident = "string located"

definition located_map :: "('a \<Rightarrow> 'b) \<Rightarrow> 'a located \<Rightarrow> 'b located" where
  "located_map f x = Located (f (located_value x)) (located_at x)"

datatype (plugins only: code size) pattern = Pattern (pattern_value: pattern_kind) (pattern_location: loc)
and pattern_kind =
    P_Wildcard
  | P_Binding ident
  | P_Int i64
  | P_Float f64
  | P_String string
  | P_Atom string
  | P_Tagged string pattern
  | P_Tuple "pattern list"
  | P_Struct "(ident \<times> pattern) list"

section \<open>Expressions\<close>

datatype binding_kind =
    BK_Let | BK_Decl | BK_Def | BK_Native | BK_NativeType | BK_Type | BK_Import | BK_OpenImport
  | BK_Export

datatype unary_operator = U_Negate

datatype binary_operator =
    B_Add | B_Subtract | B_Multiply | B_Divide | B_LessThan | B_Equal | B_And | B_Or

datatype (plugins only: code size) 'e decorator_kind =
  Decorator (dec_callee: 'e) (dec_arguments: "'e list") (dec_configured: bool)

datatype (plugins only: code size) 'e binding_data =
  Binding
    (b_decorators: "'e decorator_kind located list")
    (b_kind: binding_kind)
    (b_imported_name: "ident option")
    (b_name: ident)
    (b_type_parameters: "ident list")
    (b_annotation: "'e option")
    (b_value: 'e)

datatype (plugins only: code size) 'e block_kind =
  Block (bl_bindings: "'e binding_data located list") (bl_result: 'e)

datatype (plugins only: code size) 'e closure_parameter =
  ClosureParameter (cp_name: ident) (cp_annotation: "'e option")

datatype (plugins only: code size) 'e string_part_kind = SP_Text string | SP_Expression 'e

datatype (plugins only: code size) 'e dict_field_kind =
  DictField
    (df_decorators: "'e decorator_kind located list") (df_name: "ident option") (df_value: 'e)

datatype (plugins only: code size) 'e match_arm_kind =
  MatchArm
    (ma_pattern: pattern) (ma_guard: "'e option") (ma_value: 'e) (ma_irrefutable_required: bool)

datatype (plugins only: code size) 'e type_argument_kind = TA_Explicit 'e | TA_Infer

datatype (plugins only: code size) expr = Expr (expr_value: expr_kind) (expr_location: loc)
and expr_kind =
    E_Int i64
  | E_Float f64
  | E_String string
  | E_InterpolatedString "expr string_part_kind located list"
  | E_Bytes "u8 list"
  | E_Atom string
  | E_Variable ident
  | E_Array "expr list"
  | E_Spread expr
  | E_Tuple "expr list"
  | E_Dict "expr dict_field_kind located list"
  | E_Block "expr block_kind located"
  | E_Unary "unary_operator located" expr
  | E_Propagate expr
  | E_Return expr
  | E_Panic expr
  | E_Raise expr
  | E_Binary "binary_operator located" expr expr
  | E_Field expr ident
  | E_Call expr "expr list"
  | E_TypeApply expr "expr type_argument_kind located list"
  | E_Interpreter expr expr
  | E_Closure "expr closure_parameter list" "expr option" "expr block_kind located"
  | E_If expr "expr block_kind located" "expr block_kind located"
  | E_IfLet pattern expr "expr block_kind located" "expr block_kind located"
  | E_LetElse pattern expr "expr block_kind located" "expr block_kind located"
  | E_Match expr "expr match_arm_kind located list"

type_synonym binding = "expr binding_data located"
type_synonym block = "expr block_kind located"
type_synonym decorator = "expr decorator_kind located"
type_synonym string_part = "expr string_part_kind located"
type_synonym dict_field = "expr dict_field_kind located"
type_synonym match_arm = "expr match_arm_kind located"
type_synonym type_argument = "expr type_argument_kind located"

record option_action =
  oa_key :: ident
  oa_value :: expr
  oa_location :: loc

record program_kind =
  pk_options :: "option_action list"
  pk_body :: block
  pk_authored_result :: bool

type_synonym program = "program_kind located"

section \<open>Recursion over expressions\<close>

text \<open>The expressions that a block, a dict field, a match arm and the like hold.\<close>

definition held :: "('a \<Rightarrow> expr set) \<Rightarrow> 'a located \<Rightarrow> expr set" where
  "held f x = f (located_value x)"

definition all_held :: "('a \<Rightarrow> expr set) \<Rightarrow> 'a list \<Rightarrow> expr set" where
  "all_held f xs = (\<Union>x \<in> set xs. f x)"

abbreviation block_exprs :: "block \<Rightarrow> expr set" where
  "block_exprs \<equiv> held set_block_kind"

fun subexprs :: "expr_kind \<Rightarrow> expr set" where
  "subexprs (E_InterpolatedString parts) = all_held (held set_string_part_kind) parts"
| "subexprs (E_Array items) = set items"
| "subexprs (E_Spread e) = {e}"
| "subexprs (E_Tuple items) = set items"
| "subexprs (E_Dict fs) = all_held (held set_dict_field_kind) fs"
| "subexprs (E_Block b) = block_exprs b"
| "subexprs (E_Unary _ e) = {e}"
| "subexprs (E_Propagate e) = {e}"
| "subexprs (E_Return e) = {e}"
| "subexprs (E_Panic e) = {e}"
| "subexprs (E_Raise e) = {e}"
| "subexprs (E_Binary _ l r) = {l, r}"
| "subexprs (E_Field e _) = {e}"
| "subexprs (E_Call f args) = insert f (set args)"
| "subexprs (E_TypeApply f args) = insert f (all_held (held set_type_argument_kind) args)"
| "subexprs (E_Interpreter a b) = {a, b}"
| "subexprs (E_Closure ps r b) =
     all_held set_closure_parameter ps \<union> set_option r \<union> block_exprs b"
| "subexprs (E_If c t e) = insert c (block_exprs t \<union> block_exprs e)"
| "subexprs (E_IfLet _ c t e) = insert c (block_exprs t \<union> block_exprs e)"
| "subexprs (E_LetElse _ c e b) = insert c (block_exprs e \<union> block_exprs b)"
| "subexprs (E_Match v arms) = insert v (all_held (held set_match_arm_kind) arms)"
| "subexprs _ = {}"

text \<open>They are smaller than the expression that holds them.\<close>

definition smaller :: "('a \<Rightarrow> expr set) \<Rightarrow> ('a \<Rightarrow> nat) \<Rightarrow> bool" where
  "smaller f g \<longleftrightarrow> (\<forall>x. \<forall>e \<in> f x. size e < g x)"

lemma smallerD: "smaller f g \<Longrightarrow> e \<in> f x \<Longrightarrow> size e < g x"
  by (simp add: smaller_def)

lemma smallerI: "(\<And>x e. e \<in> f x \<Longrightarrow> size e < g x) \<Longrightarrow> smaller f g"
  by (simp add: smaller_def)

lemma smaller_held: "smaller f g \<Longrightarrow> smaller (held f) (size_located g)"
  by (rule smallerI, rename_tac x e, case_tac x) (auto simp: held_def dest: smallerD)

lemma smaller_list:
  assumes "smaller f g"
  shows "smaller (all_held f) (size_list g)"
proof (rule smallerI)
  fix xs e assume "e \<in> all_held f xs"
  then obtain x where "x \<in> set xs" "size e < g x"
    by (auto simp: all_held_def dest: smallerD[OF assms])
  then show "size e < size_list g xs"
    by (meson le_trans not_le order_refl size_list_estimation')
qed

lemma smaller_set: "smaller set (size_list size)"
proof (rule smallerI)
  fix xs and e :: expr assume "e \<in> set xs"
  then show "size e < size_list size xs" by (induction xs) auto
qed

lemma smaller_option: "smaller set_option (size_option size)"
  by (rule smallerI) (auto split: option.splits)

lemma set_located_value: "set_located x = {located_value x}"
  by (cases x) simp

lemma smaller_decorator: "smaller set_decorator_kind (size_decorator_kind size)"
  by (rule smallerI, rename_tac x e, case_tac x) (auto dest: smallerD[OF smaller_set])

lemmas smaller_decorators = smaller_list[OF smaller_held[OF smaller_decorator]]

lemma size_decorators:
  "d \<in> set ds \<Longrightarrow> e \<in> set_decorator_kind (located_value d) \<Longrightarrow>
   size (e :: expr) < size_list (size_located (size_decorator_kind size)) ds"
  using smallerD[OF smaller_decorators, of e ds] by (auto simp: all_held_def held_def)

lemma smaller_binding: "smaller set_binding_data (size_binding_data size)"
  by (rule smallerI, rename_tac x e, case_tac x)
     (auto simp: set_located_value dest!: size_decorators smallerD[OF smaller_option])

lemma smaller_dict_field: "smaller set_dict_field_kind (size_dict_field_kind size)"
  by (rule smallerI, rename_tac x e, case_tac x)
     (auto simp: set_located_value dest!: size_decorators)

lemma smaller_block: "smaller set_block_kind (size_block_kind size)"
  by (rule smallerI, rename_tac x e, case_tac x)
     (auto simp: set_located_value all_held_def held_def dest!:
       smallerD[OF smaller_list[OF smaller_held[OF smaller_binding]], unfolded all_held_def held_def, simplified])

lemma smaller_parts:
  "smaller set_closure_parameter (size_closure_parameter size)"
  "smaller set_string_part_kind (size_string_part_kind size)"
  "smaller set_match_arm_kind (size_match_arm_kind size)"
  "smaller set_type_argument_kind (size_type_argument_kind size)"
  by (rule smallerI, rename_tac x e, case_tac x, auto dest: smallerD[OF smaller_option])+

lemmas smaller_nodes =
  smaller_set smaller_option smaller_parts(1) smaller_held[OF smaller_block]
  smaller_list[OF smaller_held[OF smaller_parts(2)]]
  smaller_list[OF smaller_held[OF smaller_parts(3)]]
  smaller_list[OF smaller_held[OF smaller_parts(4)]]
  smaller_list[OF smaller_held[OF smaller_dict_field]]
  smaller_list[OF smaller_parts(1)]

lemma size_subexprs: "e \<in> subexprs k \<Longrightarrow> size e < size k"
  by (cases k) (auto dest!: smaller_nodes[THEN smallerD])

lemma expr_induct [case_names Expr]:
  assumes "\<And>k l. (\<And>e. e \<in> subexprs k \<Longrightarrow> P e) \<Longrightarrow> P (Expr k l)"
  shows "P e"
proof (induction e rule: measure_induct_rule[where f = size])
  case (less e)
  then show ?case using assms[of "expr_value e" "expr_location e"]
    by (cases e) (auto dest: size_subexprs intro: less_SucI)
qed

end
