(* ===== verification/Frontend.thy ===== *)
theory Frontend
  imports Ast
begin

text \<open>
  Errors of the front end (\<open>crates/telora-core/src/lexer.rs\<close>) and what they read of a source file
  (\<open>SourceFile\<close> of \<open>source.rs\<close>): its name and the line and column of an offset, which the file
  computes from its rope and which is a function here. Also loops over a state, and the names that
  patterns bind (\<open>bind_pattern\<close> of \<open>compiler.rs\<close>).
\<close>

section \<open>Errors\<close>

record source_location =
  sl_offset :: nat
  sl_line :: nat
  sl_column :: nat

record frontend_error =
  fe_source_name :: string
  fe_location :: source_location
  fe_message :: string
  fe_diagnostic :: "diagnostic option"

record position =
  pos_line :: nat
  pos_column :: nat

record source_file =
  sf_id :: source_id
  sf_name :: string
  sf_position :: "u32 \<Rightarrow> position"

definition frontend_error_new :: "string \<Rightarrow> source_location \<Rightarrow> string \<Rightarrow> frontend_error" where
  "frontend_error_new source_name location message =
     \<lparr> fe_source_name = source_name, fe_location = location, fe_message = message,
       fe_diagnostic = None \<rparr>"

definition frontend_error_from_diagnostic ::
    "(source_id \<Rightarrow> source_file) \<Rightarrow> diagnostic \<Rightarrow> frontend_error option" where
  "frontend_error_from_diagnostic sources d =
     (case diag_labels d of
        [] \<Rightarrow> None
      | label # _ \<Rightarrow>
          let file = sources (loc_source (label_location label));
              position = sf_position file (loc_start (label_location label))
          in Some \<lparr> fe_source_name = sf_name file,
               fe_location = \<lparr> sl_offset = unat (loc_start (label_location label)),
                 sl_line = pos_line position, sl_column = pos_column position \<rparr>,
               fe_message = diag_message d, fe_diagnostic = Some d \<rparr>)"

definition frontend_error_message :: "frontend_error \<Rightarrow> string" where
  "frontend_error_message e =
     fe_source_name e @ '':'' @ show_nat (sl_line (fe_location e)) @ '':'' @
     show_nat (sl_column (fe_location e)) @ '': '' @ fe_message e"

section \<open>Loops over a state\<close>

text \<open>A loop that changes local variables and the state, and that an error leaves.\<close>

fun efold :: "('x \<Rightarrow> 'a \<Rightarrow> ('s, 'e, 'a) eff) \<Rightarrow> 'x list \<Rightarrow> 'a \<Rightarrow> ('s, 'e, 'a) eff" where
  "efold f [] a = eret a"
| "efold f (x # xs) a = ebind (f x a) (efold f xs)"

lemma efold_cong [fundef_cong]:
  "xs = ys \<Longrightarrow> a = b \<Longrightarrow> (\<And>x a. x \<in> set ys \<Longrightarrow> f x a = g x a) \<Longrightarrow> efold f xs a = efold g ys b"
  by (induction ys arbitrary: xs a b) (auto intro!: ebind_cong)

definition eiter :: "('x \<Rightarrow> ('s, 'e, unit) eff) \<Rightarrow> 'x list \<Rightarrow> ('s, 'e, unit) eff" where
  "eiter f xs = efold (\<lambda>x _. f x) xs ()"

lemma eiter_cong [fundef_cong]:
  "xs = ys \<Longrightarrow> (\<And>x. x \<in> set ys \<Longrightarrow> f x = g x) \<Longrightarrow> eiter f xs = eiter g ys"
  unfolding eiter_def by (rule efold_cong) auto

section \<open>Patterns\<close>

lemma size_pattern_field [termination_simp]:
  "(name, p) \<in> set fs \<Longrightarrow> size p < Suc (Suc (size_list (\<lambda>x. Suc (size (snd x))) fs))"
  by (induction fs) auto

lemma size_pattern_item [termination_simp]:
  "p \<in> set ps \<Longrightarrow> size p < Suc (Suc (size_list size ps))"
  by (induction ps) auto

function (sequential) bind_pattern :: "pattern \<Rightarrow> string set \<Rightarrow> string set" where
  "bind_pattern (Pattern (P_Binding name) _) bound = insert (located_value name) bound"
| "bind_pattern (Pattern (P_Tuple items) _) bound = fold bind_pattern items bound"
| "bind_pattern (Pattern (P_Tagged tag payload) _) bound = bind_pattern payload bound"
| "bind_pattern (Pattern (P_Struct fs) _) bound = fold (\<lambda>(name, p). bind_pattern p) fs bound"
| "bind_pattern (Pattern _ _) bound = bound"
  by pat_completeness auto
termination
  by (relation "measure (\<lambda>(p, bound). size p)") (auto simp: termination_simp)

end
