(* ===== verification/Runtime_Names.thy ===== *)
theory Runtime_Names
  imports Frontend
begin

text \<open>
  The names a program refers to (\<open>crates/telora-core/src/compiler.rs\<close>): the free variables of
  expressions and blocks, by which closures capture, and the names that are needed at run time; the
  arity a function contract declares.
\<close>

section \<open>Free variables and names\<close>

definition binding_name :: "binding \<Rightarrow> string" where
  "binding_name b = located_value (b_name (located_value b))"

definition binding_kind_of :: "binding \<Rightarrow> binding_kind" where
  "binding_kind_of b = b_kind (located_value b)"

definition binding_value :: "binding \<Rightarrow> expr" where
  "binding_value b = b_value (located_value b)"

definition binding_annotation :: "binding \<Rightarrow> expr option" where
  "binding_annotation b = b_annotation (located_value b)"

definition block_bindings :: "block \<Rightarrow> binding list" where
  "block_bindings b = bl_bindings (located_value b)"

definition block_result :: "block \<Rightarrow> expr" where
  "block_result b = bl_result (located_value b)"

lemma block_exprs_parts [simp, intro]:
  "block_result b \<in> block_exprs b"
  "d \<in> set (block_bindings b) \<Longrightarrow> binding_value d \<in> block_exprs b"
  "d \<in> set (block_bindings b) \<Longrightarrow> binding_annotation d = Some a \<Longrightarrow> a \<in> block_exprs b"
proof -
  have "b_value x \<in> set_binding_data x" for x :: "expr binding_data" by (cases x) simp
  moreover have "b_annotation x = Some a \<Longrightarrow> a \<in> set_binding_data x" for x :: "expr binding_data"
    by (cases x) simp
  moreover have "bl_result x \<in> set_block_kind x" for x :: "expr block_kind" by (cases x) simp
  moreover have "d \<in> set (bl_bindings x) \<Longrightarrow> e \<in> set_binding_data (located_value d) \<Longrightarrow>
      e \<in> set_block_kind x" for x :: "expr block_kind" and e
    by (cases x) (auto simp: set_located_value)
  ultimately show "block_result b \<in> block_exprs b"
    and "d \<in> set (block_bindings b) \<Longrightarrow> binding_value d \<in> block_exprs b"
    and "d \<in> set (block_bindings b) \<Longrightarrow> binding_annotation d = Some a \<Longrightarrow> a \<in> block_exprs b"
    by (auto simp: held_def block_result_def block_bindings_def binding_value_def
        binding_annotation_def)
qed

text \<open>A \<open>BTreeSet\<close> of names is the sorted list of its elements.\<close>

definition free_block ::
    "(expr \<Rightarrow> string set \<Rightarrow> string list \<Rightarrow> string list) \<Rightarrow> block \<Rightarrow> string set \<Rightarrow>
     string list \<Rightarrow> string list" where
  "free_block fe b bound free =
     (let declared = binding_name ` set (filter (\<lambda>d. binding_kind_of d \<in> {BK_Decl, BK_Native})
            (block_bindings b));
          (bound', free') = fold (\<lambda>d (bound, free).
              (insert (binding_name d) bound,
               if binding_kind_of d \<in> {BK_Decl, BK_Native} then free
               else fe (binding_value d) bound free))
            (block_bindings b) (bound \<union> declared, free)
      in fe (block_result b) bound' free')"

lemma free_block_cong [fundef_cong]:
  assumes "b = b'" "bound = bound'" "free = free'"
    and "\<And>e bound free. e \<in> block_exprs b' \<Longrightarrow> fe e bound free = fe' e bound free"
  shows "free_block fe b bound free = free_block fe' b' bound' free'"
proof -
  have "fold (\<lambda>d (bound, free). (insert (binding_name d) bound,
        if binding_kind_of d \<in> {BK_Decl, BK_Native} then free
        else fe (binding_value d) bound free)) (block_bindings b') s =
      fold (\<lambda>d (bound, free). (insert (binding_name d) bound,
        if binding_kind_of d \<in> {BK_Decl, BK_Native} then free
        else fe' (binding_value d) bound free)) (block_bindings b') s" for s
    by (rule fold_cong) (auto simp: assms(4))
  then show ?thesis by (simp add: free_block_def assms)
qed

definition part_expression :: "string_part \<Rightarrow> expr option" where
  "part_expression p = (case located_value p of SP_Text _ \<Rightarrow> None | SP_Expression e \<Rightarrow> Some e)"

definition field_value :: "dict_field \<Rightarrow> expr" where
  "field_value f = df_value (located_value f)"

definition field_name :: "dict_field \<Rightarrow> string option" where
  "field_name f = map_option located_value (df_name (located_value f))"

definition arm_value :: "match_arm \<Rightarrow> expr" where
  "arm_value a = ma_value (located_value a)"

definition arm_guard :: "match_arm \<Rightarrow> expr option" where
  "arm_guard a = ma_guard (located_value a)"

definition arm_pattern :: "match_arm \<Rightarrow> pattern" where
  "arm_pattern a = ma_pattern (located_value a)"

lemma held_parts [simp, intro]:
  "part_expression p = Some e \<Longrightarrow> e \<in> held set_string_part_kind p"
  "field_value f \<in> held set_dict_field_kind f"
  "arm_value a \<in> held set_match_arm_kind a"
  "arm_guard a = Some e \<Longrightarrow> e \<in> held set_match_arm_kind a"
proof -
  have "df_value x \<in> set_dict_field_kind x" for x :: "expr dict_field_kind" by (cases x) simp
  moreover have "ma_value x \<in> set_match_arm_kind x"
    and "ma_guard x = Some e \<Longrightarrow> e \<in> set_match_arm_kind x" for x :: "expr match_arm_kind"
    by (cases x; simp)+
  ultimately show "part_expression p = Some e \<Longrightarrow> e \<in> held set_string_part_kind p"
    "field_value f \<in> held set_dict_field_kind f" "arm_value a \<in> held set_match_arm_kind a"
    "arm_guard a = Some e \<Longrightarrow> e \<in> held set_match_arm_kind a"
    by (auto simp: held_def part_expression_def field_value_def arm_value_def arm_guard_def
        split: string_part_kind.splits)
qed

lemma all_heldI: "x \<in> set xs \<Longrightarrow> e \<in> f x \<Longrightarrow> e \<in> all_held f xs"
  by (auto simp: all_held_def)

lemma all_held_parts [intro]:
  "p \<in> set parts \<Longrightarrow> part_expression p = Some e \<Longrightarrow> e \<in> all_held (held set_string_part_kind) parts"
  "f \<in> set fs \<Longrightarrow> field_value f \<in> all_held (held set_dict_field_kind) fs"
  "a \<in> set arms \<Longrightarrow> arm_value a \<in> all_held (held set_match_arm_kind) arms"
  "a \<in> set arms \<Longrightarrow> arm_guard a = Some e \<Longrightarrow> e \<in> all_held (held set_match_arm_kind) arms"
  by (auto intro: all_heldI)

lemma size_sub: "e \<in> subexprs k \<Longrightarrow> size e < size (Expr k l)"
  using size_subexprs by fastforce

function (sequential) free_expr :: "expr \<Rightarrow> string set \<Rightarrow> string list \<Rightarrow> string list" where
  "free_expr (Expr (E_Variable name) _) bound free =
     (if located_value name \<in> bound then free else insort_insert (located_value name) free)"
| "free_expr (Expr (E_Array items) _) bound free = fold (\<lambda>e. free_expr e bound) items free"
| "free_expr (Expr (E_Tuple items) _) bound free = fold (\<lambda>e. free_expr e bound) items free"
| "free_expr (Expr (E_Spread e) _) bound free = free_expr e bound free"
| "free_expr (Expr (E_InterpolatedString parts) _) bound free =
     fold (\<lambda>p free. case part_expression p of None \<Rightarrow> free | Some e \<Rightarrow> free_expr e bound free) parts free"
| "free_expr (Expr (E_Dict fs) _) bound free = fold (\<lambda>f. free_expr (field_value f) bound) fs free"
| "free_expr (Expr (E_Block b) _) bound free = free_block free_expr b bound free"
| "free_expr (Expr (E_Unary _ e) _) bound free = free_expr e bound free"
| "free_expr (Expr (E_Propagate e) _) bound free = free_expr e bound free"
| "free_expr (Expr (E_Return e) _) bound free = free_expr e bound free"
| "free_expr (Expr (E_Panic e) _) bound free = free_expr e bound free"
| "free_expr (Expr (E_Raise e) _) bound free = free_expr e bound free"
| "free_expr (Expr (E_Binary _ l r) _) bound free = free_expr r bound (free_expr l bound free)"
| "free_expr (Expr (E_Field e _) _) bound free = free_expr e bound free"
| "free_expr (Expr (E_Call f args) _) bound free =
     fold (\<lambda>e. free_expr e bound) args (free_expr f bound free)"
| "free_expr (Expr (E_TypeApply f _) _) bound free = free_expr f bound free"
| "free_expr (Expr (E_Interpreter _ e) _) bound free = free_expr e bound free"
| "free_expr (Expr (E_Closure ps _ b) _) bound free =
     fold (\<lambda>name free. if name \<in> bound then free else insort_insert name free)
       (free_block free_expr b (set (map (\<lambda>p. located_value (cp_name p)) ps)) []) free"
| "free_expr (Expr (E_If c t e) _) bound free =
     free_block free_expr e bound (free_block free_expr t bound (free_expr c bound free))"
| "free_expr (Expr (E_IfLet p v t e) _) bound free =
     free_block free_expr e bound
       (free_block free_expr t (bind_pattern p bound) (free_expr v bound free))"
| "free_expr (Expr (E_LetElse p v e b) _) bound free =
     free_block free_expr b (bind_pattern p bound)
       (free_block free_expr e bound (free_expr v bound free))"
| "free_expr (Expr (E_Match v arms) _) bound free =
     fold (\<lambda>a free. let arm_bound = bind_pattern (arm_pattern a) bound in
         free_expr (arm_value a) arm_bound
           (case arm_guard a of None \<Rightarrow> free | Some g \<Rightarrow> free_expr g arm_bound free))
       arms (free_expr v bound free)"
| "free_expr (Expr _ _) bound free = free"
  by pat_completeness auto
termination
  by (relation "measure (\<lambda>(e, bound, free). size e)")
     (auto simp del: expr.size expr_kind.size intro!: size_sub)

definition names_block :: "(expr \<Rightarrow> string set \<Rightarrow> string set) \<Rightarrow> block \<Rightarrow> string set \<Rightarrow> string set" where
  "names_block ne b names =
     ne (block_result b)
       (fold (\<lambda>d names. if binding_kind_of d \<in> {BK_Let, BK_Def} then ne (binding_value d) names else names)
         (block_bindings b) names)"

lemma names_block_cong [fundef_cong]:
  assumes "b = b'" "names = names'" "\<And>e names. e \<in> block_exprs b' \<Longrightarrow> ne e names = ne' e names"
  shows "names_block ne b names = names_block ne' b' names'"
proof -
  have "fold (\<lambda>d names. if binding_kind_of d \<in> {BK_Let, BK_Def} then ne (binding_value d) names else names)
        (block_bindings b') names' =
      fold (\<lambda>d names. if binding_kind_of d \<in> {BK_Let, BK_Def} then ne' (binding_value d) names else names)
        (block_bindings b') names'"
    by (rule fold_cong) (auto simp: assms(3) fun_eq_iff)
  then show ?thesis by (simp add: names_block_def assms)
qed

function (sequential) collect_runtime_names :: "expr \<Rightarrow> string set \<Rightarrow> string set" where
  "collect_runtime_names (Expr (E_Variable name) _) names = insert (located_value name) names"
| "collect_runtime_names (Expr (E_Array items) _) names = fold collect_runtime_names items names"
| "collect_runtime_names (Expr (E_Tuple items) _) names = fold collect_runtime_names items names"
| "collect_runtime_names (Expr (E_Spread e) _) names = collect_runtime_names e names"
| "collect_runtime_names (Expr (E_InterpolatedString parts) _) names =
     fold (\<lambda>p names. case part_expression p of None \<Rightarrow> names | Some e \<Rightarrow> collect_runtime_names e names)
       parts names"
| "collect_runtime_names (Expr (E_Dict fs) _) names =
     fold (\<lambda>f. collect_runtime_names (field_value f)) fs names"
| "collect_runtime_names (Expr (E_Block b) _) names = names_block collect_runtime_names b names"
| "collect_runtime_names (Expr (E_Unary _ e) _) names = collect_runtime_names e names"
| "collect_runtime_names (Expr (E_Propagate e) _) names = collect_runtime_names e names"
| "collect_runtime_names (Expr (E_Return e) _) names = collect_runtime_names e names"
| "collect_runtime_names (Expr (E_Panic e) _) names = collect_runtime_names e names"
| "collect_runtime_names (Expr (E_Raise e) _) names = collect_runtime_names e names"
| "collect_runtime_names (Expr (E_Binary _ l r) _) names =
     collect_runtime_names r (collect_runtime_names l names)"
| "collect_runtime_names (Expr (E_Field e _) _) names = collect_runtime_names e names"
| "collect_runtime_names (Expr (E_Call f args) _) names =
     fold collect_runtime_names args (collect_runtime_names f names)"
| "collect_runtime_names (Expr (E_TypeApply f _) _) names = collect_runtime_names f names"
| "collect_runtime_names (Expr (E_Interpreter _ e) _) names = collect_runtime_names e names"
| "collect_runtime_names (Expr (E_Closure _ _ b) _) names = names_block collect_runtime_names b names"
| "collect_runtime_names (Expr (E_If c t e) _) names =
     names_block collect_runtime_names e
       (names_block collect_runtime_names t (collect_runtime_names c names))"
| "collect_runtime_names (Expr (E_IfLet _ v t e) _) names =
     names_block collect_runtime_names e
       (names_block collect_runtime_names t (collect_runtime_names v names))"
| "collect_runtime_names (Expr (E_LetElse _ v e b) _) names =
     names_block collect_runtime_names b
       (names_block collect_runtime_names e (collect_runtime_names v names))"
| "collect_runtime_names (Expr (E_Match v arms) _) names =
     fold (\<lambda>a names. collect_runtime_names (arm_value a)
         (case arm_guard a of None \<Rightarrow> names | Some g \<Rightarrow> collect_runtime_names g names))
       arms (collect_runtime_names v names)"
| "collect_runtime_names (Expr _ _) names = names"
  by pat_completeness auto
termination
  by (relation "measure (\<lambda>(e, names). size e)")
     (auto simp del: expr.size expr_kind.size intro!: size_sub)

definition function_contract_arity :: "expr \<Rightarrow> u32 option" where
  "function_contract_arity contract =
     (case expr_value contract of
        E_Call callee [parameters, _] \<Rightarrow>
          (case expr_value callee of
             E_Variable name \<Rightarrow>
               if located_value name \<noteq> ''Fn'' then None
               else (case expr_value parameters of
                   E_Array items \<Rightarrow> u32_try_from (length items)
                 | _ \<Rightarrow> None)
           | _ \<Rightarrow> None)
      | _ \<Rightarrow> None)"

definition atom_value :: "string \<Rightarrow> val" where
  "atom_value name =
     VAtom (if name = ''None'' then Atom_Builtin BA_None
       else if name = ''Some'' then Atom_Builtin BA_Some
       else if name = ''Ok'' then Atom_Builtin BA_Ok
       else if name = ''Err'' then Atom_Builtin BA_Err
       else if name = ''True'' then Atom_Builtin BA_True
       else if name = ''False'' then Atom_Builtin BA_False
       else Atom_Named name)"

definition type_link_key :: "string \<Rightarrow> string" where
  "type_link_key name = ''type:'' @ name"

end
