(* ===== verification/Hir.thy ===== *)
theory Hir
  imports Frontend Runtime_Names
begin

text \<open>
  Name resolution (\<open>crates/telora-core/src/hir.rs\<close>): the tables of definitions, references and
  expressions of a program, the resolver that fills them in one walk over the tree, and the final
  renumbering by location. The stack of scopes, a parameter of the methods, is part of the state; its
  innermost scope is the head of the list. An index out of range and an \<open>expect\<close> are panics.
\<close>

section \<open>The tables\<close>

type_synonym hir_id = u32

datatype hir_definition_kind =
    HK_Let | HK_DefinitionSlot | HK_Type | HK_Import | HK_Native | HK_Parameter | HK_Pattern

datatype hir_resolution = HR_Definition hir_id | HR_External | HR_Unresolved

record hir_definition =
  hd_id :: hir_id
  hd_name :: string
  hd_kind :: hir_definition_kind
  hd_location :: loc
  hd_additional_locations :: "loc list"
  hd_type_parameters :: "ident list"
  hd_top_level :: bool
  hd_value :: "hir_id option"

record hir_reference =
  hr_id :: hir_id
  hr_name :: string
  hr_location :: loc
  hr_resolution :: hir_resolution

record hir_expression =
  he_id :: hir_id
  he_location :: loc
  he_parent :: "hir_id option"
  he_reference :: "hir_id option"

record hir_program =
  hp_definitions :: "hir_definition list"
  hp_references :: "hir_reference list"
  hp_expressions :: "hir_expression list"

definition hir_empty :: hir_program where
  "hir_empty = \<lparr> hp_definitions = [], hp_references = [], hp_expressions = [] \<rparr>"

definition hir_get :: "'a list \<Rightarrow> hir_id \<Rightarrow> 'a option" where
  "hir_get xs i = (if unat i < length xs then Some (xs ! unat i) else None)"

definition hir_definition_at :: "hir_program \<Rightarrow> hir_id \<Rightarrow> hir_definition option" where
  "hir_definition_at h = hir_get (hp_definitions h)"

definition hir_reference_at :: "hir_program \<Rightarrow> hir_id \<Rightarrow> hir_reference option" where
  "hir_reference_at h = hir_get (hp_references h)"

definition hir_expression_at :: "hir_program \<Rightarrow> hir_id \<Rightarrow> hir_expression option" where
  "hir_expression_at h = hir_get (hp_expressions h)"

definition expression_ids_at :: "hir_program \<Rightarrow> loc \<Rightarrow> hir_id list" where
  "expression_ids_at h location =
     map he_id (filter (\<lambda>e. he_location e = location) (hp_expressions h))"

definition hir_unresolved :: "hir_program \<Rightarrow> hir_reference list" where
  "hir_unresolved h = filter (\<lambda>r. hr_resolution r = HR_Unresolved) (hp_references h)"

section \<open>Renumbering\<close>

definition out_of_bounds :: string where
  "out_of_bounds = ''index out of bounds''"

definition hir_index :: "'a list \<Rightarrow> hir_id \<Rightarrow> string + 'a" where
  "hir_index xs i = ok_or out_of_bounds (hir_get xs i)"

text \<open>The table from the old ids, in the new order, to the new ones.\<close>

definition renumbering :: "hir_id list \<Rightarrow> string + hir_id list" where
  "renumbering old =
     (if \<forall>i \<in> set old. unat i < length old
      then Inr (fold (\<lambda>(new, i) table. table[unat i := of_nat new]) (enumerate 0 old) (replicate (length old) 0))
      else Inl out_of_bounds)"

text \<open>A loop that changes every element and stops at the first panic.\<close>

fun rmap :: "('a \<Rightarrow> 'e + 'b) \<Rightarrow> 'a list \<Rightarrow> 'e + 'b list" where
  "rmap f [] = Inr []"
| "rmap f (x # xs) = rbind (f x) (\<lambda>y. rbind (rmap f xs) (\<lambda>ys. Inr (y # ys)))"

definition renumber_resolution :: "hir_id list \<Rightarrow> hir_reference \<Rightarrow> string + hir_reference" where
  "renumber_resolution table r =
     (case hr_resolution r of
        HR_Definition i \<Rightarrow> rbind (hir_index table i) (\<lambda>i. Inr (r\<lparr> hr_resolution := HR_Definition i \<rparr>))
      | _ \<Rightarrow> Inr r)"

definition renumber_option :: "hir_id list \<Rightarrow> hir_id option \<Rightarrow> string + hir_id option" where
  "renumber_option table x =
     (case x of None \<Rightarrow> Inr None | Some i \<Rightarrow> rbind (hir_index table i) (\<lambda>i. Inr (Some i)))"

definition renumber_reference :: "hir_id list \<Rightarrow> hir_expression \<Rightarrow> string + hir_expression" where
  "renumber_reference table e =
     rbind (renumber_option table (he_reference e)) (\<lambda>r. Inr (e\<lparr> he_reference := r \<rparr>))"

definition renumber_value :: "hir_id list \<Rightarrow> hir_definition \<Rightarrow> string + hir_definition" where
  "renumber_value table d =
     rbind (renumber_option table (hd_value d)) (\<lambda>v. Inr (d\<lparr> hd_value := v \<rparr>))"

definition renumber_parent :: "hir_id list \<Rightarrow> hir_expression \<Rightarrow> string + hir_expression" where
  "renumber_parent table e =
     rbind (renumber_option table (he_parent e)) (\<lambda>p. Inr (e\<lparr> he_parent := p \<rparr>))"

definition numbered :: "(hir_id \<Rightarrow> 'a \<Rightarrow> 'a) \<Rightarrow> 'a list \<Rightarrow> 'a list" where
  "numbered set_id xs = map (\<lambda>(i, x). set_id (of_nat i) x) (enumerate 0 xs)"

definition normalize_order :: "hir_program \<Rightarrow> string + hir_program" where
  "normalize_order h =
     (let definitions = sort_key hd_location (hp_definitions h) in
      rbind (renumbering (map hd_id definitions)) (\<lambda>definition_table.
      let definitions = numbered (\<lambda>i. hd_id_update (\<lambda>_. i)) definitions in
      rbind (rmap (renumber_resolution definition_table) (hp_references h)) (\<lambda>references.
      let references = sort_key hr_location references in
      rbind (renumbering (map hr_id references)) (\<lambda>reference_table.
      let references = numbered (\<lambda>i. hr_id_update (\<lambda>_. i)) references in
      rbind (rmap (renumber_reference reference_table) (hp_expressions h)) (\<lambda>expressions.
      let expressions = sort_key he_location expressions in
      rbind (renumbering (map he_id expressions)) (\<lambda>expression_table.
      let expressions = numbered (\<lambda>i. he_id_update (\<lambda>_. i)) expressions in
      rbind (rmap (renumber_value expression_table) definitions) (\<lambda>definitions.
      rbind (rmap (renumber_parent expression_table) expressions) (\<lambda>expressions.
      Inr \<lparr> hp_definitions = definitions, hp_references = references,
        hp_expressions = expressions \<rparr>))))))))"

section \<open>The resolver\<close>

type_synonym scope = "string \<rightharpoonup> hir_id"

record resolver =
  rs_hir :: hir_program
  rs_external_names :: "string set"
  rs_expression_stack :: "hir_id list"
  rs_scopes :: "scope list"

type_synonym 'a resolving = "(resolver, string, 'a) eff"

fun resolve_name :: "scope list \<Rightarrow> string \<Rightarrow> hir_id option" where
  "resolve_name [] name = None"
| "resolve_name (scope # scopes) name =
     (case scope name of Some i \<Rightarrow> Some i | None \<Rightarrow> resolve_name scopes name)"

definition change_hir :: "(hir_program \<Rightarrow> hir_program) \<Rightarrow> unit resolving" where
  "change_hir f = emodify (\<lambda>r. r\<lparr> rs_hir := f (rs_hir r) \<rparr>)"

definition push_scope :: "unit resolving" where
  "push_scope = emodify (\<lambda>r. r\<lparr> rs_scopes := Map.empty # rs_scopes r \<rparr>)"

definition pop_scope :: "unit resolving" where
  "pop_scope = emodify (\<lambda>r. r\<lparr> rs_scopes := tl (rs_scopes r) \<rparr>)"

definition change_definition :: "hir_id \<Rightarrow> (hir_definition \<Rightarrow> hir_definition) \<Rightarrow> unit resolving" where
  "change_definition i f =
     ebind (eget (\<lambda>r. unat i < length (hp_definitions (rs_hir r)))) (\<lambda>found.
     if found then change_hir (\<lambda>h. h\<lparr> hp_definitions :=
         (hp_definitions h)[unat i := f (hp_definitions h ! unat i)] \<rparr>)
     else efail out_of_bounds)"

text \<open>A definition in the innermost scope.\<close>

definition define_name :: "string \<Rightarrow> hir_definition_kind \<Rightarrow> loc \<Rightarrow> bool \<Rightarrow> hir_id resolving" where
  "define_name name kind location top_level =
     ebind (eget rs_scopes) (\<lambda>scopes. case scopes of
       [] \<Rightarrow> efail ''block has a scope''
     | scope # outer \<Rightarrow>
         ebind (eget (\<lambda>r. of_nat (length (hp_definitions (rs_hir r))))) (\<lambda>i.
         ebind (change_hir (\<lambda>h. h\<lparr> hp_definitions := hp_definitions h @
           [\<lparr> hd_id = i, hd_name = name, hd_kind = kind, hd_location = location,
              hd_additional_locations = [], hd_type_parameters = [], hd_top_level = top_level,
              hd_value = None \<rparr>] \<rparr>)) (\<lambda>_.
         ebind (emodify (\<lambda>r. r\<lparr> rs_scopes := scope(name \<mapsto> i) # outer \<rparr>)) (\<lambda>_.
         eret i))))"

definition definition_kind :: "binding_kind \<Rightarrow> hir_definition_kind" where
  "definition_kind kind =
     (case kind of
        BK_Let \<Rightarrow> HK_Let
      | BK_Decl \<Rightarrow> HK_DefinitionSlot
      | BK_Def \<Rightarrow> HK_DefinitionSlot
      | BK_Type \<Rightarrow> HK_Type
      | BK_Import \<Rightarrow> HK_Import
      | BK_OpenImport \<Rightarrow> HK_Import
      | BK_Export \<Rightarrow> HK_Import
      | BK_Native \<Rightarrow> HK_Native
      | BK_NativeType \<Rightarrow> HK_Native)"

definition binding_ident :: "binding \<Rightarrow> ident" where
  "binding_ident b = b_name (located_value b)"

definition binding_type_parameters :: "binding \<Rightarrow> ident list" where
  "binding_type_parameters b = b_type_parameters (located_value b)"

definition define_binding :: "binding \<Rightarrow> bool \<Rightarrow> hir_id resolving" where
  "define_binding b top_level =
     ebind (define_name (binding_name b) (definition_kind (binding_kind_of b))
       (located_at (binding_ident b)) top_level) (\<lambda>i.
     ebind (change_definition i (\<lambda>d. d\<lparr> hd_type_parameters := binding_type_parameters b \<rparr>)) (\<lambda>_.
     eret i))"

definition set_value :: "hir_id \<Rightarrow> hir_id \<Rightarrow> unit resolving" where
  "set_value d v = change_definition d (\<lambda>d. d\<lparr> hd_value := Some v \<rparr>)"

section \<open>The walk\<close>

definition index_all :: "(expr \<Rightarrow> hir_id resolving) \<Rightarrow> expr list \<Rightarrow> unit resolving" where
  "index_all ie es = eiter (\<lambda>e. ebind (ie e) (\<lambda>_. eret ())) es"

text \<open>The type parameters of a binding are external names inside its annotation and its value.\<close>

definition index_binding_expr :: "(expr \<Rightarrow> hir_id resolving) \<Rightarrow> binding \<Rightarrow> expr \<Rightarrow> hir_id resolving" where
  "index_binding_expr ie b e =
     (let names = map located_value (binding_type_parameters b) in
      ebind (ecollect (\<lambda>name.
        ebind (eget (\<lambda>r. name \<notin> rs_external_names r)) (\<lambda>inserted.
        ebind (emodify (\<lambda>r. r\<lparr> rs_external_names := insert name (rs_external_names r) \<rparr>)) (\<lambda>_.
        eret inserted))) names) (\<lambda>inserted.
      ebind (ie e) (\<lambda>i.
      ebind (eiter (\<lambda>(name, inserted).
        if inserted then emodify (\<lambda>r. r\<lparr> rs_external_names := rs_external_names r - {name} \<rparr>)
        else eret ()) (zip names inserted)) (\<lambda>_.
      eret i))))"

definition predeclared :: "binding \<Rightarrow> bool resolving" where
  "predeclared b = eget (\<lambda>r.
     binding_kind_of b \<in> {BK_Decl, BK_Native, BK_NativeType, BK_Type} \<or>
     binding_kind_of b = BK_Def \<and> binding_annotation b \<noteq> None \<or>
     binding_kind_of b = BK_Def \<and> (case expr_value (binding_value b) of E_Closure _ _ _ \<Rightarrow> True | _ \<Rightarrow> False) \<and>
       resolve_name (rs_scopes r) (binding_name b) = None)"

definition index_definition :: "(expr \<Rightarrow> hir_id resolving) \<Rightarrow> bool \<Rightarrow> binding \<Rightarrow> unit resolving" where
  "index_definition ie top_level b =
     ebind (eget (\<lambda>r. resolve_name (rs_scopes r) (binding_name b))) (\<lambda>found.
     ebind (case found of
         None \<Rightarrow> define_binding b top_level
       | Some i \<Rightarrow>
           ebind (if binding_annotation b \<noteq> None then eret ()
             else change_definition i (\<lambda>d. if hd_location d \<noteq> located_at (binding_ident b)
               then d\<lparr> hd_additional_locations := hd_additional_locations d @ [located_at (binding_ident b)] \<rparr>
               else d)) (\<lambda>_.
           eret i)) (\<lambda>i.
     ebind (if binding_annotation b \<noteq> None then index_binding_expr ie b (binding_value b)
       else ie (binding_value b)) (\<lambda>v.
     set_value i v)))"

definition index_binding :: "(expr \<Rightarrow> hir_id resolving) \<Rightarrow> bool \<Rightarrow> binding \<Rightarrow> unit resolving" where
  "index_binding ie top_level b =
     (if binding_kind_of b \<in> {BK_OpenImport, BK_Export} then eret ()
      else
        ebind (case binding_annotation b of
            None \<Rightarrow> eret ()
          | Some annotation \<Rightarrow> ebind (index_binding_expr ie b annotation) (\<lambda>_. eret ())) (\<lambda>_.
        if binding_kind_of b \<in> {BK_Let, BK_Import} then
          ebind (ie (binding_value b)) (\<lambda>v. ebind (define_binding b top_level) (\<lambda>i. set_value i v))
        else if binding_kind_of b = BK_Def then index_definition ie top_level b
        else
          ebind (index_binding_expr ie b (binding_value b)) (\<lambda>v.
          ebind (eget (\<lambda>r. resolve_name (rs_scopes r) (binding_name b))) (\<lambda>found. case found of
            None \<Rightarrow> efail ''predeclared binding has a definition''
          | Some i \<Rightarrow> set_value i v))))"

definition index_block_parts ::
    "(expr \<Rightarrow> hir_id resolving) \<Rightarrow> binding list \<Rightarrow> expr option \<Rightarrow> bool \<Rightarrow> unit resolving" where
  "index_block_parts ie bindings result top_level =
     ebind push_scope (\<lambda>_.
     ebind (eiter (\<lambda>b. ebind (predeclared b) (\<lambda>early.
       if early then ebind (define_binding b top_level) (\<lambda>_. eret ()) else eret ())) bindings) (\<lambda>_.
     ebind (eiter (index_binding ie top_level) bindings) (\<lambda>_.
     ebind (case result of None \<Rightarrow> eret () | Some e \<Rightarrow> ebind (ie e) (\<lambda>_. eret ())) (\<lambda>_.
     pop_scope))))"

definition index_block :: "(expr \<Rightarrow> hir_id resolving) \<Rightarrow> block \<Rightarrow> bool \<Rightarrow> unit resolving" where
  "index_block ie b top_level =
     index_block_parts ie (block_bindings b) (Some (block_result b)) top_level"

function (sequential) index_pattern :: "pattern \<Rightarrow> unit resolving" where
  "index_pattern (Pattern (P_Binding name) l) =
     ebind (define_name (located_value name) HK_Pattern (located_at name) False) (\<lambda>_. eret ())"
| "index_pattern (Pattern (P_Tuple items) l) = eiter index_pattern items"
| "index_pattern (Pattern (P_Tagged _ payload) l) = index_pattern payload"
| "index_pattern (Pattern (P_Struct fs) l) = eiter (\<lambda>(name, p). index_pattern p) fs"
| "index_pattern (Pattern _ _) = eret ()"
  by pat_completeness auto
termination
  by (relation "measure size") (auto simp: termination_simp)

definition index_arm :: "(expr \<Rightarrow> hir_id resolving) \<Rightarrow> match_arm \<Rightarrow> unit resolving" where
  "index_arm ie a =
     ebind push_scope (\<lambda>_.
     ebind (index_pattern (arm_pattern a)) (\<lambda>_.
     ebind (case arm_guard a of None \<Rightarrow> eret () | Some g \<Rightarrow> ebind (ie g) (\<lambda>_. eret ())) (\<lambda>_.
     ebind (ie (arm_value a)) (\<lambda>_. pop_scope))))"

definition push_expression :: "loc \<Rightarrow> hir_id resolving" where
  "push_expression l =
     ebind (eget (\<lambda>r. of_nat (length (hp_expressions (rs_hir r))))) (\<lambda>i.
     ebind (eget (\<lambda>r. case rs_expression_stack r of [] \<Rightarrow> None | p # _ \<Rightarrow> Some p)) (\<lambda>parent.
     ebind (change_hir (\<lambda>h. h\<lparr> hp_expressions := hp_expressions h @
       [\<lparr> he_id = i, he_location = l, he_parent = parent, he_reference = None \<rparr>] \<rparr>)) (\<lambda>_.
     eret i)))"

definition enter_expression :: "loc \<Rightarrow> hir_id resolving" where
  "enter_expression l =
     ebind (push_expression l) (\<lambda>i.
     ebind (emodify (\<lambda>r. r\<lparr> rs_expression_stack := i # rs_expression_stack r \<rparr>)) (\<lambda>_. eret i))"

definition leave_expression :: "hir_id \<Rightarrow> hir_id option \<Rightarrow> hir_id resolving" where
  "leave_expression i reference =
     ebind (emodify (\<lambda>r. r\<lparr> rs_expression_stack := tl (rs_expression_stack r) \<rparr>)) (\<lambda>_.
     ebind (eget (\<lambda>r. unat i < length (hp_expressions (rs_hir r)))) (\<lambda>found.
     if found then
       ebind (change_hir (\<lambda>h. h\<lparr> hp_expressions := (hp_expressions h)[unat i :=
         (hp_expressions h ! unat i)\<lparr> he_reference := reference \<rparr>] \<rparr>)) (\<lambda>_. eret i)
     else efail out_of_bounds))"

definition index_variable :: "ident \<Rightarrow> hir_id resolving" where
  "index_variable name =
     ebind (eget (\<lambda>r. case resolve_name (rs_scopes r) (located_value name) of
         Some i \<Rightarrow> HR_Definition i
       | None \<Rightarrow> if located_value name \<in> rs_external_names r then HR_External else HR_Unresolved)) (\<lambda>resolution.
     ebind (eget (\<lambda>r. of_nat (length (hp_references (rs_hir r))))) (\<lambda>i.
     ebind (change_hir (\<lambda>h. h\<lparr> hp_references := hp_references h @
       [\<lparr> hr_id = i, hr_name = located_value name, hr_location = located_at name,
          hr_resolution = resolution \<rparr>] \<rparr>)) (\<lambda>_.
     eret i)))"

definition index_type_argument :: "(expr \<Rightarrow> hir_id resolving) \<Rightarrow> type_argument \<Rightarrow> unit resolving" where
  "index_type_argument ie a =
     (case located_value a of
        TA_Explicit e \<Rightarrow> ebind (ie e) (\<lambda>_. eret ())
      | TA_Infer \<Rightarrow> ebind (push_expression (located_at a)) (\<lambda>_. eret ()))"

definition index_closure ::
    "(expr \<Rightarrow> hir_id resolving) \<Rightarrow> expr closure_parameter list \<Rightarrow> expr option \<Rightarrow> block \<Rightarrow> unit resolving" where
  "index_closure ie ps r b =
     ebind (eiter (\<lambda>p. case cp_annotation p of
         None \<Rightarrow> eret () | Some e \<Rightarrow> ebind (ie e) (\<lambda>_. eret ())) ps) (\<lambda>_.
     ebind (case r of None \<Rightarrow> eret () | Some e \<Rightarrow> ebind (ie e) (\<lambda>_. eret ())) (\<lambda>_.
     ebind push_scope (\<lambda>_.
     ebind (eiter (\<lambda>p. ebind (define_name (located_value (cp_name p)) HK_Parameter
         (located_at (cp_name p)) False) (\<lambda>_. eret ())) ps) (\<lambda>_.
     ebind (index_block ie b False) (\<lambda>_. pop_scope)))))"

definition index_pattern_block :: "(expr \<Rightarrow> hir_id resolving) \<Rightarrow> pattern \<Rightarrow> block \<Rightarrow> unit resolving" where
  "index_pattern_block ie p b =
     ebind push_scope (\<lambda>_.
     ebind (index_pattern p) (\<lambda>_.
     ebind (index_block ie b False) (\<lambda>_. pop_scope)))"

text \<open>The parts ask the recursive method only for what they hold.\<close>

lemma index_all_cong [fundef_cong]:
  "es = es' \<Longrightarrow> (\<And>e. e \<in> set es' \<Longrightarrow> ie e = je e) \<Longrightarrow> index_all ie es = index_all je es'"
  unfolding index_all_def by (auto intro: eiter_cong)

lemma index_block_parts_cong:
  assumes "\<And>b. b \<in> set bs \<Longrightarrow> ie (binding_value b) = je (binding_value b)"
    and "\<And>b e. b \<in> set bs \<Longrightarrow> binding_annotation b = Some e \<Longrightarrow> ie e = je e"
    and "\<And>e. r = Some e \<Longrightarrow> ie e = je e"
  shows "index_block_parts ie bs r level = index_block_parts je bs r level"
proof -
  have "index_binding ie level b = index_binding je level b" if "b \<in> set bs" for b
  proof -
    note v = assms(1)[OF that] and a = assms(2)[OF that]
    have "index_binding_expr ie b (binding_value b) = index_binding_expr je b (binding_value b)"
      unfolding index_binding_expr_def v ..
    moreover have "index_binding_expr ie b e = index_binding_expr je b e" if "binding_annotation b = Some e" for e
      unfolding index_binding_expr_def a[OF that] ..
    ultimately show ?thesis
      unfolding index_binding_def index_definition_def v by (auto split: option.split)
  qed
  then have "eiter (index_binding ie level) bs = eiter (index_binding je level) bs" by (intro eiter_cong) auto
  with assms(3) show ?thesis unfolding index_block_parts_def by (auto split: option.split)
qed

lemma index_block_cong [fundef_cong]:
  assumes "b = b'" "t = t'" "\<And>e. e \<in> block_exprs b' \<Longrightarrow> ie e = je e"
  shows "index_block ie b t = index_block je b' t'"
  unfolding index_block_def assms(1,2) by (rule index_block_parts_cong) (auto intro!: assms(3))

lemma index_parts_cong [fundef_cong]:
  "a = a' \<Longrightarrow> (\<And>e. e \<in> held set_match_arm_kind a' \<Longrightarrow> ie e = je e) \<Longrightarrow> index_arm ie a = index_arm je a'"
  "x = x' \<Longrightarrow> (\<And>e. e \<in> held set_type_argument_kind x' \<Longrightarrow> ie e = je e) \<Longrightarrow>
   index_type_argument ie x = index_type_argument je x'"
  "p = p' \<Longrightarrow> b = b' \<Longrightarrow> (\<And>e. e \<in> block_exprs b' \<Longrightarrow> ie e = je e) \<Longrightarrow>
   index_pattern_block ie p b = index_pattern_block je p' b'"
proof -
  show "a = a' \<Longrightarrow> (\<And>e. e \<in> held set_match_arm_kind a' \<Longrightarrow> ie e = je e) \<Longrightarrow> index_arm ie a = index_arm je a'"
    unfolding index_arm_def by (auto split: option.split intro!: ebind_cong)
  show "x = x' \<Longrightarrow> (\<And>e. e \<in> held set_type_argument_kind x' \<Longrightarrow> ie e = je e) \<Longrightarrow>
      index_type_argument ie x = index_type_argument je x'"
    unfolding index_type_argument_def by (auto split: type_argument_kind.split simp: held_def)
  show "p = p' \<Longrightarrow> b = b' \<Longrightarrow> (\<And>e. e \<in> block_exprs b' \<Longrightarrow> ie e = je e) \<Longrightarrow>
      index_pattern_block ie p b = index_pattern_block je p' b'"
    unfolding index_pattern_block_def by (auto cong: index_block_cong)
qed

lemma index_closure_cong [fundef_cong]:
  assumes "ps = ps'" "r = r'" "b = b'"
    and "\<And>e. e \<in> all_held set_closure_parameter ps' \<union> set_option r' \<union> block_exprs b' \<Longrightarrow> ie e = je e"
  shows "index_closure ie ps r b = index_closure je ps' r' b'"
proof -
  have "index_block ie b' False = index_block je b' False"
    by (rule index_block_cong) (auto intro!: assms(4))
  moreover have "(case cp_annotation p of None \<Rightarrow> eret () | Some e \<Rightarrow> ebind (ie e) (\<lambda>_. eret ())) =
      (case cp_annotation p of None \<Rightarrow> eret () | Some e \<Rightarrow> ebind (je e) (\<lambda>_. eret ()))" if "p \<in> set ps'" for p
  proof (cases "cp_annotation p")
    case (Some e)
    then have "e \<in> set_closure_parameter p" by (cases p) auto
    with that have "e \<in> all_held set_closure_parameter ps'" by (auto intro: all_heldI)
    with Some assms(4) show ?thesis by simp
  qed simp
  then have "eiter (\<lambda>p. case cp_annotation p of None \<Rightarrow> eret () | Some e \<Rightarrow> ebind (ie e) (\<lambda>_. eret ())) ps' =
      eiter (\<lambda>p. case cp_annotation p of None \<Rightarrow> eret () | Some e \<Rightarrow> ebind (je e) (\<lambda>_. eret ())) ps'"
    by (intro eiter_cong) auto
  moreover have "(case r' of None \<Rightarrow> eret () | Some e \<Rightarrow> ebind (ie e) (\<lambda>_. eret ())) =
      (case r' of None \<Rightarrow> eret () | Some e \<Rightarrow> ebind (je e) (\<lambda>_. eret ()))"
    using assms(4) by (auto split: option.split)
  ultimately show ?thesis unfolding index_closure_def assms(1-3) by simp
qed

text \<open>Each expression is entered before its parts and left after them.\<close>

function (sequential) index_expr :: "expr \<Rightarrow> hir_id resolving"
  and index_kind :: "expr_kind \<Rightarrow> hir_id option resolving" where
  "index_expr (Expr k l) =
     ebind (enter_expression l) (\<lambda>i.
     ebind (index_kind k) (leave_expression i))"
| "index_kind (E_Variable name) = ebind (index_variable name) (\<lambda>i. eret (Some i))"
| "index_kind (E_InterpolatedString parts) =
     ebind (eiter (\<lambda>p. case part_expression p of
         None \<Rightarrow> eret () | Some e \<Rightarrow> ebind (index_expr e) (\<lambda>_. eret ())) parts) (\<lambda>_. eret None)"
| "index_kind (E_Array items) = ebind (index_all index_expr items) (\<lambda>_. eret None)"
| "index_kind (E_Tuple items) = ebind (index_all index_expr items) (\<lambda>_. eret None)"
| "index_kind (E_Spread e) = ebind (index_expr e) (\<lambda>_. eret None)"
| "index_kind (E_Dict fs) =
     ebind (eiter (\<lambda>f. ebind (index_expr (field_value f)) (\<lambda>_. eret ())) fs) (\<lambda>_. eret None)"
| "index_kind (E_Block b) = ebind (index_block index_expr b False) (\<lambda>_. eret None)"
| "index_kind (E_Unary _ e) = ebind (index_expr e) (\<lambda>_. eret None)"
| "index_kind (E_Propagate e) = ebind (index_expr e) (\<lambda>_. eret None)"
| "index_kind (E_Return e) = ebind (index_expr e) (\<lambda>_. eret None)"
| "index_kind (E_Panic e) = ebind (index_expr e) (\<lambda>_. eret None)"
| "index_kind (E_Raise e) = ebind (index_expr e) (\<lambda>_. eret None)"
| "index_kind (E_Binary _ x y) =
     ebind (index_expr x) (\<lambda>_. ebind (index_expr y) (\<lambda>_. eret None))"
| "index_kind (E_Field e _) = ebind (index_expr e) (\<lambda>_. eret None)"
| "index_kind (E_Call f args) =
     ebind (index_expr f) (\<lambda>_. ebind (index_all index_expr args) (\<lambda>_. eret None))"
| "index_kind (E_TypeApply f args) =
     ebind (index_expr f) (\<lambda>_. ebind (eiter (index_type_argument index_expr) args) (\<lambda>_. eret None))"
| "index_kind (E_Interpreter operand _) = ebind (index_expr operand) (\<lambda>_. eret None)"
| "index_kind (E_Closure ps r b) = ebind (index_closure index_expr ps r b) (\<lambda>_. eret None)"
| "index_kind (E_If c t e) =
     ebind (index_expr c) (\<lambda>_.
     ebind (index_block index_expr t False) (\<lambda>_.
     ebind (index_block index_expr e False) (\<lambda>_. eret None)))"
| "index_kind (E_IfLet p v t e) =
     ebind (index_expr v) (\<lambda>_.
     ebind (index_pattern_block index_expr p t) (\<lambda>_.
     ebind (index_block index_expr e False) (\<lambda>_. eret None)))"
| "index_kind (E_LetElse p v e b) =
     ebind (index_expr v) (\<lambda>_.
     ebind (index_block index_expr e False) (\<lambda>_.
     ebind (index_pattern_block index_expr p b) (\<lambda>_. eret None)))"
| "index_kind (E_Match v arms) =
     ebind (index_expr v) (\<lambda>_. ebind (eiter (index_arm index_expr) arms) (\<lambda>_. eret None))"
| "index_kind _ = eret None"
  by pat_completeness auto
termination
  by (relation "measure (\<lambda>x. case x of Inl e \<Rightarrow> size e | Inr k \<Rightarrow> size k)")
     (auto simp del: expr_kind.size intro!: size_subexprs intro: all_heldI)

section \<open>Entry points\<close>

definition resolver_start :: "string set \<Rightarrow> resolver" where
  "resolver_start external_names =
     \<lparr> rs_hir = hir_empty, rs_external_names = external_names, rs_expression_stack = [], rs_scopes = [] \<rparr>"

definition run_resolver :: "'a resolving \<Rightarrow> string set \<Rightarrow> string + hir_program" where
  "run_resolver m external_names =
     (case m (resolver_start external_names) of
        (Inl panic, _) \<Rightarrow> Inl panic
      | (Inr _, r) \<Rightarrow> normalize_order (rs_hir r))"

definition hir_resolve :: "program \<Rightarrow> string set \<Rightarrow> string + hir_program" where
  "hir_resolve p = run_resolver (index_block index_expr (pk_body (located_value p)) True)"

definition hir_resolve_expression :: "expr \<Rightarrow> string set \<Rightarrow> string + hir_program" where
  "hir_resolve_expression e = run_resolver (index_expr e)"

definition hir_resolve_recovered :: "binding list \<Rightarrow> expr option \<Rightarrow> string set \<Rightarrow> string + hir_program" where
  "hir_resolve_recovered bindings result =
     run_resolver (index_block_parts index_expr bindings result True)"

end
