(* ===== verification/Hir_Correct.thy ===== *)
theory Hir_Correct
  imports Hir
begin

text \<open>
  Name resolution never panics, and what it returns is closed: every id is the position of its entry,
  and a reference that is resolved to a definition has the name of that definition.
\<close>

section \<open>The invariant of the resolver\<close>

definition valid_id :: "nat \<Rightarrow> hir_id option \<Rightarrow> bool" where
  "valid_id n x \<longleftrightarrow> pred_option (\<lambda>i. unat i < n) x"

text \<open>An id of a definition with a name; with more definitions than ids the name may be another.\<close>

definition names_definition :: "hir_definition list \<Rightarrow> hir_id \<Rightarrow> string \<Rightarrow> bool" where
  "names_definition ds i name \<longleftrightarrow>
     unat i < length ds \<and> (length ds \<le> Suc u32_max \<longrightarrow> hd_name (ds ! unat i) = name)"

definition definition_ok :: "nat \<Rightarrow> nat \<times> hir_definition \<Rightarrow> bool" where
  "definition_ok n = (\<lambda>(i, d). hd_id d = of_nat i \<and> valid_id n (hd_value d))"

definition resolution_ok :: "hir_definition list \<Rightarrow> string \<Rightarrow> hir_resolution \<Rightarrow> bool" where
  "resolution_ok ds name x \<longleftrightarrow> (\<forall>i. x = HR_Definition i \<longrightarrow> names_definition ds i name)"

definition reference_ok :: "hir_definition list \<Rightarrow> nat \<times> hir_reference \<Rightarrow> bool" where
  "reference_ok ds = (\<lambda>(i, r). hr_id r = of_nat i \<and> resolution_ok ds (hr_name r) (hr_resolution r))"

definition expression_ok :: "nat \<Rightarrow> nat \<Rightarrow> nat \<times> hir_expression \<Rightarrow> bool" where
  "expression_ok n m = (\<lambda>(i, e). he_id e = of_nat i \<and> valid_id n (he_parent e) \<and> valid_id m (he_reference e))"

definition hir_ok :: "hir_program \<Rightarrow> bool" where
  "hir_ok h \<longleftrightarrow>
     list_all (definition_ok (length (hp_expressions h))) (enumerate 0 (hp_definitions h)) \<and>
     list_all (reference_ok (hp_definitions h)) (enumerate 0 (hp_references h)) \<and>
     list_all (expression_ok (length (hp_expressions h)) (length (hp_references h)))
       (enumerate 0 (hp_expressions h))"

definition resolver_ok :: "resolver \<Rightarrow> bool" where
  "resolver_ok r \<longleftrightarrow> hir_ok (rs_hir r) \<and>
     (\<forall>scope \<in> set (rs_scopes r). \<forall>name i. scope name = Some i \<longrightarrow>
       names_definition (hp_definitions (rs_hir r)) i name) \<and>
     (\<forall>i \<in> set (rs_expression_stack r). unat i < length (hp_expressions (rs_hir r)))"

text \<open>What a part of the walk changes: the tables grow, the innermost scope gets more names.\<close>

definition walked :: "resolver \<Rightarrow> resolver \<Rightarrow> bool" where
  "walked r r' \<longleftrightarrow>
     length (hp_definitions (rs_hir r)) \<le> length (hp_definitions (rs_hir r')) \<and>
     length (hp_references (rs_hir r)) \<le> length (hp_references (rs_hir r')) \<and>
     length (hp_expressions (rs_hir r)) \<le> length (hp_expressions (rs_hir r')) \<and>
     rs_expression_stack r' = rs_expression_stack r \<and>
     length (rs_scopes r') = length (rs_scopes r) \<and> tl (rs_scopes r') = tl (rs_scopes r) \<and>
     (rs_scopes r \<noteq> [] \<longrightarrow> dom (hd (rs_scopes r)) \<subseteq> dom (hd (rs_scopes r')))"

lemma walked_refl [simp]: "walked r r"
  by (simp add: walked_def)

lemma walked_trans: "walked r s \<Longrightarrow> walked s t \<Longrightarrow> walked r t"
  unfolding walked_def by (metis (no_types, lifting) length_0_conv order_trans)

definition safe :: "(resolver \<Rightarrow> bool) \<Rightarrow> 'a resolving \<Rightarrow> ('a \<Rightarrow> resolver \<Rightarrow> bool) \<Rightarrow> bool" where
  "safe P m Q \<longleftrightarrow> (\<forall>r. resolver_ok r \<and> P r \<longrightarrow>
     (\<exists>x r'. m r = (Inr x, r') \<and> resolver_ok r' \<and> walked r r' \<and> Q x r'))"

lemma safe_eret: "(\<And>r. P r \<Longrightarrow> Q x r) \<Longrightarrow> safe P (eret x) Q"
  by (simp add: safe_def eret_def)

lemma safe_bind:
  assumes "safe P m R" and "\<And>x. safe (R x) (f x) Q"
  shows "safe P (ebind m f) Q"
  unfolding safe_def
proof (intro allI impI, elim conjE)
  fix r assume "resolver_ok r" "P r"
  with assms(1) obtain x s where s: "m r = (Inr x, s)" "resolver_ok s" "walked r s" "R x s"
    unfolding safe_def by blast
  with assms(2)[of x] obtain y t where "f x s = (Inr y, t)" "resolver_ok t" "walked s t" "Q y t"
    unfolding safe_def by blast
  with s walked_trans[of r s t] show "\<exists>y t. ebind m f r = (Inr y, t) \<and> resolver_ok t \<and> walked r t \<and> Q y t"
    by (auto simp: ebind_def)
qed

lemma safe_weaken: "safe P m Q \<Longrightarrow> (\<And>r. P' r \<Longrightarrow> P r) \<Longrightarrow> (\<And>x r. Q x r \<Longrightarrow> Q' x r) \<Longrightarrow> safe P' m Q'"
  unfolding safe_def by meson

lemma safe_get: "(\<And>x. safe (\<lambda>r. P r \<and> g r = x) (f x) Q) \<Longrightarrow> safe P (ebind (eget g) f) Q"
  by (simp add: safe_def ebind_def eget_def)

lemma safe_if: "(b \<Longrightarrow> safe P m Q) \<Longrightarrow> (\<not> b \<Longrightarrow> safe P n Q) \<Longrightarrow> safe P (if b then m else n) Q"
  by simp

text \<open>Facts that last through the walk.\<close>

definition lasts :: "(resolver \<Rightarrow> bool) \<Rightarrow> bool" where
  "lasts F \<longleftrightarrow> (\<forall>r r'. F r \<longrightarrow> walked r r' \<longrightarrow> F r')"

abbreviation has_scope :: "resolver \<Rightarrow> bool" where
  "has_scope r \<equiv> rs_scopes r \<noteq> []"

abbreviation is_definition :: "hir_id \<Rightarrow> resolver \<Rightarrow> bool" where
  "is_definition i r \<equiv> unat i < length (hp_definitions (rs_hir r))"

abbreviation is_reference :: "hir_id \<Rightarrow> resolver \<Rightarrow> bool" where
  "is_reference i r \<equiv> unat i < length (hp_references (rs_hir r))"

abbreviation is_expression :: "hir_id \<Rightarrow> resolver \<Rightarrow> bool" where
  "is_expression i r \<equiv> unat i < length (hp_expressions (rs_hir r))"

abbreviation declared :: "string \<Rightarrow> resolver \<Rightarrow> bool" where
  "declared name r \<equiv> resolve_name (rs_scopes r) name \<noteq> None"

lemma lasts_declared [simp, intro]: "lasts (declared name)"
  unfolding lasts_def
proof (intro allI impI)
  fix r r' assume d: "declared name r" and w: "walked r r'"
  from d obtain s ss where s: "rs_scopes r = s # ss" by (cases "rs_scopes r") auto
  with w obtain s' where s': "rs_scopes r' = s' # ss" "dom s \<subseteq> dom s'"
    by (cases "rs_scopes r'") (auto simp: walked_def)
  have "s' name \<noteq> None" if "s name \<noteq> None" using that s'(2) by auto
  then show "declared name r'" using d s s'(1) by (cases "s name"; cases "s' name") auto
qed

lemma lasts_simps [simp, intro]:
  "lasts has_scope" "lasts (is_definition i)" "lasts (is_reference i)" "lasts (is_expression i)"
  "lasts (\<lambda>_. b)"
  by (auto simp: lasts_def walked_def intro: less_le_trans)

lemma lasts_conj [intro]: "lasts F \<Longrightarrow> lasts G \<Longrightarrow> lasts (\<lambda>r. F r \<and> G r)"
  unfolding lasts_def by blast

lemma safe_frame: "safe P m Q \<Longrightarrow> lasts F \<Longrightarrow> safe (\<lambda>r. P r \<and> F r) m (\<lambda>x r. Q x r \<and> F r)"
  unfolding safe_def lasts_def by (metis (no_types, lifting))

lemma safe_keep: "safe P m Q \<Longrightarrow> lasts P \<Longrightarrow> safe P m (\<lambda>x r. Q x r \<and> P r)"
  using safe_frame[of P m Q P] by simp

section \<open>Single steps\<close>

lemma valid_id_mono: "valid_id n x \<Longrightarrow> n \<le> m \<Longrightarrow> valid_id m x"
  by (cases x) (auto simp: valid_id_def)

lemma names_append: "names_definition ds i name \<Longrightarrow> names_definition (ds @ [d]) i name"
  by (auto simp: names_definition_def nth_append)

lemma names_update:
  "names_definition ds i name \<Longrightarrow> hd_name d = hd_name (ds ! j) \<Longrightarrow> names_definition (ds[j := d]) i name"
  by (cases "j = unat i") (auto simp: names_definition_def)

lemma reference_mono:
  "(\<And>(i :: hir_id) name. names_definition ds i name \<Longrightarrow> names_definition ds' i name) \<Longrightarrow>
   reference_ok ds p \<Longrightarrow> reference_ok ds' p"
  by (auto simp: reference_ok_def resolution_ok_def split_beta)

lemma enumerate_snoc: "enumerate n (xs @ [x]) = enumerate n xs @ [(n + length xs, x)]"
  by (simp add: enumerate_append_eq)

lemma list_all_mono': "list_all P xs \<Longrightarrow> (\<And>x. P x \<Longrightarrow> Q x) \<Longrightarrow> list_all Q xs"
  by (auto simp: list_all_iff)

lemma u32_of_nat_unat: "unat (of_nat n :: u32) \<le> n"
  by (simp add: unat_of_nat)

lemma u32_of_nat_exact: "n \<le> u32_max \<Longrightarrow> unat (of_nat n :: u32) = n"
  by (simp add: unat_of_nat u32_max_def)

lemma define_name_safe:
  "safe has_scope (define_name name kind l top_level)
     (\<lambda>i r. has_scope r \<and> is_definition i r \<and> declared name r)"
  unfolding safe_def
proof (intro allI impI, elim conjE)
  fix r assume ok: "resolver_ok r" and "has_scope r"
  then obtain scope outer where scopes: "rs_scopes r = scope # outer" by (cases "rs_scopes r") auto
  let ?h = "rs_hir r"
  let ?n = "length (hp_definitions ?h)" and ?i = "of_nat (length (hp_definitions ?h)) :: hir_id"
  let ?d = "\<lparr> hd_id = ?i, hd_name = name, hd_kind = kind, hd_location = l, hd_additional_locations = [],
    hd_type_parameters = [], hd_top_level = top_level, hd_value = None \<rparr>"
  let ?r = "r\<lparr> rs_hir := ?h\<lparr> hp_definitions := hp_definitions ?h @ [?d] \<rparr>, rs_scopes := scope(name \<mapsto> ?i) # outer \<rparr>"
  have run: "define_name name kind l top_level r = (Inr ?i, ?r)"
    by (simp add: define_name_def scopes ebind_def eget_def change_hir_def emodify_def eret_def)
  have new: "names_definition (hp_definitions ?h @ [?d]) ?i name"
    using u32_of_nat_unat[of ?n] u32_of_nat_exact[of ?n]
    by (auto simp: names_definition_def less_Suc_eq_le)
  have "resolver_ok ?r"
    using ok new scopes
    by (auto simp: resolver_ok_def hir_ok_def enumerate_snoc definition_ok_def valid_id_def
        intro: names_append list_all_mono' reference_mono[of "hp_definitions ?h", OF names_append] split: if_splits)
  moreover have "walked r ?r" using scopes by (auto simp: walked_def)
  ultimately show "\<exists>i r'. define_name name kind l top_level r = (Inr i, r') \<and> resolver_ok r' \<and> walked r r' \<and>
      has_scope r' \<and> is_definition i r' \<and> declared name r'"
    using run new by (auto simp: names_definition_def)
qed

lemma change_definition_safe:
  assumes "\<And>d. hd_id (f d) = hd_id d \<and> hd_name (f d) = hd_name d"
    and "\<And>d r. P r \<Longrightarrow> valid_id (length (hp_expressions (rs_hir r))) (hd_value d) \<Longrightarrow>
      valid_id (length (hp_expressions (rs_hir r))) (hd_value (f d))"
  shows "safe (\<lambda>r. is_definition i r \<and> P r) (change_definition i f) (\<lambda>_ _. True)"
  unfolding safe_def
proof (intro allI impI, elim conjE)
  fix r assume ok: "resolver_ok r" and i: "is_definition i r" and P: "P r"
  let ?ds = "hp_definitions (rs_hir r)"
  let ?ds' = "?ds[unat i := f (?ds ! unat i)]"
  let ?r = "r\<lparr> rs_hir := (rs_hir r)\<lparr> hp_definitions := ?ds' \<rparr> \<rparr>"
  have run: "change_definition i f r = (Inr (), ?r)"
    using i by (simp add: change_definition_def ebind_def eget_def change_hir_def emodify_def)
  have names: "names_definition ?ds' j name" if "names_definition ?ds j name" for j name
    by (rule names_update[OF that]) (simp add: assms(1))
  have "definition_ok (length (hp_expressions (rs_hir r))) (j, ?ds' ! j)" if "j < length ?ds" for j
  proof -
    from ok that have d: "definition_ok (length (hp_expressions (rs_hir r))) (j, ?ds ! j)"
      by (auto simp: resolver_ok_def hir_ok_def list_all_length nth_enumerate_eq)
    with assms(1) assms(2)[OF P] show ?thesis
      using that by (cases "j = unat i") (auto simp: definition_ok_def)
  qed
  with ok names have "resolver_ok ?r"
    by (auto simp: resolver_ok_def hir_ok_def list_all_length nth_enumerate_eq intro: reference_mono[OF names])
  with run show "\<exists>x r'. change_definition i f r = (Inr x, r') \<and> resolver_ok r' \<and> walked r r' \<and> True"
    by (auto simp: walked_def)
qed

lemma set_value_safe:
  "safe (\<lambda>r. is_definition i r \<and> is_expression v r) (set_value i v) (\<lambda>_ _. True)"
  unfolding set_value_def by (rule change_definition_safe) (auto simp: valid_id_def)

lemma define_binding_safe:
  "safe has_scope (define_binding b top_level)
     (\<lambda>i r. has_scope r \<and> is_definition i r \<and> declared (binding_name b) r)"
  unfolding define_binding_def
proof (rule safe_bind[OF define_name_safe])
  fix i
  have "safe (\<lambda>r. is_definition i r \<and> (has_scope r \<and> declared (binding_name b) r))
      (change_definition i (\<lambda>d. d\<lparr> hd_type_parameters := binding_type_parameters b \<rparr>)) (\<lambda>_ _. True)"
    by (rule change_definition_safe) auto
  moreover have "lasts (\<lambda>r. is_definition i r \<and> (has_scope r \<and> declared (binding_name b) r))"
    by (intro lasts_conj lasts_simps lasts_declared)
  ultimately show "safe (\<lambda>r. has_scope r \<and> is_definition i r \<and> declared (binding_name b) r)
      (ebind (change_definition i (\<lambda>d. d\<lparr> hd_type_parameters := binding_type_parameters b \<rparr>)) (\<lambda>_. eret i))
      (\<lambda>i r. has_scope r \<and> is_definition i r \<and> declared (binding_name b) r)"
    by (intro safe_bind[where R = "\<lambda>_ r. has_scope r \<and> is_definition i r \<and> declared (binding_name b) r"] safe_eret)
       (auto elim: safe_weaken[OF safe_keep])
qed

section \<open>The walk\<close>

declare ebind_eret [simp]

lemma safe_eiter:
  assumes "\<And>x. x \<in> set xs \<Longrightarrow> safe P (f x) (\<lambda>_ r. P r \<and> G x r)" and "\<And>x. lasts (G x)" and "lasts P"
  shows "safe P (eiter f xs) (\<lambda>_ r. P r \<and> (\<forall>x \<in> set xs. G x r))"
  using assms(1) unfolding eiter_def
proof (induction xs)
  case (Cons x xs)
  have rest: "safe (\<lambda>r. P r \<and> G x r) (efold (\<lambda>x _. f x) xs u) (\<lambda>_ r. (P r \<and> (\<forall>x \<in> set xs. G x r)) \<and> G x r)" for u
    using Cons.IH Cons.prems by (intro safe_frame assms(2)) auto
  show ?case
    unfolding efold.simps
    by (rule safe_bind[OF Cons.prems], simp, rule safe_weaken[OF rest]) auto
qed (auto intro: safe_eret)

lemma safe_eiter_plain:
  assumes "\<And>x. x \<in> set xs \<Longrightarrow> safe P (f x) (\<lambda>_ _. True)" and "lasts P"
  shows "safe P (eiter f xs) (\<lambda>_ _. True)"
  by (rule safe_weaken[OF safe_eiter[where G = "\<lambda>_ _. True" and P = P]])
     (use assms safe_keep[OF assms(1)] in auto)

lemma safe_then:
  assumes "safe P m (\<lambda>_ _. True)" and "lasts P" and "\<And>x. safe P (f x) Q"
  shows "safe P (ebind m f) Q"
  by (rule safe_bind[OF safe_keep[OF assms(1,2)]]) (use assms(3) in simp)

text \<open>A part inside a new scope.\<close>

lemma safe_scope:
  assumes "safe has_scope m (\<lambda>_ _. True)"
  shows "safe P (ebind push_scope (\<lambda>_. ebind m (\<lambda>_. pop_scope))) (\<lambda>_ _. True)"
  unfolding safe_def
proof (intro allI impI, elim conjE)
  fix r assume ok: "resolver_ok r"
  let ?r = "r\<lparr> rs_scopes := Map.empty # rs_scopes r \<rparr>"
  have "resolver_ok ?r" using ok by (auto simp: resolver_ok_def)
  with assms obtain x s where s: "m ?r = (Inr x, s)" "resolver_ok s" "walked ?r s"
    by (fastforce simp: safe_def)
  then obtain h where scopes: "rs_scopes s = h # rs_scopes r" by (cases "rs_scopes s") (auto simp: walked_def)
  let ?s = "s\<lparr> rs_scopes := rs_scopes r \<rparr>"
  have "ebind push_scope (\<lambda>_. ebind m (\<lambda>_. pop_scope)) r = (Inr (), ?s)"
    using s(1) scopes by (simp add: push_scope_def pop_scope_def ebind_def emodify_def)
  moreover have "resolver_ok ?s" using s(2) scopes by (auto simp: resolver_ok_def)
  moreover have "walked r ?s" using s(3) by (auto simp: walked_def)
  ultimately show "\<exists>x r'. ebind push_scope (\<lambda>_. ebind m (\<lambda>_. pop_scope)) r = (Inr x, r') \<and> resolver_ok r' \<and>
      walked r r' \<and> True" by blast
qed

text \<open>What holds of the recursive method.\<close>

definition indexes :: "(expr \<Rightarrow> hir_id resolving) \<Rightarrow> expr \<Rightarrow> bool" where
  "indexes ie e \<longleftrightarrow> safe (\<lambda>_. True) (ie e) is_expression"

lemma indexes_unit: "indexes ie e \<Longrightarrow> safe P (ebind (ie e) (\<lambda>_. eret ())) (\<lambda>_ _. True)"
  unfolding indexes_def by (erule safe_weaken[OF safe_bind]) (auto intro: safe_eret)

lemma safe_option:
  "(\<And>e. x = Some e \<Longrightarrow> indexes ie e) \<Longrightarrow>
   safe P (case x of None \<Rightarrow> eret () | Some e \<Rightarrow> ebind (ie e) (\<lambda>_. eret ())) (\<lambda>_ _. True)"
  by (cases x) (auto intro: safe_eret indexes_unit)

lemma change_externals_safe: "safe P (emodify (\<lambda>r. r\<lparr> rs_external_names := f r \<rparr>)) (\<lambda>_ _. True)"
  by (auto simp: safe_def emodify_def resolver_ok_def walked_def)

lemma binding_expr_safe:
  assumes "indexes ie e"
  shows "safe P (index_binding_expr ie b e) is_expression"
proof -
  have insert: "safe (\<lambda>_. True) (ecollect (\<lambda>name.
      ebind (eget (\<lambda>r. name \<notin> rs_external_names r)) (\<lambda>inserted.
      ebind (emodify (\<lambda>r. r\<lparr> rs_external_names := insert name (rs_external_names r) \<rparr>)) (\<lambda>_.
      eret inserted))) names) (\<lambda>_ _. True)" for names
  proof (induction names)
    case (Cons name names)
    show ?case
      unfolding ecollect.simps ebind_assoc ebind_eret
      by (rule safe_get, rule safe_bind[OF change_externals_safe],
          rule safe_weaken[OF safe_bind[OF Cons.IH]]) (auto intro: safe_eret)
  qed (auto intro: safe_eret)
  have remove: "safe (is_expression i) (eiter (\<lambda>(name, inserted).
        if inserted then emodify (\<lambda>r. r\<lparr> rs_external_names := rs_external_names r - {name} \<rparr>)
        else eret ()) ps) (\<lambda>_ _. True)" for ps i
    by (rule safe_eiter_plain) (auto intro: change_externals_safe safe_eret)
  have "safe (\<lambda>_. True) (index_binding_expr ie b e) is_expression"
    unfolding index_binding_expr_def Let_def
    by (rule safe_bind[OF insert], rule safe_bind[OF assms[unfolded indexes_def]],
        rule safe_then[OF remove]) (auto intro: safe_eret)
  then show ?thesis by (rule safe_weaken) auto
qed

text \<open>The bindings of a block. Those that are predeclared have a definition when they are reached.\<close>

abbreviation always_predeclared :: "binding \<Rightarrow> bool" where
  "always_predeclared b \<equiv> binding_kind_of b \<in> {BK_Decl, BK_Native, BK_NativeType, BK_Type}"

lemma predeclare_safe:
  "safe has_scope (ebind (predeclared b) (\<lambda>early. if early then ebind (define_binding b top_level) (\<lambda>_. eret ()) else eret ()))
     (\<lambda>_ r. has_scope r \<and> (always_predeclared b \<longrightarrow> declared (binding_name b) r))"
  unfolding predeclared_def
proof (rule safe_get, rule safe_if, goal_cases)
  case (1 early)
  show ?case
    by (rule safe_weaken[OF safe_bind[OF define_binding_safe]]) (auto intro: safe_eret)
next
  case (2 early)
  then show ?case by (auto intro!: safe_eret)
qed

lemma value_safe:
  assumes "safe (\<lambda>_. True) m is_expression" and "lasts F"
  shows "safe F m (\<lambda>v r. is_expression v r \<and> F r)"
  using safe_frame[OF assms] by simp

lemma resolved_names:
  assumes "resolver_ok r" and "resolve_name (rs_scopes r) name = Some i"
  shows "names_definition (hp_definitions (rs_hir r)) i name"
proof -
  have "\<exists>scope \<in> set scopes. scope name = Some i" if "resolve_name scopes name = Some i" for scopes
    using that by (induction scopes name rule: resolve_name.induct) (auto split: option.splits)
  with assms show ?thesis by (force simp: resolver_ok_def)
qed

lemma resolved_definition: "resolver_ok r \<Longrightarrow> resolve_name (rs_scopes r) name = Some i \<Longrightarrow> is_definition i r"
  using resolved_names[of r name i] by (simp add: names_definition_def)

lemma index_definition_safe:
  assumes "indexes ie (binding_value b)"
  shows "safe has_scope (index_definition ie top_level b) (\<lambda>_ _. True)"
  unfolding index_definition_def
proof (rule safe_get, rule safe_bind[where R = "\<lambda>i r. is_definition i r"], goal_cases)
  case (1 found)
  show ?case
  proof (cases found)
    case None
    then show ?thesis by (auto intro: safe_weaken[OF define_binding_safe])
  next
    case (Some i)
    have change: "safe (is_definition i) (change_definition i (\<lambda>d. if hd_location d \<noteq> located_at (binding_ident b)
        then d\<lparr> hd_additional_locations := hd_additional_locations d @ [located_at (binding_ident b)] \<rparr>
        else d)) (\<lambda>_. is_definition i)"
      using safe_keep[OF change_definition_safe[where i = i and P = "\<lambda>_. True" and f = "\<lambda>d. if hd_location d \<noteq> located_at (binding_ident b)
        then d\<lparr> hd_additional_locations := hd_additional_locations d @ [located_at (binding_ident b)] \<rparr>
        else d"]] by (auto elim: safe_weaken)
    have "safe (is_definition i) (ebind (if binding_annotation b \<noteq> None then eret ()
             else change_definition i (\<lambda>d. if hd_location d \<noteq> located_at (binding_ident b)
               then d\<lparr> hd_additional_locations := hd_additional_locations d @ [located_at (binding_ident b)] \<rparr>
               else d)) (\<lambda>_. eret i)) is_definition"
      by (rule safe_bind[where R = "\<lambda>_. is_definition i"]) (auto intro: safe_eret change)
    then show ?thesis unfolding Some safe_def by (auto dest: resolved_definition)
  qed
next
  case (2 found i)
  have v: "safe (\<lambda>_. True) (if binding_annotation b \<noteq> None then index_binding_expr ie b (binding_value b)
      else ie (binding_value b)) is_expression"
    using assms by (auto intro: binding_expr_safe simp: indexes_def)
  show ?case
    by (rule safe_bind[OF value_safe[OF v]]) (auto intro: safe_weaken[OF set_value_safe])
qed

lemma index_binding_safe:
  assumes "indexes ie (binding_value b)" and "\<And>e. binding_annotation b = Some e \<Longrightarrow> indexes ie e"
  shows "safe (\<lambda>r. has_scope r \<and> (always_predeclared b \<longrightarrow> declared (binding_name b) r))
    (index_binding ie top_level b) (\<lambda>_ _. True)" (is "safe ?P _ _")
proof -
  have lasts: "lasts ?P" by (cases "always_predeclared b") (auto intro!: lasts_conj simp del: not_None_eq)
  have annotation: "safe ?P (case binding_annotation b of None \<Rightarrow> eret ()
      | Some annotation \<Rightarrow> ebind (index_binding_expr ie b annotation) (\<lambda>_. eret ())) (\<lambda>_ _. True)"
    using assms(2) by (auto split: option.split intro!: safe_eret safe_bind[OF binding_expr_safe])
  note v = assms(1)[unfolded indexes_def]
  have "safe ?P (ebind (ie (binding_value b)) (\<lambda>v. ebind (define_binding b top_level) (\<lambda>i. set_value i v))) (\<lambda>_ _. True)"
  proof (rule safe_bind[OF value_safe[OF v lasts]])
    fix v
    have "safe (\<lambda>r. has_scope r \<and> is_expression v r) (define_binding b top_level)
        (\<lambda>i r. (has_scope r \<and> is_definition i r \<and> declared (binding_name b) r) \<and> is_expression v r)"
      by (rule safe_frame[OF define_binding_safe]) auto
    then show "safe (\<lambda>r. is_expression v r \<and> ?P r) (ebind (define_binding b top_level) (\<lambda>i. set_value i v)) (\<lambda>_ _. True)"
      by (rule safe_weaken[OF safe_bind]) (auto intro: safe_weaken[OF set_value_safe])
  qed
  moreover have "safe ?P (ebind (index_binding_expr ie b (binding_value b)) (\<lambda>v.
          ebind (eget (\<lambda>r. resolve_name (rs_scopes r) (binding_name b))) (\<lambda>found. case found of
            None \<Rightarrow> efail ''predeclared binding has a definition''
          | Some i \<Rightarrow> set_value i v))) (\<lambda>_ _. True)" if pre: "always_predeclared b"
  proof (rule safe_bind[OF value_safe[OF binding_expr_safe[OF assms(1)] lasts]], rule safe_get)
    fix v found
    show "safe (\<lambda>r. (is_expression v r \<and> ?P r) \<and> resolve_name (rs_scopes r) (binding_name b) = found)
        (case found of None \<Rightarrow> efail ''predeclared binding has a definition'' | Some i \<Rightarrow> set_value i v) (\<lambda>_ _. True)"
    proof (cases found)
      case None
      with pre show ?thesis by (auto simp: safe_def)
    next
      case (Some i)
      then show ?thesis using set_value_safe[of i v] unfolding safe_def by (auto dest: resolved_definition)
    qed
  qed
  moreover have "safe ?P (index_definition ie top_level b) (\<lambda>_ _. True)"
    by (rule safe_weaken[OF index_definition_safe[OF assms(1)]]) auto
  ultimately have rest: "safe ?P (if binding_kind_of b \<in> {BK_Let, BK_Import} then
          ebind (ie (binding_value b)) (\<lambda>v. ebind (define_binding b top_level) (\<lambda>i. set_value i v))
        else if binding_kind_of b = BK_Def then index_definition ie top_level b
        else
          ebind (index_binding_expr ie b (binding_value b)) (\<lambda>v.
          ebind (eget (\<lambda>r. resolve_name (rs_scopes r) (binding_name b))) (\<lambda>found. case found of
            None \<Rightarrow> efail ''predeclared binding has a definition''
          | Some i \<Rightarrow> set_value i v))) (\<lambda>_ _. True)" if "binding_kind_of b \<notin> {BK_OpenImport, BK_Export}"
    using that by (cases "binding_kind_of b") simp_all
  show ?thesis
    unfolding index_binding_def
    by (rule safe_if, simp add: safe_eret, rule safe_then[OF annotation lasts rest])
qed

lemma index_block_parts_safe:
  assumes "\<And>b. b \<in> set bs \<Longrightarrow> indexes ie (binding_value b)"
    and "\<And>b e. b \<in> set bs \<Longrightarrow> binding_annotation b = Some e \<Longrightarrow> indexes ie e"
    and "\<And>e. result = Some e \<Longrightarrow> indexes ie e"
  shows "safe P (index_block_parts ie bs result top_level) (\<lambda>_ _. True)"
proof -
  let ?pre = "\<lambda>r. \<forall>b \<in> set bs. always_predeclared b \<longrightarrow> declared (binding_name b) r"
  have one: "lasts (\<lambda>r. always_predeclared b \<longrightarrow> declared (binding_name b) r)" for b
    by (cases "always_predeclared b") (auto simp del: not_None_eq)
  have "lasts (\<lambda>r. \<forall>b \<in> set xs. G b r)" if "\<And>b. lasts (G b)" for xs :: "binding list" and G
    using that unfolding lasts_def by blast
  from this[OF one] have lasts: "lasts (\<lambda>r. has_scope r \<and> ?pre r)"
    by (rule lasts_conj[OF lasts_simps(1)])
  have early: "safe has_scope (eiter (\<lambda>b. ebind (predeclared b) (\<lambda>early.
      if early then ebind (define_binding b top_level) (\<lambda>_. eret ()) else eret ())) bs)
      (\<lambda>_ r. has_scope r \<and> ?pre r)"
    by (rule safe_eiter[OF predeclare_safe one]) auto
  have "safe (\<lambda>r. has_scope r \<and> ?pre r) (index_binding ie top_level b) (\<lambda>_ _. True)" if "b \<in> set bs" for b
    by (rule safe_weaken[OF index_binding_safe[OF assms(1)[OF that] assms(2)[OF that]]]) (use that in blast)+
  then have late: "safe (\<lambda>r. has_scope r \<and> ?pre r) (eiter (index_binding ie top_level) bs) (\<lambda>_ _. True)"
    by (rule safe_eiter_plain[OF _ lasts])
  have "safe has_scope (ebind (eiter (\<lambda>b. ebind (predeclared b) (\<lambda>early.
      if early then ebind (define_binding b top_level) (\<lambda>_. eret ()) else eret ())) bs) (\<lambda>_.
     ebind (eiter (index_binding ie top_level) bs) (\<lambda>_.
     case result of None \<Rightarrow> eret () | Some e \<Rightarrow> ebind (ie e) (\<lambda>_. eret ())))) (\<lambda>_ _. True)"
    by (rule safe_bind[OF early], rule safe_then[OF late lasts], rule safe_option, rule assms(3))
  from safe_scope[OF this, of P] show ?thesis
    by (simp add: index_block_parts_def ebind_assoc)
qed

lemma index_block_safe:
  assumes "\<And>e. e \<in> block_exprs b \<Longrightarrow> indexes ie e"
  shows "safe P (index_block ie b top_level) (\<lambda>_ _. True)"
  unfolding index_block_def by (rule index_block_parts_safe) (auto intro: assms)

lemma index_pattern_safe: "safe has_scope (index_pattern p) (\<lambda>_ _. True)"
proof (induction p rule: index_pattern.induct)
  case (1 name l)
  show ?case unfolding index_pattern.simps by (rule safe_bind[OF define_name_safe]) (auto intro: safe_eret)
next
  case (4 fs l)
  then show ?case unfolding index_pattern.simps by (intro safe_eiter_plain) auto
qed (auto intro: safe_eiter_plain safe_eret)

lemma index_arm_safe:
  assumes "\<And>e. e \<in> held set_match_arm_kind a \<Longrightarrow> indexes ie e"
  shows "safe P (index_arm ie a) (\<lambda>_ _. True)"
proof -
  have "safe has_scope (ebind (index_pattern (arm_pattern a)) (\<lambda>_.
     ebind (case arm_guard a of None \<Rightarrow> eret () | Some g \<Rightarrow> ebind (ie g) (\<lambda>_. eret ())) (\<lambda>_.
     ie (arm_value a)))) (\<lambda>_ _. True)"
    by (rule safe_then[OF index_pattern_safe], simp, rule safe_then[OF safe_option], rule assms, erule held_parts,
        simp, rule safe_weaken[OF assms[OF held_parts(3), unfolded indexes_def]]) auto
  from safe_scope[OF this, of P] show ?thesis by (simp add: index_arm_def ebind_assoc)
qed

lemma index_pattern_block_safe:
  assumes "\<And>e. e \<in> block_exprs b \<Longrightarrow> indexes ie e"
  shows "safe P (index_pattern_block ie p b) (\<lambda>_ _. True)"
proof -
  have "safe has_scope (ebind (index_pattern p) (\<lambda>_. index_block ie b False)) (\<lambda>_ _. True)"
    by (rule safe_then[OF index_pattern_safe], simp, rule index_block_safe[OF assms])
  from safe_scope[OF this, of P] show ?thesis by (simp add: index_pattern_block_def ebind_assoc)
qed

lemma annotation_held: "cp_annotation p = Some e \<Longrightarrow> e \<in> set_closure_parameter p"
  by (cases p) auto

lemma index_closure_safe:
  assumes "\<And>e. e \<in> all_held set_closure_parameter ps \<union> set_option r \<union> block_exprs b \<Longrightarrow> indexes ie e"
  shows "safe P (index_closure ie ps r b) (\<lambda>_ _. True)"
proof -
  have "safe has_scope (ebind (define_name (located_value (cp_name p)) HK_Parameter
      (located_at (cp_name p)) False) (\<lambda>_. eret ())) (\<lambda>_ _. True)" for p
    by (rule safe_bind[OF define_name_safe]) (auto intro: safe_eret)
  then have parameters: "safe has_scope (eiter (\<lambda>p. ebind (define_name (located_value (cp_name p)) HK_Parameter
      (located_at (cp_name p)) False) (\<lambda>_. eret ())) ps) (\<lambda>_ _. True)"
    by (intro safe_eiter_plain) auto
  have "safe has_scope (ebind (eiter (\<lambda>p. ebind (define_name (located_value (cp_name p)) HK_Parameter
      (located_at (cp_name p)) False) (\<lambda>_. eret ())) ps) (\<lambda>_. index_block ie b False)) (\<lambda>_ _. True)"
    by (rule safe_then[OF parameters], simp, rule index_block_safe) (auto intro: assms)
  from safe_scope[OF this] have body: "safe Q (ebind push_scope (\<lambda>_.
     ebind (eiter (\<lambda>p. ebind (define_name (located_value (cp_name p)) HK_Parameter
         (located_at (cp_name p)) False) (\<lambda>_. eret ())) ps) (\<lambda>_.
     ebind (index_block ie b False) (\<lambda>_. pop_scope)))) (\<lambda>_ _. True)" for Q
    by (simp add: ebind_assoc)
  have annotation: "safe (\<lambda>_. True) (case cp_annotation p of None \<Rightarrow> eret () | Some e \<Rightarrow> ebind (ie e) (\<lambda>_. eret ()))
      (\<lambda>_ _. True)" if "p \<in> set ps" for p
  proof (rule safe_option)
    fix e assume "cp_annotation p = Some e"
    from all_heldI[where f = set_closure_parameter, OF that annotation_held[OF this]]
    show "indexes ie e" by (intro assms) simp
  qed
  have "safe (\<lambda>_. True) (index_closure ie ps r b) (\<lambda>_ _. True)"
    unfolding index_closure_def
    by (rule safe_then[OF safe_eiter_plain[OF annotation]], assumption, simp, simp,
        rule safe_then[OF safe_option], rule assms, simp, simp, rule body)
  then show ?thesis by (rule safe_weaken) auto
qed

lemma pair_ok:
  "expression_ok n m (i, e) \<longleftrightarrow> he_id e = of_nat i \<and> valid_id n (he_parent e) \<and> valid_id m (he_reference e)"
  "reference_ok ds (i, r) \<longleftrightarrow> hr_id r = of_nat i \<and> resolution_ok ds (hr_name r) (hr_resolution r)"
  "definition_ok n (i, d) \<longleftrightarrow> hd_id d = of_nat i \<and> valid_id n (hd_value d)"
  by (simp_all add: expression_ok_def reference_ok_def definition_ok_def)

text \<open>Expressions: what is entered is left.\<close>

lemma push_expression_ok:
  assumes "resolver_ok r" and "push_expression l r = (x, s)"
  shows "\<exists>i. x = Inr i \<and> resolver_ok s \<and> is_expression i s \<and> walked r s"
proof -
  let ?h = "rs_hir r"
  let ?i = "of_nat (length (hp_expressions ?h)) :: hir_id"
  let ?p = "case rs_expression_stack r of [] \<Rightarrow> None | p # _ \<Rightarrow> Some p"
  let ?e = "\<lparr> he_id = ?i, he_location = l, he_parent = ?p, he_reference = None \<rparr>"
  have s: "x = Inr ?i" "s = r\<lparr> rs_hir := ?h\<lparr> hp_expressions := hp_expressions ?h @ [?e] \<rparr> \<rparr>"
    using assms(2) by (auto simp: push_expression_def ebind_def eget_def change_hir_def emodify_def eret_def)
  have "unat ?i \<le> length (hp_expressions ?h)" by (rule u32_of_nat_unat)
  moreover have "valid_id (length (hp_expressions ?h)) ?p"
    using assms(1) by (auto simp: resolver_ok_def valid_id_def split: list.split)
  moreover have "expression_ok n m q \<Longrightarrow> expression_ok (Suc n) m q" "definition_ok n p \<Longrightarrow> definition_ok (Suc n) p" for n m q p
    by (auto simp: expression_ok_def definition_ok_def split_beta elim: valid_id_mono)
  ultimately have "resolver_ok s \<and> is_expression ?i s \<and> walked r s"
    using assms(1) valid_id_mono[of "length (hp_expressions ?h)" ?p "Suc (length (hp_expressions ?h))"]
    by (auto simp: s resolver_ok_def hir_ok_def enumerate_snoc pair_ok(1)[of _ _ _ ?e] valid_id_def[of _ None]
        walked_def less_Suc_eq_le elim!: list_all_mono' intro: less_imp_le)
  with s show ?thesis by auto
qed

lemma push_expression_safe: "safe P (push_expression l) is_expression"
  unfolding safe_def using push_expression_ok by (metis surj_pair)

lemma leave_expression_ok:
  assumes "resolver_ok r" and "is_expression i r" and "\<And>j. reference = Some j \<Longrightarrow> is_reference j r"
  shows "\<exists>s. leave_expression i reference r = (Inr i, s) \<and>
    resolver_ok s \<and> is_expression i s \<and> walked (r\<lparr> rs_expression_stack := tl (rs_expression_stack r) \<rparr>) s"
proof -
  let ?es = "hp_expressions (rs_hir r)"
  let ?e = "(?es ! unat i)\<lparr> he_reference := reference \<rparr>"
  let ?s = "r\<lparr> rs_expression_stack := tl (rs_expression_stack r),
    rs_hir := (rs_hir r)\<lparr> hp_expressions := ?es[unat i := ?e] \<rparr> \<rparr>"
  have run: "leave_expression i reference r = (Inr i, ?s)"
    using assms(2) by (simp add: leave_expression_def ebind_def emodify_def eget_def change_hir_def eret_def)
  have "expression_ok (length ?es) (length (hp_references (rs_hir r))) (j, ?es[unat i := ?e] ! j)"
    if "j < length ?es" for j
  proof -
    from assms(1) that have "expression_ok (length ?es) (length (hp_references (rs_hir r))) (j, ?es ! j)"
      by (auto simp: resolver_ok_def hir_ok_def list_all_length nth_enumerate_eq)
    with assms(3) that show ?thesis
      by (cases "j = unat i"; cases reference) (auto simp: expression_ok_def valid_id_def)
  qed
  with assms(1) have "resolver_ok ?s"
    by (cases "rs_expression_stack r") (auto simp: resolver_ok_def hir_ok_def list_all_length nth_enumerate_eq)
  moreover have "walked (r\<lparr> rs_expression_stack := tl (rs_expression_stack r) \<rparr>) ?s" by (simp add: walked_def)
  ultimately show ?thesis using run assms(2) by auto
qed

lemma entered_safe:
  assumes "safe (\<lambda>_. True) m (\<lambda>x r. \<forall>j. x = Some j \<longrightarrow> is_reference j r)"
  shows "safe P (ebind (enter_expression l) (\<lambda>i. ebind m (leave_expression i))) is_expression"
  unfolding safe_def
proof (intro allI impI, elim conjE)
  fix r assume ok: "resolver_ok r"
  obtain x s where run: "push_expression l r = (x, s)" by fastforce
  from push_expression_ok[OF ok this] obtain i where i: "x = Inr i" "resolver_ok s" "is_expression i s" "walked r s"
    by blast
  let ?s = "s\<lparr> rs_expression_stack := i # rs_expression_stack s \<rparr>"
  have "resolver_ok ?s" using i by (auto simp: resolver_ok_def)
  with assms obtain y t where t: "m ?s = (Inr y, t)" "resolver_ok t" "walked ?s t" "\<And>j. y = Some j \<Longrightarrow> is_reference j t"
    unfolding safe_def by blast
  have "is_expression i t" using t(3) i(3) by (auto simp: walked_def)
  from leave_expression_ok[OF t(2) this t(4)] obtain u where u: "leave_expression i y t = (Inr i, u)" "resolver_ok u"
    "is_expression i u" "walked (t\<lparr> rs_expression_stack := tl (rs_expression_stack t) \<rparr>) u" by blast
  have "walked s u" using t(3) u(4) by (auto simp: walked_def)
  with walked_trans[OF i(4) this] u t(1) run i(1)
  show "\<exists>x r'. ebind (enter_expression l) (\<lambda>i. ebind m (leave_expression i)) r = (Inr x, r') \<and>
      resolver_ok r' \<and> walked r r' \<and> is_expression x r'"
    by (simp add: enter_expression_def ebind_def emodify_def eret_def)
qed

lemma index_variable_safe: "safe P (index_variable name) is_reference"
  unfolding safe_def
proof (intro allI impI, elim conjE)
  fix r assume ok: "resolver_ok r"
  let ?h = "rs_hir r"
  let ?i = "of_nat (length (hp_references ?h)) :: hir_id"
  let ?x = "case resolve_name (rs_scopes r) (located_value name) of
         Some i \<Rightarrow> HR_Definition i
       | None \<Rightarrow> if located_value name \<in> rs_external_names r then HR_External else HR_Unresolved"
  let ?e = "\<lparr> hr_id = ?i, hr_name = located_value name, hr_location = located_at name, hr_resolution = ?x \<rparr>"
  let ?s = "r\<lparr> rs_hir := ?h\<lparr> hp_references := hp_references ?h @ [?e] \<rparr> \<rparr>"
  have run: "index_variable name r = (Inr ?i, ?s)"
    by (simp add: index_variable_def ebind_def eget_def change_hir_def emodify_def eret_def)
  have "resolution_ok (hp_definitions ?h) (located_value name) ?x"
    using resolved_names[OF ok] by (auto simp: resolution_ok_def split: option.splits if_splits)
  moreover have "expression_ok n m q \<Longrightarrow> expression_ok n (Suc m) q" for n m q
    by (auto simp: expression_ok_def split_beta elim: valid_id_mono)
  ultimately have "resolver_ok ?s"
    using ok by (auto simp: resolver_ok_def hir_ok_def enumerate_snoc pair_ok(2)[of _ _ ?e] elim!: list_all_mono')
  with run u32_of_nat_unat[of "length (hp_references ?h)"]
  show "\<exists>x r'. index_variable name r = (Inr x, r') \<and> resolver_ok r' \<and> walked r r' \<and> is_reference x r'"
    by (auto simp: walked_def less_Suc_eq_le)
qed

abbreviation known_reference :: "hir_id option \<Rightarrow> resolver \<Rightarrow> bool" where
  "known_reference x r \<equiv> \<forall>j. x = Some j \<longrightarrow> is_reference j r"

lemma safe_none: "safe (\<lambda>_. True) m (\<lambda>_ _. True) \<Longrightarrow> safe (\<lambda>_. True) (ebind m (\<lambda>_. eret None)) known_reference"
  by (erule safe_then) (auto intro: safe_eret)

lemma safe_sub: "indexes ie e \<Longrightarrow> safe P (ie e) (\<lambda>_ _. True)"
  unfolding indexes_def by (erule safe_weaken) auto

lemma safe_seq:
  "safe (\<lambda>_. True) m (\<lambda>_ _. True) \<Longrightarrow> (\<And>x. safe (\<lambda>_. True) (f x) Q) \<Longrightarrow> safe (\<lambda>_. True) (ebind m f) Q"
  by (rule safe_then) auto

lemma safe_each:
  "(\<And>x. x \<in> set xs \<Longrightarrow> safe (\<lambda>_. True) (f x) (\<lambda>_ _. True)) \<Longrightarrow> safe (\<lambda>_. True) (eiter f xs) (\<lambda>_ _. True)"
  by (rule safe_eiter_plain) auto

lemma index_all_safe:
  "(\<And>e. e \<in> set es \<Longrightarrow> indexes ie e) \<Longrightarrow> safe (\<lambda>_. True) (index_all ie es) (\<lambda>_ _. True)"
  unfolding index_all_def by (auto intro: safe_each indexes_unit)

theorem index_expr_safe: "indexes index_expr e"
proof (induction e rule: expr_induct)
  case (Expr k l)
  have block: "safe (\<lambda>_. True) (index_block index_expr b False) (\<lambda>_ _. True)"
    "safe (\<lambda>_. True) (index_pattern_block index_expr p b) (\<lambda>_ _. True)"
    if "\<And>e. e \<in> block_exprs b \<Longrightarrow> e \<in> subexprs k" for b p
    by (rule index_block_safe index_pattern_block_safe, rule Expr, erule that)+
  have sub: "safe (\<lambda>_. True) (index_expr e) (\<lambda>_ _. True)" if "e \<in> subexprs k" for e
    by (rule safe_sub[OF Expr[OF that]])
  have "safe (\<lambda>_. True) (index_kind k) known_reference"
  proof (cases k)
    case (E_Variable name)
    show ?thesis
      unfolding E_Variable index_kind.simps
      by (rule safe_bind[OF index_variable_safe]) (auto intro: safe_eret)
  next
    case (E_InterpolatedString parts)
    show ?thesis
      unfolding E_InterpolatedString index_kind.simps
      by (rule safe_none, rule safe_each, rule safe_option, rule Expr)
         (auto simp: E_InterpolatedString intro: all_held_parts(1))
  next
    case (E_Dict fs)
    show ?thesis
      unfolding E_Dict index_kind.simps
      by (rule safe_none, rule safe_each, rule indexes_unit, rule Expr) (auto simp: E_Dict)
  next
    case (E_TypeApply f args)
    have "safe (\<lambda>_. True) (index_type_argument index_expr a) (\<lambda>_ _. True)" if "a \<in> set args" for a
    proof (cases "located_value a")
      case (TA_Explicit e)
      then have "e \<in> held set_type_argument_kind a" by (simp add: held_def)
      with that have "e \<in> subexprs k"
        using all_heldI[where f = "held set_type_argument_kind" and x = a] by (simp add: E_TypeApply)
      with TA_Explicit show ?thesis by (simp add: index_type_argument_def indexes_unit Expr)
    next
      case TA_Infer
      then show ?thesis
        by (simp add: index_type_argument_def) (rule safe_bind[OF push_expression_safe], auto intro: safe_eret)
    qed
    then show ?thesis
      unfolding E_TypeApply index_kind.simps
      by (intro safe_seq[OF sub] safe_none safe_each) (simp_all add: E_TypeApply)
  next
    case (E_Closure ps r b)
    show ?thesis
      unfolding E_Closure index_kind.simps
      by (rule safe_none, rule index_closure_safe, rule Expr) (simp add: E_Closure)
  next
    case (E_Match v arms)
    have "safe (\<lambda>_. True) (index_arm index_expr a) (\<lambda>_ _. True)" if "a \<in> set arms" for a
      by (rule index_arm_safe, rule Expr) (use that all_heldI[where f = "held set_match_arm_kind"] in \<open>simp add: E_Match\<close>)
    then show ?thesis
      unfolding E_Match index_kind.simps
      by (intro safe_seq[OF sub] safe_none safe_each) (simp_all add: E_Match)
  qed (simp_all only: index_kind.simps, (intro safe_seq safe_eret index_all_safe block sub Expr; simp)+)
  then show ?case
    unfolding indexes_def index_expr.simps by (rule entered_safe)
qed

section \<open>Renumbering\<close>

abbreviation table_step :: "nat \<times> hir_id \<Rightarrow> hir_id list \<Rightarrow> hir_id list" where
  "table_step \<equiv> \<lambda>(new, i) table. table[unat i := of_nat new]"

lemma table_length: "length (fold table_step ps t) = length t"
  by (induction ps arbitrary: t) auto

lemma table_values:
  "x \<in> set (fold table_step (enumerate n old) t) \<Longrightarrow> x \<in> set t \<or> (\<exists>k < n + length old. x = of_nat k)"
proof (induction old arbitrary: n t)
  case (Cons i old)
  from Cons.IH[of "Suc n" "t[unat i := of_nat n]"] Cons.prems
  have "x \<in> set (t[unat i := of_nat n]) \<or> (\<exists>k < Suc n + length old. x = of_nat k)" by simp
  then consider "x \<in> set t" | "x = of_nat n" | "\<exists>k < Suc n + length old. x = of_nat k"
    using set_update_subset_insert[of t "unat i" "of_nat n"] by blast
  then show ?case
  proof cases
    case 2
    then show ?thesis by (intro disjI2 exI[of _ n]) simp
  qed auto
qed simp

lemma table_other: "i \<notin> set old \<Longrightarrow> fold table_step (enumerate n old) t ! unat i = t ! unat i"
proof (induction old arbitrary: n t)
  case (Cons j old)
  then have "unat i \<noteq> unat j" using word_unat_eq_iff[of i j] by simp
  with Cons show ?case by simp
qed simp

lemma table_entry:
  "distinct old \<Longrightarrow> \<forall>i \<in> set old. unat i < length t \<Longrightarrow> j < length old \<Longrightarrow>
   fold table_step (enumerate n old) t ! unat (old ! j) = of_nat (n + j)"
proof (induction old arbitrary: n t j)
  case (Cons i old)
  show ?case
  proof (cases j)
    case 0
    with Cons.prems show ?thesis by (simp add: table_other)
  next
    case (Suc j')
    with Cons.prems Cons.IH[of "t[unat i := of_nat n]" j' "Suc n"] show ?thesis by simp
  qed
qed simp

lemma renumbering_ok:
  assumes "\<forall>i \<in> set old. unat i < length old"
  obtains table where "renumbering old = Inr table" and "length table = length old"
    and "\<And>i :: hir_id. unat i < length old \<Longrightarrow> unat (table ! unat i) < length old"
    and "\<And>j. distinct old \<Longrightarrow> length old \<le> Suc u32_max \<Longrightarrow> j < length old \<Longrightarrow> unat (table ! unat (old ! j)) = j"
proof
  let ?t = "fold table_step (enumerate 0 old) (replicate (length old) 0)"
  show "renumbering old = Inr ?t" using assms by (simp add: renumbering_def)
  show len: "length ?t = length old" by (simp add: table_length)
  show "unat (?t ! unat i) < length old" if "unat i < length old" for i :: hir_id
  proof -
    from that len have "?t ! unat i \<in> set ?t" by simp
    from table_values[OF this] that show ?thesis
      by (auto intro: le_less_trans[OF u32_of_nat_unat])
  qed
  show "unat (?t ! unat (old ! j)) = j" if "distinct old" "length old \<le> Suc u32_max" "j < length old" for j
    using that assms by (subst table_entry) (auto simp: u32_of_nat_exact)
qed

lemma rmap_ok:
  assumes "\<And>x. x \<in> set xs \<Longrightarrow> \<exists>y. f x = Inr y \<and> R x y"
  obtains ys where "rmap f xs = Inr ys" and "list_all2 R xs ys"
  using assms
proof (induction xs arbitrary: thesis)
  case (Cons x xs)
  from Cons.prems(2)[of x] obtain y where y: "f x = Inr y" "R x y" by auto
  from Cons.IH Cons.prems(2) obtain ys where "rmap f xs = Inr ys" "list_all2 R xs ys" by auto
  with y Cons.prems(1) show ?case by auto
qed auto

lemma numbered_simps [simp]:
  "length (numbered f xs) = length xs" "j < length xs \<Longrightarrow> numbered f xs ! j = f (of_nat j) (xs ! j)"
  by (simp_all add: numbered_def nth_enumerate_eq)

lemma renumber_option_ok:
  assumes "valid_id n x" and "length table = n" and "\<And>i :: hir_id. unat i < n \<Longrightarrow> unat (table ! unat i) < m"
  shows "\<exists>y. renumber_option table x = Inr y \<and> valid_id m y"
  using assms by (cases x) (auto simp: renumber_option_def valid_id_def hir_index_def hir_get_def)

text \<open>Sorting keeps the entries; with exact ids they are distinct.\<close>

lemma sorted_ids:
  fixes ids :: "'a \<Rightarrow> hir_id"
  assumes "\<forall>j < length xs. ids (xs ! j) = of_nat j"
  shows "\<forall>i \<in> set (map ids (sort_key k xs)). unat i < length (map ids (sort_key k xs))"
    and "length xs \<le> Suc u32_max \<Longrightarrow> distinct (map ids (sort_key k xs))"
proof -
  have old: "ids ` set xs \<subseteq> of_nat ` {..<length xs}" using assms by (fastforce simp: in_set_conv_nth)
  show "\<forall>i \<in> set (map ids (sort_key k xs)). unat i < length (map ids (sort_key k xs))"
  proof -
    have "unat (of_nat k :: hir_id) < length xs" if "k < length xs" for k
      using le_less_trans[OF u32_of_nat_unat that] .
    then show ?thesis using old by fastforce
  qed
  assume le: "length xs \<le> Suc u32_max"
  have "map ids xs = map of_nat [0..<length xs]"
    using assms by (auto intro: nth_equalityI)
  moreover have "inj_on (of_nat :: nat \<Rightarrow> hir_id) {0..<length xs}"
    using le u32_of_nat_exact by (intro inj_on_inverseI[where g = unat]) auto
  ultimately have "distinct (map ids xs)" by (simp add: distinct_map)
  then show "distinct (map ids (sort_key k xs))" by (simp add: distinct_map)
qed

lemma hir_okI:
  assumes "\<And>j. j < length (hp_definitions h) \<Longrightarrow> definition_ok (length (hp_expressions h)) (j, hp_definitions h ! j)"
    and "\<And>j. j < length (hp_references h) \<Longrightarrow> reference_ok (hp_definitions h) (j, hp_references h ! j)"
    and "\<And>j. j < length (hp_expressions h) \<Longrightarrow>
      expression_ok (length (hp_expressions h)) (length (hp_references h)) (j, hp_expressions h ! j)"
  shows "hir_ok h"
  using assms by (auto simp: hir_ok_def list_all_length nth_enumerate_eq)

lemma hir_okD:
  assumes "hir_ok h"
  shows "j < length (hp_definitions h) \<Longrightarrow> definition_ok (length (hp_expressions h)) (j, hp_definitions h ! j)"
    and "j < length (hp_references h) \<Longrightarrow> reference_ok (hp_definitions h) (j, hp_references h ! j)"
    and "j < length (hp_expressions h) \<Longrightarrow>
      expression_ok (length (hp_expressions h)) (length (hp_references h)) (j, hp_expressions h ! j)"
  using assms by (auto simp: hir_ok_def list_all_length nth_enumerate_eq)

text \<open>The id of a definition goes to a position with the same name.\<close>

lemma renamed_definition:
  assumes ids: "\<forall>j < length ds. hd_id (ds ! j) = of_nat j" and names: "names_definition ds i name"
    and table: "\<And>j. distinct (map hd_id (sort_key k ds)) \<Longrightarrow> length ds \<le> Suc u32_max \<Longrightarrow> j < length ds \<Longrightarrow>
      unat (table ! unat (map hd_id (sort_key k ds) ! j)) = j"
    and range: "\<And>i :: hir_id. unat i < length ds \<Longrightarrow> unat (table ! unat i) < length ds"
    and ds': "length ds' = length ds" "\<And>j. j < length ds \<Longrightarrow> hd_name (ds' ! j) = hd_name (sort_key k ds ! j)"
  shows "names_definition ds' (table ! unat i) name"
proof -
  have i: "unat i < length ds" using names by (simp add: names_definition_def)
  moreover have "hd_name (ds' ! unat (table ! unat i)) = name" if le: "length ds \<le> Suc u32_max"
  proof -
    have "ds ! unat i \<in> set (sort_key k ds)" using i by simp
    then obtain j where "j < length (sort_key k ds)" and j: "sort_key k ds ! j = ds ! unat i"
      unfolding in_set_conv_nth by blast
    then have j: "j < length ds" "sort_key k ds ! j = ds ! unat i" by simp_all
    have "hd_id (ds ! unat i) = i" using ids i by simp
    with table[OF sorted_ids(2)[OF ids le] le j(1)] j have "unat (table ! unat i) = j" by simp
    with ds' j names le show ?thesis by (simp add: names_definition_def)
  qed
  ultimately show ?thesis using range ds'(1) by (simp add: names_definition_def)
qed

lemma sorted_table:
  fixes ids :: "'a \<Rightarrow> hir_id"
  assumes "\<forall>j < length xs. ids (xs ! j) = of_nat j"
  obtains table where "renumbering (map ids (sort_key k xs)) = Inr table" and "length table = length xs"
    and "\<And>i :: hir_id. unat i < length xs \<Longrightarrow> unat (table ! unat i) < length xs"
    and "\<And>j. distinct (map ids (sort_key k xs)) \<Longrightarrow> length xs \<le> Suc u32_max \<Longrightarrow> j < length xs \<Longrightarrow>
      unat (table ! unat (map ids (sort_key k xs) ! j)) = j"
  by (rule renumbering_ok[OF sorted_ids(1)[OF assms, of k]]) (auto intro: that)

abbreviation numbered_definitions :: "hir_program \<Rightarrow> hir_definition list" where
  "numbered_definitions h \<equiv>
     numbered (\<lambda>i. hd_id_update (\<lambda>_. i)) (sort_key hd_location (hp_definitions h))"

text \<open>The passes of \<open>normalize_order\<close>, each from what the ones before it left.\<close>

lemma renumber_definitions:
  assumes "hir_ok h"
  obtains table where "renumbering (map hd_id (sort_key hd_location (hp_definitions h))) = Inr table"
    and "length table = length (hp_definitions h)"
    and "\<And>(i :: hir_id) name. names_definition (hp_definitions h) i name \<Longrightarrow>
      names_definition (numbered_definitions h) (table ! unat i) name"
proof -
  have ids: "\<forall>j < length (hp_definitions h). hd_id (hp_definitions h ! j) = of_nat j"
    using hir_okD(1)[OF assms] by (auto simp: pair_ok)
  show ?thesis
  proof (rule sorted_table[OF ids, of hd_location], rule that, assumption, assumption)
    fix table :: "hir_id list" and i name
    assume "\<And>i :: hir_id. unat i < length (hp_definitions h) \<Longrightarrow> unat (table ! unat i) < length (hp_definitions h)"
      and "\<And>j. distinct (map hd_id (sort_key hd_location (hp_definitions h))) \<Longrightarrow>
        length (hp_definitions h) \<le> Suc u32_max \<Longrightarrow> j < length (hp_definitions h) \<Longrightarrow>
        unat (table ! unat (map hd_id (sort_key hd_location (hp_definitions h)) ! j)) = j"
      and "names_definition (hp_definitions h) i name"
    then show "names_definition (numbered_definitions h) (table ! unat i) name"
      by (intro renamed_definition[OF ids, where k = hd_location]) auto
  qed
qed

lemma renumber_references:
  assumes ok: "hir_ok h" and len: "length table = length (hp_definitions h)"
    and names: "\<And>(i :: hir_id) name. names_definition (hp_definitions h) i name \<Longrightarrow> names_definition ds (table ! unat i) name"
  obtains rs where "rmap (renumber_resolution table) (hp_references h) = Inr rs"
    and "length rs = length (hp_references h)" and "\<forall>j < length rs. hr_id (rs ! j) = of_nat j"
    and "\<forall>r \<in> set rs. resolution_ok ds (hr_name r) (hr_resolution r)"
proof -
  have "\<exists>y. renumber_resolution table r = Inr y \<and> hr_id y = hr_id r \<and>
      resolution_ok ds (hr_name y) (hr_resolution y)" if "r \<in> set (hp_references h)" for r
  proof -
    from that hir_okD(2)[OF ok] have r: "resolution_ok (hp_definitions h) (hr_name r) (hr_resolution r)"
      by (auto simp: in_set_conv_nth pair_ok)
    show ?thesis
    proof (cases "hr_resolution r")
      case (HR_Definition i)
      with r have "names_definition (hp_definitions h) i (hr_name r)" by (simp add: resolution_ok_def)
      from names[OF this] this HR_Definition len show ?thesis
        by (auto simp: renumber_resolution_def hir_index_def hir_get_def names_definition_def resolution_ok_def)
    qed (simp_all add: renumber_resolution_def resolution_ok_def)
  qed
  then obtain rs where rs: "rmap (renumber_resolution table) (hp_references h) = Inr rs"
    "list_all2 (\<lambda>r y. hr_id y = hr_id r \<and> resolution_ok ds (hr_name y) (hr_resolution y)) (hp_references h) rs"
    by (rule rmap_ok)
  with hir_okD(2)[OF ok] show ?thesis
    by (intro that) (auto simp: list_all2_conv_all_nth pair_ok in_set_conv_nth)
qed

lemma renumber_expressions:
  assumes ok: "hir_ok h" and len: "length table = length (hp_references h)"
    and range: "\<And>i :: hir_id. unat i < length (hp_references h) \<Longrightarrow> unat (table ! unat i) < length (hp_references h)"
  obtains es where "rmap (renumber_reference table) (hp_expressions h) = Inr es"
    and "length es = length (hp_expressions h)" and "\<forall>j < length es. he_id (es ! j) = of_nat j"
    and "\<forall>e \<in> set es. valid_id (length (hp_references h)) (he_reference e) \<and>
      valid_id (length (hp_expressions h)) (he_parent e)"
proof -
  have "\<exists>y. renumber_reference table e = Inr y \<and> he_id y = he_id e \<and>
      valid_id (length (hp_references h)) (he_reference y) \<and> he_parent y = he_parent e"
    if "e \<in> set (hp_expressions h)" for e
  proof -
    from that hir_okD(3)[OF ok] have "valid_id (length (hp_references h)) (he_reference e)"
      by (auto simp: in_set_conv_nth pair_ok)
    from renumber_option_ok[OF this len range] show ?thesis by (auto simp: renumber_reference_def)
  qed
  then obtain es where "rmap (renumber_reference table) (hp_expressions h) = Inr es"
    "list_all2 (\<lambda>e y. he_id y = he_id e \<and> valid_id (length (hp_references h)) (he_reference y) \<and>
      he_parent y = he_parent e) (hp_expressions h) es"
    by (rule rmap_ok)
  with hir_okD(3)[OF ok] show ?thesis
    by (intro that) (auto simp: list_all2_conv_all_nth pair_ok in_set_conv_nth)
qed

lemma numbered_set: "x \<in> set (numbered f xs) \<Longrightarrow> \<exists>i. \<exists>y \<in> set xs. x = f i y"
  by (auto simp: numbered_def in_set_conv_nth nth_enumerate_eq) (metis nth_mem)

lemma renumber_values:
  assumes "\<forall>d \<in> set ds. valid_id n (hd_value d)" and len: "length table = n"
    and range: "\<And>i :: hir_id. unat i < n \<Longrightarrow> unat (table ! unat i) < n"
  obtains ds' where "rmap (renumber_value table) ds = Inr ds'" and "length ds' = length ds"
    and "\<And>j. j < length ds \<Longrightarrow> hd_id (ds' ! j) = hd_id (ds ! j) \<and> hd_name (ds' ! j) = hd_name (ds ! j) \<and>
      hd_location (ds' ! j) = hd_location (ds ! j) \<and> valid_id n (hd_value (ds' ! j))"
proof -
  have "\<exists>y. renumber_value table d = Inr y \<and> hd_id y = hd_id d \<and> hd_name y = hd_name d \<and>
      hd_location y = hd_location d \<and> valid_id n (hd_value y)" if "d \<in> set ds" for d
    using renumber_option_ok[OF _ len range, of "hd_value d"] assms(1) that by (auto simp: renumber_value_def)
  then obtain ds' where "rmap (renumber_value table) ds = Inr ds'"
    "list_all2 (\<lambda>d y. hd_id y = hd_id d \<and> hd_name y = hd_name d \<and> hd_location y = hd_location d \<and>
      valid_id n (hd_value y)) ds ds'" by (rule rmap_ok)
  then show ?thesis by (intro that) (auto simp: list_all2_conv_all_nth)
qed

lemma renumber_parents:
  assumes "\<forall>e \<in> set es. valid_id m (he_reference e) \<and> valid_id n (he_parent e)" and len: "length table = n"
    and range: "\<And>i :: hir_id. unat i < n \<Longrightarrow> unat (table ! unat i) < n"
  obtains es' where "rmap (renumber_parent table) es = Inr es'" and "length es' = length es"
    and "\<And>j. j < length es \<Longrightarrow> he_id (es' ! j) = he_id (es ! j) \<and> he_location (es' ! j) = he_location (es ! j) \<and>
      valid_id m (he_reference (es' ! j)) \<and> valid_id n (he_parent (es' ! j))"
proof -
  have "\<exists>y. renumber_parent table e = Inr y \<and> he_id y = he_id e \<and> he_location y = he_location e \<and>
      valid_id m (he_reference y) \<and> valid_id n (he_parent y)" if "e \<in> set es" for e
    using renumber_option_ok[OF _ len range, of "he_parent e"] assms(1) that by (auto simp: renumber_parent_def)
  then obtain es' where "rmap (renumber_parent table) es = Inr es'"
    "list_all2 (\<lambda>e y. he_id y = he_id e \<and> he_location y = he_location e \<and>
      valid_id m (he_reference y) \<and> valid_id n (he_parent y)) es es'" by (rule rmap_ok)
  then show ?thesis by (intro that) (auto simp: list_all2_conv_all_nth)
qed

definition hir_sorted :: "hir_program \<Rightarrow> bool" where
  "hir_sorted h \<longleftrightarrow> sorted (map hd_location (hp_definitions h)) \<and>
     sorted (map hr_location (hp_references h)) \<and> sorted (map he_location (hp_expressions h))"

theorem normalize_ok:
  assumes ok: "hir_ok h"
  shows "\<exists>h'. normalize_order h = Inr h' \<and> hir_ok h' \<and> hir_sorted h'"
proof -
  obtain dt where dt: "renumbering (map hd_id (sort_key hd_location (hp_definitions h))) = Inr dt"
    "length dt = length (hp_definitions h)"
    "\<And>(i :: hir_id) name. names_definition (hp_definitions h) i name \<Longrightarrow>
      names_definition (numbered_definitions h) (dt ! unat i) name" by (rule renumber_definitions[OF ok], rule that)
  obtain rs where rs: "rmap (renumber_resolution dt) (hp_references h) = Inr rs"
    "length rs = length (hp_references h)" "\<forall>j < length rs. hr_id (rs ! j) = of_nat j"
    "\<forall>r \<in> set rs. resolution_ok (numbered_definitions h) (hr_name r) (hr_resolution r)"
    by (rule renumber_references[OF ok dt(2,3)])
  obtain rt where rt: "renumbering (map hr_id (sort_key hr_location rs)) = Inr rt" "length rt = length rs"
    "\<And>i :: hir_id. unat i < length rs \<Longrightarrow> unat (rt ! unat i) < length rs" by (rule sorted_table[OF rs(3)], rule that)
  obtain es where es: "rmap (renumber_reference rt) (hp_expressions h) = Inr es"
    "length es = length (hp_expressions h)" "\<forall>j < length es. he_id (es ! j) = of_nat j"
    "\<forall>e \<in> set es. valid_id (length (hp_references h)) (he_reference e) \<and>
      valid_id (length (hp_expressions h)) (he_parent e)"
    by (rule renumber_expressions[OF ok rt(2,3)[unfolded rs(2)]])
  obtain et where et: "renumbering (map he_id (sort_key he_location es)) = Inr et" "length et = length es"
    "\<And>i :: hir_id. unat i < length es \<Longrightarrow> unat (et ! unat i) < length es" by (rule sorted_table[OF es(3)], rule that)
  have v: "\<forall>d \<in> set (numbered_definitions h). valid_id (length es) (hd_value d)"
    using hir_okD(1)[OF ok] by (fastforce dest!: numbered_set simp: es(2) pair_ok in_set_conv_nth[of _ "hp_definitions h"])
  obtain ds where ds: "rmap (renumber_value et) (numbered_definitions h) = Inr ds"
    "length ds = length (hp_definitions h)"
    "\<And>j. j < length (hp_definitions h) \<Longrightarrow> hd_id (ds ! j) = of_nat j \<and>
      hd_name (ds ! j) = hd_name (numbered_definitions h ! j) \<and>
      hd_location (ds ! j) = hd_location (sort_key hd_location (hp_definitions h) ! j) \<and>
      valid_id (length es) (hd_value (ds ! j))"
    by (rule renumber_values[OF v et(2,3)], assumption, rule that, assumption) simp_all
  let ?es1 = "numbered (\<lambda>i. he_id_update (\<lambda>_. i)) (sort_key he_location es)"
  have p: "\<forall>e \<in> set ?es1. valid_id (length rs) (he_reference e) \<and> valid_id (length es) (he_parent e)"
    using es(2,4) rs(2) by (auto dest!: numbered_set)
  obtain es2 where es2: "rmap (renumber_parent et) ?es1 = Inr es2" "length es2 = length es"
    "\<And>j. j < length es \<Longrightarrow> he_id (es2 ! j) = of_nat j \<and> he_location (es2 ! j) = he_location (sort_key he_location es ! j) \<and>
      valid_id (length rs) (he_reference (es2 ! j)) \<and> valid_id (length es) (he_parent (es2 ! j))"
    by (rule renumber_parents[OF p et(2,3)], assumption, rule that, assumption) simp_all
  let ?rs1 = "numbered (\<lambda>i. hr_id_update (\<lambda>_. i)) (sort_key hr_location rs)"
  let ?h = "\<lparr> hp_definitions = ds, hp_references = ?rs1, hp_expressions = es2 \<rparr>"
  have run: "normalize_order h = Inr ?h"
    using dt(1) rs(1) rt(1) es(1) et(1) ds(1) es2(1) by (simp add: normalize_order_def Let_def)
  have "resolution_ok ds name x" if "resolution_ok (numbered_definitions h) name x" for name x
    using that ds(2,3) by (auto simp: resolution_ok_def names_definition_def)
  moreover have "sort_key hr_location rs ! j \<in> set rs" if "j < length rs" for j
    using that by (metis length_sort nth_mem set_sort)
  ultimately have "hir_ok ?h"
    using rs(4) ds(2,3) es2(2,3) by (intro hir_okI) (auto simp: pair_ok)
  moreover have "map hd_location ds = map hd_location (sort_key hd_location (hp_definitions h))"
    "map hr_location ?rs1 = map hr_location (sort_key hr_location rs)"
    "map he_location es2 = map he_location (sort_key he_location es)"
    using ds(2,3) es2(2,3) by (auto intro: nth_equalityI)
  then have "hir_sorted ?h" by (simp add: hir_sorted_def)
  ultimately show ?thesis using run by blast
qed

section \<open>Resolving a program\<close>

lemma resolver_start_ok: "resolver_ok (resolver_start external_names)"
  by (simp add: resolver_start_def resolver_ok_def hir_empty_def hir_ok_def)

lemma run_resolver_ok:
  assumes "safe (\<lambda>_. True) m Q"
  shows "\<exists>h. run_resolver m external_names = Inr h \<and> hir_ok h \<and> hir_sorted h"
proof -
  from assms resolver_start_ok obtain x r where r: "m (resolver_start external_names) = (Inr x, r)" "resolver_ok r"
    unfolding safe_def by blast
  then have "hir_ok (rs_hir r)" by (simp add: resolver_ok_def)
  from normalize_ok[OF this] r show ?thesis by (simp add: run_resolver_def)
qed

text \<open>
  C21. Name resolution of a program, of an expression, or of what parsing recovered, never panics. In
  the result the tables are sorted by location, every id is the position of its entry, every id that
  an entry mentions has an entry, and, as long as there are not more definitions than ids, a
  reference that was resolved to a definition has the name of that definition.
\<close>

theorem hir_resolve_ok:
  "(\<exists>h. hir_resolve p external_names = Inr h \<and> hir_ok h \<and> hir_sorted h) \<and>
   (\<exists>h. hir_resolve_expression e external_names = Inr h \<and> hir_ok h \<and> hir_sorted h) \<and>
   (\<exists>h. hir_resolve_recovered bindings result external_names = Inr h \<and> hir_ok h \<and> hir_sorted h)"
proof (intro conjI)
  show "\<exists>h. hir_resolve p external_names = Inr h \<and> hir_ok h \<and> hir_sorted h"
    unfolding hir_resolve_def by (rule run_resolver_ok[OF index_block_safe[OF index_expr_safe]])
  show "\<exists>h. hir_resolve_expression e external_names = Inr h \<and> hir_ok h \<and> hir_sorted h"
    unfolding hir_resolve_expression_def by (rule run_resolver_ok[OF index_expr_safe[unfolded indexes_def]])
  show "\<exists>h. hir_resolve_recovered bindings result external_names = Inr h \<and> hir_ok h \<and> hir_sorted h"
    unfolding hir_resolve_recovered_def
    by (rule run_resolver_ok[OF index_block_parts_safe[OF index_expr_safe index_expr_safe index_expr_safe]])
qed

end
