(* ===== verification/Compiler.thy ===== *)
theory Compiler
  imports Lir Runtime_Names
begin

text \<open>
  The compiler from the elaborated syntax tree to the register-level representation
  (\<open>crates/telora-core/src/compiler.rs\<close>): the struct \<open>Compiler\<close> and its methods. The methods that
  call each other through expressions and blocks take the two recursive ones, \<open>compile_expr\<close> and
  \<open>compile_tail_expr\<close>, as their first arguments and are tied together at the end. The iteration
  order of a \<open>HashMap\<close> is not known: it is the function \<open>cp_iteration\<close> of the function name, the
  number of items emitted so far and the keys. \<open>cp_debug\<close> is the \<open>Debug\<close> form of a string.
\<close>

section \<open>The compiler's state\<close>

record compiler =
  cp_source_name :: string
  cp_function_name :: string
  cp_environment :: "string \<rightharpoonup> register_id"
  cp_up_link_bindings :: "string set"
  cp_ready_up_link_bindings :: "string set"
  cp_preserved_up_link_reads :: "string set"
  cp_definition_bindings :: "string set"
  cp_constants :: "val list"
  cp_external_constant_links :: "(nat \<times> string) list"
  cp_items :: "lir_function lir_item list"
  cp_next_register :: u32
  cp_next_label :: u32
  cp_parameter_count :: u32
  cp_capture_count :: u32
  cp_closure_index :: nat
  cp_located_constants :: "string \<rightharpoonup> val"
  cp_retained_names :: "string set"
  cp_promoted_types :: "string set"
  cp_external_values :: "string \<rightharpoonup> val"
  cp_source_file :: "source_file option"
  cp_iteration :: "string \<Rightarrow> nat \<Rightarrow> string list \<Rightarrow> string list"
  cp_debug :: "string \<Rightarrow> string"

text \<open>A compilation fails with an error of the front end or panics.\<close>

datatype compile_error = CE_Frontend frontend_error | CE_Panic string

type_synonym 'a compiling = "(compiler, compile_error, 'a) eff"

definition frontend_error_of :: "string \<Rightarrow> string \<Rightarrow> frontend_error" where
  "frontend_error_of source_name message =
     frontend_error_new source_name \<lparr> sl_offset = 0, sl_line = 1, sl_column = 1 \<rparr> message"

definition fail_plain :: "(compiler \<Rightarrow> string) \<Rightarrow> 'a compiling" where
  "fail_plain message = ebind (eget (\<lambda>c. frontend_error_of (cp_source_name c) (message c)))
     (\<lambda>e. efail (CE_Frontend e))"

definition error_at :: "compiler \<Rightarrow> loc \<Rightarrow> string \<Rightarrow> compile_error" where
  "error_at c location message =
     (case cp_source_file c of
        Some file \<Rightarrow>
          let position = sf_position file (loc_start location)
          in CE_Frontend \<lparr> fe_source_name = sf_name file,
               fe_location = \<lparr> sl_offset = unat (loc_start location),
                 sl_line = pos_line position, sl_column = pos_column position \<rparr>,
               fe_message = message,
               fe_diagnostic = Some (diagnostic_error message location) \<rparr>
      | None \<Rightarrow> CE_Panic ''located compiler errors require their source file'')"

definition fail_at :: "loc \<Rightarrow> (compiler \<Rightarrow> string) \<Rightarrow> 'a compiling" where
  "fail_at location message = ebind (eget (\<lambda>c. error_at c location (message c))) efail"

definition fail_if :: "(compiler \<Rightarrow> bool) \<Rightarrow> loc \<Rightarrow> (compiler \<Rightarrow> string) \<Rightarrow> unit compiling" where
  "fail_if p location message =
     ebind (eget p) (\<lambda>b. if b then fail_at location message else eret ())"

section \<open>Registers, labels, constants\<close>

definition allocate_register :: "register_id compiling" where
  "allocate_register =
     ebind (eget cp_next_register) (\<lambda>r.
     if unat r = u32_max then efail (CE_Panic ''register count exceeds u32'')
     else ebind (emodify (\<lambda>c. c\<lparr> cp_next_register := r + 1 \<rparr>)) (\<lambda>_. eret r))"

definition new_label :: "label_id compiling" where
  "new_label =
     ebind (eget cp_next_label) (\<lambda>l.
     if unat l = u32_max then efail (CE_Panic ''label count exceeds u32'')
     else ebind (emodify (\<lambda>c. c\<lparr> cp_next_label := l + 1 \<rparr>)) (\<lambda>_. eret l))"

definition push_item :: "lir_function lir_item \<Rightarrow> unit compiling" where
  "push_item item = emodify (\<lambda>c. c\<lparr> cp_items := cp_items c @ [item] \<rparr>)"

definition emit :: "lir_function operation \<Rightarrow> loc \<Rightarrow> unit compiling" where
  "emit operation location = push_item (L_Operation operation (Origin_Source location))"

definition emit_synthetic :: "lir_function operation \<Rightarrow> loc \<Rightarrow> unit compiling" where
  "emit_synthetic operation derived_from =
     push_item (L_Operation operation (Origin_Synthetic (Some derived_from)))"

definition mark_label :: "label_id \<Rightarrow> unit compiling" where
  "mark_label label = push_item (L_Label label)"

definition emit_to :: "(register_id \<Rightarrow> lir_function operation) \<Rightarrow> loc \<Rightarrow> register_id compiling" where
  "emit_to operation location =
     ebind allocate_register (\<lambda>dst. ebind (emit (operation dst) location) (\<lambda>_. eret dst))"

definition load_constant :: "val \<Rightarrow> loc \<Rightarrow> register_id compiling" where
  "load_constant v location =
     ebind (eget (\<lambda>c. length (cp_constants c))) (\<lambda>constant.
     ebind (emodify (\<lambda>c. c\<lparr> cp_constants := cp_constants c @ [v] \<rparr>)) (\<lambda>_.
     ebind allocate_register (\<lambda>dst.
     case u32_try_from constant of
       None \<Rightarrow> efail (CE_Panic ''constant pool exceeds u32'')
     | Some index \<Rightarrow>
         ebind (emit (L_LoadConst dst index) location) (\<lambda>_. eret dst))))"

definition load_external_constant :: "val \<Rightarrow> string \<Rightarrow> loc \<Rightarrow> register_id compiling" where
  "load_external_constant v key location =
     ebind (eget (\<lambda>c. length (cp_constants c))) (\<lambda>index.
     ebind (load_constant v location) (\<lambda>register.
     ebind (emodify (\<lambda>c. c\<lparr> cp_external_constant_links :=
         cp_external_constant_links c @ [(index, key)] \<rparr>)) (\<lambda>_.
     eret register)))"

definition bind_name :: "string \<Rightarrow> register_id \<Rightarrow> unit compiling" where
  "bind_name name r = emodify (\<lambda>c. c\<lparr> cp_environment := (cp_environment c)(name \<mapsto> r) \<rparr>)"

text \<open>A scope of which only the environment is put back.\<close>

definition with_environment :: "'a compiling \<Rightarrow> 'a compiling" where
  "with_environment m =
     ebind (eget cp_environment) (\<lambda>outer.
     ebind m (\<lambda>x. ebind (emodify (\<lambda>c. c\<lparr> cp_environment := outer \<rparr>)) (\<lambda>_. eret x)))"

section \<open>Patterns\<close>

text \<open>A conditional jump to a new label, which is recorded as a way for the pattern to fail.\<close>

definition jump_if_false :: "register_id \<Rightarrow> loc \<Rightarrow> label_id list \<Rightarrow> label_id list compiling" where
  "jump_if_false condition location failures =
     ebind new_label (\<lambda>failure.
     ebind (emit (L_JumpIfFalse condition failure) location) (\<lambda>_.
     eret (failures @ [failure])))"

definition emit_pattern_equality ::
    "register_id \<Rightarrow> register_id \<Rightarrow> loc \<Rightarrow> label_id list \<Rightarrow> label_id list compiling" where
  "emit_pattern_equality v expected location failures =
     ebind (emit_to (\<lambda>condition. L_Equal condition v expected) location) (\<lambda>condition.
     jump_if_false condition location failures)"

definition pattern_literal ::
    "val \<Rightarrow> register_id \<Rightarrow> loc \<Rightarrow> label_id list \<times> string set \<Rightarrow>
     (label_id list \<times> string set) compiling" where
  "pattern_literal literal v location acc =
     ebind (load_constant literal location) (\<lambda>expected.
     ebind (emit_pattern_equality v expected location (fst acc)) (\<lambda>failures.
     eret (failures, snd acc)))"

function (sequential) compile_pattern ::
    "pattern \<Rightarrow> register_id \<Rightarrow> label_id list \<times> string set \<Rightarrow> (label_id list \<times> string set) compiling"
where
  "compile_pattern (Pattern P_Wildcard location) v acc = eret acc"
| "compile_pattern (Pattern (P_Binding name) location) v acc =
     (if located_value name \<in> snd acc then
        fail_plain (\<lambda>c. ''duplicate pattern binding '' @ cp_debug c (located_value name))
      else
        ebind (bind_name (located_value name) v) (\<lambda>_.
        eret (fst acc, insert (located_value name) (snd acc))))"
| "compile_pattern (Pattern (P_Int item) location) v acc = pattern_literal (VInt item) v location acc"
| "compile_pattern (Pattern (P_Float item) location) v acc = pattern_literal (VFloat item) v location acc"
| "compile_pattern (Pattern (P_String item) location) v acc = pattern_literal (VString item) v location acc"
| "compile_pattern (Pattern (P_Atom item) location) v acc = pattern_literal (atom_value item) v location acc"
| "compile_pattern (Pattern (P_Tagged tag payload) location) v acc =
     ebind (load_constant (atom_value tag) location) (\<lambda>expected.
     ebind (emit_to (\<lambda>condition. L_TaggedTagEquals condition v expected) location) (\<lambda>condition.
     ebind (jump_if_false condition location (fst acc)) (\<lambda>failures.
     ebind (emit_to (\<lambda>payload_value. L_GetTaggedPayload payload_value v) location) (\<lambda>payload_value.
     compile_pattern payload payload_value (failures, snd acc)))))"
| "compile_pattern (Pattern (P_Tuple items) location) v acc =
     ebind (emit_to (\<lambda>condition. L_TupleLengthEquals condition v (length items)) location) (\<lambda>condition.
     ebind (jump_if_false condition location (fst acc)) (\<lambda>failures.
     efold (\<lambda>(index, item) acc.
         ebind (emit_to (\<lambda>element. L_GetTuple element v index) (pattern_location item)) (\<lambda>element.
         compile_pattern item element acc))
       (enumerate 0 items) (failures, snd acc)))"
| "compile_pattern (Pattern (P_Struct fs) location) v acc =
     ebind (emit_to (\<lambda>condition. L_IsDict condition v) location) (\<lambda>condition.
     ebind (jump_if_false condition location (fst acc)) (\<lambda>failures.
     ebind (efold (\<lambda>(name, item) (field_names, acc).
         if located_value name \<in> field_names then
           fail_plain (\<lambda>c. ''duplicate Struct pattern field '' @ cp_debug c (located_value name))
         else
           ebind (emit_to (\<lambda>condition. L_FieldExists condition v (located_value name)) (located_at name)) (\<lambda>condition.
           ebind (jump_if_false condition (located_at name) (fst acc)) (\<lambda>failures.
           ebind (emit_to (\<lambda>selected. L_GetField selected v (located_value name)) (located_at name)) (\<lambda>selected.
           ebind (compile_pattern item selected (failures, snd acc)) (\<lambda>acc.
           eret (insert (located_value name) field_names, acc))))))
       fs ({}, failures, snd acc)) (\<lambda>(field_names, acc).
     eret acc)))"
  by pat_completeness auto
termination
  by (relation "measure (\<lambda>(p, v, acc). size p)")
     (auto simp: termination_simp in_set_enumerate_eq intro: nth_mem dest: size_pattern_item[OF nth_mem])

section \<open>Collections and calls\<close>

definition compile_many :: "(expr \<Rightarrow> register_id compiling) \<Rightarrow> expr list \<Rightarrow> register_id list compiling" where
  "compile_many ce expressions = ecollect ce expressions"

definition spread_operand :: "expr \<Rightarrow> expr option" where
  "spread_operand e = (case expr_value e of E_Spread operand \<Rightarrow> Some operand | _ \<Rightarrow> None)"

definition compile_spread_array ::
    "(expr \<Rightarrow> register_id compiling) \<Rightarrow> expr list \<Rightarrow> loc \<Rightarrow> register_id compiling" where
  "compile_spread_array ce items location =
     ebind (ecollect (\<lambda>item. case spread_operand item of
         Some operand \<Rightarrow> ce operand
       | None \<Rightarrow> ebind (ce item) (\<lambda>v. emit_to (\<lambda>array. L_MakeArray array [v]) (expr_location item)))
       items) (\<lambda>arrays.
     emit_to (\<lambda>dst. L_ConcatArrays dst arrays) location)"

definition compile_array ::
    "(expr \<Rightarrow> register_id compiling) \<Rightarrow> expr list \<Rightarrow> loc \<Rightarrow> register_id compiling" where
  "compile_array ce items location =
     (if list_ex (\<lambda>item. spread_operand item \<noteq> None) items then compile_spread_array ce items location
      else ebind (compile_many ce items) (\<lambda>items. emit_to (\<lambda>dst. L_MakeArray dst items) location))"

definition duplicate_field :: "string \<Rightarrow> 'a compiling" where
  "duplicate_field name = fail_plain (\<lambda>c. ''duplicate Dict field '' @ cp_debug c name)"

definition compile_spread_dict ::
    "(expr \<Rightarrow> register_id compiling) \<Rightarrow> dict_field list \<Rightarrow> loc \<Rightarrow> register_id compiling" where
  "compile_spread_dict ce fs location =
     ebind (efold (\<lambda>f (seen, dicts). case field_name f of
         Some name \<Rightarrow>
           if name \<in> seen then duplicate_field name
           else
             ebind (ce (field_value f)) (\<lambda>v.
             ebind (emit_to (\<lambda>dict. L_MakeDict dict [(name, v)]) (located_at f)) (\<lambda>dict.
             eret (insert name seen, dicts @ [dict])))
       | None \<Rightarrow> (case spread_operand (field_value f) of
           None \<Rightarrow> fail_at (located_at f) (\<lambda>_. ''invalid Dict spread entry'')
         | Some operand \<Rightarrow> ebind (ce operand) (\<lambda>dict. eret (seen, dicts @ [dict]))))
       fs ({}, [])) (\<lambda>(seen, dicts).
     emit_to (\<lambda>dst. L_MergeDicts dst dicts) location)"

definition compile_dict ::
    "(expr \<Rightarrow> register_id compiling) \<Rightarrow> dict_field list \<Rightarrow> loc \<Rightarrow> register_id compiling" where
  "compile_dict ce fs location =
     (if list_ex (\<lambda>f. field_name f = None) fs then compile_spread_dict ce fs location
      else
        ebind (efold (\<lambda>f (seen, compiled). case field_name f of
            None \<Rightarrow> efail (CE_Panic ''ordinary Dict field has a name'')
          | Some name \<Rightarrow>
              if name \<in> seen then duplicate_field name
              else ebind (ce (field_value f)) (\<lambda>v. eret (insert name seen, compiled @ [(name, v)])))
          fs ({}, [])) (\<lambda>(seen, compiled).
        emit_to (\<lambda>dst. L_MakeDict dst compiled) location))"

text \<open>The callee and the arguments are copied to registers that follow each other.\<close>

definition compile_call_window ::
    "(expr \<Rightarrow> register_id compiling) \<Rightarrow> expr \<Rightarrow> expr list \<Rightarrow> loc \<Rightarrow> (register_id \<times> u32) compiling" where
  "compile_call_window ce callee arguments location =
     ebind (ce callee) (\<lambda>callee.
     ebind (compile_many ce arguments) (\<lambda>arguments.
     ebind (emit_to (\<lambda>base. L_Move base callee) location) (\<lambda>base.
     ebind (eiter (\<lambda>argument.
         ebind (emit_to (\<lambda>destination. L_Move destination argument) location) (\<lambda>_. eret ()))
       arguments) (\<lambda>_.
     case u32_try_from (length arguments) of
       None \<Rightarrow> fail_plain (\<lambda>_. ''too many call arguments'')
     | Some argument_count \<Rightarrow> eret (base, argument_count)))))"

section \<open>Closures\<close>

text \<open>\<open>Compiler::nested\<close>: parameters take the first registers, captures the next ones.\<close>

fun parameter_environment ::
    "compiler \<Rightarrow> nat \<Rightarrow> string list \<Rightarrow> (string \<rightharpoonup> register_id) \<Rightarrow> string + (string \<rightharpoonup> register_id)" where
  "parameter_environment c index [] environment = Inr environment"
| "parameter_environment c index (name # names) environment =
     (case u32_try_from index of
        None \<Rightarrow> Inl ''too many function parameters''
      | Some r \<Rightarrow>
          if environment name \<noteq> None then Inl (''duplicate parameter '' @ cp_debug c name)
          else parameter_environment c (Suc index) names (environment(name \<mapsto> r)))"

fun capture_environment ::
    "nat \<Rightarrow> string list \<Rightarrow> (string \<rightharpoonup> register_id) \<Rightarrow> string + (string \<rightharpoonup> register_id)" where
  "capture_environment index [] environment = Inr environment"
| "capture_environment index (name # names) environment =
     (if usize_max < index then Inl ''too many closure registers''
      else case u32_try_from index of
          None \<Rightarrow> Inl ''too many closure captures''
        | Some r \<Rightarrow> capture_environment (Suc index) names (environment(name \<mapsto> r)))"

definition nested_compiler ::
    "compiler \<Rightarrow> string \<Rightarrow> string list \<Rightarrow> string list \<Rightarrow> string set \<Rightarrow> string set \<Rightarrow> string + compiler" where
  "nested_compiler c function_name parameters captures captured_up_links captured_definitions =
     rbind (parameter_environment c 0 parameters Map.empty) (\<lambda>environment.
     rbind (capture_environment (length parameters) captures environment) (\<lambda>environment.
     rbind (ok_or ''too many closure registers''
       (checked_add_usize (length parameters) (length captures))) (\<lambda>register_count.
     rbind (ok_or ''too many closure registers'' (u32_try_from register_count)) (\<lambda>next_register.
     rbind (ok_or ''too many function parameters'' (u32_try_from (length parameters))) (\<lambda>parameter_count.
     rbind (ok_or ''too many closure captures'' (u32_try_from (length captures))) (\<lambda>capture_count.
     Inr \<lparr> cp_source_name = cp_source_name c, cp_function_name = function_name,
       cp_environment = environment, cp_up_link_bindings = captured_up_links,
       cp_ready_up_link_bindings = {}, cp_preserved_up_link_reads = {},
       cp_definition_bindings = captured_definitions, cp_constants = [],
       cp_external_constant_links = [], cp_items = [], cp_next_register = next_register,
       cp_next_label = 0, cp_parameter_count = parameter_count, cp_capture_count = capture_count,
       cp_closure_index = 0, cp_located_constants = Map.empty, cp_retained_names = {},
       cp_promoted_types = {}, cp_external_values = Map.empty,
       cp_source_file = cp_source_file c, cp_iteration = cp_iteration c,
       cp_debug = cp_debug c \<rparr>))))))"

definition finish_lir :: "compiler \<Rightarrow> lir_function" where
  "finish_lir c = LirFunction (cp_function_name c) (cp_parameter_count c) (cp_capture_count c)
     (cp_next_register c) (cp_constants c) (cp_items c)"

definition unknown_binding :: "compiler \<Rightarrow> string \<Rightarrow> string" where
  "unknown_binding c name = ''unknown binding '' @ cp_debug c name"

definition capture_register :: "loc \<Rightarrow> string \<Rightarrow> register_id compiling" where
  "capture_register location name =
     ebind (eget (\<lambda>c. (cp_environment c name, name \<in> cp_ready_up_link_bindings c))) (\<lambda>(found, ready).
     case found of
       None \<Rightarrow> fail_plain (\<lambda>c. unknown_binding c name)
     | Some r \<Rightarrow>
         if ready then emit_to (\<lambda>v. L_ReadUpLink v r) location else eret r)"

definition run_nested :: "unit compiling \<Rightarrow> compiler \<Rightarrow> compile_error + lir_function" where
  "run_nested m nested =
     (case m nested of (Inl e, _) \<Rightarrow> Inl e | (Inr _, finished) \<Rightarrow> Inr (finish_lir finished))"

text \<open>\<open>compiled_body\<close> is \<open>compile_tail_block(body)\<close>, which runs on the nested compiler.\<close>

definition compile_closure ::
    "unit compiling \<Rightarrow> string list \<Rightarrow> block \<Rightarrow> loc \<Rightarrow> register_id compiling" where
  "compile_closure compiled_body parameters body location =
     (if \<not> distinct parameters then fail_plain (\<lambda>_. ''duplicate closure parameter'')
      else
        let captures = free_block free_expr body (set parameters) [] in
        ebind (ecollect (capture_register location) captures) (\<lambda>capture_registers.
        ebind (eget (\<lambda>c. (filter (\<lambda>n. n \<in> cp_up_link_bindings c \<and> n \<notin> cp_ready_up_link_bindings c) captures,
            filter (\<lambda>n. n \<in> cp_definition_bindings c) captures)))
          (\<lambda>(captured_up_links, captured_definitions).
        ebind (eget (\<lambda>c. cp_function_name c @ ''::closure'' @ show_nat (cp_closure_index c))) (\<lambda>name.
        ebind (emodify (\<lambda>c. c\<lparr> cp_closure_index := cp_closure_index c + 1 \<rparr>)) (\<lambda>_.
        ebind (eget (\<lambda>c. nested_compiler c name parameters captures
            (set captured_up_links) (set captured_definitions))) (\<lambda>created. case created of
          Inl message \<Rightarrow> fail_plain (\<lambda>_. message)
        | Inr nested \<Rightarrow>
            ebind (elift (run_nested compiled_body nested)) (\<lambda>function.
            emit_to (\<lambda>dst. L_MakeClosure dst function capture_registers) location)))))))"

section \<open>Blocks\<close>

text \<open>The passes over the bindings of a block, in the order of the code.\<close>

definition check_natives :: "binding list \<Rightarrow> string set compiling" where
  "check_natives bindings =
     efold (\<lambda>b natives.
       let name = binding_name b in
       if binding_kind_of b \<noteq> BK_Native then eret natives
       else if name \<in> natives then
         fail_at (located_at b) (\<lambda>c. ''duplicate native declaration '' @ cp_debug c name)
       else
         ebind (fail_if (\<lambda>c. cp_environment c name \<noteq> None) (located_at b)
           (\<lambda>c. ''native binding '' @ cp_debug c name @ '' cannot shadow an outer binding'')) (\<lambda>_.
         eret (insert name natives)))
     bindings {}"

definition check_native_conflicts :: "string set \<Rightarrow> binding list \<Rightarrow> unit compiling" where
  "check_native_conflicts natives bindings =
     eiter (\<lambda>b.
       let name = binding_name b in
       if binding_kind_of b \<in> {BK_OpenImport, BK_Export} then eret ()
       else if name \<in> natives \<and> binding_kind_of b \<noteq> BK_Native then
         fail_at (located_at b)
           (\<lambda>c. ''binding '' @ cp_debug c name @ '' conflicts with a native declaration'')
       else eret ())
     bindings"

type_synonym declarations = "(string \<times> register_id \<times> loc \<times> u32 option) list"

definition closure_parameters :: "expr \<Rightarrow> expr closure_parameter list option" where
  "closure_parameters e = (case expr_value e of E_Closure ps _ _ \<Rightarrow> Some ps | _ \<Rightarrow> None)"

definition declared_arity :: "binding \<Rightarrow> u32 option" where
  "declared_arity b =
     (case Option.bind (binding_annotation b) function_contract_arity of
        Some arity \<Rightarrow> Some arity
      | None \<Rightarrow> Option.bind (closure_parameters (binding_value b)) (\<lambda>ps. u32_try_from (length ps)))"

definition declares_link :: "declarations \<Rightarrow> binding \<Rightarrow> bool" where
  "declares_link declared b \<longleftrightarrow>
     binding_kind_of b = BK_Decl \<or>
     binding_kind_of b = BK_Def \<and> binding_annotation b \<noteq> None \<or>
     binding_kind_of b = BK_Def \<and> closure_parameters (binding_value b) \<noteq> None \<and>
       map_of declared (binding_name b) = None"

text \<open>A link for a name: a register that holds an up-link until the name is defined.\<close>

definition make_link :: "string \<Rightarrow> loc \<Rightarrow> register_id compiling" where
  "make_link name location =
     ebind (emit_to L_MakeUpLink location) (\<lambda>link.
     ebind (bind_name name link) (\<lambda>_.
     ebind (emodify (\<lambda>c. c\<lparr> cp_up_link_bindings := insert name (cp_up_link_bindings c) \<rparr>)) (\<lambda>_.
     eret link)))"

definition declare_links :: "(string \<rightharpoonup> register_id) \<Rightarrow> binding list \<Rightarrow> declarations compiling" where
  "declare_links outer bindings =
     efold (\<lambda>b declared.
       let name = binding_name b in
       if \<not> declares_link declared b then eret declared
       else if map_of declared name \<noteq> None then
         fail_at (located_at b) (\<lambda>c. ''duplicate declaration '' @ cp_debug c name)
       else if outer name \<noteq> None then
         fail_at (located_at b)
           (\<lambda>c. ''definition '' @ cp_debug c name @ '' cannot shadow an outer definition'')
       else
         ebind (make_link name (located_at b)) (\<lambda>link.
         ebind (emodify (\<lambda>c. c\<lparr> cp_definition_bindings := insert name (cp_definition_bindings c) \<rparr>)) (\<lambda>_.
         eret (declared @ [(name, link, located_at b, declared_arity b)]))))
     bindings []"

definition link_types :: "binding list \<Rightarrow> (string \<times> register_id \<times> loc) list compiling" where
  "link_types bindings =
     efold (\<lambda>b links.
       let name = binding_name b in
       ebind (eget (\<lambda>c. binding_kind_of b \<noteq> BK_Type \<or> name \<notin> cp_retained_names c \<or>
           name \<in> cp_promoted_types c)) (\<lambda>skip.
       if skip then eret links
       else
         ebind (fail_if (\<lambda>c. cp_environment c name \<noteq> None) (located_at b)
           (\<lambda>c. ''type definition '' @ cp_debug c name @ '' cannot shadow a visible binding'')) (\<lambda>_.
         ebind (make_link name (located_at b)) (\<lambda>link.
         eret (links @ [(name, link, located_at b)])))))
     bindings []"

text \<open>The keys of a map in the order in which it is iterated.\<close>

definition iterated :: "string list \<Rightarrow> string list compiling" where
  "iterated keys = eget (\<lambda>c. cp_iteration c (cp_function_name c) (length (cp_items c)) keys)"

definition check_definition_counts :: "loc \<Rightarrow> binding list \<Rightarrow> unit compiling" where
  "check_definition_counts location bindings =
     (let defined = map binding_name (filter (\<lambda>b. binding_kind_of b = BK_Def) bindings) in
      ebind (iterated (remdups defined)) (\<lambda>names.
      case find (\<lambda>name. 1 < count_list defined name) names of
        None \<Rightarrow> eret ()
      | Some name \<Rightarrow> fail_at location
          (\<lambda>c. ''definition '' @ cp_debug c name @ '' is initialized more than once'')))"

definition check_declared_conflicts :: "declarations \<Rightarrow> binding list \<Rightarrow> unit compiling" where
  "check_declared_conflicts declared bindings =
     eiter (\<lambda>b.
       let name = binding_name b in
       if binding_kind_of b \<in> {BK_OpenImport, BK_Export} then eret ()
       else if map_of declared name \<noteq> None \<and> binding_kind_of b \<notin> {BK_Decl, BK_Def} then
         fail_at (located_at b)
           (\<lambda>c. ''binding '' @ cp_debug c name @ '' conflicts with a declaration in this block'')
       else eret ())
     bindings"

definition compile_definition ::
    "(expr \<Rightarrow> register_id compiling) \<Rightarrow> declarations \<Rightarrow> binding \<Rightarrow> unit compiling" where
  "compile_definition ce declared b =
     (let name = binding_name b; def = (binding_kind_of b = BK_Def) in
      ebind (fail_if (\<lambda>c. def \<and> map_of declared name = None \<and> cp_environment c name \<noteq> None) (located_at b)
        (\<lambda>c. ''definition '' @ cp_debug c name @ '' cannot shadow a visible binding'')) (\<lambda>_.
      ebind (ce (binding_value b)) (\<lambda>v.
      case (if def then map_of declared name else None) of
        Some (link, _, arity) \<Rightarrow>
          ebind (case arity of
              Some arity \<Rightarrow> emit (L_AssertFunctionArity v arity) (located_at b)
            | None \<Rightarrow> eret ()) (\<lambda>_.
          ebind (emit (L_InitializeUpLink link v) (located_at b)) (\<lambda>_.
          emodify (\<lambda>c. c\<lparr> cp_ready_up_link_bindings := insert name (cp_ready_up_link_bindings c) \<rparr>)))
      | None \<Rightarrow>
          ebind (bind_name name v) (\<lambda>_.
          ebind (emodify (\<lambda>c. c\<lparr> cp_up_link_bindings := cp_up_link_bindings c - {name} \<rparr>)) (\<lambda>_.
          emodify (\<lambda>c. c\<lparr> cp_definition_bindings :=
            (if def then insert name (cp_definition_bindings c)
             else cp_definition_bindings c - {name}) \<rparr>))))))"

definition compile_type ::
    "(expr \<Rightarrow> register_id compiling) \<Rightarrow> (string \<times> register_id \<times> loc) list \<Rightarrow> binding \<Rightarrow> unit compiling" where
  "compile_type ce type_links b =
     (let name = binding_name b in
      ebind (eget (\<lambda>c. (name \<in> cp_retained_names c, name \<in> cp_promoted_types c))) (\<lambda>(retained, promoted).
      if \<not> retained then eret ()
      else if promoted then
        ebind (load_external_constant val_none (type_link_key name) (located_at b)) (bind_name name)
      else
        ebind (emodify (\<lambda>c. c\<lparr> cp_preserved_up_link_reads := set (map fst type_links) \<rparr>)) (\<lambda>_.
        ebind (ce (binding_value b)) (\<lambda>r.
        ebind (emodify (\<lambda>c. c\<lparr> cp_preserved_up_link_reads := {} \<rparr>)) (\<lambda>_.
        case map_of type_links name of
          None \<Rightarrow> efail (CE_Panic ''type link exists'')
        | Some (link, _) \<Rightarrow> emit (L_InitializeUpLink link r) (located_at b))))))"

definition compile_external :: "binding \<Rightarrow> unit compiling" where
  "compile_external b =
     (let name = binding_name b in
      ebind (eget (\<lambda>c. cp_external_values c name)) (\<lambda>found. case found of
        None \<Rightarrow> fail_plain (\<lambda>_. ''external binding '' @ name @ '' has not been resolved'')
      | Some v \<Rightarrow>
          ebind (load_external_constant v name (located_at b)) (bind_name name)))"

definition compile_binding ::
    "(expr \<Rightarrow> register_id compiling) \<Rightarrow> declarations \<Rightarrow> (string \<times> register_id \<times> loc) list \<Rightarrow>
     binding \<Rightarrow> unit compiling" where
  "compile_binding ce declared type_links b =
     (case binding_kind_of b of
        BK_OpenImport \<Rightarrow> eret ()
      | BK_Export \<Rightarrow> eret ()
      | BK_Decl \<Rightarrow> eret ()
      | BK_Type \<Rightarrow> compile_type ce type_links b
      | BK_Import \<Rightarrow> compile_external b
      | BK_Native \<Rightarrow> compile_external b
      | BK_NativeType \<Rightarrow> compile_external b
      | BK_Let \<Rightarrow> compile_definition ce declared b
      | BK_Def \<Rightarrow> compile_definition ce declared b)"

text \<open>Every link of the block has to be defined at its end.\<close>

definition assert_ready :: "(string \<times> register_id \<times> loc) list \<Rightarrow> unit compiling" where
  "assert_ready links =
     ebind (iterated (map fst links)) (\<lambda>names.
     eiter (\<lambda>name. case map_of links name of
         None \<Rightarrow> eret ()
       | Some (link, location) \<Rightarrow> emit (L_AssertUpLinkReady link) location) names)"

definition restore_scope :: "compiler \<Rightarrow> unit compiling" where
  "restore_scope outer = emodify (\<lambda>c. c\<lparr> cp_environment := cp_environment outer,
     cp_up_link_bindings := cp_up_link_bindings outer,
     cp_ready_up_link_bindings := cp_ready_up_link_bindings outer,
     cp_definition_bindings := cp_definition_bindings outer \<rparr>)"

definition compile_block_inner ::
    "(expr \<Rightarrow> register_id compiling) \<Rightarrow> (expr \<Rightarrow> unit compiling) \<Rightarrow> block \<Rightarrow> bool \<Rightarrow>
     register_id option compiling" where
  "compile_block_inner ce ct b tail =
     ebind (eget (\<lambda>c. c)) (\<lambda>outer.
     let bindings = block_bindings b in
     ebind (check_natives bindings) (\<lambda>natives.
     ebind (check_native_conflicts natives bindings) (\<lambda>_.
     ebind (declare_links (cp_environment outer) bindings) (\<lambda>declared.
     ebind (link_types bindings) (\<lambda>type_links.
     ebind (check_definition_counts (located_at b) bindings) (\<lambda>_.
     ebind (check_declared_conflicts declared bindings) (\<lambda>_.
     ebind (eiter (compile_binding ce declared type_links) bindings) (\<lambda>_.
     ebind (assert_ready (map (\<lambda>(name, link, location, _). (name, link, location)) declared)) (\<lambda>_.
     ebind (assert_ready type_links) (\<lambda>_.
     ebind (if tail then ebind (ct (block_result b)) (\<lambda>_. eret None)
            else ebind (ce (block_result b)) (\<lambda>r. eret (Some r))) (\<lambda>r.
     ebind (restore_scope outer) (\<lambda>_.
     eret r))))))))))))"

definition compile_block ::
    "(expr \<Rightarrow> register_id compiling) \<Rightarrow> (expr \<Rightarrow> unit compiling) \<Rightarrow> block \<Rightarrow> register_id compiling" where
  "compile_block ce ct b =
     ebind (compile_block_inner ce ct b False) (\<lambda>r. case r of
         Some r \<Rightarrow> eret r
       | None \<Rightarrow> fail_plain (\<lambda>_. ''value block did not produce a value''))"

definition compile_tail_block ::
    "(expr \<Rightarrow> register_id compiling) \<Rightarrow> (expr \<Rightarrow> unit compiling) \<Rightarrow> block \<Rightarrow> unit compiling" where
  "compile_tail_block ce ct b = ebind (compile_block_inner ce ct b True) (\<lambda>_. eret ())"

section \<open>Branches\<close>

definition compile_if ::
    "(expr \<Rightarrow> register_id compiling) \<Rightarrow> (expr \<Rightarrow> unit compiling) \<Rightarrow> expr \<Rightarrow> block \<Rightarrow> block \<Rightarrow> loc \<Rightarrow>
     register_id compiling" where
  "compile_if ce ct condition then_branch else_branch location =
     ebind (ce condition) (\<lambda>r.
     ebind new_label (\<lambda>else_label.
     ebind (emit (L_JumpIfFalse r else_label) (expr_location condition)) (\<lambda>_.
     ebind (compile_block ce ct then_branch) (\<lambda>then_value.
     ebind allocate_register (\<lambda>result.
     ebind (emit_synthetic (L_Move result then_value) (located_at then_branch)) (\<lambda>_.
     ebind new_label (\<lambda>end_label.
     ebind (emit_synthetic (L_Jump end_label) location) (\<lambda>_.
     ebind (mark_label else_label) (\<lambda>_.
     ebind (compile_block ce ct else_branch) (\<lambda>else_value.
     ebind (emit_synthetic (L_Move result else_value) (located_at else_branch)) (\<lambda>_.
     ebind (mark_label end_label) (\<lambda>_.
     eret result))))))))))))"

definition compile_tail_if ::
    "(expr \<Rightarrow> register_id compiling) \<Rightarrow> (expr \<Rightarrow> unit compiling) \<Rightarrow> expr \<Rightarrow> block \<Rightarrow> block \<Rightarrow>
     unit compiling" where
  "compile_tail_if ce ct condition then_branch else_branch =
     ebind (ce condition) (\<lambda>r.
     ebind new_label (\<lambda>else_label.
     ebind (emit (L_JumpIfFalse r else_label) (expr_location condition)) (\<lambda>_.
     ebind (compile_tail_block ce ct then_branch) (\<lambda>_.
     ebind (mark_label else_label) (\<lambda>_.
     compile_tail_block ce ct else_branch)))))"

text \<open>The test of an arm: its pattern and its guard, with the labels to which they fail.\<close>

definition compile_arm_test ::
    "(expr \<Rightarrow> register_id compiling) \<Rightarrow> match_arm \<Rightarrow> register_id \<Rightarrow> label_id list compiling" where
  "compile_arm_test ce arm v =
     ebind (compile_pattern (arm_pattern arm) v ([], {})) (\<lambda>(failures, _).
     case arm_guard arm of
       None \<Rightarrow> eret failures
     | Some guard \<Rightarrow>
         ebind (ce guard) (\<lambda>condition. jump_if_false condition (expr_location guard) failures))"

definition no_arm :: string where
  "no_arm = ''no match arm accepted the value''"

definition compile_match ::
    "(expr \<Rightarrow> register_id compiling) \<Rightarrow> expr \<Rightarrow> match_arm list \<Rightarrow> loc \<Rightarrow> register_id compiling" where
  "compile_match ce scrutinee arms location =
     ebind (ce scrutinee) (\<lambda>v.
     ebind allocate_register (\<lambda>result.
     ebind (efold (\<lambda>arm end_jumps. with_environment (
         ebind (compile_arm_test ce arm v) (\<lambda>failures.
         ebind (ce (arm_value arm)) (\<lambda>r.
         ebind (emit_synthetic (L_Move result r) (located_at arm)) (\<lambda>_.
         ebind new_label (\<lambda>end_label.
         ebind (emit_synthetic (L_Jump end_label) (located_at arm)) (\<lambda>_.
         ebind (eiter mark_label failures) (\<lambda>_.
         eret (end_jumps @ [end_label])))))))))
       arms []) (\<lambda>end_jumps.
     ebind (emit (L_Fail no_arm) location) (\<lambda>_.
     ebind (eiter mark_label end_jumps) (\<lambda>_.
     eret result)))))"

definition compile_tail_match ::
    "(expr \<Rightarrow> register_id compiling) \<Rightarrow> (expr \<Rightarrow> unit compiling) \<Rightarrow> expr \<Rightarrow> match_arm list \<Rightarrow> loc \<Rightarrow>
     unit compiling" where
  "compile_tail_match ce ct scrutinee arms location =
     ebind (ce scrutinee) (\<lambda>v.
     ebind (eiter (\<lambda>arm. with_environment (
         ebind (compile_arm_test ce arm v) (\<lambda>failures.
         ebind (ct (arm_value arm)) (\<lambda>_.
         eiter mark_label failures))))
       arms) (\<lambda>_.
     emit (L_Fail no_arm) location))"

section \<open>Recursion\<close>

fun binary_operation ::
    "binary_operator \<Rightarrow> register_id \<Rightarrow> register_id \<Rightarrow> register_id \<Rightarrow> lir_function operation option" where
  "binary_operation B_Add dst left right = Some (L_Add dst left right)"
| "binary_operation B_Subtract dst left right = Some (L_Subtract dst left right)"
| "binary_operation B_Multiply dst left right = Some (L_Multiply dst left right)"
| "binary_operation B_Divide dst left right = Some (L_Divide dst left right)"
| "binary_operation B_LessThan dst left right = Some (L_LessThan dst left right)"
| "binary_operation B_Equal dst left right = Some (L_Equal dst left right)"
| "binary_operation B_And dst left right = None"
| "binary_operation B_Or dst left right = None"

text \<open>What the methods ask of the two they take: only what the node holds.\<close>

lemma compile_block_inner_cong:
  assumes "\<And>e. e \<in> block_exprs b \<Longrightarrow> ce e = ce' e" "\<And>e. e \<in> block_exprs b \<Longrightarrow> ct e = ct' e"
  shows "compile_block_inner ce ct b tail = compile_block_inner ce' ct' b tail"
proof -
  have "compile_binding ce declared links d = compile_binding ce' declared links d"
    if "d \<in> set (block_bindings b)" for d declared links
  proof -
    have eq: "ce (binding_value d) = ce' (binding_value d)" using assms(1) that by simp
    show ?thesis unfolding compile_binding_def compile_type_def compile_definition_def eq ..
  qed
  then have "eiter (compile_binding ce declared links) (block_bindings b) =
      eiter (compile_binding ce' declared links) (block_bindings b)" for declared links
    by (intro eiter_cong) auto
  then show ?thesis by (simp add: compile_block_inner_def assms)
qed

lemma compile_block_cong [fundef_cong]:
  assumes "b = b'" "\<And>e. e \<in> block_exprs b' \<Longrightarrow> ce e = ce' e" "\<And>e. e \<in> block_exprs b' \<Longrightarrow> ct e = ct' e"
  shows "compile_block ce ct b = compile_block ce' ct' b'"
    and "compile_tail_block ce ct b = compile_tail_block ce' ct' b'"
  using compile_block_inner_cong[of b' ce ce' ct ct'] assms
  by (simp_all add: compile_block_def compile_tail_block_def)

lemma compile_if_cong [fundef_cong]:
  assumes "c = c'" "t = t'" "e = e'" "l = l'"
    and "\<And>x. x \<in> insert c' (block_exprs t' \<union> block_exprs e') \<Longrightarrow> ce x = ce' x"
    and "\<And>x. x \<in> block_exprs t' \<union> block_exprs e' \<Longrightarrow> ct x = ct' x"
  shows "compile_if ce ct c t e l = compile_if ce' ct' c' t' e' l'"
    and "compile_tail_if ce ct c t e = compile_tail_if ce' ct' c' t' e'"
proof -
  have "compile_block ce ct t' = compile_block ce' ct' t'" "compile_block ce ct e' = compile_block ce' ct' e'"
    "compile_tail_block ce ct t' = compile_tail_block ce' ct' t'"
    "compile_tail_block ce ct e' = compile_tail_block ce' ct' e'"
    by (intro compile_block_cong; simp add: assms)+
  then show "compile_if ce ct c t e l = compile_if ce' ct' c' t' e' l'"
    "compile_tail_if ce ct c t e = compile_tail_if ce' ct' c' t' e'"
    by (simp_all add: compile_if_def compile_tail_if_def assms)
qed

lemma compile_many_cong [fundef_cong]:
  "es = es' \<Longrightarrow> (\<And>e. e \<in> set es' \<Longrightarrow> ce e = ce' e) \<Longrightarrow> compile_many ce es = compile_many ce' es'"
  unfolding compile_many_def by (rule ecollect_cong)

lemma compile_array_cong [fundef_cong]:
  assumes "es = es'" "l = l'"
    and eq: "\<And>e i. i \<in> set es' \<Longrightarrow> e = i \<or> spread_operand i = Some e \<Longrightarrow> ce e = ce' e"
  shows "compile_array ce es l = compile_array ce' es' l'"
proof -
  have "compile_spread_array ce es' l' = compile_spread_array ce' es' l'"
    unfolding compile_spread_array_def
    by (intro arg_cong2[of _ _ _ _ ebind] refl ecollect_cong) (auto split: option.split simp: eq)
  moreover have "compile_many ce es' = compile_many ce' es'" by (rule compile_many_cong) (auto simp: eq)
  ultimately show ?thesis by (simp add: compile_array_def assms(1,2))
qed

lemma compile_dict_cong [fundef_cong]:
  assumes "fs = fs'" "l = l'"
    and eq: "\<And>e f. f \<in> set fs' \<Longrightarrow> e = field_value f \<or> spread_operand (field_value f) = Some e \<Longrightarrow>
      ce e = ce' e"
  shows "compile_dict ce fs l = compile_dict ce' fs' l'"
proof -
  have "compile_spread_dict ce fs' l' = compile_spread_dict ce' fs' l'"
    unfolding compile_spread_dict_def
    by (intro arg_cong2[of _ _ _ _ ebind] refl efold_cong) (auto split: option.split simp: eq)
  moreover have "efold (\<lambda>f (seen, compiled). case field_name f of
            None \<Rightarrow> efail (CE_Panic ''ordinary Dict field has a name'')
          | Some name \<Rightarrow>
              if name \<in> seen then duplicate_field name
              else ebind (ce (field_value f)) (\<lambda>v. eret (insert name seen, compiled @ [(name, v)])))
          fs' a =
      efold (\<lambda>f (seen, compiled). case field_name f of
            None \<Rightarrow> efail (CE_Panic ''ordinary Dict field has a name'')
          | Some name \<Rightarrow>
              if name \<in> seen then duplicate_field name
              else ebind (ce' (field_value f)) (\<lambda>v. eret (insert name seen, compiled @ [(name, v)])))
          fs' a" for a
    by (rule efold_cong) (auto split: option.split simp: eq)
  ultimately show ?thesis by (simp add: compile_dict_def assms(1,2))
qed

lemma compile_call_window_cong [fundef_cong]:
  "f = f' \<Longrightarrow> es = es' \<Longrightarrow> l = l' \<Longrightarrow> (\<And>e. e \<in> insert f' (set es') \<Longrightarrow> ce e = ce' e) \<Longrightarrow>
   compile_call_window ce f es l = compile_call_window ce' f' es' l'"
  unfolding compile_call_window_def by (simp cong: compile_many_cong)

lemma compile_arm_test_cong:
  assumes "\<And>e. e \<in> held set_match_arm_kind arm \<Longrightarrow> ce e = ce' e"
  shows "compile_arm_test ce arm v = compile_arm_test ce' arm v"
  unfolding compile_arm_test_def
  by (intro arg_cong2[of _ _ _ _ ebind] refl ext) (auto split: option.split simp: assms)

lemma compile_match_cong [fundef_cong]:
  assumes "v = v'" "arms = arms'" "l = l'"
    and ce: "\<And>e. e \<in> insert v' (all_held (held set_match_arm_kind) arms') \<Longrightarrow> ce e = ce' e"
    and ct: "\<And>e. e \<in> all_held (held set_match_arm_kind) arms' \<Longrightarrow> ct e = ct' e"
  shows "compile_match ce v arms l = compile_match ce' v' arms' l'"
    and "compile_tail_match ce ct v arms l = compile_tail_match ce' ct' v' arms' l'"
proof -
  have test: "compile_arm_test ce arm r = compile_arm_test ce' arm r" if "arm \<in> set arms'" for arm r
    by (rule compile_arm_test_cong) (auto intro: ce all_heldI that)
  have arm: "ce (arm_value arm) = ce' (arm_value arm)" "ct (arm_value arm) = ct' (arm_value arm)"
    if "arm \<in> set arms'" for arm
    using that by (auto intro!: ce ct)
  show "compile_match ce v arms l = compile_match ce' v' arms' l'"
    unfolding compile_match_def assms(1-3) ce[OF insertI1]
    by (intro arg_cong2[of _ _ _ _ ebind] refl ext fun_cong[OF efold_cong]) (simp_all add: test arm)
  show "compile_tail_match ce ct v arms l = compile_tail_match ce' ct' v' arms' l'"
    unfolding compile_tail_match_def assms(1-3) ce[OF insertI1]
    by (intro arg_cong2[of _ _ _ _ ebind] refl ext fun_cong[OF eiter_cong]) (simp_all add: test arm)
qed

lemma size_spread_operand: "spread_operand i = Some e \<Longrightarrow> size e < size i"
  by (cases i) (auto simp: spread_operand_def split: expr_kind.splits)

lemma part_located: "located_value p = SP_Expression e \<Longrightarrow> part_expression p = Some e"
  by (simp add: part_expression_def)

text \<open>A tail position is compiled after the value position of the same expression.\<close>

lemma size_positions:
  assumes "e \<in> subexprs k"
  shows "size e < size (Expr k l)" "2 * size e < Suc (2 * size (Expr k l))"
    "Suc (2 * size e) < 2 * size (Expr k l)"
  using size_sub[OF assms, of l] by auto

lemma size_spread:
  "i \<in> set items \<Longrightarrow> spread_operand i = Some e \<Longrightarrow> size e < size (Expr (E_Array items) l)"
  "f \<in> set fs \<Longrightarrow> spread_operand (field_value f) = Some e \<Longrightarrow> size e < size (Expr (E_Dict fs) l)"
  "p \<in> set parts \<Longrightarrow> part_expression p = Some e \<Longrightarrow> size e < size (Expr (E_InterpolatedString parts) l)"
  "f \<in> set fs \<Longrightarrow> size (field_value f) < size (Expr (E_Dict fs) l)"
  by (rule less_trans[OF size_spread_operand size_sub], assumption, force)+ (rule size_sub; auto)+

function (sequential) compile_expr :: "expr \<Rightarrow> register_id compiling"
  and compile_tail_expr :: "expr \<Rightarrow> unit compiling" where
  "compile_expr (Expr (E_Int i) l) = load_constant (VInt i) l"
| "compile_expr (Expr (E_Float x) l) = load_constant (VFloat x) l"
| "compile_expr (Expr (E_String s) l) = load_constant (VString s) l"
| "compile_expr (Expr (E_InterpolatedString parts) l) =
     ebind (ecollect (\<lambda>p. case located_value p of
         SP_Text s \<Rightarrow> load_constant (VString s) (located_at p)
       | SP_Expression e \<Rightarrow> compile_expr e) parts) (\<lambda>registers.
     emit_to (\<lambda>dst. L_InterpolateString dst registers) l)"
| "compile_expr (Expr (E_Bytes bytes) l) = load_constant (VBytes bytes) l"
| "compile_expr (Expr (E_Atom name) l) = load_constant (atom_value name) l"
| "compile_expr (Expr (E_Variable name) l) =
     ebind (eget (\<lambda>c. (cp_located_constants c (located_value name), cp_environment c (located_value name),
         located_value name \<in> cp_up_link_bindings c \<and>
         located_value name \<notin> cp_preserved_up_link_reads c)))
       (\<lambda>(constant, found, linked).
     case constant of
       Some v \<Rightarrow> load_constant v l
     | None \<Rightarrow> (case found of
           None \<Rightarrow> fail_at l (\<lambda>c. unknown_binding c (located_value name))
         | Some r \<Rightarrow> if linked then emit_to (\<lambda>dst. L_ReadUpLink dst r) l else eret r))"
| "compile_expr (Expr (E_Array items) l) = compile_array compile_expr items l"
| "compile_expr (Expr (E_Spread _) l) = fail_at l (\<lambda>_. ''spread is only valid in a collection'')"
| "compile_expr (Expr (E_Tuple items) l) =
     ebind (compile_many compile_expr items) (\<lambda>items. emit_to (\<lambda>dst. L_MakeTuple dst items) l)"
| "compile_expr (Expr (E_Dict fs) l) = compile_dict compile_expr fs l"
| "compile_expr (Expr (E_Block b) l) = compile_block compile_expr compile_tail_expr b"
| "compile_expr (Expr (E_Unary operator operand) l) =
     ebind (compile_expr operand) (\<lambda>src.
     emit_to (\<lambda>dst. case located_value operator of U_Negate \<Rightarrow> L_Negate dst src) l)"
| "compile_expr (Expr (E_Propagate _) l) = fail_at l (\<lambda>_. ''unelaborated propagation expression'')"
| "compile_expr (Expr (E_Return e) l) =
     ebind (compile_expr e) (\<lambda>v. ebind (emit (L_Return v) l) (\<lambda>_. eret v))"
| "compile_expr (Expr (E_Panic e) l) =
     ebind (compile_expr e) (\<lambda>message. ebind (emit (L_Panic message) l) (\<lambda>_. eret message))"
| "compile_expr (Expr (E_Raise e) l) =
     ebind (compile_expr e) (\<lambda>err. ebind (emit (L_Raise err) l) (\<lambda>_. eret err))"
| "compile_expr (Expr (E_Binary operator left right) l) =
     ebind (compile_expr left) (\<lambda>left.
     ebind (compile_expr right) (\<lambda>right.
     ebind allocate_register (\<lambda>dst.
     case binary_operation (located_value operator) dst left right of
       None \<Rightarrow> fail_at l (\<lambda>_. ''unelaborated short-circuit expression'')
     | Some operation \<Rightarrow> ebind (emit operation l) (\<lambda>_. eret dst))))"
| "compile_expr (Expr (E_Field receiver field) l) =
     ebind (compile_expr receiver) (\<lambda>dict.
     emit_to (\<lambda>dst. L_GetField dst dict (located_value field)) l)"
| "compile_expr (Expr (E_Call callee arguments) l) =
     ebind (compile_call_window compile_expr callee arguments l) (\<lambda>(base, argument_count).
     ebind (emit (L_Call base argument_count) l) (\<lambda>_. eret base))"
| "compile_expr (Expr (E_TypeApply callee _) l) = compile_expr callee"
| "compile_expr (Expr (E_Interpreter _ elaboration) l) = compile_expr elaboration"
| "compile_expr (Expr (E_Closure parameters _ body) l) =
     compile_closure (compile_tail_block compile_expr compile_tail_expr body)
       (map (\<lambda>p. located_value (cp_name p)) parameters) body l"
| "compile_expr (Expr (E_If condition then_branch else_branch) l) =
     compile_if compile_expr compile_tail_expr condition then_branch else_branch l"
| "compile_expr (Expr (E_IfLet _ _ _ _) l) = fail_at l (\<lambda>_. ''unelaborated if let expression'')"
| "compile_expr (Expr (E_LetElse _ _ _ _) l) = fail_at l (\<lambda>_. ''unelaborated let else expression'')"
| "compile_expr (Expr (E_Match v arms) l) = compile_match compile_expr v arms l"
| "compile_tail_expr (Expr (E_Call callee arguments) l) =
     ebind (compile_call_window compile_expr callee arguments l) (\<lambda>(base, argument_count).
     emit (L_TailCall base argument_count) l)"
| "compile_tail_expr (Expr (E_Block b) l) = compile_tail_block compile_expr compile_tail_expr b"
| "compile_tail_expr (Expr (E_If condition then_branch else_branch) l) =
     compile_tail_if compile_expr compile_tail_expr condition then_branch else_branch"
| "compile_tail_expr (Expr (E_Match v arms) l) =
     compile_tail_match compile_expr compile_tail_expr v arms l"
| "compile_tail_expr (Expr (E_Return e) l) = ebind (compile_expr (Expr (E_Return e) l)) (\<lambda>_. eret ())"
| "compile_tail_expr e =
     ebind (compile_expr e) (\<lambda>result. emit_synthetic (L_Return result) (expr_location e))"
  by pat_completeness auto
termination
  by (relation "measure (\<lambda>x. case x of Inl e \<Rightarrow> 2 * size e | Inr e \<Rightarrow> Suc (2 * size e))")
     (auto simp del: expr.size expr_kind.size intro: size_positions size_spread
       dest!: part_located)

end
