(* ===== verification/Elaboration.thy ===== *)
theory Elaboration
  imports Runtime_Names
begin

text \<open>
  The pass between typing and compilation (\<open>crates/telora-core/src/elaboration.rs\<close>): it replaces the
  expressions that the compiler does not know (\<open>?\<close>, \<open>and\<close>, \<open>or\<close>, \<open>if let\<close>, \<open>let else\<close>) by blocks,
  \<open>if\<close> and \<open>match\<close>. The state is the number of the next propagation; the map of families, which
  inference fills, is a partial function, and a missing entry is a panic.
\<close>

section \<open>The pass\<close>

datatype propagation_family = PF_Option | PF_Result

type_synonym families = "loc \<Rightarrow> propagation_family option"

type_synonym 'a elaborating = "(u32, string, 'a) eff"

definition elaborate_option :: "(expr \<Rightarrow> expr elaborating) \<Rightarrow> expr option \<Rightarrow> expr option elaborating" where
  "elaborate_option ee e = (case e of None \<Rightarrow> eret None | Some e \<Rightarrow> ebind (ee e) (\<lambda>e. eret (Some e)))"

definition elaborate_binding :: "(expr \<Rightarrow> expr elaborating) \<Rightarrow> binding \<Rightarrow> binding elaborating" where
  "elaborate_binding ee b =
     ebind (elaborate_option ee (binding_annotation b)) (\<lambda>annotation.
     ebind (ee (binding_value b)) (\<lambda>v.
     eret (located_map (\<lambda>d. Binding (b_decorators d) (b_kind d) (b_imported_name d) (b_name d)
       (b_type_parameters d) annotation v) b)))"

definition elaborate_block :: "(expr \<Rightarrow> expr elaborating) \<Rightarrow> block \<Rightarrow> block elaborating" where
  "elaborate_block ee b =
     ebind (ecollect (elaborate_binding ee) (block_bindings b)) (\<lambda>bindings.
     ebind (ee (block_result b)) (\<lambda>result.
     eret (Located (Block bindings result) (located_at b))))"

definition elaborate_part :: "(expr \<Rightarrow> expr elaborating) \<Rightarrow> string_part \<Rightarrow> string_part elaborating" where
  "elaborate_part ee p =
     (case part_expression p of
        None \<Rightarrow> eret p
      | Some e \<Rightarrow> ebind (ee e) (\<lambda>e. eret (Located (SP_Expression e) (located_at p))))"

definition elaborate_field :: "(expr \<Rightarrow> expr elaborating) \<Rightarrow> dict_field \<Rightarrow> dict_field elaborating" where
  "elaborate_field ee f =
     ebind (ee (field_value f)) (\<lambda>v.
     eret (located_map (\<lambda>d. DictField (df_decorators d) (df_name d) v) f))"

definition argument_expression :: "type_argument \<Rightarrow> expr option" where
  "argument_expression a = (case located_value a of TA_Explicit e \<Rightarrow> Some e | TA_Infer \<Rightarrow> None)"

definition elaborate_argument :: "(expr \<Rightarrow> expr elaborating) \<Rightarrow> type_argument \<Rightarrow> type_argument elaborating" where
  "elaborate_argument ee a =
     (case argument_expression a of
        None \<Rightarrow> eret a
      | Some e \<Rightarrow> ebind (ee e) (\<lambda>e. eret (Located (TA_Explicit e) (located_at a))))"

definition elaborate_parameter ::
    "(expr \<Rightarrow> expr elaborating) \<Rightarrow> expr closure_parameter \<Rightarrow> expr closure_parameter elaborating" where
  "elaborate_parameter ee p =
     ebind (elaborate_option ee (cp_annotation p)) (\<lambda>a. eret (ClosureParameter (cp_name p) a))"

definition elaborate_arm :: "(expr \<Rightarrow> expr elaborating) \<Rightarrow> match_arm \<Rightarrow> match_arm elaborating" where
  "elaborate_arm ee a =
     ebind (elaborate_option ee (arm_guard a)) (\<lambda>guard.
     ebind (ee (arm_value a)) (\<lambda>v.
     eret (located_map (\<lambda>d. MatchArm (ma_pattern d) guard v (ma_irrefutable_required d)) a)))"

text \<open>The forms that the pass makes.\<close>

definition result_block :: "expr \<Rightarrow> loc \<Rightarrow> block" where
  "result_block e l = Located (Block [] e) l"

definition short_circuit :: "binary_operator \<Rightarrow> expr \<Rightarrow> expr \<Rightarrow> loc \<Rightarrow> expr_kind" where
  "short_circuit operator left right l =
     (case operator of
        B_And \<Rightarrow> E_If left (result_block right l) (result_block (Expr (E_Atom ''False'') l) l)
      | _ \<Rightarrow> E_If left (result_block (Expr (E_Atom ''True'') l) l) (result_block right l))"

definition two_arms :: "pattern \<Rightarrow> block \<Rightarrow> block \<Rightarrow> loc \<Rightarrow> match_arm list" where
  "two_arms p b other l =
     [Located (MatchArm p None (Expr (E_Block b) (located_at b)) False) l,
      Located (MatchArm (Pattern P_Wildcard l) None (Expr (E_Block other) (located_at other)) False) l]"

definition propagation :: "expr \<Rightarrow> propagation_family \<Rightarrow> loc \<Rightarrow> expr_kind elaborating" where
  "propagation operand family l =
     ebind (eget (\<lambda>index. index)) (\<lambda>index.
     ebind (emodify (\<lambda>index. index + 1)) (\<lambda>_.
     let subject = ''$propagate:'' @ show_nat (unat index) @ '':subject'';
         payload = ''$propagate:'' @ show_nat (unat index) @ '':payload'';
         variable = \<lambda>name. Expr (E_Variable (Located name l)) l;
         success_tag = (case family of PF_Option \<Rightarrow> ''Some'' | PF_Result \<Rightarrow> ''Ok'');
         failure_tag = (case family of PF_Option \<Rightarrow> ''None'' | PF_Result \<Rightarrow> ''Err'');
         success_pattern = Pattern (P_Tagged success_tag (Pattern (P_Binding (Located payload l)) l)) l;
         failure_pattern = (case family of
             PF_Option \<Rightarrow> Pattern (P_Atom failure_tag) l
           | PF_Result \<Rightarrow> Pattern (P_Tagged failure_tag (Pattern P_Wildcard l)) l);
         arms = [Located (MatchArm success_pattern None (variable payload) False) l,
           Located (MatchArm failure_pattern None (Expr (E_Return (variable subject)) l) False) l]
     in eret (E_Block (Located (Block
          [Located (Binding [] BK_Let None (Located subject l) [] None operand) l]
          (Expr (E_Match (variable subject) arms) l)) l))))"

text \<open>The passes over the parts ask the recursive one only for what the part holds.\<close>

lemma held_more [simp, intro]:
  "argument_expression a = Some e \<Longrightarrow> e \<in> held set_type_argument_kind a"
  "cp_annotation p = Some e \<Longrightarrow> e \<in> set_closure_parameter p"
  by (auto simp: argument_expression_def held_def split: type_argument_kind.splits)
     (cases p; simp)

lemma elaborate_option_cong [fundef_cong]:
  "x = y \<Longrightarrow> (\<And>e. y = Some e \<Longrightarrow> ee e = ff e) \<Longrightarrow> elaborate_option ee x = elaborate_option ff y"
  by (auto simp: elaborate_option_def split: option.split)

lemma elaborate_binding_cong:
  assumes "b = b'" "\<And>e. binding_annotation b' = Some e \<or> e = binding_value b' \<Longrightarrow> ee e = ff e"
  shows "elaborate_binding ee b = elaborate_binding ff b'"
  unfolding elaborate_binding_def assms(1)
  by (intro ebind_cong elaborate_option_cong) (simp_all add: assms(2))

lemma elaborate_block_cong [fundef_cong]:
  assumes "b = b'" "\<And>e. e \<in> block_exprs b' \<Longrightarrow> ee e = ff e"
  shows "elaborate_block ee b = elaborate_block ff b'"
  unfolding elaborate_block_def assms(1)
  by (intro ebind_cong ecollect_cong elaborate_binding_cong) (auto intro!: assms(2))

lemma elaborate_parts_cong [fundef_cong]:
  "p = p' \<Longrightarrow> (\<And>e. e \<in> held set_string_part_kind p' \<Longrightarrow> ee e = ff e) \<Longrightarrow> elaborate_part ee p = elaborate_part ff p'"
  "f = f' \<Longrightarrow> (\<And>e. e \<in> held set_dict_field_kind f' \<Longrightarrow> ee e = ff e) \<Longrightarrow> elaborate_field ee f = elaborate_field ff f'"
  "a = a' \<Longrightarrow> (\<And>e. e \<in> held set_type_argument_kind a' \<Longrightarrow> ee e = ff e) \<Longrightarrow>
   elaborate_argument ee a = elaborate_argument ff a'"
  "q = q' \<Longrightarrow> (\<And>e. e \<in> set_closure_parameter q' \<Longrightarrow> ee e = ff e) \<Longrightarrow>
   elaborate_parameter ee q = elaborate_parameter ff q'"
  "m = m' \<Longrightarrow> (\<And>e. e \<in> held set_match_arm_kind m' \<Longrightarrow> ee e = ff e) \<Longrightarrow> elaborate_arm ee m = elaborate_arm ff m'"
  unfolding elaborate_part_def elaborate_field_def elaborate_argument_def elaborate_parameter_def
    elaborate_arm_def
  by (auto split: option.split intro!: ebind_cong elaborate_option_cong)

lemma size_held:
  "p \<in> set parts \<Longrightarrow> e \<in> held set_string_part_kind p \<Longrightarrow> size e < size (Expr (E_InterpolatedString parts) l)"
  "f \<in> set fs \<Longrightarrow> e \<in> held set_dict_field_kind f \<Longrightarrow> size e < size (Expr (E_Dict fs) l)"
  "a \<in> set args \<Longrightarrow> e \<in> held set_type_argument_kind a \<Longrightarrow> size e < size (Expr (E_TypeApply x args) l)"
  "q \<in> set ps \<Longrightarrow> e \<in> set_closure_parameter q \<Longrightarrow> size e < size (Expr (E_Closure ps r b) l)"
  "m \<in> set arms \<Longrightarrow> e \<in> held set_match_arm_kind m \<Longrightarrow> size e < size (Expr (E_Match v arms) l)"
  by (rule size_sub; auto intro: all_heldI)+

function (sequential) elaborate_expr :: "families \<Rightarrow> expr \<Rightarrow> expr elaborating" where
  "elaborate_expr F (Expr (E_InterpolatedString parts) l) =
     ebind (ecollect (elaborate_part (elaborate_expr F)) parts) (\<lambda>parts.
     eret (Expr (E_InterpolatedString parts) l))"
| "elaborate_expr F (Expr (E_Array items) l) =
     ebind (ecollect (elaborate_expr F) items) (\<lambda>items. eret (Expr (E_Array items) l))"
| "elaborate_expr F (Expr (E_Tuple items) l) =
     ebind (ecollect (elaborate_expr F) items) (\<lambda>items. eret (Expr (E_Tuple items) l))"
| "elaborate_expr F (Expr (E_Spread e) l) =
     ebind (elaborate_expr F e) (\<lambda>e. eret (Expr (E_Spread e) l))"
| "elaborate_expr F (Expr (E_Dict fs) l) =
     ebind (ecollect (elaborate_field (elaborate_expr F)) fs) (\<lambda>fs. eret (Expr (E_Dict fs) l))"
| "elaborate_expr F (Expr (E_Block b) l) =
     ebind (elaborate_block (elaborate_expr F) b) (\<lambda>b. eret (Expr (E_Block b) l))"
| "elaborate_expr F (Expr (E_Unary operator e) l) =
     ebind (elaborate_expr F e) (\<lambda>e. eret (Expr (E_Unary operator e) l))"
| "elaborate_expr F (Expr (E_Propagate e) l) =
     ebind (elaborate_expr F e) (\<lambda>operand.
     case F l of
       None \<Rightarrow> efail ''no entry found for key''
     | Some family \<Rightarrow> ebind (propagation operand family l) (\<lambda>k. eret (Expr k l)))"
| "elaborate_expr F (Expr (E_Return e) l) =
     ebind (elaborate_expr F e) (\<lambda>e. eret (Expr (E_Return e) l))"
| "elaborate_expr F (Expr (E_Panic e) l) =
     ebind (elaborate_expr F e) (\<lambda>e. eret (Expr (E_Panic e) l))"
| "elaborate_expr F (Expr (E_Raise e) l) =
     ebind (elaborate_expr F e) (\<lambda>e. eret (Expr (E_Raise e) l))"
| "elaborate_expr F (Expr (E_Binary operator x y) l) =
     ebind (elaborate_expr F x) (\<lambda>left.
     ebind (elaborate_expr F y) (\<lambda>right.
     eret (Expr (if located_value operator \<in> {B_And, B_Or}
       then short_circuit (located_value operator) left right l
       else E_Binary operator left right) l)))"
| "elaborate_expr F (Expr (E_Field e field) l) =
     ebind (elaborate_expr F e) (\<lambda>e. eret (Expr (E_Field e field) l))"
| "elaborate_expr F (Expr (E_Call f args) l) =
     ebind (elaborate_expr F f) (\<lambda>f.
     ebind (ecollect (elaborate_expr F) args) (\<lambda>args. eret (Expr (E_Call f args) l)))"
| "elaborate_expr F (Expr (E_TypeApply f args) l) =
     ebind (elaborate_expr F f) (\<lambda>f.
     ebind (ecollect (elaborate_argument (elaborate_expr F)) args) (\<lambda>args.
     eret (Expr (E_TypeApply f args) l)))"
| "elaborate_expr F (Expr (E_Interpreter operand elaboration) l) =
     ebind (elaborate_expr F operand) (\<lambda>operand.
     ebind (elaborate_expr F elaboration) (\<lambda>elaboration.
     eret (Expr (E_Interpreter operand elaboration) l)))"
| "elaborate_expr F (Expr (E_Closure ps r b) l) =
     ebind (ecollect (elaborate_parameter (elaborate_expr F)) ps) (\<lambda>ps.
     ebind (elaborate_option (elaborate_expr F) r) (\<lambda>r.
     ebind (elaborate_block (elaborate_expr F) b) (\<lambda>b.
     eret (Expr (E_Closure ps r b) l))))"
| "elaborate_expr F (Expr (E_If c t e) l) =
     ebind (elaborate_expr F c) (\<lambda>c.
     ebind (elaborate_block (elaborate_expr F) t) (\<lambda>t.
     ebind (elaborate_block (elaborate_expr F) e) (\<lambda>e. eret (Expr (E_If c t e) l))))"
| "elaborate_expr F (Expr (E_IfLet p v t e) l) =
     ebind (elaborate_expr F v) (\<lambda>v.
     ebind (elaborate_block (elaborate_expr F) t) (\<lambda>t.
     ebind (elaborate_block (elaborate_expr F) e) (\<lambda>e. eret (Expr (E_Match v (two_arms p t e l)) l))))"
| "elaborate_expr F (Expr (E_LetElse p v e b) l) =
     ebind (elaborate_expr F v) (\<lambda>v.
     ebind (elaborate_block (elaborate_expr F) e) (\<lambda>e.
     ebind (elaborate_block (elaborate_expr F) b) (\<lambda>b. eret (Expr (E_Match v (two_arms p b e l)) l))))"
| "elaborate_expr F (Expr (E_Match v arms) l) =
     ebind (elaborate_expr F v) (\<lambda>v.
     ebind (ecollect (elaborate_arm (elaborate_expr F)) arms) (\<lambda>arms. eret (Expr (E_Match v arms) l)))"
| "elaborate_expr F e = eret e"
  by pat_completeness auto
termination
  by (relation "measure (\<lambda>(F, e). size e)")
     (auto simp del: expr.size expr_kind.size intro: size_held size_sub)

definition elaborate_program :: "program \<Rightarrow> families \<Rightarrow> string + program" where
  "elaborate_program p families =
     (case elaborate_block (elaborate_expr families) (pk_body (located_value p)) 0 of
        (Inl panic, _) \<Rightarrow> Inl panic
      | (Inr body, _) \<Rightarrow> Inr (located_map (\<lambda>k. k\<lparr> pk_body := body \<rparr>) p))"

end
