(* ===== verification/Compile_Program.thy ===== *)
theory Compile_Program
  imports Compiler Elaboration Hir
begin

text \<open>
  The entry points of the compiler (\<open>crates/telora-core/src/compiler.rs\<close>): a program with its
  analysis to bytecode, the initializer of type metadata, an expression with given bindings. The
  loops that collect names until nothing is new are total. \<open>order\<close> and \<open>debug\<close> are the iteration
  order of a \<open>HashMap\<close> and the \<open>Debug\<close> form of a string, as in the state of the compiler.
\<close>

section \<open>Collecting names\<close>

text \<open>Collecting only adds names, the same ones wherever it starts.\<close>

lemma fold_union:
  "(\<And>x A. x \<in> set xs \<Longrightarrow> f x (A \<union> B) = f x A \<union> B) \<Longrightarrow> fold f xs (A \<union> B) = fold f xs A \<union> (B :: string set)"
  by (induction xs arbitrary: A) auto

lemma names_block_union:
  "(\<And>e A. e \<in> block_exprs b \<Longrightarrow> ne e (A \<union> B) = ne e A \<union> B) \<Longrightarrow>
   names_block ne b (A \<union> B) = names_block ne b A \<union> B"
  unfolding names_block_def by (subst fold_union) auto

lemma names_union: "collect_runtime_names e (A \<union> B) = collect_runtime_names e A \<union> B"
proof (induction e arbitrary: A rule: expr_induct)
  case (Expr k l)
  have block: "names_block collect_runtime_names b (A \<union> B) = names_block collect_runtime_names b A \<union> B"
    if "\<And>e. e \<in> block_exprs b \<Longrightarrow> e \<in> subexprs k" for b A
    by (rule names_block_union) (use that Expr in auto)
  show ?case
  proof (cases k)
    case (E_InterpolatedString parts)
    show ?thesis
      unfolding E_InterpolatedString collect_runtime_names.simps
      by (rule fold_union) (auto intro!: Expr all_held_parts(1) simp: E_InterpolatedString split: option.split)
  next
    case (E_Dict fs)
    then show ?thesis by (auto intro!: fold_union Expr)
  next
    case (E_Match v arms)
    have v: "collect_runtime_names v (A \<union> B) = collect_runtime_names v A \<union> B" for A
      by (rule Expr) (simp add: E_Match)
    have arm: "collect_runtime_names (arm_value a) (A \<union> B) = collect_runtime_names (arm_value a) A \<union> B"
      "arm_guard a = Some g \<Longrightarrow> collect_runtime_names g (A \<union> B) = collect_runtime_names g A \<union> B"
      if "a \<in> set arms" for a g A
      using that by (auto intro!: Expr simp: E_Match)
    show ?thesis
      unfolding E_Match collect_runtime_names.simps v
      by (rule fold_union) (auto simp: arm split: option.split)
  qed (use Expr in \<open>auto intro!: fold_union simp: block\<close>)
qed

lemma fold_finite: "(\<And>x A. x \<in> set xs \<Longrightarrow> finite A \<Longrightarrow> finite (f x A)) \<Longrightarrow> finite A \<Longrightarrow> finite (fold f xs A)"
  by (induction xs arbitrary: A) auto

lemma names_block_finite:
  "(\<And>e A. e \<in> block_exprs b \<Longrightarrow> finite A \<Longrightarrow> finite (ne e A)) \<Longrightarrow> finite A \<Longrightarrow> finite (names_block ne b A)"
  unfolding names_block_def
proof -
  assume each: "\<And>e A. e \<in> block_exprs b \<Longrightarrow> finite A \<Longrightarrow> finite (ne e A)" and "finite A"
  have "finite (fold (\<lambda>d names. if binding_kind_of d \<in> {BK_Let, BK_Def} then ne (binding_value d) names else names)
      (block_bindings b) A)"
    by (rule fold_finite) (auto intro: each simp: \<open>finite A\<close>)
  then show "finite (ne (block_result b) (fold (\<lambda>d names. if binding_kind_of d \<in> {BK_Let, BK_Def}
      then ne (binding_value d) names else names) (block_bindings b) A))"
    by (rule each[rotated]) auto
qed

lemma names_finite: "finite A \<Longrightarrow> finite (collect_runtime_names e A)"
proof (induction e arbitrary: A rule: expr_induct)
  case (Expr k l)
  have block: "finite A \<Longrightarrow> finite (names_block collect_runtime_names b A)"
    if "\<And>e. e \<in> block_exprs b \<Longrightarrow> e \<in> subexprs k" for b A
    by (rule names_block_finite) (use that Expr in auto)
  show ?case
  proof (cases k)
    case (E_InterpolatedString parts)
    then show ?thesis
      using Expr.prems by (auto intro!: fold_finite Expr.IH all_held_parts(1) split: option.split)
  next
    case (E_Dict fs)
    then show ?thesis using Expr.prems by (auto intro!: fold_finite Expr.IH)
  next
    case (E_Match v arms)
    have "finite (collect_runtime_names (arm_value a) B)" if "a \<in> set arms" "finite B" for a B
      using that by (auto intro!: Expr.IH simp: E_Match)
    moreover have "finite (collect_runtime_names g B)" if "a \<in> set arms" "arm_guard a = Some g" "finite B" for a g B
      using that by (auto intro!: Expr.IH simp: E_Match)
    moreover have "finite (collect_runtime_names v A)" by (rule Expr.IH) (simp_all add: E_Match Expr.prems)
    ultimately show ?thesis
      unfolding E_Match collect_runtime_names.simps
      by (intro fold_finite) (auto split: option.split)
  qed (use Expr in \<open>auto intro!: fold_finite block\<close>)
qed

text \<open>
  One round of such a loop: the bindings that \<open>use\<close> accepts with the names so far add the names of the
  expressions that \<open>parts\<close> gives.
\<close>

definition names_round ::
    "(string set \<Rightarrow> binding \<Rightarrow> bool) \<Rightarrow> (binding \<Rightarrow> expr list) \<Rightarrow> binding list \<Rightarrow> string set \<Rightarrow> string set" where
  "names_round use parts bindings names =
     fold (\<lambda>b names. if use names b then fold collect_runtime_names (parts b) names else names) bindings names"

definition all_names :: "(binding \<Rightarrow> expr list) \<Rightarrow> binding list \<Rightarrow> string set" where
  "all_names parts bindings = (\<Union>b \<in> set bindings. \<Union>e \<in> set (parts b). collect_runtime_names e {})"

lemma finite_all_names: "finite (all_names parts bindings)"
  by (auto simp: all_names_def intro: names_finite)

lemma names_from_empty: "collect_runtime_names e A = collect_runtime_names e {} \<union> A"
  using names_union[of e "{}" A] by simp

lemma names_round_bounds:
  "names \<subseteq> names_round use parts bindings names \<and>
   names_round use parts bindings names \<subseteq> names \<union> all_names parts bindings"
proof -
  have parts: "fold collect_runtime_names es A = (\<Union>e \<in> set es. collect_runtime_names e {}) \<union> A" for es A
  proof (induction es arbitrary: A)
    case (Cons e es)
    then show ?case using names_from_empty[of e A] by (simp add: Un_ac)
  qed simp
  show ?thesis
    unfolding names_round_def
    by (induction bindings arbitrary: names) (auto simp: all_names_def parts, blast+)
qed

function collect_until_stable ::
    "(string set \<Rightarrow> binding \<Rightarrow> bool) \<Rightarrow> (binding \<Rightarrow> expr list) \<Rightarrow> binding list \<Rightarrow> string set \<Rightarrow> string set" where
  "collect_until_stable use parts bindings names =
     (let names' = names_round use parts bindings names in
      if names' = names then names' else collect_until_stable use parts bindings names')"
  by pat_completeness auto
termination
proof (relation "measure (\<lambda>(use, parts, bindings, names). card (all_names parts bindings - names))", simp, clarify)
  fix use parts bindings and names :: "string set"
  let ?names' = "names_round use parts bindings names" and ?U = "all_names parts bindings"
  assume "?names' \<noteq> names"
  with names_round_bounds[of names use parts bindings] have "?U - ?names' \<subset> ?U - names" by blast
  then show "((use, parts, bindings, ?names'), use, parts, bindings, names)
      \<in> measure (\<lambda>(use, parts, bindings, names). card (all_names parts bindings - names))"
    by (simp add: psubset_card_mono finite_all_names)
qed

declare collect_until_stable.simps [simp del]


section \<open>The compiler of a program\<close>

text \<open>
  What the compiler reads of an analysis. A \<open>BTreeMap\<close> is the list of its entries in the order of the
  keys, a \<open>HashSet\<close> that is iterated the list of its elements in that order.
\<close>

record analysis =
  an_hir :: hir_program
  an_propagation_families :: families
  an_prelude :: "(string \<times> val) list"
  an_external_values :: "(string \<times> val) list"
  an_dynamic_bindings :: "string list"

type_synonym iteration = "string \<Rightarrow> nat \<Rightarrow> string list \<Rightarrow> string list"

definition compiler_new ::
    "iteration \<Rightarrow> (string \<Rightarrow> string) \<Rightarrow> string \<Rightarrow> string \<Rightarrow> string set \<Rightarrow> string set \<Rightarrow>
     (string \<rightharpoonup> val) \<Rightarrow> source_file option \<Rightarrow> compiler" where
  "compiler_new order debug source_name function_name retained_names promoted_types external_values file =
     \<lparr> cp_source_name = source_name, cp_function_name = function_name, cp_environment = Map.empty,
       cp_up_link_bindings = {}, cp_ready_up_link_bindings = {}, cp_preserved_up_link_reads = {},
       cp_definition_bindings = {}, cp_constants = [], cp_external_constant_links = [],
       cp_items = [], cp_next_register = 0, cp_next_label = 0, cp_parameter_count = 0,
       cp_capture_count = 0, cp_closure_index = 0, cp_located_constants = Map.empty,
       cp_retained_names = retained_names, cp_promoted_types = promoted_types,
       cp_external_values = external_values, cp_source_file = file, cp_iteration = order,
       cp_debug = debug \<rparr>"

abbreviation body_bindings :: "program \<Rightarrow> binding list" where
  "body_bindings p \<equiv> block_bindings (pk_body (located_value p))"

definition retained_names_of :: "program \<Rightarrow> string set" where
  "retained_names_of p =
     collect_until_stable
       (\<lambda>names b. binding_kind_of b = BK_Type \<and> binding_name b \<in> names) (\<lambda>b. [binding_value b])
       (body_bindings p) (names_block collect_runtime_names (pk_body (located_value p)) {})"

fun is_function :: "val \<Rightarrow> bool" where
  "is_function (VFunc _ _ _) = True"
| "is_function _ = False"

definition load_named :: "val \<Rightarrow> string \<Rightarrow> loc \<Rightarrow> unit compiling" where
  "load_named v name location = ebind (load_constant v location) (bind_name name)"

definition load_prelude :: "(string \<times> val) list \<Rightarrow> loc \<Rightarrow> unit compiling" where
  "load_prelude prelude location =
     eiter (\<lambda>(name, v).
       ebind (eget (\<lambda>c. name \<in> cp_retained_names c)) (\<lambda>retained.
       if \<not> retained then eret ()
       else if is_function v then load_named v name location
       else emodify (\<lambda>c. c\<lparr> cp_located_constants := (cp_located_constants c)(name \<mapsto> v) \<rparr>)))
     prelude"

definition load_dynamic :: "(string \<rightharpoonup> val) \<Rightarrow> string list \<Rightarrow> loc \<Rightarrow> unit compiling" where
  "load_dynamic external_values names location =
     eiter (\<lambda>name.
       ebind (eget (\<lambda>c. name \<in> cp_retained_names c)) (\<lambda>retained.
       if \<not> retained then eret ()
       else case external_values name of
           None \<Rightarrow> efail (CE_Panic ''analyzed dynamic binding'')
         | Some v \<Rightarrow> load_named v name location))
     names"

definition authored_names :: "program \<Rightarrow> string set" where
  "authored_names p =
     set (map binding_name (filter (\<lambda>b. binding_kind_of b \<notin> {BK_OpenImport, BK_Export}) (body_bindings p)))"

definition load_externals :: "string set \<Rightarrow> (string \<times> val) list \<Rightarrow> loc \<Rightarrow> unit compiling" where
  "load_externals authored external_values location =
     eiter (\<lambda>(name, v).
       ebind (eget (\<lambda>c. name \<notin> authored \<and> name \<in> cp_retained_names c \<and> cp_environment c name = None)) (\<lambda>wanted.
       if wanted then ebind (load_external_constant v name location) (bind_name name)
       else eret ()))
     external_values"

definition compile_body :: "program \<Rightarrow> analysis \<Rightarrow> unit compiling" where
  "compile_body p analysis =
     ebind (load_prelude (an_prelude analysis) (located_at p)) (\<lambda>_.
     ebind (load_dynamic (map_of (an_external_values analysis)) (an_dynamic_bindings analysis) (located_at p)) (\<lambda>_.
     ebind (load_externals (authored_names p) (an_external_values analysis) (located_at p)) (\<lambda>_.
     compile_tail_block compile_expr compile_tail_expr (pk_body (located_value p)))))"

definition run_compiler :: "unit compiling \<Rightarrow> compiler \<Rightarrow> compile_error + compiler" where
  "run_compiler m c = (case m c of (Inl e, _) \<Rightarrow> Inl e | (Inr _, finished) \<Rightarrow> Inr finished)"

section \<open>Assembling and linking\<close>

fun bind_externals :: "(nat \<times> string) list \<Rightarrow> bytecode_function \<Rightarrow> bytecode_function option" where
  "bind_externals [] f = Some f"
| "bind_externals ((index, key) # links) f =
     Option.bind (bind_external_value index key f) (bind_externals links)"

fun assemble_error_message :: "assemble_error \<Rightarrow> string" where
  "assemble_error_message (AssembleError message) = message"

definition finish :: "address \<Rightarrow> compiler \<Rightarrow> compile_error + bytecode_function \<times> address" where
  "finish addr c =
     (case assemble addr (finish_lir c) of
        Inl e \<Rightarrow> Inl (CE_Frontend (frontend_error_of (cp_source_name c) (assemble_error_message e)))
      | Inr (f, addr') \<Rightarrow>
          (case bind_externals (cp_external_constant_links c) f of
             None \<Rightarrow> Inl (CE_Panic out_of_bounds)
           | Some f \<Rightarrow> Inr (f, addr')))"

definition program_in ::
    "iteration \<Rightarrow> (string \<Rightarrow> string) \<Rightarrow> address \<Rightarrow> string \<Rightarrow> source_file option \<Rightarrow> program \<Rightarrow>
     analysis \<Rightarrow> string set \<Rightarrow> compile_error + bytecode_function \<times> address" where
  "program_in order debug addr source_name file p analysis promoted_types =
     rbind (run_compiler (compile_body p analysis)
       (compiler_new order debug source_name source_name (retained_names_of p) promoted_types
         (map_of (an_external_values analysis)) file))
       (finish addr)"

section \<open>Entry points\<close>

definition validate_hir :: "(string \<Rightarrow> string) \<Rightarrow> source_file \<Rightarrow> hir_program \<Rightarrow> compile_error + unit" where
  "validate_hir debug file hir =
     (case hir_unresolved hir of
        [] \<Rightarrow> Inr ()
      | reference # _ \<Rightarrow>
          let location = hr_location reference;
              position = sf_position file (loc_start location);
              message = ''unknown binding '' @ debug (hr_name reference)
          in Inl (CE_Frontend \<lparr> fe_source_name = sf_name file,
               fe_location = \<lparr> sl_offset = unat (loc_start location),
                 sl_line = pos_line position, sl_column = pos_column position \<rparr>,
               fe_message = message, fe_diagnostic = Some (diagnostic_error message location) \<rparr>))"

definition panicking :: "string + 'a \<Rightarrow> compile_error + 'a" where
  "panicking r = (case r of Inl message \<Rightarrow> Inl (CE_Panic message) | Inr x \<Rightarrow> Inr x)"

definition without_erased :: "string set \<Rightarrow> program \<Rightarrow> program" where
  "without_erased erased p =
     located_map (\<lambda>k. k\<lparr> pk_body := located_map (\<lambda>b. Block
       (filter (\<lambda>d. binding_kind_of d = BK_Type \<or> binding_name d \<notin> erased) (bl_bindings b)) (bl_result b))
       (pk_body k) \<rparr>) p"

definition compile_program_with_promoted_types ::
    "iteration \<Rightarrow> (string \<Rightarrow> string) \<Rightarrow> address \<Rightarrow> source_file \<Rightarrow> program \<Rightarrow> analysis \<Rightarrow> string set \<Rightarrow>
     string set \<Rightarrow> compile_error + bytecode_function \<times> address" where
  "compile_program_with_promoted_types order debug addr file p analysis promoted_types erased =
     rbind (validate_hir debug file (an_hir analysis)) (\<lambda>_.
     rbind (panicking (elaborate_program (without_erased erased p) (an_propagation_families analysis))) (\<lambda>p.
     program_in order debug addr (sf_name file) (Some file) p analysis promoted_types))"

definition compile_program_analyzed_in ::
    "iteration \<Rightarrow> (string \<Rightarrow> string) \<Rightarrow> address \<Rightarrow> source_file \<Rightarrow> program \<Rightarrow> analysis \<Rightarrow>
     compile_error + bytecode_function \<times> address" where
  "compile_program_analyzed_in order debug addr file p analysis =
     compile_program_with_promoted_types order debug addr file p analysis {} {}"

section \<open>The initializer of metadata\<close>

record metadata_initializer =
  mi_function :: bytecode_function
  mi_type_names :: "string list"
  mi_erased_bindings :: "string set"

definition metadata_type_names :: "program \<Rightarrow> string list" where
  "metadata_type_names p =
     remdups_adj (sort (map binding_name (filter (\<lambda>b. binding_kind_of b = BK_Type) (body_bindings p))))"

text \<open>What the types need, what the program needs at run time, and what only the types need.\<close>

definition metadata_needed :: "program \<Rightarrow> string set" where
  "metadata_needed p =
     collect_until_stable (\<lambda>names b. binding_name b \<in> names)
       (\<lambda>b. binding_value b # (case binding_annotation b of None \<Rightarrow> [] | Some a \<Rightarrow> [a]))
       (body_bindings p) (set (metadata_type_names p))"

definition runtime_needed :: "program \<Rightarrow> string set" where
  "runtime_needed p =
     (let needed = metadata_needed p in
      collect_until_stable (\<lambda>names b. binding_name b \<in> needed \<and> binding_name b \<in> names)
        (\<lambda>b. [binding_value b]) (body_bindings p)
        (fold (\<lambda>b names. if binding_name b \<notin> needed \<and> binding_kind_of b \<notin> {BK_Type, BK_Decl}
             then collect_runtime_names (binding_value b) names else names)
           (body_bindings p)
           (collect_runtime_names (block_result (pk_body (located_value p))) {})))"

definition erased_bindings :: "program \<Rightarrow> string set" where
  "erased_bindings p = metadata_needed p - set (metadata_type_names p) - runtime_needed p"

definition metadata_program :: "program \<Rightarrow> program" where
  "metadata_program p =
     (let l = located_at p; body = pk_body (located_value p) in
      Located \<lparr> pk_options = [],
        pk_body = Located (Block
          (filter (\<lambda>b. binding_name b \<in> metadata_needed p) (block_bindings body))
          (Expr (E_Dict (map (\<lambda>name. Located (DictField [] (Some (Located name l))
            (Expr (E_Variable (Located name l)) l)) l) (metadata_type_names p))) l)) (located_at body),
        pk_authored_result = True \<rparr> l)"

definition compile_metadata_initializer ::
    "iteration \<Rightarrow> (string \<Rightarrow> string) \<Rightarrow> address \<Rightarrow> source_file \<Rightarrow> program \<Rightarrow> analysis \<Rightarrow>
     compile_error + metadata_initializer option \<times> address" where
  "compile_metadata_initializer order debug addr file p analysis =
     (if metadata_type_names p = [] then Inr (None, addr)
      else
        rbind (panicking (hir_resolve (metadata_program p)
          (fst ` set (an_prelude analysis) \<union> fst ` set (an_external_values analysis)))) (\<lambda>hir.
        rbind (validate_hir debug file hir) (\<lambda>_.
        rbind (compile_program_analyzed_in order debug addr file (metadata_program p) analysis) (\<lambda>(f, addr').
        Inr (Some \<lparr> mi_function = f, mi_type_names = metadata_type_names p,
          mi_erased_bindings = erased_bindings p \<rparr>, addr')))))"

section \<open>An expression with bindings\<close>

definition compile_bound_expression :: "(string \<times> val) list \<Rightarrow> expr \<Rightarrow> unit compiling" where
  "compile_bound_expression bindings e =
     ebind (eiter (\<lambda>(name, v). load_named v name (expr_location e)) bindings) (\<lambda>_. compile_tail_expr e)"

definition compile_expression_with_bindings ::
    "iteration \<Rightarrow> (string \<Rightarrow> string) \<Rightarrow> address \<Rightarrow> string \<Rightarrow> string \<Rightarrow> expr \<Rightarrow> (string \<times> val) list \<Rightarrow>
     source_file \<Rightarrow> compile_error + bytecode_function \<times> address" where
  "compile_expression_with_bindings order debug addr source_name function_name e bindings file =
     rbind (panicking (hir_resolve_expression e (fst ` set bindings))) (\<lambda>hir.
     rbind (validate_hir debug file hir) (\<lambda>_.
     rbind (run_compiler (compile_bound_expression bindings e)
       (compiler_new order debug source_name function_name {} {} Map.empty (Some file)))
       (finish addr)))"

end
