(* ===== verification/Compiler_Flow.thy ===== *)
theory Compiler_Flow
  imports Compiler Lir_Correct
begin

text \<open>
  A forward analysis of register-level code, and the assertions with which the compiler's methods
  are followed. The analysis goes once over the items: it carries the registers that are certainly
  written, \<open>UNIV\<close> where no path arrives, and for each label what is written at every jump to it.
  Code that passes it reads no register before it is written, jumps only forward, and does not fall
  off its end.
\<close>

section \<open>Definite assignment\<close>

fun op_reads :: "'f operation \<Rightarrow> nat list" where
  "op_reads (L_LoadConst dst _) = []"
| "op_reads (L_Move dst src) = [unat src]"
| "op_reads (L_MakeUpLink dst) = []"
| "op_reads (L_ReadUpLink dst link) = [unat link]"
| "op_reads (L_InitializeUpLink link src) = [unat link, unat src]"
| "op_reads (L_AssertUpLinkReady link) = [unat link]"
| "op_reads (L_AssertFunctionArity r _) = [unat r]"
| "op_reads (L_Add dst left right) = [unat left, unat right]"
| "op_reads (L_Subtract dst left right) = [unat left, unat right]"
| "op_reads (L_Multiply dst left right) = [unat left, unat right]"
| "op_reads (L_Divide dst left right) = [unat left, unat right]"
| "op_reads (L_Negate dst src) = [unat src]"
| "op_reads (L_Equal dst left right) = [unat left, unat right]"
| "op_reads (L_LessThan dst left right) = [unat left, unat right]"
| "op_reads (L_MakeArray dst items) = map unat items"
| "op_reads (L_ConcatArrays dst arrays) = map unat arrays"
| "op_reads (L_MakeTuple dst items) = map unat items"
| "op_reads (L_InterpolateString dst parts) = map unat parts"
| "op_reads (L_MakeDict dst fs) = map (unat \<circ> snd) fs"
| "op_reads (L_MergeDicts dst dicts) = map unat dicts"
| "op_reads (L_GetField dst dict _) = [unat dict]"
| "op_reads (L_FieldExists dst r _) = [unat r]"
| "op_reads (L_IsDict dst r) = [unat r]"
| "op_reads (L_TupleLengthEquals dst r _) = [unat r]"
| "op_reads (L_GetTuple dst tuple _) = [unat tuple]"
| "op_reads (L_TaggedTagEquals dst r tag) = [unat r, unat tag]"
| "op_reads (L_GetTaggedPayload dst r) = [unat r]"
| "op_reads (L_MakeClosure dst _ captures) = map unat captures"
| "op_reads (L_Call base n) = [unat base ..< Suc (unat base + unat n)]"
| "op_reads (L_TailCall base n) = [unat base ..< Suc (unat base + unat n)]"
| "op_reads (L_Jump _) = []"
| "op_reads (L_JumpIfFalse condition _) = [unat condition]"
| "op_reads (L_Return src) = [unat src]"
| "op_reads (L_Fail _) = []"
| "op_reads (L_Panic message) = [unat message]"
| "op_reads (L_Raise err) = [unat err]"

text \<open>The control operations that do not go on to the next one.\<close>

fun op_ends :: "'f operation \<Rightarrow> bool" where
  "op_ends (L_TailCall _ _) = True"
| "op_ends (L_Jump _) = True"
| "op_ends (L_Return _) = True"
| "op_ends (L_Fail _) = True"
| "op_ends (L_Panic _) = True"
| "op_ends (L_Raise _) = True"
| "op_ends _ = False"

text \<open>The register an operation writes: its first one, unless it only reads.\<close>

fun op_writes :: "'f operation \<Rightarrow> nat list" where
  "op_writes (L_InitializeUpLink _ _) = []"
| "op_writes (L_AssertUpLinkReady _) = []"
| "op_writes (L_AssertFunctionArity _ _) = []"
| "op_writes (L_TailCall _ _) = []"
| "op_writes (L_Jump _) = []"
| "op_writes (L_JumpIfFalse _ _) = []"
| "op_writes (L_Return _) = []"
| "op_writes (L_Fail _) = []"
| "op_writes (L_Panic _) = []"
| "op_writes (L_Raise _) = []"
| "op_writes operation = take 1 (operation_registers operation)"

record flow =
  fl_ok :: bool
  fl_defined :: "nat set"
  fl_jumps :: "label_id \<Rightarrow> nat set"
  fl_used :: "label_id set"
  fl_marked :: "label_id set"

definition flow_start :: "nat \<Rightarrow> flow" where
  "flow_start n = \<lparr> fl_ok = True, fl_defined = {..<n}, fl_jumps = (\<lambda>_. UNIV), fl_used = {},
     fl_marked = {} \<rparr>"

fun flow_item :: "'f lir_item \<Rightarrow> flow \<Rightarrow> flow" where
  "flow_item (L_Label l) f =
     f\<lparr> fl_ok := (fl_ok f \<and> l \<notin> fl_marked f), fl_defined := fl_defined f \<inter> fl_jumps f l,
        fl_marked := insert l (fl_marked f) \<rparr>"
| "flow_item (L_Operation operation _) f =
     (let targets = set (operation_labels operation) in
      f\<lparr> fl_ok := (fl_ok f \<and> set (op_reads operation) \<subseteq> fl_defined f \<and> targets \<inter> fl_marked f = {}),
         fl_jumps := (\<lambda>l. if l \<in> targets then fl_jumps f l \<inter> fl_defined f else fl_jumps f l),
         fl_used := fl_used f \<union> targets,
         fl_defined := (if op_ends operation then UNIV
           else fl_defined f \<union> set (op_writes operation)) \<rparr>)"

definition flow_items :: "'f lir_item list \<Rightarrow> flow \<Rightarrow> flow" where
  "flow_items items f = fold flow_item items f"

definition ends_code :: "'f lir_item list \<Rightarrow> bool" where
  "ends_code items \<longleftrightarrow>
     items \<noteq> [] \<and> (case last items of L_Label _ \<Rightarrow> False | L_Operation operation _ \<Rightarrow> op_ends operation)"

function (sequential) lir_flows :: "lir_function \<Rightarrow> bool" where
  "lir_flows (LirFunction name parameter_count capture_count register_count constants items) \<longleftrightarrow>
     ends_code items \<and>
     (let f = flow_items items (flow_start (unat parameter_count + unat capture_count)) in
      fl_ok f \<and> fl_used f \<subseteq> fl_marked f) \<and>
     (\<forall>(operation, _) \<in> set (item_operations items). \<forall>g \<in> set_operation operation. lir_flows g)"
  by pat_completeness auto
termination
  by (relation "measure size") (auto dest: size_nested_function)

section \<open>The state of a compilation\<close>

definition flow_of :: "compiler \<Rightarrow> flow" where
  "flow_of c = flow_items (cp_items c)
     (flow_start (unat (cp_parameter_count c) + unat (cp_capture_count c)))"

text \<open>The registers that can be read, and the labels that are still to be marked.\<close>

definition usable :: "compiler \<Rightarrow> register_id set" where
  "usable c = {r. unat r \<in> fl_defined (flow_of c) \<and> r < cp_next_register c}"

definition pending :: "compiler \<Rightarrow> label_id set" where
  "pending c = fl_used (flow_of c) - fl_marked (flow_of c)"

definition operation_fits :: "compiler \<Rightarrow> lir_function operation \<Rightarrow> bool" where
  "operation_fits c operation \<longleftrightarrow>
     (\<forall>r \<in> set (operation_registers operation). r < unat (cp_next_register c)) \<and>
     (\<forall>i \<in> set (operation_constants operation). i < length (cp_constants c)) \<and>
     (\<forall>g \<in> set_operation operation. lir_ok g \<and> lir_flows g)"

definition consistent :: "compiler \<Rightarrow> bool" where
  "consistent c \<longleftrightarrow>
     fl_ok (flow_of c) \<and>
     (\<forall>l \<in> fl_used (flow_of c) \<union> fl_marked (flow_of c). l < cp_next_label c) \<and>
     (\<forall>(operation, _) \<in> set (item_operations (cp_items c)). operation_fits c operation) \<and>
     unat (cp_parameter_count c) + unat (cp_capture_count c) \<le> unat (cp_next_register c) \<and>
     (\<forall>(index, _) \<in> set (cp_external_constant_links c). index < length (cp_constants c))"

text \<open>
  \<open>grows L c c'\<close>: code was added, and what it left open are the labels of \<open>L\<close>. At a jump to such a
  label everything is written that was written at \<open>c\<close>, and the registers that \<open>L\<close> names as well.
\<close>

definition grows :: "(label_id \<times> register_id set) set \<Rightarrow> compiler \<Rightarrow> compiler \<Rightarrow> bool" where
  "grows L c c' \<longleftrightarrow>
     consistent c' \<and> cp_next_register c \<le> cp_next_register c' \<and> cp_next_label c \<le> cp_next_label c' \<and>
     length (cp_constants c) \<le> length (cp_constants c') \<and>
     cp_parameter_count c' = cp_parameter_count c \<and> cp_capture_count c' = cp_capture_count c \<and>
     fl_defined (flow_of c) \<subseteq> fl_defined (flow_of c') \<and>
     pending c' = pending c \<union> fst ` L \<and> inj_on fst L \<and>
     (\<forall>(l, X) \<in> L. cp_next_label c \<le> l \<and>
        fl_defined (flow_of c) \<union> unat ` X \<subseteq> fl_jumps (flow_of c') l) \<and>
     (\<forall>l \<in> pending c. fl_jumps (flow_of c') l = fl_jumps (flow_of c) l)"

text \<open>
  The assertion: from \<open>c0\<close> the compiler came to a state with the environment \<open>E\<close>, in which the
  registers \<open>S\<close> can be read and the registers \<open>T\<close> are allocated.
\<close>

definition reached ::
    "compiler \<Rightarrow> (label_id \<times> register_id set) set \<Rightarrow> (string \<rightharpoonup> register_id) \<Rightarrow> register_id set \<Rightarrow>
     register_id set \<Rightarrow> compiler \<Rightarrow> bool" where
  "reached c0 L E S T c \<longleftrightarrow>
     consistent c0 \<and> grows L c0 c \<and> cp_environment c = E \<and> S \<subseteq> usable c \<and> T \<subseteq> {r. r < cp_next_register c}"

definition triple :: "(compiler \<Rightarrow> bool) \<Rightarrow> 'a compiling \<Rightarrow> ('a \<Rightarrow> compiler \<Rightarrow> bool) \<Rightarrow> bool" where
  "triple P m Q \<longleftrightarrow> (\<forall>c x c'. P c \<longrightarrow> m c = (Inr x, c') \<longrightarrow> Q x c')"

lemma tripleI: "(\<And>c x c'. P c \<Longrightarrow> m c = (Inr x, c') \<Longrightarrow> Q x c') \<Longrightarrow> triple P m Q"
  by (simp add: triple_def)

lemma tripleD: "triple P m Q \<Longrightarrow> P c \<Longrightarrow> m c = (Inr x, c') \<Longrightarrow> Q x c'"
  by (simp add: triple_def)

lemma triple_bind:
  "triple P m R \<Longrightarrow> (\<And>x. triple (R x) (f x) Q) \<Longrightarrow> triple P (ebind m f) Q"
  by (fastforce simp: triple_def result_simps)

lemma triple_eret: "(\<And>c. P c \<Longrightarrow> Q x c) \<Longrightarrow> triple P (eret x) Q"
  by (auto simp: triple_def result_simps)

lemma triple_fail [simp]: "triple P (efail e) Q" "triple P (fail_plain f) Q" "triple P (fail_at l f) Q"
  by (auto simp: triple_def fail_plain_def fail_at_def result_simps)

lemma triple_weaken:
  "triple P m Q \<Longrightarrow> (\<And>c. P' c \<Longrightarrow> P c) \<Longrightarrow> (\<And>x c. Q x c \<Longrightarrow> Q' x c) \<Longrightarrow> triple P' m Q'"
  unfolding triple_def by blast

lemma triple_eget: "triple P (eget f) (\<lambda>x c. P c \<and> x = f c)"
  by (auto simp: triple_def result_simps)

lemma triple_get: "(\<And>x. triple P (f x) Q) \<Longrightarrow> triple P (ebind (eget g) f) Q"
  by (auto simp: triple_def result_simps)

lemma triple_conj: "(b \<Longrightarrow> triple P m Q) \<Longrightarrow> triple (\<lambda>c. P c \<and> b) m Q"
  by (auto simp: triple_def)

section \<open>Growing\<close>

lemma pending_below: "consistent c \<Longrightarrow> l \<in> pending c \<Longrightarrow> l < cp_next_label c"
  by (auto simp: consistent_def pending_def)

lemma grows_refl: "consistent c \<Longrightarrow> grows {} c c"
  by (simp add: grows_def)

lemma grows_open:
  "grows L c c' \<Longrightarrow> (l, X) \<in> L \<Longrightarrow>
   cp_next_label c \<le> l \<and> fl_defined (flow_of c) \<union> unat ` X \<subseteq> fl_jumps (flow_of c') l"
  unfolding grows_def by blast

lemma grows_trans:
  assumes "grows L c c'" and "grows K c' c''"
  shows "grows (K \<union> L) c c''"
proof -
  have later: "fl_jumps (flow_of c'') l = fl_jumps (flow_of c') l" if "l \<in> pending c \<union> fst ` L" for l
    using that assms by (auto simp: grows_def)
  have "cp_next_label c \<le> l \<and> fl_defined (flow_of c) \<union> unat ` X \<subseteq> fl_jumps (flow_of c'') l"
    if m: "(l, X) \<in> (K \<union> L)" for l X
  proof (cases "(l, X) \<in> L")
    case True
    then have "l \<in> pending c \<union> fst ` L" by force
    from later[OF this] grows_open[OF assms(1) True] show ?thesis by simp
  next
    case False
    with m have "(l, X) \<in> K" by simp
    from grows_open[OF assms(2) this] assms(1) show ?thesis by (auto simp: grows_def)
  qed
  then have open_labels: "\<forall>(l, X) \<in> (K \<union> L). cp_next_label c \<le> l \<and>
      fl_defined (flow_of c) \<union> unat ` X \<subseteq> fl_jumps (flow_of c'') l" by blast
  have kept: "\<forall>l \<in> pending c. fl_jumps (flow_of c'') l = fl_jumps (flow_of c) l"
    using later assms(1) by (simp add: grows_def)
  have left: "pending c'' = pending c \<union> fst ` (K \<union> L)"
    using assms by (simp add: grows_def image_Un Un_ac)
  have "fst ` K \<inter> fst ` L = {}"
  proof -
    have "fst ` L \<subseteq> pending c'" "consistent c'" using assms(1) by (simp_all add: grows_def)
    then have "l < cp_next_label c'" if "l \<in> fst ` L" for l
      using that pending_below by blast
    moreover have "cp_next_label c' \<le> l" if "l \<in> fst ` K" for l
      using that grows_open[OF assms(2)] by force
    ultimately show ?thesis by (meson disjoint_iff leD)
  qed
  moreover have "inj_on fst K" "inj_on fst L" using assms by (simp_all add: grows_def)
  ultimately have "inj_on fst (K \<union> L)" by (auto simp: inj_on_Un)
  moreover have "cp_parameter_count c'' = cp_parameter_count c \<and> cp_capture_count c'' = cp_capture_count c"
    using assms by (simp add: grows_def)
  moreover note open_labels
  moreover note kept
  moreover note left
  ultimately show ?thesis using assms unfolding grows_def by (meson order_trans)
qed

lemma usable_grows: "grows L c c' \<Longrightarrow> usable c \<subseteq> usable c'"
  by (auto simp: grows_def usable_def intro: less_le_trans)

text \<open>A part that was followed from where it started.\<close>

lemma reached_trans:
  assumes "reached c0 L E S T c" and "reached c K E' S' T' c'"
  shows "reached c0 (K \<union> L) E' (S \<union> S') (T \<union> T') c'"
proof -
  from assms have "S \<subseteq> usable c'" using usable_grows by (force simp: reached_def)
  with assms grows_trans[of L c0 c K c'] show ?thesis
    by (auto simp: reached_def grows_def dest: less_le_trans)
qed

lemma reached_start:
  "consistent c \<Longrightarrow> S \<subseteq> usable c \<Longrightarrow> T \<subseteq> {r. r < cp_next_register c} \<Longrightarrow>
   reached c {} (cp_environment c) S T c"
  by (simp add: reached_def grows_refl)

lemma triple_rebase:
  assumes "\<And>c. reached c0 L E S T c \<Longrightarrow> triple (\<lambda>c'. c' = c) m (\<lambda>x. reached c (K x) (E' x) (S' x) (T' x))"
  shows "triple (reached c0 L E S T) m (\<lambda>x. reached c0 (K x \<union> L) (E' x) (S \<union> S' x) (T \<union> T' x))"
proof (rule tripleI)
  fix c x c' assume "reached c0 L E S T c" and "m c = (Inr x, c')"
  with tripleD[OF assms, of c c x c'] reached_trans[of c0 L E S T c]
  show "reached c0 (K x \<union> L) (E' x) (S \<union> S' x) (T \<union> T' x) c'" by simp
qed

lemma reached_weaken:
  "reached c0 L E S T c \<Longrightarrow> S' \<subseteq> S \<Longrightarrow> T' \<subseteq> T \<Longrightarrow> reached c0 L E S' T' c"
  by (auto simp: reached_def)

lemma reached_step:
  "reached c0 L E S T c \<Longrightarrow> reached c {} E' S' T' c' \<Longrightarrow> S'' \<subseteq> S \<union> S' \<Longrightarrow> T'' \<subseteq> T \<union> T' \<Longrightarrow>
   reached c0 L E' S'' T'' c'"
  using reached_weaken[OF reached_trans[of c0 L E S T c "{}"]] by simp

lemma reached_consistent: "reached c0 L E S T c \<Longrightarrow> consistent c"
  by (simp add: reached_def grows_def)

section \<open>Emitting code\<close>

abbreviation with_item :: "compiler \<Rightarrow> lir_function lir_item \<Rightarrow> compiler" where
  "with_item c x \<equiv> c\<lparr> cp_items := cp_items c @ [x] \<rparr>"

lemma flow_with_item: "flow_of (with_item c x) = flow_item x (flow_of c)"
  by (simp add: flow_of_def flow_items_def)

lemma fits_with_item [simp]: "operation_fits (with_item c x) operation = operation_fits c operation"
  by (simp add: operation_fits_def)

lemma usable_defined: "S \<subseteq> usable c \<Longrightarrow> unat ` S \<subseteq> fl_defined (flow_of c)"
  by (auto simp: usable_def)

lemma consistent_operation:
  assumes "consistent c" and "set (op_reads operation) \<subseteq> fl_defined (flow_of c)"
    and "operation_fits c operation"
    and "\<And>l. l \<in> set (operation_labels operation) \<Longrightarrow>
      l < cp_next_label c \<and> l \<notin> fl_marked (flow_of c)"
  shows "consistent (with_item c (L_Operation operation origin))"
  using assms by (auto simp: consistent_def flow_with_item item_operations_append Let_def)

lemma usable_fits: "S \<subseteq> usable c \<Longrightarrow> r \<in> S \<Longrightarrow> unat r < unat (cp_next_register c)"
  by (auto simp: usable_def word_less_nat_alt)

lemma reached_fits:
  assumes "reached c0 L E S T c" and "set (operation_registers operation) \<subseteq> unat ` (S \<union> T)"
    and "\<And>i. i \<in> set (operation_constants operation) \<Longrightarrow> i < length (cp_constants c)"
    and "\<And>g. g \<in> set_operation operation \<Longrightarrow> lir_ok g \<and> lir_flows g"
  shows "operation_fits c operation"
proof -
  have "unat r < unat (cp_next_register c)" if "r \<in> S \<union> T" for r
    using that assms(1) by (auto simp: reached_def word_less_nat_alt dest: usable_fits)
  with assms(2-4) show ?thesis by (auto simp: operation_fits_def)
qed

text \<open>An operation without a jump.\<close>

lemma reached_operation:
  assumes r: "reached c0 L E S T c" and reads: "set (op_reads operation) \<subseteq> unat ` S"
    and fits: "operation_fits c operation" and labels: "operation_labels operation = []"
  shows "reached c0 L E
      (if op_ends operation then T else S \<union> {r \<in> T. unat r \<in> set (op_writes operation)}) T
      (with_item c (L_Operation operation origin))"
proof -
  let ?c' = "with_item c (L_Operation operation origin)"
  from r have S: "unat ` S \<subseteq> fl_defined (flow_of c)" by (simp add: reached_def usable_defined)
  have "consistent ?c'"
    by (rule consistent_operation[OF reached_consistent[OF r] _ fits]) (use reads S labels in auto)
  moreover have "pending ?c' = pending c"
    by (simp add: pending_def flow_with_item Let_def labels)
  moreover have "fl_jumps (flow_of ?c') = fl_jumps (flow_of c)"
    by (simp add: flow_with_item Let_def labels)
  moreover have "fl_defined (flow_of c) \<subseteq> fl_defined (flow_of ?c')"
    by (auto simp: flow_with_item Let_def)
  ultimately have "grows {} c ?c'"
    using reached_consistent[OF r] by (simp add: grows_def)
  moreover have "(if op_ends operation then T
      else S \<union> {r \<in> T. unat r \<in> set (op_writes operation)}) \<subseteq> usable ?c'"
    using r by (auto simp: usable_def flow_with_item Let_def reached_def)
  ultimately have "reached c {} E
      (if op_ends operation then T else S \<union> {r \<in> T. unat r \<in> set (op_writes operation)}) T ?c'"
    using r reached_consistent[OF r] by (auto simp: reached_def)
  from reached_step[OF r this] show ?thesis by auto
qed

text \<open>Operations that compute a register from others.\<close>

definition computes :: "register_id set \<Rightarrow> (register_id \<Rightarrow> lir_function operation) \<Rightarrow> bool" where
  "computes S f \<longleftrightarrow> (\<forall>r. set (op_reads (f r)) \<subseteq> unat ` S \<and> op_writes (f r) = [unat r] \<and>
     set (operation_registers (f r)) \<subseteq> unat ` insert r S \<and> operation_labels (f r) = [] \<and>
     operation_constants (f r) = [] \<and> \<not> op_ends (f r) \<and>
     (\<forall>g \<in> set_operation (f r). lir_ok g \<and> lir_flows g))"

lemma next_register_Suc:
  "unat (r :: u32) \<noteq> u32_max \<Longrightarrow> r < r + 1 \<and> unat (r + 1) = Suc (unat r)"
proof -
  assume "unat r \<noteq> u32_max"
  with unat_u32_le[of r] have "Suc (unat r) < 2 ^ 32" by (simp add: u32_max_def)
  then have "unat (r + 1) = Suc (unat r)" by (simp add: unat_word_ariths)
  then show ?thesis by (simp add: word_less_nat_alt)
qed

lemma triple_allocate:
  "triple (reached c0 L E S T) allocate_register (\<lambda>r. reached c0 L E S (insert r T))"
proof (rule tripleI)
  fix c r c' assume r: "reached c0 L E S T c" and "allocate_register c = (Inr r, c')"
  then have c': "c' = c\<lparr> cp_next_register := r + 1 \<rparr>" "r = cp_next_register c" "unat r \<noteq> u32_max"
    by (auto simp: allocate_register_def result_simps split: if_splits)
  note less = next_register_Suc[OF c'(3)]
  have flow: "flow_of c' = flow_of c" by (simp add: c' flow_of_def)
  have "operation_fits c operation \<Longrightarrow> operation_fits c' operation" for operation
    using less c'(2) by (auto simp: operation_fits_def c'(1))
  then have "consistent c'"
    using reached_consistent[OF r] less c'(2) flow unfolding consistent_def c'(1) by auto
  then have "grows {} c c'"
    using less c'(2) flow by (auto simp: grows_def pending_def c'(1) intro: less_imp_le)
  moreover have "insert r T \<subseteq> {x. x < cp_next_register c'}"
    using r less c' by (auto simp: reached_def)
  ultimately have "reached c {} E {} (insert r T) c'"
    using r reached_consistent[OF r] by (simp add: reached_def c'(1))
  from reached_step[OF r this] show "reached c0 L E S (insert r T) c'" by auto
qed

section \<open>Labels\<close>

text \<open>A label that was not jumped to restricts nothing.\<close>

lemma flow_unused: "l \<notin> fl_used (flow_of c) \<Longrightarrow> fl_jumps (flow_of c) l = UNIV"
proof -
  have "l \<notin> fl_used (flow_items items f) \<longrightarrow> fl_jumps (flow_items items f) l = UNIV"
    if "l \<notin> fl_used f \<longrightarrow> fl_jumps f l = UNIV" for f and items :: "lir_function lir_item list"
    using that
  proof (induction items arbitrary: f)
    case (Cons x items)
    have "l \<notin> fl_used (flow_item x f) \<longrightarrow> fl_jumps (flow_item x f) l = UNIV"
      using Cons.prems by (cases x) (auto simp: Let_def)
    from Cons.IH[OF this] show ?case by (simp add: flow_items_def)
  qed (simp add: flow_items_def)
  then show "l \<notin> fl_used (flow_of c) \<Longrightarrow> fl_jumps (flow_of c) l = UNIV"
    unfolding flow_of_def by (simp add: flow_start_def)
qed

text \<open>A jump to a label that was just made.\<close>

lemma reached_jump:
  assumes r: "reached c0 L E S T c" and new: "new_label c = (Inr l, c1)"
    and labels: "operation_labels operation = [l]" and reads: "set (op_reads operation) \<subseteq> unat ` S"
    and fits: "operation_fits c operation" and writes: "op_writes operation = []"
  shows "l \<notin> fst ` L" and "reached c0 (insert (l, S) L) E (if op_ends operation then S \<union> T else S) T
    (with_item c1 (L_Operation operation origin))"
proof -
  let ?c2 = "with_item c1 (L_Operation operation origin)"
  from new have c1: "c1 = c\<lparr> cp_next_label := l + 1 \<rparr>" "l = cp_next_label c" "unat l \<noteq> u32_max"
    by (auto simp: new_label_def result_simps split: if_splits)
  note less = next_register_Suc[OF c1(3)] and con = reached_consistent[OF r]
  have flow: "flow_of c1 = flow_of c" by (simp add: c1 flow_of_def)
  have fresh: "l \<notin> fl_used (flow_of c) \<union> fl_marked (flow_of c)"
    using con c1(2) by (auto simp: consistent_def)
  show "l \<notin> fst ` L"
  proof
    assume "l \<in> fst ` L"
    with r have "l \<in> pending c" by (auto simp: reached_def grows_def)
    with fresh show False by (auto simp: pending_def)
  qed
  have fits1: "operation_fits c1 x = operation_fits c x" for x
    by (simp add: operation_fits_def c1)
  have "consistent c1"
    using con less c1(2) flow fits1 unfolding consistent_def c1(1) by (auto intro: less_trans)
  then have "consistent ?c2"
  proof (rule consistent_operation)
    show "set (op_reads operation) \<subseteq> fl_defined (flow_of c1)"
      using reads r flow usable_defined[of S c] by (auto simp: reached_def)
    show "k < cp_next_label c1 \<and> k \<notin> fl_marked (flow_of c1)" if "k \<in> set (operation_labels operation)" for k
      using that labels fresh less flow c1 by auto
  qed (use fits fits1 in simp)
  moreover have "pending ?c2 = pending c \<union> {l}"
    using fresh by (auto simp: pending_def flow_with_item Let_def labels flow)
  moreover have "fl_jumps (flow_of ?c2) l = fl_defined (flow_of c)"
    using flow_unused[of l c] fresh by (simp add: flow_with_item Let_def labels flow)
  moreover have "unat ` S \<subseteq> fl_defined (flow_of c)"
    using r usable_defined by (simp add: reached_def)
  moreover have "fl_defined (flow_of c) \<subseteq> fl_defined (flow_of ?c2)"
    by (auto simp: flow_with_item Let_def flow)
  moreover have "\<forall>k \<in> pending c. fl_jumps (flow_of ?c2) k = fl_jumps (flow_of c) k"
    using fresh by (auto simp: flow_with_item Let_def labels flow pending_def)
  ultimately have "grows {(l, S)} c ?c2"
    using less c1(2) by (auto simp: grows_def c1(1) intro: less_imp_le)
  moreover have "usable ?c2 = {x. unat x \<in> (if op_ends operation then UNIV else fl_defined (flow_of c)) \<and>
      x < cp_next_register c1}"
    by (simp add: usable_def flow_with_item Let_def flow writes)
  then have "(if op_ends operation then S \<union> T else S) \<subseteq> usable ?c2"
    using r by (auto simp: usable_def reached_def c1(1))
  ultimately have "reached c {(l, S)} E (if op_ends operation then S \<union> T else S) T ?c2"
    using r con by (auto simp: reached_def c1(1))
  from reached_weaken[OF reached_trans[OF r this]]
  show "reached c0 (insert (l, S) L) E (if op_ends operation then S \<union> T else S) T ?c2" by auto
qed

text \<open>
  At a label the registers can be read that were written at every jump to it and on the way to it:
  those of \<open>c0\<close> and those that \<open>L\<close> names.
\<close>

lemma reached_mark:
  assumes r: "reached c0 (insert (l, X) L) E S T c" and fresh: "l \<notin> fst ` L"
    and S': "S' \<subseteq> S" "S' \<subseteq> X \<union> usable c0"
  shows "reached c0 L E S' T (with_item c (L_Label l))"
proof -
  let ?c = "with_item c (L_Label l)"
  note con = reached_consistent[OF r]
  from r have g: "grows (insert (l, X) L) c0 c" and con0: "consistent c0" by (auto simp: reached_def)
  from grows_open[OF g] have jumps: "fl_defined (flow_of c0) \<union> unat ` X \<subseteq> fl_jumps (flow_of c) l"
    and l: "cp_next_label c0 \<le> l"
    by auto
  have open': "pending c = insert l (pending c0 \<union> fst ` L)" using g by (simp add: grows_def)
  have not0: "l \<notin> pending c0" using pending_below[OF con0] l by (meson leD)
  from open' have l': "l \<in> fl_used (flow_of c)" "l \<notin> fl_marked (flow_of c)" by (auto simp: pending_def)
  with con have "consistent ?c"
    by (auto simp: consistent_def flow_with_item item_operations_append)
  moreover have "pending ?c = pending c - {l}" by (auto simp: pending_def flow_with_item)
  then have "pending ?c = pending c0 \<union> fst ` L" using open' fresh not0 by auto
  moreover have "fl_defined (flow_of c0) \<subseteq> fl_defined (flow_of ?c)"
    using g jumps by (auto simp: flow_with_item grows_def)
  moreover have "fl_jumps (flow_of ?c) = fl_jumps (flow_of c)" by (simp add: flow_with_item)
  ultimately have "grows L c0 ?c" using g by (auto simp: grows_def)
  moreover have "unat x \<in> fl_jumps (flow_of c) l" if "x \<in> S'" for x
    using that S'(2) jumps by (auto simp: usable_def)
  then have "S' \<subseteq> usable ?c"
    using S'(1) r by (auto simp: usable_def flow_with_item reached_def)
  ultimately show ?thesis using r by (simp add: reached_def)
qed

end
