(* ===== verification/Compiler_Correct.thy ===== *)
theory Compiler_Correct
  imports Compiler_Flow
begin

text \<open>
  What the compiler emits: the functions it makes pass the checks of the assembler and the forward
  analysis of \<open>Compiler_Flow\<close>, nested functions included.
\<close>

section \<open>Single steps\<close>

named_theorems step_rules \<open>what the methods that emit code reach\<close>

lemma triple_operation:
  assumes "set (op_reads operation) \<subseteq> unat ` S" and "operation_labels operation = []"
    and "set (operation_registers operation) \<subseteq> unat ` (S \<union> T)" and "operation_constants operation = []"
    and "\<And>g. g \<in> set_operation operation \<Longrightarrow> lir_ok g \<and> lir_flows g"
  shows "triple (reached c0 L E S T) (push_item (L_Operation operation origin))
    (\<lambda>_. reached c0 L E (S \<union> (if op_ends operation then T
       else {r \<in> T. unat r \<in> set (op_writes operation)})) T)"
proof (rule tripleI)
  fix c x c' assume r: "reached c0 L E S T c"
    and c': "push_item (L_Operation operation origin) c = (Inr x, c')"
  have "operation_fits c operation"
    by (rule reached_fits[OF r]) (use assms in auto)
  from reached_operation[OF r assms(1) this assms(2), of origin] c'
  have "reached c0 L E (if op_ends operation then T
      else S \<union> {r \<in> T. unat r \<in> set (op_writes operation)}) T c'"
    by (simp add: push_item_def result_simps)
  then show "reached c0 L E (S \<union> (if op_ends operation then T
       else {r \<in> T. unat r \<in> set (op_writes operation)})) T c'"
    using r c' by (auto simp: reached_def push_item_def result_simps usable_def flow_with_item Let_def
        split: if_splits)
qed

lemma triple_emit_to [step_rules]:
  assumes "computes S f"
  shows "triple (reached c0 L E S T) (emit_to f l) (\<lambda>r. reached c0 L E (insert r S) (insert r T))"
  unfolding emit_to_def emit_def
proof (rule triple_bind[OF triple_allocate], rule triple_bind)
  fix r
  from assms have f: "set (op_reads (f r)) \<subseteq> unat ` S" "op_writes (f r) = [unat r]"
    "set (operation_registers (f r)) \<subseteq> unat ` insert r S" "operation_labels (f r) = []"
    "operation_constants (f r) = []" "\<not> op_ends (f r)"
    "\<And>g. g \<in> set_operation (f r) \<Longrightarrow> lir_ok g \<and> lir_flows g"
    by (auto simp: computes_def)
  show "triple (reached c0 L E S (insert r T)) (push_item (L_Operation (f r) (Origin_Source l)))
      (\<lambda>_. reached c0 L E (S \<union> (if op_ends (f r) then insert r T
         else {x \<in> insert r T. unat x \<in> set (op_writes (f r))})) (insert r T))"
    by (rule triple_operation) (use f in auto)
  show "triple (reached c0 L E (S \<union> (if op_ends (f r) then insert r T
         else {x \<in> insert r T. unat x \<in> set (op_writes (f r))})) (insert r T)) (eret r)
      (\<lambda>r. reached c0 L E (insert r S) (insert r T))"
    by (rule triple_eret) (use f(2,6) in \<open>auto elim!: reached_weaken\<close>)
qed

lemma triple_push_plain:
  assumes "set (op_reads operation) \<subseteq> unat ` S" and "op_writes operation = []"
    and "set (operation_registers operation) \<subseteq> unat ` S" and "operation_labels operation = []"
    and "operation_constants operation = []" and "set_operation operation = {}"
  shows "triple (reached c0 L E S T) (push_item (L_Operation operation origin))
    (\<lambda>_. reached c0 L E (if op_ends operation then S \<union> T else S) T)"
  by (rule triple_weaken[OF triple_operation]) (use assms in \<open>auto elim!: reached_weaken\<close>)

text \<open>Fields of the compiler that the code does not depend on.\<close>

definition same_code :: "compiler \<Rightarrow> compiler \<Rightarrow> bool" where
  "same_code c d \<longleftrightarrow> cp_items d = cp_items c \<and> cp_next_register d = cp_next_register c \<and>
     cp_next_label d = cp_next_label c \<and> cp_constants d = cp_constants c \<and>
     cp_parameter_count d = cp_parameter_count c \<and> cp_capture_count d = cp_capture_count c \<and>
     cp_external_constant_links d = cp_external_constant_links c"

lemma same_code_reached:
  assumes "same_code c d" and "reached c0 L E S T c"
  shows "reached c0 L (cp_environment d) S T d"
proof -
  from assms(1) have "flow_of d = flow_of c" by (simp add: same_code_def flow_of_def)
  moreover have "operation_fits d = operation_fits c"
    using assms(1) by (simp add: same_code_def operation_fits_def fun_eq_iff)
  ultimately have "consistent d = consistent c" "pending d = pending c" "usable d = usable c"
    using assms(1) by (simp_all add: same_code_def consistent_def pending_def usable_def)
  with assms \<open>flow_of d = flow_of c\<close> show ?thesis
    by (simp add: reached_def grows_def same_code_def)
qed

lemma triple_emodify [step_rules]:
  assumes "\<And>c. same_code c (f c) \<and> cp_environment (f c) = cp_environment c"
  shows "triple (reached c0 L E S T) (emodify f) (\<lambda>_. reached c0 L E S T)"
proof (rule tripleI)
  fix c x c' assume "reached c0 L E S T c" and "emodify f c = (Inr x, c')"
  then show "reached c0 L E S T c'"
    using same_code_reached[of c "f c" c0 L E S T] assms[of c]
    by (simp add: result_simps reached_def)
qed

lemma triple_bind_name [step_rules]:
  "triple (reached c0 L E S T) (bind_name name r) (\<lambda>_. reached c0 L (E(name \<mapsto> r)) S T)"
proof (rule tripleI)
  fix c x c' assume "reached c0 L E S T c" and "bind_name name r c = (Inr x, c')"
  then show "reached c0 L (E(name \<mapsto> r)) S T c'"
    using same_code_reached[of c c' c0 L E S T]
    by (auto simp: bind_name_def result_simps same_code_def reached_def)
qed

text \<open>Constants: the new one is the last of the pool.\<close>

lemma same_code_constants:
  assumes "reached c0 L E S T c"
  shows "reached c0 L E S T (c\<lparr> cp_constants := cp_constants c @ [v] \<rparr>)"
proof -
  let ?d = "c\<lparr> cp_constants := cp_constants c @ [v] \<rparr>"
  have flow: "flow_of ?d = flow_of c" by (simp add: flow_of_def)
  have "operation_fits c operation \<Longrightarrow> operation_fits ?d operation" for operation
    by (auto simp: operation_fits_def)
  then have "consistent ?d"
    using reached_consistent[OF assms] flow by (auto simp: consistent_def)
  with assms flow show ?thesis
    by (auto simp: reached_def grows_def pending_def usable_def)
qed

lemma triple_load_constant [step_rules]:
  "triple (reached c0 L E S T) (load_constant v l) (\<lambda>r. reached c0 L E (insert r S) (insert r T))"
proof (rule tripleI)
  fix c r c' assume r: "reached c0 L E S T c" and run: "load_constant v l c = (Inr r, c')"
  let ?n = "length (cp_constants c)"
  from run obtain d index where alloc: "allocate_register (c\<lparr> cp_constants := cp_constants c @ [v] \<rparr>) = (Inr r, d)"
    and index: "u32_try_from ?n = Some index"
    and c': "c' = with_item d (L_Operation (L_LoadConst r index) (Origin_Source l))"
    by (auto simp: load_constant_def result_simps emit_def push_item_def split: option.splits)
  have d: "reached c0 L E S (insert r T) d"
    by (rule tripleD[OF triple_allocate same_code_constants[OF r] alloc])
  have "length (cp_constants d) = Suc ?n"
    using alloc by (auto simp: allocate_register_def result_simps split: if_splits)
  then have "operation_fits d (L_LoadConst r index :: lir_function operation)"
    using u32_try_from_unat[OF index] d
    by (auto simp: operation_fits_def reached_def word_less_nat_alt)
  from reached_operation[OF d _ this, of "Origin_Source l"] c'
  show "reached c0 L E (insert r S) (insert r T) c'"
    by (auto elim!: reached_weaken)
qed

lemma load_constant_pool:
  "load_constant v l c = (Inr r, d) \<Longrightarrow> length (cp_constants d) = Suc (length (cp_constants c))"
  by (auto simp: load_constant_def allocate_register_def emit_def push_item_def result_simps
      split: if_splits option.splits)

lemma reached_link:
  assumes "reached c0 L E S T c" and "i < length (cp_constants c)"
  shows "reached c0 L E S T (c\<lparr> cp_external_constant_links := cp_external_constant_links c @ [(i, key)] \<rparr>)"
proof -
  let ?d = "c\<lparr> cp_external_constant_links := cp_external_constant_links c @ [(i, key)] \<rparr>"
  have flow: "flow_of ?d = flow_of c" by (simp add: flow_of_def)
  have "consistent ?d"
    using reached_consistent[OF assms(1)] flow assms(2) by (auto simp: consistent_def operation_fits_def)
  with assms(1) flow show ?thesis
    by (auto simp: reached_def grows_def pending_def usable_def)
qed

lemma triple_load_external [step_rules]:
  "triple (reached c0 L E S T) (load_external_constant v key l)
     (\<lambda>r. reached c0 L E (insert r S) (insert r T))"
proof (rule tripleI)
  fix c r c' assume c: "reached c0 L E S T c" and run: "load_external_constant v key l c = (Inr r, c')"
  from run obtain d where d: "load_constant v l c = (Inr r, d)"
    and c': "c' = d\<lparr> cp_external_constant_links := cp_external_constant_links d @ [(length (cp_constants c), key)] \<rparr>"
    by (auto simp: load_external_constant_def result_simps)
  show "reached c0 L E (insert r S) (insert r T) c'"
    unfolding c' by (rule reached_link[OF tripleD[OF triple_load_constant c d]]) (simp add: load_constant_pool[OF d])
qed

section \<open>Jumps and labels\<close>

lemma triple_branch:
  assumes "r \<in> S"
    and "\<And>l. l \<notin> fst ` L \<Longrightarrow> triple (reached c0 (insert (l, S) L) E S T) (k l) Q"
  shows "triple (reached c0 L E S T)
    (ebind new_label (\<lambda>l. ebind (emit (L_JumpIfFalse r l) location) (\<lambda>_. k l))) Q"
proof (rule tripleI)
  fix c x c' assume c: "reached c0 L E S T c"
    and run: "ebind new_label (\<lambda>l. ebind (emit (L_JumpIfFalse r l) location) (\<lambda>_. k l)) c = (Inr x, c')"
  then obtain l c1 where new: "new_label c = (Inr l, c1)"
    and k: "k l (with_item c1 (L_Operation (L_JumpIfFalse r l) (Origin_Source location))) = (Inr x, c')"
    by (auto simp: result_simps emit_def push_item_def)
  have "operation_fits c (L_JumpIfFalse r l :: lir_function operation)"
    by (rule reached_fits[OF c]) (use assms(1) in auto)
  from reached_jump(1)[OF c new _ _ this] assms(1)
    reached_jump(2)[OF c new _ _ this, of "Origin_Source location"]
  have "l \<notin> fst ` L" and "reached c0 (insert (l, S) L) E S T
      (with_item c1 (L_Operation (L_JumpIfFalse r l) (Origin_Source location)))" by auto
  with tripleD[OF assms(2)] k show "Q x c'" by blast
qed

lemma triple_jump:
  assumes "\<And>l. l \<notin> fst ` L \<Longrightarrow> triple (reached c0 (insert (l, S) L) E (S \<union> T) T) (k l) Q"
  shows "triple (reached c0 L E S T)
    (ebind new_label (\<lambda>l. ebind (emit_synthetic (L_Jump l) location) (\<lambda>_. k l))) Q"
proof (rule tripleI)
  fix c x c' assume c: "reached c0 L E S T c"
    and run: "ebind new_label (\<lambda>l. ebind (emit_synthetic (L_Jump l) location) (\<lambda>_. k l)) c = (Inr x, c')"
  let ?o = "Origin_Synthetic (Some location)"
  from run obtain l c1 where new: "new_label c = (Inr l, c1)"
    and k: "k l (with_item c1 (L_Operation (L_Jump l) ?o)) = (Inr x, c')"
    by (auto simp: result_simps emit_synthetic_def push_item_def)
  have "operation_fits c (L_Jump l :: lir_function operation)"
    by (rule reached_fits[OF c]) auto
  from reached_jump(1)[OF c new _ _ this] reached_jump(2)[OF c new _ _ this, of ?o]
  have "l \<notin> fst ` L" and "reached c0 (insert (l, S) L) E (S \<union> T) T (with_item c1 (L_Operation (L_Jump l) ?o))"
    by auto
  with tripleD[OF assms] k show "Q x c'" by blast
qed

lemma triple_mark:
  assumes "l \<notin> fst ` L" and "S' \<subseteq> S" and "S' \<subseteq> X \<union> usable c0"
  shows "triple (reached c0 (insert (l, X) L) E S T) (mark_label l) (\<lambda>_. reached c0 L E S' T)"
  by (rule tripleI, drule reached_mark[OF _ assms]) (simp add: mark_label_def push_item_def result_simps)

text \<open>Several labels at which the same registers are known.\<close>

definition labelled :: "register_id set \<Rightarrow> label_id list \<Rightarrow> (label_id \<times> register_id set) set" where
  "labelled X ls = (\<lambda>l. (l, X)) ` set ls"

lemma labelled_simps [simp]:
  "labelled X [] = {}" "labelled X (l # ls) = insert (l, X) (labelled X ls)"
  "labelled X (ls @ ks) = labelled X ls \<union> labelled X ks" "fst ` labelled X ls = set ls"
  by (auto simp: labelled_def image_Un image_image)

lemma triple_marks:
  assumes "distinct ls" and "set ls \<inter> fst ` L = {}" and "S' \<subseteq> S" and "S' \<subseteq> X \<union> usable c0"
  shows "triple (reached c0 (labelled X ls \<union> L) E S T) (eiter mark_label ls) (\<lambda>_. reached c0 L E S' T)"
  using assms(1-3)
proof (induction ls arbitrary: S)
  case Nil
  then show ?case by (auto simp: eiter_def intro!: triple_eret elim: reached_weaken)
next
  case (Cons l ls)
  have "triple (reached c0 (insert (l, X) (labelled X ls \<union> L)) E S T) (mark_label l)
      (\<lambda>_. reached c0 (labelled X ls \<union> L) E S' T)"
    by (rule triple_mark) (use Cons.prems assms(4) in \<open>auto simp: image_Un\<close>)
  from triple_bind[OF this Cons.IH[of S']] Cons.prems show ?case
    by (simp add: eiter_def)
qed

section \<open>Scopes\<close>

text \<open>Whatever the environment is, it names registers that can be read.\<close>

definition scoped ::
    "compiler \<Rightarrow> (label_id \<times> register_id set) set \<Rightarrow> register_id set \<Rightarrow> register_id set \<Rightarrow> compiler \<Rightarrow> bool"
  where
  "scoped c0 L S T c \<longleftrightarrow> (\<exists>S' T'. reached c0 L (cp_environment c) S' T' c \<and> S \<subseteq> S' \<and> T \<subseteq> T' \<and>
     ran (cp_environment c) \<subseteq> S')"

lemma scopedI: "reached c0 L E S' T' c \<Longrightarrow> S \<subseteq> S' \<Longrightarrow> T \<subseteq> T' \<Longrightarrow> ran E \<subseteq> S' \<Longrightarrow> scoped c0 L S T c"
  by (auto simp: scoped_def reached_def)

lemma scoped_weaken: "scoped c0 L S' T' c \<Longrightarrow> S \<subseteq> S' \<Longrightarrow> T \<subseteq> T' \<Longrightarrow> scoped c0 L S T c"
  unfolding scoped_def by blast

lemma triple_scoped:
  assumes "\<And>E S' T'. S \<subseteq> S' \<Longrightarrow> T \<subseteq> T' \<Longrightarrow> ran E \<subseteq> S' \<Longrightarrow> triple (reached c0 L E S' T') m Q"
  shows "triple (scoped c0 L S T) m Q"
  by (rule tripleI) (auto simp: scoped_def dest: tripleD[OF assms])

lemma computes_mono: "computes S f \<Longrightarrow> S \<subseteq> S' \<Longrightarrow> computes S' f"
  unfolding computes_def by (meson image_mono insert_mono order_trans)

lemma scoped_emit_to [step_rules]:
  assumes "computes S f"
  shows "triple (scoped c0 L S T) (emit_to f l) (\<lambda>r. scoped c0 L (insert r S) (insert r T))"
  by (rule triple_scoped, rule triple_weaken[OF triple_emit_to[OF computes_mono[OF assms]]])
     (auto elim!: scopedI)

lemma scoped_load_constant [step_rules]:
  "triple (scoped c0 L S T) (load_constant v l) (\<lambda>r. scoped c0 L (insert r S) (insert r T))"
  by (rule triple_scoped, rule triple_weaken[OF triple_load_constant]) (auto elim!: scopedI)

lemma scoped_load_external [step_rules]:
  "triple (scoped c0 L S T) (load_external_constant v key l) (\<lambda>r. scoped c0 L (insert r S) (insert r T))"
  by (rule triple_scoped, rule triple_weaken[OF triple_load_external]) (auto elim!: scopedI)

lemma scoped_bind_name [step_rules]:
  "r \<in> S \<Longrightarrow> triple (scoped c0 L S T) (bind_name name r) (\<lambda>_. scoped c0 L S T)"
  by (rule triple_scoped, rule triple_weaken[OF triple_bind_name], assumption, erule scopedI)
     (auto simp: ran_def subset_iff)

lemma scoped_allocate [step_rules]:
  "triple (scoped c0 L S T) allocate_register (\<lambda>r. scoped c0 L S (insert r T))"
  by (rule triple_scoped, rule triple_weaken[OF triple_allocate]) (auto elim!: scopedI)

lemma scoped_emodify [step_rules]:
  "(\<And>c. same_code c (f c) \<and> cp_environment (f c) = cp_environment c) \<Longrightarrow>
   triple (scoped c0 L S T) (emodify f) (\<lambda>_. scoped c0 L S T)"
  by (rule triple_scoped, rule triple_weaken[OF triple_emodify]) (auto elim!: scopedI)

lemma scoped_push [step_rules]:
  assumes "set (op_reads operation) \<subseteq> unat ` S" and "op_writes operation = []"
    and "set (operation_registers operation) \<subseteq> unat ` S" and "operation_labels operation = []"
    and "operation_constants operation = []" and "set_operation operation = {}"
  shows "triple (scoped c0 L S T) (push_item (L_Operation operation origin))
    (\<lambda>_. scoped c0 L (if op_ends operation then S \<union> T else S) T)"
proof (rule triple_scoped)
  fix E :: "string \<rightharpoonup> register_id" and S' T'
  assume sub: "S \<subseteq> S'" "T \<subseteq> T'" "ran E \<subseteq> S'"
  have "set (op_reads operation) \<subseteq> unat ` S'" "set (operation_registers operation) \<subseteq> unat ` S'"
    using assms(1,3) sub by blast+
  from triple_push_plain[OF this(1) assms(2) this(2) assms(4-6)]
  show "triple (reached c0 L E S' T') (push_item (L_Operation operation origin))
      (\<lambda>_. scoped c0 L (if op_ends operation then S \<union> T else S) T)"
    by (rule triple_weaken) (use sub in \<open>auto elim!: scopedI\<close>)
qed

lemma triple_efold:
  "(\<And>x a. x \<in> set xs \<Longrightarrow> triple (I a) (f x a) I) \<Longrightarrow> triple (I a) (efold f xs a) I"
proof (induction xs arbitrary: a)
  case (Cons x xs)
  then show ?case by (auto intro!: triple_bind[where R = I])
qed (auto intro: triple_eret)

lemma triple_eiter: "(\<And>x. x \<in> set xs \<Longrightarrow> triple I (f x) (\<lambda>_. I)) \<Longrightarrow> triple I (eiter f xs) (\<lambda>_. I)"
  unfolding eiter_def by (rule triple_efold[where I = "\<lambda>_. I"]) auto

lemma triple_if:
  "(b \<Longrightarrow> triple P m Q) \<Longrightarrow> (\<not> b \<Longrightarrow> triple P n Q) \<Longrightarrow> triple P (if b then m else n) Q"
  by simp

section \<open>Patterns\<close>

definition matching ::
    "compiler \<Rightarrow> register_id set \<Rightarrow> register_id set \<Rightarrow> label_id list \<times> 'n \<Rightarrow> compiler \<Rightarrow> bool" where
  "matching c0 S T acc c \<longleftrightarrow> distinct (fst acc) \<and> scoped c0 (labelled {} (fst acc)) S T c"

lemma matching_lift:
  "(\<And>L. triple (scoped c0 L S T) m (\<lambda>x. scoped c0 L (S' x) (T' x))) \<Longrightarrow>
   triple (matching c0 S T acc) m (\<lambda>x. matching c0 (S' x) (T' x) acc)"
  by (auto simp: matching_def triple_def)

lemma matching_weaken: "matching c0 S' T' acc c \<Longrightarrow> S \<subseteq> S' \<Longrightarrow> T \<subseteq> T' \<Longrightarrow> matching c0 S T acc c"
  by (auto simp: matching_def elim: scoped_weaken)

lemma matching_names: "matching c0 S T (fs, ns) c \<Longrightarrow> matching c0 S T (fs, ms) c"
  by (simp add: matching_def)

lemma reached_forget:
  assumes "reached c0 (insert (l, X) L) E S T c" and "l \<notin> fst ` L"
  shows "reached c0 (insert (l, {}) L) E S T c"
proof -
  have "inj_on fst (insert (l, {}) L)" if "inj_on fst (insert (l, X) L)"
    using that assms(2) by (auto simp: inj_on_def)
  with assms show ?thesis by (auto simp: reached_def grows_def)
qed

lemma matching_branch [step_rules]:
  assumes "r \<in> S"
  shows "triple (matching c0 S T (fs, ns)) (jump_if_false r l fs) (\<lambda>fs'. matching c0 S T (fs', ns))"
proof (rule tripleI)
  fix c fs' c' assume "matching c0 S T (fs, ns) c" and run: "jump_if_false r l fs c = (Inr fs', c')"
  then obtain S' T' where r: "reached c0 (labelled {} fs) (cp_environment c) S' T' c" "distinct fs"
    and sub: "S \<subseteq> S'" "T \<subseteq> T'" "ran (cp_environment c) \<subseteq> S'"
    by (auto simp: matching_def scoped_def)
  have "triple (reached c0 (labelled {} fs) (cp_environment c) S' T') (jump_if_false r l fs)
      (\<lambda>fs'. matching c0 S T (fs', ns))"
    unfolding jump_if_false_def
  proof (rule triple_branch, goal_cases)
    case (2 l)
    then have "matching c0 S T (fs @ [l], ns) d"
      if "reached c0 (insert (l, S') (labelled {} fs)) (cp_environment c) S' T' d" for d
      using scopedI[OF reached_forget[OF that]] sub r(2) by (simp add: matching_def)
    then show ?case by (rule triple_eret)
  qed (use assms sub in blast)
  from tripleD[OF this r(1) run] show "matching c0 S T (fs', ns) c'" .
qed

lemma matching_steps [step_rules]:
  "computes S f \<Longrightarrow> triple (matching c0 S T acc) (emit_to f l) (\<lambda>r. matching c0 (insert r S) (insert r T) acc)"
  "triple (matching c0 S T acc) (load_constant v l) (\<lambda>r. matching c0 (insert r S) (insert r T) acc)"
  "r \<in> S \<Longrightarrow> triple (matching c0 S T acc) (bind_name name r) (\<lambda>_. matching c0 S T acc)"
  by (rule matching_lift, erule scoped_emit_to)
     (rule matching_lift, rule scoped_load_constant,
      rule matching_lift, erule scoped_bind_name)

text \<open>Keeping what was known before a part.\<close>

lemma matching_after:
  "triple (matching c0 S' T' a) m (\<lambda>b. matching c0 S' T' b) \<Longrightarrow> S \<subseteq> S' \<Longrightarrow> T \<subseteq> T' \<Longrightarrow>
   triple (matching c0 S' T' a) m (\<lambda>b. matching c0 S T b)"
  by (erule triple_weaken) (auto elim: matching_weaken)

lemma computes_pattern:
  assumes "v \<in> S"
  shows "e \<in> S \<Longrightarrow> computes S (\<lambda>r. L_Equal r v e)" "e \<in> S \<Longrightarrow> computes S (\<lambda>r. L_TaggedTagEquals r v e)"
    "computes S (\<lambda>r. L_GetTaggedPayload r v)" "computes S (\<lambda>r. L_TupleLengthEquals r v n)"
    "computes S (\<lambda>r. L_GetTuple r v n)" "computes S (\<lambda>r. L_IsDict r v)"
    "computes S (\<lambda>r. L_FieldExists r v name)" "computes S (\<lambda>r. L_GetField r v name)"
  using assms by (auto simp: computes_def)

lemma matching_test:
  assumes "computes S f"
  shows "triple (matching c0 S T (fs, ns)) (ebind (emit_to f l) (\<lambda>condition. jump_if_false condition l' fs))
    (\<lambda>fs'. matching c0 S T (fs', ns))"
proof (rule triple_bind[OF matching_steps(1)[OF assms]])
  fix condition
  show "triple (matching c0 (insert condition S) (insert condition T) (fs, ns)) (jump_if_false condition l' fs)
      (\<lambda>fs'. matching c0 S T (fs', ns))"
    by (rule triple_weaken[OF matching_branch[where S = "insert condition S"]]) (auto elim: matching_weaken)
qed

lemma ebind_assoc_flip:
  "ebind m (\<lambda>x. ebind (f x) (\<lambda>y. g y)) = ebind (ebind m f) g"
  by (simp add: ebind_assoc)

lemma pattern_literal_matching:
  assumes "v \<in> S"
  shows "triple (matching c0 S T acc) (pattern_literal literal v l acc) (matching c0 S T)"
proof (cases acc)
  case (Pair fs ns)
  show ?thesis
    unfolding pattern_literal_def emit_pattern_equality_def Pair fst_conv snd_conv
  proof (rule triple_bind[OF matching_steps(2)], rule triple_bind[OF matching_test])
    fix e
    show "computes (insert e S) (\<lambda>r. L_Equal r v e)" by (rule computes_pattern) (use assms in auto)
    show "triple (matching c0 (insert e S) (insert e T) (fs', ns)) (eret (fs', ns)) (matching c0 S T)" for fs'
      by (rule triple_eret) (auto elim: matching_weaken)
  qed
qed

lemma compile_pattern_matching:
  "v \<in> S \<Longrightarrow> triple (matching c0 S T acc) (compile_pattern p v acc) (matching c0 S T)"
proof (induction p v acc arbitrary: S T rule: compile_pattern.induct)
  case (1 l v acc)
  then show ?case by (auto intro: triple_eret)
next
  case (2 name l v acc)
  then show ?case
    by (cases acc) (auto intro!: triple_bind[OF matching_steps(3)] triple_eret elim: matching_names)
next
  case (7 tag payload l v acc)
  obtain fs ns where acc: "acc = (fs, ns)" by (cases acc)
  show ?case
    unfolding compile_pattern.simps acc fst_conv snd_conv
  proof (rule triple_bind[OF matching_steps(2)], subst ebind_assoc_flip, rule triple_bind[OF matching_test],
      goal_cases)
    case (1 e)
    show ?case by (rule computes_pattern) (use 7(2) in auto)
  next
    case (2 e fs')
    show ?case
    proof (rule triple_bind[OF matching_steps(1)], goal_cases)
      case (2 r)
      show ?case by (rule matching_after[OF 7(1)[unfolded acc snd_conv]]) auto
    qed (use 7(2) in \<open>auto intro: computes_pattern\<close>)
  qed
next
  case (8 items l v acc)
  obtain fs ns where acc: "acc = (fs, ns)" by (cases acc)
  show ?case
    unfolding compile_pattern.simps acc fst_conv snd_conv
  proof (subst ebind_assoc_flip, rule triple_bind[OF matching_test], goal_cases)
    case (2 fs')
    show ?case
    proof (rule triple_efold, clarify)
      fix i item a b assume "(i, item) \<in> set (enumerate 0 items)"
      note IH = 8(1)[OF this refl]
      show "triple (matching c0 S T (a, b))
         (ebind (emit_to (\<lambda>element. L_GetTuple element v i) (pattern_location item))
           (\<lambda>element. compile_pattern item element (a, b)))
         (matching c0 S T)"
        by (rule triple_bind[OF matching_steps(1)], rule computes_pattern[OF 8(2)],
            rule matching_after[OF IH]) auto
    qed
  qed (use 8(2) in \<open>auto intro: computes_pattern\<close>)
next
  case (9 fields l v acc)
  obtain fs ns where acc: "acc = (fs, ns)" by (cases acc)
  show ?case
    unfolding compile_pattern.simps acc fst_conv snd_conv
  proof (subst ebind_assoc_flip, rule triple_bind[OF matching_test], goal_cases)
    case (2 fs')
    show ?case
    proof (rule triple_bind[where R = "\<lambda>p. matching c0 S T (snd p)"],
        rule triple_weaken[OF triple_efold[where I = "\<lambda>p. matching c0 S T (snd p)"]], goal_cases)
      case (1 x a)
      obtain name item where x: "x = (name, item)" by (cases x)
      obtain names fs'' ns'' where a: "a = (names, fs'', ns'')" by (cases a)
      have IH: "r \<in> S' \<Longrightarrow> triple (matching c0 S' T' (fs'', ns'')) (compile_pattern item r (fs'', ns'')) (matching c0 S' T')"
        if "located_value name \<notin> names" for r S' T' fs'' ns''
        using 9(1)[of "(name, item)" name item] that 1 x by (metis snd_conv)
      show ?case
        unfolding x a prod.case fst_conv snd_conv
      proof (rule triple_if, simp only: triple_fail, subst ebind_assoc_flip, rule triple_bind[OF matching_test], goal_cases)
        case (2 failures)
        show ?case
        proof (rule triple_bind[OF matching_steps(1)], rule computes_pattern[OF 9(2)])
          fix r
          show "triple (matching c0 (insert r S) (insert r T) (failures, ns''))
              (ebind (compile_pattern item r (failures, ns''))
                (\<lambda>acc. eret (insert (located_value name) names, acc))) (\<lambda>p. matching c0 S T (snd p))"
            by (rule triple_bind[OF IH]) (use 2 in \<open>auto intro!: triple_eret elim: matching_weaken\<close>)
        qed
      qed (use 9(2) in \<open>auto intro: computes_pattern\<close>)
    next
      case (4 p)
      then show ?case by (cases p) (auto intro: triple_eret)
    qed auto
  qed (use 9(2) in \<open>auto intro: computes_pattern\<close>)
qed (simp_all add: pattern_literal_matching)

section \<open>Values and tails\<close>

text \<open>
  A method that compiles to a value returns a register that can be read, one that compiles in tail
  position ends the code; both leave the environment and the open labels as they were.
\<close>

definition sound_value :: "register_id compiling \<Rightarrow> bool" where
  "sound_value m \<longleftrightarrow> (\<forall>c0 L E S T. ran E \<subseteq> S \<longrightarrow>
     triple (reached c0 L E S T) m (\<lambda>r. reached c0 L E (insert r S) T))"

definition sound_tail :: "unit compiling \<Rightarrow> bool" where
  "sound_tail m \<longleftrightarrow> (\<forall>c0 L E S T. ran E \<subseteq> S \<longrightarrow>
     triple (reached c0 L E S T) m (\<lambda>_ c. reached c0 L E (S \<union> T) T c \<and> ends_code (cp_items c)))"

lemma sound_valueI:
  "(\<And>c0 L E S T. ran E \<subseteq> S \<Longrightarrow> triple (reached c0 L E S T) m (\<lambda>r. reached c0 L E (insert r S) T)) \<Longrightarrow>
   sound_value m"
  by (simp add: sound_value_def)

lemma sound_valueD:
  "sound_value m \<Longrightarrow> ran E \<subseteq> S \<Longrightarrow> triple (reached c0 L E S T) m (\<lambda>r. reached c0 L E (insert r S) T)"
  by (simp add: sound_value_def)

lemma sound_tailD:
  "sound_tail m \<Longrightarrow> ran E \<subseteq> S \<Longrightarrow>
   triple (reached c0 L E S T) m (\<lambda>_ c. reached c0 L E (S \<union> T) T c \<and> ends_code (cp_items c))"
  by (simp add: sound_tail_def)

lemma scoped_value:
  "sound_value m \<Longrightarrow> triple (scoped c0 L S T) m (\<lambda>r. scoped c0 L (insert r S) T)"
  by (rule triple_scoped, rule triple_weaken[OF sound_valueD]) (auto elim!: scopedI)

lemma triple_collect:
  assumes "\<And>x. x \<in> set xs \<Longrightarrow> sound_value (f x)" and "ran E \<subseteq> S"
  shows "triple (reached c0 L E S T) (ecollect f xs) (\<lambda>rs. reached c0 L E (S \<union> set rs) T)"
  using assms
proof (induction xs arbitrary: S)
  case (Cons x xs)
  show ?case
    unfolding ecollect.simps
  proof (rule triple_bind[OF sound_valueD], goal_cases)
    case (3 r)
    have "triple (reached c0 L E (insert r S) T) (ecollect f xs) (\<lambda>rs. reached c0 L E (insert r S \<union> set rs) T)"
      by (rule Cons.IH) (use Cons.prems in auto)
    then show ?case by (rule triple_bind) (auto intro!: triple_eret)
  qed (use Cons.prems in auto)
qed (auto intro: triple_eret)

lemma triple_emit_value:
  assumes "computes S' f" and "S \<subseteq> S'"
  shows "triple (reached c0 L E S' T) (emit_to f l) (\<lambda>r. reached c0 L E (insert r S) T)"
  by (rule triple_weaken[OF triple_emit_to[OF assms(1)]]) (use assms(2) in \<open>auto elim!: reached_weaken\<close>)

lemma sound_emit_to: "computes {} f \<Longrightarrow> sound_value (emit_to f l)"
  by (rule sound_valueI, rule triple_emit_value, erule computes_mono) auto

lemma sound_load_constant: "sound_value (load_constant v l)"
  by (rule sound_valueI, rule triple_weaken[OF triple_load_constant]) (auto elim!: reached_weaken)

lemma sound_bind_emit:
  assumes "sound_value m" and "\<And>r S. r \<in> S \<Longrightarrow> computes S (f r)"
  shows "sound_value (ebind m (\<lambda>r. emit_to (f r) l))"
proof (rule sound_valueI)
  fix c0 L S T and E :: "string \<rightharpoonup> register_id" assume E: "ran E \<subseteq> S"
  show "triple (reached c0 L E S T) (ebind m (\<lambda>r. emit_to (f r) l)) (\<lambda>r. reached c0 L E (insert r S) T)"
    by (rule triple_bind[OF sound_valueD[OF assms(1) E]], rule triple_emit_value[OF assms(2)]) auto
qed

lemma sound_collect_emit:
  assumes "\<And>x. x \<in> set xs \<Longrightarrow> sound_value (f x)" and "\<And>rs S. set rs \<subseteq> S \<Longrightarrow> computes S (g rs)"
  shows "sound_value (ebind (ecollect f xs) (\<lambda>rs. emit_to (g rs) l))"
proof (rule sound_valueI)
  fix c0 L S T and E :: "string \<rightharpoonup> register_id" assume E: "ran E \<subseteq> S"
  show "triple (reached c0 L E S T) (ebind (ecollect f xs) (\<lambda>rs. emit_to (g rs) l))
      (\<lambda>r. reached c0 L E (insert r S) T)"
    by (rule triple_bind[OF triple_collect[OF assms(1) E]], assumption, rule triple_emit_value[OF assms(2)]) auto
qed

section \<open>Collections and calls\<close>

lemma computes_list:
  "set rs \<subseteq> S \<Longrightarrow> computes S (\<lambda>r. L_MakeArray r rs)" "set rs \<subseteq> S \<Longrightarrow> computes S (\<lambda>r. L_ConcatArrays r rs)"
  "set rs \<subseteq> S \<Longrightarrow> computes S (\<lambda>r. L_MakeTuple r rs)" "set rs \<subseteq> S \<Longrightarrow> computes S (\<lambda>r. L_MergeDicts r rs)"
  "set rs \<subseteq> S \<Longrightarrow> computes S (\<lambda>r. L_InterpolateString r rs)"
  "set (map snd fs) \<subseteq> S \<Longrightarrow> computes S (\<lambda>r. L_MakeDict r fs)"
  by (auto simp: computes_def)

lemma sound_many:
  assumes "\<And>e. e \<in> set es \<Longrightarrow> sound_value (ce e)" and "\<And>rs S. set rs \<subseteq> S \<Longrightarrow> computes S (g rs)"
  shows "sound_value (ebind (compile_many ce es) (\<lambda>rs. emit_to (g rs) l))"
  unfolding compile_many_def by (rule sound_collect_emit[OF assms])

lemma sound_array:
  assumes "\<And>i e. i \<in> set es \<Longrightarrow> e = i \<or> spread_operand i = Some e \<Longrightarrow> sound_value (ce e)"
  shows "sound_value (compile_array ce es l)"
proof -
  have "sound_value (case spread_operand i of Some operand \<Rightarrow> ce operand
      | None \<Rightarrow> ebind (ce i) (\<lambda>v. emit_to (\<lambda>array. L_MakeArray array [v]) (expr_location i)))"
    if "i \<in> set es" for i
    using assms[OF that] by (auto split: option.split intro!: sound_bind_emit computes_list)
  then have "sound_value (compile_spread_array ce es l)"
    unfolding compile_spread_array_def by (rule sound_collect_emit) (auto intro: computes_list)
  moreover have "sound_value (ebind (compile_many ce es) (\<lambda>items. emit_to (\<lambda>dst. L_MakeArray dst items) l))"
    by (rule sound_many) (use assms in \<open>auto intro: computes_list\<close>)
  ultimately show ?thesis by (simp add: compile_array_def)
qed

lemma sound_fold_emit:
  assumes "\<And>c0 L S T x a. ran E \<subseteq> S \<Longrightarrow> x \<in> set xs \<Longrightarrow> regs a \<subseteq> S \<Longrightarrow>
      triple (reached c0 L E S T) (f x a) (\<lambda>b. reached c0 L E (S \<union> regs b) T)"
    and "ran E \<subseteq> S" and "regs a \<subseteq> S" and "\<And>b S. regs b \<subseteq> S \<Longrightarrow> computes S (g b)"
  shows "triple (reached c0 L E S T) (ebind (efold f xs a) (\<lambda>b. emit_to (g b) l))
    (\<lambda>r. reached c0 L E (insert r S) T)"
proof (rule triple_bind[where R = "\<lambda>b. reached c0 L E (S \<union> regs b) T"])
  have "triple (reached c0 L E (S \<union> regs b) T) (f x b) (\<lambda>b. reached c0 L E (S \<union> regs b) T)"
    if "x \<in> set xs" for x b
    by (rule triple_weaken[OF assms(1)[where S = "S \<union> regs b" and a = b]])
       (use that assms(2) in \<open>auto elim!: reached_weaken\<close>)
  then have "triple (reached c0 L E (S \<union> regs a) T) (efold f xs a) (\<lambda>b. reached c0 L E (S \<union> regs b) T)"
    by (intro triple_efold[where I = "\<lambda>b. reached c0 L E (S \<union> regs b) T"])
  then show "triple (reached c0 L E S T) (efold f xs a) (\<lambda>b. reached c0 L E (S \<union> regs b) T)"
    using assms(3) by (simp add: Un_absorb2)
  show "triple (reached c0 L E (S \<union> regs b) T) (emit_to (g b) l) (\<lambda>r. reached c0 L E (insert r S) T)" for b
    by (rule triple_emit_value[OF assms(4)]) auto
qed

lemma sound_dict:
  assumes "\<And>f e. f \<in> set fs \<Longrightarrow> e = field_value f \<or> spread_operand (field_value f) = Some e \<Longrightarrow>
    sound_value (ce e)"
  shows "sound_value (compile_dict ce fs l)"
proof (rule sound_valueI)
  fix c0 L S T and E :: "string \<rightharpoonup> register_id" assume E: "ran E \<subseteq> S"
  have dup: "triple P (duplicate_field name) Q" for P name and Q :: "'a \<Rightarrow> compiler \<Rightarrow> bool"
    by (simp add: duplicate_field_def)
  have "triple (reached c0 L E S T) (compile_spread_dict ce fs l) (\<lambda>r. reached c0 L E (insert r S) T)"
    unfolding compile_spread_dict_def split_beta
  proof (rule sound_fold_emit[where regs = "\<lambda>p. set (snd p)", OF _ E])
    fix c0 L S T x and a :: "string set \<times> register_id list"
    assume s: "ran E \<subseteq> S" "x \<in> set fs" "set (snd a) \<subseteq> S"
    show "triple (reached c0 L E S T) (case field_name x of
         None \<Rightarrow> (case spread_operand (field_value x) of
             None \<Rightarrow> fail_at (located_at x) (\<lambda>_. ''invalid Dict spread entry'')
           | Some operand \<Rightarrow> ebind (ce operand) (\<lambda>dict. eret (fst a, snd a @ [dict])))
       | Some name \<Rightarrow>
           if name \<in> fst a then duplicate_field name
           else
             ebind (ce (field_value x)) (\<lambda>v.
             ebind (emit_to (\<lambda>dict. L_MakeDict dict [(name, v)]) (located_at x)) (\<lambda>dict.
             eret (insert name (fst a), snd a @ [dict]))))
       (\<lambda>b. reached c0 L E (S \<union> set (snd b)) T)"
    proof (cases "field_name x")
      case None
      then show ?thesis
        by (auto split: option.split intro!: triple_bind[OF sound_valueD[OF assms]] triple_eret s
            elim!: reached_weaken dest: s(3)[THEN subsetD])
    next
      case (Some name)
      have "triple (reached c0 L E (insert v S) T)
          (ebind (emit_to (\<lambda>dict. L_MakeDict dict [(name, v)]) (located_at x)) (\<lambda>dict.
             eret (insert name (fst a), snd a @ [dict])))
          (\<lambda>b. reached c0 L E (S \<union> set (snd b)) T)" for v
        by (rule triple_bind[OF triple_emit_value[OF computes_list(6) order_refl]])
           (use s(3) in \<open>auto intro!: triple_eret elim!: reached_weaken\<close>)
      then show ?thesis
        using Some by (auto simp: dup intro!: triple_bind[OF sound_valueD[OF assms]] s)
    qed
  qed (auto intro: computes_list)
  moreover have "triple (reached c0 L E S T)
      (ebind (efold (\<lambda>f p. case field_name f of
            None \<Rightarrow> efail (CE_Panic ''ordinary Dict field has a name'')
          | Some name \<Rightarrow>
              if name \<in> fst p then duplicate_field name
              else ebind (ce (field_value f)) (\<lambda>v. eret (insert name (fst p), snd p @ [(name, v)])))
          fs ({}, [])) (\<lambda>p. emit_to (\<lambda>dst. L_MakeDict dst (snd p)) l))
      (\<lambda>r. reached c0 L E (insert r S) T)"
  proof (rule sound_fold_emit[where regs = "\<lambda>p. snd ` set (snd p)", OF _ E], goal_cases)
    case (1 c0 L S T x a)
    then have "r \<in> S" if "(n, r) \<in> set (snd a)" for n r using that by force
    with 1 show ?case
      by (auto split: option.split simp: dup intro!: triple_bind[OF sound_valueD[OF assms]] triple_eret
          elim!: reached_weaken)
  qed (auto intro!: computes_list)
  ultimately show "triple (reached c0 L E S T) (compile_dict ce fs l) (\<lambda>r. reached c0 L E (insert r S) T)"
    unfolding compile_dict_def split_beta by auto
qed

text \<open>The registers of a call window follow each other.\<close>

definition window :: "register_id \<Rightarrow> nat \<Rightarrow> register_id set" where
  "window base n = {r. unat base \<le> unat r \<and> unat r \<le> unat base + n}"

lemma unat_window:
  assumes "unat base + n \<le> u32_max"
  shows "unat ` window base n = {unat base .. unat base + n}"
proof -
  have "k \<in> unat ` window base n" if "unat base \<le> k" "k \<le> unat base + n" for k
  proof -
    from that assms have "unat (of_nat k :: u32) = k"
      by (simp add: unat_of_nat u32_max_def)
    then show ?thesis using that by (intro image_eqI[of _ _ "of_nat k"]) (auto simp: window_def)
  qed
  then show ?thesis by (auto simp: window_def)
qed

lemma emit_to_next:
  "emit_to f l c = (Inr r, c') \<Longrightarrow> r = cp_next_register c \<and> unat (cp_next_register c') = Suc (unat r)"
  using next_register_Suc[of "cp_next_register c"]
  by (auto simp: emit_to_def allocate_register_def emit_def push_item_def result_simps split: if_splits)

definition window_at ::
    "compiler \<Rightarrow> (label_id \<times> register_id set) set \<Rightarrow> (string \<rightharpoonup> register_id) \<Rightarrow> register_id set \<Rightarrow>
     register_id set \<Rightarrow> register_id \<Rightarrow> nat \<Rightarrow> compiler \<Rightarrow> bool" where
  "window_at c0 L E S T base n c \<longleftrightarrow>
     reached c0 L E (S \<union> window base n) T c \<and> unat (cp_next_register c) = Suc (unat base + n)"

lemma triple_window_step:
  assumes "a \<in> S"
  shows "triple (window_at c0 L E S T base n)
    (ebind (emit_to (\<lambda>destination. L_Move destination a) l) (\<lambda>_. eret ()))
    (\<lambda>_. window_at c0 L E S T base (Suc n))"
proof (rule tripleI)
  fix c x c' assume w: "window_at c0 L E S T base n c"
    and run: "ebind (emit_to (\<lambda>destination. L_Move destination a) l) (\<lambda>_. eret ()) c = (Inr x, c')"
  then obtain r where run: "emit_to (\<lambda>destination. L_Move destination a) l c = (Inr r, c')"
    by (auto simp: result_simps)
  from emit_to_next[OF this] w have r: "unat r = Suc (unat base + n)"
    "unat (cp_next_register c') = Suc (unat base + Suc n)"
    by (auto simp: window_at_def)
  have "computes (S \<union> window base n) (\<lambda>destination. L_Move destination a)"
    using assms by (auto simp: computes_def)
  from tripleD[OF triple_emit_to[OF this] _ run] w
  have "reached c0 L E (insert r (S \<union> window base n)) (insert r T) c'" by (simp add: window_at_def)
  moreover have "window base (Suc n) = insert r (window base n)"
    using r(1) by (auto simp: window_def word_unat_eq_iff)
  ultimately show "window_at c0 L E S T base (Suc n) c'"
    using r(2) by (auto simp: window_at_def elim!: reached_weaken)
qed

lemma triple_window_moves:
  assumes "set as \<subseteq> S"
  shows "triple (window_at c0 L E S T base n)
    (eiter (\<lambda>argument. ebind (emit_to (\<lambda>destination. L_Move destination argument) l) (\<lambda>_. eret ())) as)
    (\<lambda>_. window_at c0 L E S T base (n + length as))"
  using assms
proof (induction as arbitrary: n)
  case (Cons a as)
  have "a \<in> S" using Cons.prems by simp
  from triple_bind[OF triple_window_step[OF this] Cons.IH[of "Suc n"]] Cons.prems
  show ?case by (simp add: eiter_def)
qed (auto simp: eiter_def intro: triple_eret)

lemma triple_call_window:
  assumes "\<And>e. e \<in> insert f (set es) \<Longrightarrow> sound_value (ce e)" and "ran E \<subseteq> S"
  shows "triple (reached c0 L E S T) (compile_call_window ce f es l)
    (\<lambda>(base, n). window_at c0 L E S T base (unat n))"
  unfolding compile_call_window_def compile_many_def
proof (rule triple_bind[OF sound_valueD], goal_cases)
  case (3 callee)
  show ?case
  proof (rule triple_bind[OF triple_collect], goal_cases)
    case (3 args)
    have start: "triple (reached c0 L E (insert callee S \<union> set args) T)
        (emit_to (\<lambda>base. L_Move base callee) l) (\<lambda>base. window_at c0 L E (S \<union> set args) T base 0)"
    proof (rule tripleI)
      fix c base c' assume c: "reached c0 L E (insert callee S \<union> set args) T c"
        and run: "emit_to (\<lambda>base. L_Move base callee) l c = (Inr base, c')"
      have "computes (insert callee S \<union> set args) (\<lambda>base. L_Move base callee)"
        by (auto simp: computes_def)
      from tripleD[OF triple_emit_to[OF this] c run]
      have "reached c0 L E (insert base (S \<union> set args)) T c'" by (auto elim!: reached_weaken)
      moreover have "window base 0 = {base}" by (auto simp: window_def word_unat_eq_iff)
      ultimately show "window_at c0 L E (S \<union> set args) T base 0 c'"
        using emit_to_next[OF run] by (simp add: window_at_def)
    qed
    show ?case
    proof (rule triple_bind[OF start], rule triple_bind[OF triple_window_moves], goal_cases)
      case (2 base u)
      show ?case
        by (auto split: option.split intro!: triple_eret simp: window_at_def dest!: u32_try_from_unat
            elim!: reached_weaken)
    qed simp
  qed (use assms in auto)
qed (use assms in auto)

lemma window_operation:
  assumes w: "window_at c0 L E S T base (unat n) c" and op: "operation \<in> {L_Call base n, L_TailCall base n}"
  shows "reached c0 L E (if op_ends operation then S \<union> T else insert base S) T
    (with_item c (L_Operation operation origin))"
proof -
  from w have c: "reached c0 L E (S \<union> window base (unat n)) T c"
    and next': "unat (cp_next_register c) = Suc (unat base + unat n)"
    by (auto simp: window_at_def)
  from next' have "unat base + unat n \<le> u32_max"
    using unat_u32_le[of "cp_next_register c"] by simp
  note img = unat_window[OF this]
  have fits: "operation_fits c operation" using op next' by (auto simp: operation_fits_def)
  have "set (op_reads operation) \<subseteq> unat ` (S \<union> window base (unat n))"
    using op by (auto simp: image_Un img)
  from reached_operation[OF c this fits, of origin] op
  have d: "reached c0 L E (if op_ends operation then T else S \<union> window base (unat n) \<union>
      {r \<in> T. unat r \<in> set (op_writes operation)}) T (with_item c (L_Operation operation origin))"
    by auto
  have "base \<in> window base (unat n)" by (simp add: window_def)
  with d c op show ?thesis
    by (auto simp: reached_def usable_def flow_with_item Let_def)
qed

section \<open>Finished functions and closures\<close>

lemma flow_items_labels:
  "fl_marked (flow_items items f) = fl_marked f \<union> set (item_labels items)"
  "fl_ok (flow_items items f) \<Longrightarrow>
   fl_ok f \<and> distinct (item_labels items) \<and> set (item_labels items) \<inter> fl_marked f = {}"
proof (induction items arbitrary: f)
  case (Cons x items)
  {
    case 1
    show ?case using Cons.IH(1)[of "flow_item x f"]
      by (cases x) (auto simp: flow_items_def Let_def)
  next
    case 2
    then have "fl_ok (flow_items items (flow_item x f))" by (simp add: flow_items_def)
    from Cons.IH(2)[OF this] show ?case by (cases x) (auto simp: Let_def)
  }
qed (simp_all add: flow_items_def)

lemma ends_code_operations: "ends_code items \<Longrightarrow> item_operations items \<noteq> []"
  by (cases items rule: rev_cases)
     (auto simp: ends_code_def item_operations_append split: lir_item.splits)

lemma finish_lir_ok:
  assumes "consistent c" and "pending c = {}" and "ends_code (cp_items c)"
  shows "lir_ok (finish_lir c) \<and> lir_flows (finish_lir c)"
proof -
  have ok: "fl_ok (flow_of c)" using assms(1) by (simp add: consistent_def)
  from flow_items_labels(2)[OF ok[unfolded flow_of_def]] have "distinct (item_labels (cp_items c))" by simp
  moreover have marked: "fl_marked (flow_of c) = set (item_labels (cp_items c))"
    by (simp add: flow_of_def flow_items_labels(1) flow_start_def)
  have used: "fl_used (flow_of c) \<subseteq> fl_marked (flow_of c)" using assms(2) by (auto simp: pending_def)
  have jumps: "set (operation_labels operation) \<subseteq> fl_used (flow_of c)"
    if "(operation, origin) \<in> set (item_operations (cp_items c))" for operation origin
  proof -
    have "set (operation_labels operation) \<subseteq> fl_used (flow_items items f)"
      if "(operation, origin) \<in> set (item_operations items)" for items :: "lir_function lir_item list" and f
      using that
    proof (induction items arbitrary: f)
      case (Cons x items)
      have mono: "fl_used g \<subseteq> fl_used (flow_items items g)" for g
      proof (induction items arbitrary: g)
        case (Cons y ys)
        have "fl_used g \<subseteq> fl_used (flow_item y g)" by (cases y) (auto simp: Let_def)
        with Cons[of "flow_item y g"] show ?case by (simp add: flow_items_def)
      qed (simp add: flow_items_def)
      show ?case
        using Cons.IH[of "flow_item x f"] Cons.prems mono[of "flow_item x f"]
        by (cases x) (auto simp: flow_items_def Let_def)
    qed simp
    with that show ?thesis by (simp add: flow_of_def)
  qed
  have ops: "operation_ok lir_ok (unat (cp_next_register c)) (length (cp_constants c))
        (set (item_labels (cp_items c))) operation \<and> (\<forall>g \<in> set_operation operation. lir_flows g)"
    if "(operation, origin) \<in> set (item_operations (cp_items c))" for operation origin
    using that assms(1) jumps[OF that] used marked
    by (fastforce simp: consistent_def operation_fits_def operation_ok_def)
  moreover have "unat (cp_parameter_count c) + unat (cp_capture_count c) \<le> unat (cp_next_register c)"
    using assms(1) by (simp add: consistent_def)
  ultimately show ?thesis
    using ends_code_operations[OF assms(3)] assms(3) ok used
    by (auto simp: finish_lir_def flow_of_def[symmetric] Let_def)
qed

lemma parameter_environment_ran:
  assumes "parameter_environment c k names E = Inr E'" and "ran E \<subseteq> {r. unat r < k}"
  shows "ran E' \<subseteq> {r. unat r < k + length names}"
  using assms
proof (induction c k names E rule: parameter_environment.induct)
  case (2 c k name names E)
  from 2(2) obtain r where r: "u32_try_from k = Some r" "E name = None"
    and rest: "parameter_environment c (Suc k) names (E(name \<mapsto> r)) = Inr E'"
    by (auto split: option.splits if_splits)
  have "ran (E(name \<mapsto> r)) \<subseteq> {r. unat r < Suc k}"
    using 2(3) u32_try_from_unat[OF r(1)] r(2) by (fastforce simp: ran_map_upd)
  from 2(1)[OF r(1) _ rest this] r(2) show ?case by simp
qed auto

lemma capture_environment_ran:
  assumes "capture_environment k names E = Inr E'" and "ran E \<subseteq> {r. unat r < k}"
  shows "ran E' \<subseteq> {r. unat r < k + length names}"
  using assms
proof (induction k names E rule: capture_environment.induct)
  case (2 k name names E)
  from 2(2) obtain r where r: "u32_try_from k = Some r" "\<not> usize_max < k"
    and rest: "capture_environment (Suc k) names (E(name \<mapsto> r)) = Inr E'"
    by (auto split: option.splits if_splits)
  have "ran (E(name \<mapsto> r)) \<subseteq> {r. unat r < Suc k}"
    using 2(3) u32_try_from_unat[OF r(1)] by (fastforce simp: ran_def split: if_splits)
  from 2(1)[OF r(2) r(1) rest this] show ?case by simp
qed auto

lemma nested_compiler_start:
  assumes "nested_compiler c name ps cs ul df = Inr d"
  shows "reached d {} (cp_environment d) (usable d) {} d \<and> ran (cp_environment d) \<subseteq> usable d \<and> pending d = {}"
proof -
  from assms obtain E E' n np nc where E: "parameter_environment c 0 ps Map.empty = Inr E"
    "capture_environment (length ps) cs E = Inr E'"
    "u32_try_from (length ps + length cs) = Some n" "u32_try_from (length ps) = Some np"
    "u32_try_from (length cs) = Some nc"
    and d: "cp_environment d = E'" "cp_external_constant_links d = []" "cp_items d = []" "cp_next_register d = n" "cp_next_label d = 0"
    "cp_parameter_count d = np" "cp_capture_count d = nc"
    by (auto simp: nested_compiler_def result_simps split: if_splits)
  note unat = E(3-5)[THEN u32_try_from_unat]
  have flow: "flow_of d = flow_start (length ps + length cs)"
    using unat d by (simp add: flow_of_def flow_items_def)
  then have "consistent d" using d unat by (simp add: consistent_def flow_start_def)
  moreover have "pending d = {}" by (simp add: pending_def flow flow_start_def)
  moreover have "usable d = {r. unat r < length ps + length cs}"
    using d unat by (auto simp: usable_def flow flow_start_def word_less_nat_alt)
  ultimately show ?thesis
    using capture_environment_ran[OF E(2)] parameter_environment_ran[OF E(1)] d(1)
    by (auto intro!: reached_start)
qed

lemma run_nested_ok:
  assumes "sound_tail m" and "nested_compiler c name ps cs ul df = Inr d" and "run_nested m d = Inr f"
  shows "lir_ok f \<and> lir_flows f"
proof -
  note start = nested_compiler_start[OF assms(2)]
  from assms(3) obtain d' where run: "m d = (Inr (), d')" and f: "f = finish_lir d'"
    by (auto simp: run_nested_def split: prod.splits sum.splits)
  from assms(1) start run have "reached d {} (cp_environment d) (usable d \<union> {}) {} d'" "ends_code (cp_items d')"
    using tripleD[OF sound_tailD[OF assms(1)], of _ _ d "{}" "{}" d] by blast+
  with start f finish_lir_ok[of d'] show ?thesis by (auto simp: reached_def grows_def)
qed

lemma sound_capture: "sound_value (capture_register l name)"
proof (rule sound_valueI)
  fix c0 L S T and E :: "string \<rightharpoonup> register_id" assume E: "ran E \<subseteq> S"
  show "triple (reached c0 L E S T) (capture_register l name) (\<lambda>r. reached c0 L E (insert r S) T)"
  proof (rule tripleI)
    fix c r c' assume c: "reached c0 L E S T c" and run: "capture_register l name c = (Inr r, c')"
    from run c obtain q where q: "E name = Some q"
      by (auto simp: capture_register_def result_simps fail_plain_def reached_def split: option.splits)
    then have "q \<in> S" using E by (auto simp: ran_def)
    then have "computes S (\<lambda>v. L_ReadUpLink v q)" by (auto simp: computes_def)
    from tripleD[OF triple_emit_value[OF this order_refl] c] run q c \<open>q \<in> S\<close>
    show "reached c0 L E (insert r S) T c'"
      by (auto simp: capture_register_def result_simps reached_def insert_absorb split: if_splits)
  qed
qed

lemma sound_closure:
  assumes "sound_tail m"
  shows "sound_value (compile_closure m ps body l)"
proof (rule sound_valueI)
  fix c0 L S T and E :: "string \<rightharpoonup> register_id" assume E: "ran E \<subseteq> S"
  have last: "triple (reached c0 L E (S \<union> set rs) T)
      (ebind (elift (run_nested m d)) (\<lambda>f. emit_to (\<lambda>dst. L_MakeClosure dst f rs) l))
      (\<lambda>r. reached c0 L E (insert r S) T)"
    if "nested_compiler c name ps cs ul df = Inr d" for c name cs ul df d rs
  proof (rule tripleI)
    fix c r c' assume c: "reached c0 L E (S \<union> set rs) T c"
      and run: "ebind (elift (run_nested m d)) (\<lambda>f. emit_to (\<lambda>dst. L_MakeClosure dst f rs) l) c = (Inr r, c')"
    from run obtain f where f: "run_nested m d = Inr f"
      "emit_to (\<lambda>dst. L_MakeClosure dst f rs) l c = (Inr r, c')"
      by (auto simp: result_simps)
    from run_nested_ok[OF assms that f(1)]
    have "computes (S \<union> set rs) (\<lambda>dst. L_MakeClosure dst f rs)" by (auto simp: computes_def)
    from tripleD[OF triple_emit_value[OF this Un_upper1] c f(2)] show "reached c0 L E (insert r S) T c'" .
  qed
  show "triple (reached c0 L E S T) (compile_closure m ps body l) (\<lambda>r. reached c0 L E (insert r S) T)"
    unfolding compile_closure_def Let_def
    apply (rule triple_if)
    subgoal by simp
    apply (rule triple_bind[OF triple_collect[OF sound_capture E]])
    unfolding split_beta
    apply (rule triple_get)+
    apply (rule triple_bind[OF triple_emodify])
     subgoal by (simp add: same_code_def)
    subgoal for rs x name u
      by (rule tripleI) (auto simp: result_simps fail_plain_def split: sum.splits dest!: tripleD[OF last])
    done
qed

end
