(* ===== verification/Compiler_Sound.thy ===== *)
theory Compiler_Sound
  imports Compiler_Correct
begin

text \<open>
  The methods of the compiler that have code of their own inside them (blocks, \<open>if\<close>, \<open>match\<close>), the
  recursion over expressions, and what follows for compiled functions.
\<close>

declare ebind_eret [simp]

section \<open>Blocks\<close>

lemma scoped_fail_if:
  "triple (scoped c0 L S T) (fail_if p l message) (\<lambda>_. scoped c0 L S T)"
  unfolding fail_if_def by (rule triple_get) (auto intro: triple_eret)

lemma scoped_check_natives:
  "triple (scoped c0 L S T) (check_natives bindings) (\<lambda>_. scoped c0 L S T)"
  unfolding check_natives_def Let_def
  by (rule triple_efold) (auto intro!: triple_if triple_eret triple_bind[OF scoped_fail_if])

lemma scoped_check_conflicts:
  "triple (scoped c0 L S T) (check_native_conflicts natives bindings) (\<lambda>_. scoped c0 L S T)"
  "triple (scoped c0 L S T) (check_declared_conflicts declared bindings) (\<lambda>_. scoped c0 L S T)"
  unfolding check_native_conflicts_def check_declared_conflicts_def Let_def
  by (rule triple_eiter; auto intro!: triple_if triple_eret)+

lemma scoped_check_counts:
  "triple (scoped c0 L S T) (check_definition_counts l bindings) (\<lambda>_. scoped c0 L S T)"
  unfolding check_definition_counts_def iterated_def Let_def
  by (rule triple_get) (auto intro: triple_eret split: option.split)

lemma scoped_keep:
  "triple (scoped c0 L S' T') m (\<lambda>_. scoped c0 L S'' T'') \<Longrightarrow> S' \<subseteq> S'' \<Longrightarrow> T' \<subseteq> T'' \<Longrightarrow>
   triple (scoped c0 L S' T') m (\<lambda>_. scoped c0 L S' T')"
  by (erule triple_weaken) (auto elim: scoped_weaken)

lemma scoped_make_link:
  "triple (scoped c0 L S T) (make_link name l) (\<lambda>r. scoped c0 L (insert r S) T)"
  unfolding make_link_def
proof (rule triple_bind[OF scoped_emit_to], goal_cases)
  case (2 r)
  show ?case
    by (rule triple_bind[OF scoped_bind_name], simp, rule triple_bind[OF scoped_emodify])
       (auto simp: same_code_def intro!: triple_eret elim: scoped_weaken)
qed (auto simp: computes_def)

definition link_registers :: "(string \<times> register_id \<times> 'l) list \<Rightarrow> register_id set" where
  "link_registers links = (fst \<circ> snd) ` set links"

lemma link_registers_simps [simp]:
  "link_registers [] = {}" "link_registers (links @ [(name, r, x)]) = insert r (link_registers links)"
  by (auto simp: link_registers_def)

lemma map_of_link: "map_of links name = Some (r, x) \<Longrightarrow> link_registers links \<subseteq> S \<Longrightarrow> r \<in> S"
  by (force simp: link_registers_def dest: map_of_SomeD)

lemma scoped_declare_links:
  "triple (scoped c0 L S T) (declare_links outer bindings)
     (\<lambda>declared. scoped c0 L (S \<union> link_registers declared) T)"
  unfolding declare_links_def Let_def
proof (rule triple_weaken[OF triple_efold[where I = "\<lambda>declared. scoped c0 L (S \<union> link_registers declared) T"]],
    goal_cases)
  case (1 b declared)
  show ?case
    by (intro triple_if triple_fail triple_bind[OF scoped_make_link] triple_bind[OF scoped_emodify])
       (auto simp: same_code_def intro!: triple_eret)
qed auto

lemma scoped_link_types:
  "triple (scoped c0 L S T) (link_types bindings) (\<lambda>links. scoped c0 L (S \<union> link_registers links) T)"
  unfolding link_types_def Let_def
proof (rule triple_weaken[OF triple_efold[where I = "\<lambda>links. scoped c0 L (S \<union> link_registers links) T"]],
    goal_cases)
  case (1 b links)
  show ?case
    by (intro triple_get triple_if triple_eret triple_bind[OF scoped_fail_if]
          triple_bind[OF scoped_make_link]) (auto elim: scoped_weaken)
qed auto

text \<open>A link that is read by an operation without a result.\<close>

lemma scoped_plain:
  assumes "set (op_reads operation) \<subseteq> unat ` S" and "op_writes operation = []" and "\<not> op_ends operation"
    and "set (operation_registers operation) \<subseteq> unat ` S" and "operation_labels operation = []"
    and "operation_constants operation = []" and "set_operation operation = {}"
  shows "triple (scoped c0 L S T) (emit operation l) (\<lambda>_. scoped c0 L S T)"
  using scoped_push[OF assms(1,2,4-7), of c0 L T] assms(3) by (simp add: emit_def)

lemma scoped_external:
  "triple (scoped c0 L S T) (ebind (load_external_constant v key l) (bind_name name)) (\<lambda>_. scoped c0 L S T)"
proof (rule triple_bind[OF scoped_load_external])
  fix r
  show "triple (scoped c0 L (insert r S) (insert r T)) (bind_name name r) (\<lambda>_. scoped c0 L S T)"
    by (rule triple_weaken[OF scoped_bind_name[where S = "insert r S"]]) (auto elim: scoped_weaken)
qed

lemma scoped_definition:
  assumes "sound_value (ce (binding_value b))" and "link_registers declared \<subseteq> S"
  shows "triple (scoped c0 L S T) (compile_definition ce declared b) (\<lambda>_. scoped c0 L S T)"
  unfolding compile_definition_def Let_def
proof (rule triple_bind[OF scoped_fail_if], rule triple_bind[OF scoped_value[OF assms(1)]])
  fix v
  show "triple (scoped c0 L (insert v S) T)
     (case if binding_kind_of b = BK_Def then map_of declared (binding_name b) else None of
        None \<Rightarrow> ebind (bind_name (binding_name b) v) (\<lambda>_.
          ebind (emodify (\<lambda>c. c\<lparr> cp_up_link_bindings := cp_up_link_bindings c - {binding_name b} \<rparr>)) (\<lambda>_.
          emodify (\<lambda>c. c\<lparr> cp_definition_bindings :=
            (if binding_kind_of b = BK_Def then insert (binding_name b) (cp_definition_bindings c)
             else cp_definition_bindings c - {binding_name b}) \<rparr>)))
      | Some (link, _, arity) \<Rightarrow>
          ebind (case arity of None \<Rightarrow> eret ()
            | Some arity \<Rightarrow> emit (L_AssertFunctionArity v arity) (located_at b)) (\<lambda>_.
          ebind (emit (L_InitializeUpLink link v) (located_at b)) (\<lambda>_.
          emodify (\<lambda>c. c\<lparr> cp_ready_up_link_bindings := insert (binding_name b) (cp_ready_up_link_bindings c) \<rparr>))))
     (\<lambda>_. scoped c0 L S T)"
  proof (cases "if binding_kind_of b = BK_Def then map_of declared (binding_name b) else None")
    case None
    show ?thesis
      unfolding None option.case
      by (rule triple_weaken[OF triple_bind[OF scoped_bind_name[where S = "insert v S"]
            triple_bind[OF scoped_emodify scoped_emodify]]]) (auto simp: same_code_def elim: scoped_weaken)
  next
    case (Some entry)
    obtain link place arity where entry: "entry = (link, place, arity)" by (cases entry)
    with Some have link: "link \<in> S" using map_of_link[OF _ assms(2)] by (auto split: if_splits)
    show ?thesis
      unfolding Some entry option.case prod.case
    proof (rule triple_bind[where R = "\<lambda>_. scoped c0 L (insert v S) T"], goal_cases)
      case 1
      show ?case by (cases arity) (auto intro!: triple_eret scoped_plain)
    next
      case (2 u)
      show ?case
        by (rule triple_weaken[OF triple_bind[OF scoped_plain[where S = "insert v S"] scoped_emodify]])
           (use link in \<open>auto simp: same_code_def elim: scoped_weaken\<close>)
    qed
  qed
qed

lemma scoped_type:
  assumes "sound_value (ce (binding_value b))" and "link_registers links \<subseteq> S"
  shows "triple (scoped c0 L S T) (compile_type ce links b) (\<lambda>_. scoped c0 L S T)"
  unfolding compile_type_def Let_def split_beta
proof (rule triple_get, intro triple_if, goal_cases)
  case (3 x)
  show ?case
  proof (rule triple_bind[OF scoped_emodify], simp add: same_code_def,
      rule triple_bind[OF scoped_value[where T = T, OF assms(1)]],
      rule triple_bind[OF scoped_emodify], simp add: same_code_def, goal_cases)
    case (1 u r v)
    show ?case
    proof (cases "map_of links (binding_name b)")
      case (Some entry)
      obtain link place where entry: "entry = (link, place)" by (cases entry)
      with Some have "link \<in> S" using map_of_link[OF _ assms(2)] by auto
      then show ?thesis
        unfolding Some entry option.case prod.case
        by (intro triple_weaken[OF scoped_plain[where S = "insert r S"]]) (auto elim: scoped_weaken)
    qed simp
  qed
qed (auto intro: triple_eret scoped_external)

lemma scoped_binding:
  assumes "sound_value (ce (binding_value b))" and "link_registers declared \<union> link_registers links \<subseteq> S"
  shows "triple (scoped c0 L S T) (compile_binding ce declared links b) (\<lambda>_. scoped c0 L S T)"
proof -
  have "triple (scoped c0 L S T) (compile_external b) (\<lambda>_. scoped c0 L S T)"
    unfolding compile_external_def Let_def
    by (rule triple_get) (auto split: option.split intro: scoped_external)
  then show ?thesis
    using assms
    by (auto simp: compile_binding_def split: binding_kind.split
        intro: triple_eret scoped_type scoped_definition)
qed

lemma scoped_assert_ready:
  assumes "link_registers links \<subseteq> S"
  shows "triple (scoped c0 L S T) (assert_ready links) (\<lambda>_. scoped c0 L S T)"
  unfolding assert_ready_def iterated_def
proof (rule triple_get, rule triple_eiter)
  fix name
  show "triple (scoped c0 L S T) (case map_of links name of None \<Rightarrow> eret ()
      | Some (link, location) \<Rightarrow> emit (L_AssertUpLinkReady link) location) (\<lambda>_. scoped c0 L S T)"
    using map_of_link[OF _ assms, of name]
    by (auto split: option.split intro!: triple_eret scoped_plain)
qed

lemma restore_reached:
  assumes "cp_environment outer = E"
  shows "triple (scoped c0 L S T) (restore_scope outer) (\<lambda>_. reached c0 L E S T)"
    and "triple (\<lambda>c. scoped c0 L S T c \<and> ends_code (cp_items c)) (restore_scope outer)
      (\<lambda>_ c. reached c0 L E S T c \<and> ends_code (cp_items c))"
proof -
  have "reached c0 L E S T d" if "scoped c0 L S T c" "restore_scope outer c = (Inr u, d)" for c u d
  proof -
    from that(2) have d: "same_code c d" "cp_environment d = E"
      using assms by (auto simp: restore_scope_def result_simps same_code_def)
    from that(1) obtain S' T' where "reached c0 L (cp_environment c) S' T' c" "S \<subseteq> S'" "T \<subseteq> T'"
      by (auto simp: scoped_def)
    from same_code_reached[OF d(1) this(1)] this(2,3) d(2) show ?thesis by (auto elim: reached_weaken)
  qed
  then show "triple (scoped c0 L S T) (restore_scope outer) (\<lambda>_. reached c0 L E S T)"
    and "triple (\<lambda>c. scoped c0 L S T c \<and> ends_code (cp_items c)) (restore_scope outer)
      (\<lambda>_ c. reached c0 L E S T c \<and> ends_code (cp_items c))"
    by (auto intro!: tripleI) (auto simp: restore_scope_def result_simps)
qed

lemma sound_block_inner:
  assumes "\<And>e. e \<in> block_exprs b \<Longrightarrow> sound_value (ce e)" and "\<And>e. e \<in> block_exprs b \<Longrightarrow> sound_tail (ct e)"
    and E: "ran E \<subseteq> S"
  shows "triple (reached c0 L E S T) (compile_block_inner ce ct b False)
      (\<lambda>r c. case r of None \<Rightarrow> True | Some r \<Rightarrow> reached c0 L E (insert r S) T c)"
    and "triple (reached c0 L E S T) (compile_block_inner ce ct b True)
      (\<lambda>_ c. reached c0 L E (S \<union> T) T c \<and> ends_code (cp_items c))"
proof -
  have run: "triple (reached c0 L E S T) (compile_block_inner ce ct b tail) Q"
    if result: "\<And>outer. cp_environment outer = E \<Longrightarrow> triple (scoped c0 L S T)
      (ebind (if tail then ebind (ct (block_result b)) (\<lambda>_. eret None)
            else ebind (ce (block_result b)) (\<lambda>r. eret (Some r))) (\<lambda>r.
       ebind (restore_scope outer) (\<lambda>_. eret r))) Q" for tail Q
  proof (rule tripleI)
    fix c x c' assume c: "reached c0 L E S T c" and m: "compile_block_inner ce ct b tail c = (Inr x, c')"
    from c have env: "cp_environment c = E" by (simp add: reached_def)
    have rest: "triple (scoped c0 L S T)
      (let bindings = block_bindings b in
     ebind (check_natives bindings) (\<lambda>natives.
     ebind (check_native_conflicts natives bindings) (\<lambda>_.
     ebind (declare_links (cp_environment c) bindings) (\<lambda>declared.
     ebind (link_types bindings) (\<lambda>type_links.
     ebind (check_definition_counts (located_at b) bindings) (\<lambda>_.
     ebind (check_declared_conflicts declared bindings) (\<lambda>_.
     ebind (eiter (compile_binding ce declared type_links) bindings) (\<lambda>_.
     ebind (assert_ready (map (\<lambda>(name, link, location, _). (name, link, location)) declared)) (\<lambda>_.
     ebind (assert_ready type_links) (\<lambda>_.
     ebind (if tail then ebind (ct (block_result b)) (\<lambda>_. eret None)
            else ebind (ce (block_result b)) (\<lambda>r. eret (Some r))) (\<lambda>r.
     ebind (restore_scope c) (\<lambda>_.
     eret r)))))))))))) Q"
      unfolding Let_def
    proof (rule triple_bind[OF scoped_check_natives], rule triple_bind[OF scoped_check_conflicts(1)],
        rule triple_bind[OF scoped_declare_links], rule triple_bind[OF scoped_link_types],
        rule triple_bind[OF scoped_check_counts], rule triple_bind[OF scoped_check_conflicts(2)])
      fix natives u v w and declared :: declarations and links :: "(string \<times> register_id \<times> loc) list"
      let ?S = "S \<union> link_registers declared \<union> link_registers links"
      have "link_registers (map (\<lambda>(name, link, location, _). (name, link, location)) declared) \<subseteq> ?S"
        by (force simp: link_registers_def)
      then show "triple (scoped c0 L ?S T)
        (ebind (eiter (compile_binding ce declared links) (block_bindings b)) (\<lambda>_.
         ebind (assert_ready (map (\<lambda>(name, link, location, _). (name, link, location)) declared)) (\<lambda>_.
         ebind (assert_ready links) (\<lambda>_.
         ebind (if tail then ebind (ct (block_result b)) (\<lambda>_. eret None)
            else ebind (ce (block_result b)) (\<lambda>r. eret (Some r))) (\<lambda>r.
         ebind (restore_scope c) (\<lambda>_. eret r)))))) Q"
        by (intro triple_bind[OF triple_eiter[OF scoped_binding]] triple_bind[OF scoped_assert_ready]
              triple_weaken[OF result[OF env]])
           (auto intro: assms(1) elim: scoped_weaken)
    qed
    from c E have "scoped c0 L S T c" by (auto intro: scopedI)
    from tripleD[OF rest this, of x c'] m show "Q x c'"
      by (simp add: compile_block_inner_def result_simps)
  qed
  show "triple (reached c0 L E S T) (compile_block_inner ce ct b False)
      (\<lambda>r c. case r of None \<Rightarrow> True | Some r \<Rightarrow> reached c0 L E (insert r S) T c)"
  proof (rule run)
    fix outer :: compiler assume outer: "cp_environment outer = E"
    have val: "sound_value (ce (block_result b))" by (rule assms(1)) simp
    show "triple (scoped c0 L S T)
      (ebind (if False then ebind (ct (block_result b)) (\<lambda>_. eret None)
            else ebind (ce (block_result b)) (\<lambda>r. eret (Some r))) (\<lambda>r.
       ebind (restore_scope outer) (\<lambda>_. eret r)))
      (\<lambda>r c. case r of None \<Rightarrow> True | Some r \<Rightarrow> reached c0 L E (insert r S) T c)"
      by (simp add: ebind_assoc, rule triple_bind[OF scoped_value[OF val]])
         (auto intro!: triple_bind[OF restore_reached(1)[OF outer]] triple_eret)
  qed
  show "triple (reached c0 L E S T) (compile_block_inner ce ct b True)
      (\<lambda>_ c. reached c0 L E (S \<union> T) T c \<and> ends_code (cp_items c))"
  proof (rule run)
    fix outer :: compiler assume outer: "cp_environment outer = E"
    have tail: "sound_tail (ct (block_result b))" by (rule assms(2)) simp
    have "triple (scoped c0 L S T) (ct (block_result b))
        (\<lambda>_ c. scoped c0 L (S \<union> T) T c \<and> ends_code (cp_items c))"
      by (rule triple_scoped, rule triple_weaken[OF sound_tailD[OF tail]]) (auto intro: scopedI)
    then show "triple (scoped c0 L S T)
      (ebind (if True then ebind (ct (block_result b)) (\<lambda>_. eret None)
            else ebind (ce (block_result b)) (\<lambda>r. eret (Some r))) (\<lambda>r.
       ebind (restore_scope outer) (\<lambda>_. eret r)))
      (\<lambda>_ c. reached c0 L E (S \<union> T) T c \<and> ends_code (cp_items c))"
      by (simp add: ebind_assoc, elim triple_bind)
         (auto intro!: triple_bind[OF restore_reached(2)[OF outer]] triple_eret)
  qed
qed

lemma sound_block:
  assumes "\<And>e. e \<in> block_exprs b \<Longrightarrow> sound_value (ce e)" and "\<And>e. e \<in> block_exprs b \<Longrightarrow> sound_tail (ct e)"
  shows "sound_value (compile_block ce ct b)" and "sound_tail (compile_tail_block ce ct b)"
proof -
  note inner = sound_block_inner[of b ce ct, OF assms]
  show "sound_value (compile_block ce ct b)"
    unfolding compile_block_def
    by (rule sound_valueI, rule triple_bind[OF inner(1)])
       (auto intro: triple_eret split: option.split)
  show "sound_tail (compile_tail_block ce ct b)"
    unfolding compile_tail_block_def sound_tail_def
    by (intro allI impI, rule triple_bind[OF inner(2)]) (auto intro: triple_eret)
qed

section \<open>Branches\<close>

lemma reached_label_weaken:
  assumes "reached c0 (insert (l, X) L) E S T c" and "l \<notin> fst ` L" and "X' \<subseteq> X"
  shows "reached c0 (insert (l, X') L) E S T c"
proof -
  have "inj_on fst (insert (l, X') L)" if "inj_on fst (insert (l, X) L)"
    using that assms(2) by (auto simp: inj_on_def)
  moreover have "unat ` X' \<subseteq> Y" if "unat ` X \<subseteq> Y" for Y :: "nat set"
    using that assms(3) by blast
  ultimately show ?thesis using assms(1) by (simp add: reached_def grows_def)
qed

text \<open>A move into a register that was allocated before.\<close>

lemma triple_move:
  assumes "v \<in> S" and "r \<in> T"
  shows "triple (reached c0 L E S T) (emit_synthetic (L_Move r v) l) (\<lambda>_. reached c0 L E (insert r S) T)"
  unfolding emit_synthetic_def
  by (rule triple_weaken[OF triple_operation]) (use assms in \<open>auto elim!: reached_weaken\<close>)

lemma sound_if:
  assumes "sound_value (ce condition)" and "sound_value (compile_block ce ct t)" and "sound_value (compile_block ce ct e)"
  shows "sound_value (compile_if ce ct condition t e l)"
  unfolding compile_if_def
proof (rule sound_valueI, rule triple_bind[OF sound_valueD[OF assms(1)]], assumption, rule triple_branch, simp,
    goal_cases)
  case (1 c0 L E S T r l1)
  let ?S = "insert r S"
  from 1(1) have E: "ran E \<subseteq> ?S" by auto
  show ?case
  proof (rule triple_bind[OF sound_valueD[OF assms(2) E]], rule triple_bind[OF triple_allocate],
      rule triple_bind[OF triple_move], simp, simp, rule triple_jump, goal_cases)
    case (1 v res u l2)
    let ?X = "insert res (insert v ?S)"
    from 1 \<open>l1 \<notin> fst ` L\<close> have fresh: "l1 \<notin> fst ` insert (l2, ?X) L" "l2 \<notin> fst ` L" by auto
    show ?case
    proof (subst insert_commute, rule triple_bind[OF triple_mark[OF fresh(1), where S' = ?S]], blast, blast,
        rule triple_bind[OF sound_valueD[OF assms(3) E]], rule triple_bind[OF triple_move], simp, simp)
      fix u w u'
      show "triple (reached c0 (insert (l2, ?X) L) E (insert res (insert w ?S)) (insert res T))
          (ebind (mark_label l2) (\<lambda>_. eret res)) (\<lambda>r. reached c0 L E (insert r S) T)"
        by (rule triple_bind[OF triple_mark[OF fresh(2), where S' = "insert res S"]])
           (auto intro!: triple_eret elim: reached_weaken)
    qed
  qed
qed

lemma sound_tail_if:
  assumes "sound_value (ce condition)" and "sound_tail (compile_tail_block ce ct t)" and "sound_tail (compile_tail_block ce ct e)"
  shows "sound_tail (compile_tail_if ce ct condition t e)"
  unfolding compile_tail_if_def sound_tail_def
proof (intro allI impI, rule triple_bind[OF sound_valueD[OF assms(1)]], assumption, rule triple_branch, simp,
    goal_cases)
  case (1 c0 L E S T r l1)
  let ?S = "insert r S"
  from 1(1) have E: "ran E \<subseteq> ?S" by auto
  have thn: "triple (reached c0 (insert (l1, ?S) L) E ?S T) (compile_tail_block ce ct t)
      (\<lambda>_. reached c0 (insert (l1, ?S) L) E (?S \<union> T) T)"
    by (rule triple_weaken[OF sound_tailD[OF assms(2) E]]) auto
  show ?case
    by (rule triple_bind[OF thn], rule triple_bind[OF triple_mark[OF 1(2), where S' = ?S]], blast, blast,
        rule triple_weaken[OF sound_tailD[OF assms(3) E]]) (auto elim: reached_weaken)
qed

section \<open>Match\<close>

lemma matching_value:
  "sound_value m \<Longrightarrow> triple (matching c0 S T acc) m (\<lambda>r. matching c0 (insert r S) T acc)"
  by (rule matching_lift, rule scoped_value)

text \<open>The test of an arm fails to labels at which what was known before the arm is known.\<close>

lemma arm_test_matching:
  assumes "v \<in> S" and "\<And>e. arm_guard arm = Some e \<Longrightarrow> sound_value (ce e)"
  shows "triple (matching c0 S T ([], {} :: string set)) (compile_arm_test ce arm v)
    (\<lambda>fs. matching c0 S T (fs, {} :: string set))"
  unfolding compile_arm_test_def
proof (rule triple_bind[OF compile_pattern_matching[OF assms(1)]], clarify)
  fix fs ns
  show "triple (matching c0 S T (fs, ns)) (case arm_guard arm of None \<Rightarrow> eret fs
      | Some guard \<Rightarrow> ebind (ce guard) (\<lambda>condition. jump_if_false condition (expr_location guard) fs))
     (\<lambda>fs. matching c0 S T (fs, {}))"
  proof (cases "arm_guard arm")
    case None
    then show ?thesis by (auto intro!: triple_eret elim: matching_names)
  next
    case (Some guard)
    have "triple (matching c0 S T (fs, ns))
        (ebind (ce guard) (\<lambda>condition. jump_if_false condition (expr_location guard) fs))
        (\<lambda>fs. matching c0 S T (fs, {}))"
    proof (rule triple_bind[OF matching_value[OF assms(2)[OF Some]]])
      fix r
      show "triple (matching c0 (insert r S) T (fs, ns)) (jump_if_false r (expr_location guard) fs)
          (\<lambda>fs. matching c0 S T (fs, {}))"
        by (rule triple_weaken[OF matching_branch[where S = "insert r S"]])
           (auto intro: matching_names elim: matching_weaken)
    qed
    with Some show ?thesis by simp
  qed
qed

lemma with_environment_reached:
  assumes "triple (reached c0 L E S T) m (\<lambda>x c. R x (c\<lparr> cp_environment := E \<rparr>))"
  shows "triple (reached c0 L E S T) (with_environment m) R"
  using assms by (fastforce simp: with_environment_def triple_def result_simps reached_def)

lemma reached_environment:
  "reached c0 L E S T c \<Longrightarrow> reached c0 L E' S T (c\<lparr> cp_environment := E' \<rparr>)"
  using same_code_reached[of c "c\<lparr> cp_environment := E' \<rparr>"] by (simp add: same_code_def)

lemma matching_start:
  "reached c0 L E S T c \<Longrightarrow> ran E \<subseteq> S \<Longrightarrow> matching c S T ([], {}) c"
  using reached_consistent[of c0 L E S T c]
  by (auto simp: matching_def reached_def intro!: scopedI[OF reached_start[where S = S and T = T]])

lemma triple_matching:
  assumes "\<And>E S' T'. S \<subseteq> S' \<Longrightarrow> T \<subseteq> T' \<Longrightarrow> ran E \<subseteq> S' \<Longrightarrow> distinct (fst acc) \<Longrightarrow>
    triple (reached c0 (labelled {} (fst acc)) E S' T') m Q"
  shows "triple (matching c0 S T acc) m Q"
  unfolding matching_def
  by (rule tripleI) (auto simp: scoped_def dest: tripleD[OF assms])

text \<open>An arm that takes the value goes on at the end, with the result written.\<close>

lemma match_arm:
  assumes E: "ran E \<subseteq> S" and v: "v \<in> S" and res: "res \<in> T"
    and guard: "\<And>e. arm_guard arm = Some e \<Longrightarrow> sound_value (ce e)" and val: "sound_value (ce (arm_value arm))"
  shows "triple (reached c0 L E S T)
    (with_environment (
         ebind (compile_arm_test ce arm v) (\<lambda>failures.
         ebind (ce (arm_value arm)) (\<lambda>r.
         ebind (emit_synthetic (L_Move res r) (located_at arm)) (\<lambda>_.
         ebind new_label (\<lambda>end_label.
         ebind (emit_synthetic (L_Jump end_label) (located_at arm)) (\<lambda>_.
         ebind (eiter mark_label failures) (\<lambda>_.
         eret (end_jumps @ [end_label])))))))))
    (\<lambda>ends c. \<exists>l. ends = end_jumps @ [l] \<and> l \<notin> fst ` L \<and> reached c0 (insert (l, {res}) L) E S T c)"
    (is "triple _ (with_environment ?m) ?Q")
proof (rule with_environment_reached, rule tripleI)
  fix c x d assume c: "reached c0 L E S T c" and run: "?m c = (Inr x, d)"
  from c have S: "S \<subseteq> usable c" by (simp add: reached_def)
  have arm: "triple (matching c S T ([], {} :: string set)) ?m
      (\<lambda>ends d. \<exists>l. ends = end_jumps @ [l] \<and> reached c {(l, {res})} E S T (d\<lparr> cp_environment := E \<rparr>))"
  proof (rule triple_bind[OF arm_test_matching], rule v, rule guard, assumption,
      rule triple_bind[OF matching_value[OF val]], rule triple_matching, unfold fst_conv,
      rule triple_bind[OF triple_move], goal_cases)
    case (3 fs r E' S' T' u)
    show ?case
    proof (rule triple_jump, goal_cases)
      case (1 l)
      let ?X = "insert res S'"
      have marks: "triple (reached c (insert (l, ?X) (labelled {} fs)) E' (?X \<union> T') T') (eiter mark_label fs)
          (\<lambda>_. reached c {(l, ?X)} E' S T')"
        using triple_marks[of fs "{(l, ?X)}" S "?X \<union> T'" "{}" c E' T'] 1 3 S
        by (simp add: Un_commute insert_commute) blast
      have "reached c {(l, {res})} E S T (d\<lparr> cp_environment := E \<rparr>)" if "reached c {(l, ?X)} E' S T' d" for d
        using reached_environment[OF reached_weaken[OF reached_label_weaken[of c l ?X "{}" E' S T' d "{res}"]]] that 3(2)
        by auto
      then show ?case by - (rule triple_bind[OF marks], auto intro!: triple_eret)
    qed
  qed (use res in auto)
  from tripleD[OF arm matching_start[OF c E] run] obtain l where
    l: "x = end_jumps @ [l]" "reached c {(l, {res})} E S T (d\<lparr> cp_environment := E \<rparr>)" by blast
  from l(2) have "cp_next_label c \<le> l" by (simp add: reached_def grows_def)
  moreover have "k < cp_next_label c" if "k \<in> fst ` L" for k
    using that c pending_below[OF reached_consistent[OF c], of k] by (auto simp: reached_def grows_def)
  ultimately have "l \<notin> fst ` L" by (meson leD)
  with l reached_trans[OF c l(2)] show "?Q x (d\<lparr> cp_environment := E \<rparr>)" by auto
qed

lemma sound_match:
  assumes "sound_value (ce scrutinee)"
    and "\<And>arm e. arm \<in> set arms \<Longrightarrow> e = arm_value arm \<or> arm_guard arm = Some e \<Longrightarrow> sound_value (ce e)"
  shows "sound_value (compile_match ce scrutinee arms l)"
  unfolding compile_match_def
proof (rule sound_valueI, rule triple_bind[OF sound_valueD[OF assms(1)]], assumption,
    rule triple_bind[OF triple_allocate], goal_cases)
  case (1 c0 L E S T v res)
  let ?S = "insert v S" and ?T = "insert res T"
  from 1 have E: "ran E \<subseteq> ?S" by auto
  define I where "I base ends c \<longleftrightarrow> distinct ends \<and> reached base (labelled {res} ends) E ?S ?T c"
    for base ends c
  show ?case
  proof (rule triple_weaken[OF triple_rebase[where L = L and E = E and S = ?S and T = ?T and ?c0.0 = c0 and
        K = "\<lambda>_. {}" and E' = "\<lambda>_. E" and
        S' = "\<lambda>r. insert r ?S" and T' = "\<lambda>_. T"]], goal_cases)
    case (1 base)
    then have usable: "?S \<subseteq> usable base" by (simp add: reached_def)
    show ?case
    proof (rule triple_weaken[where P = "I base []" and Q = "\<lambda>r. reached base {} E (insert r ?S) T"],
        rule triple_bind[OF triple_efold[where I = "I base"]], goal_cases)
      case (1 arm ends)
      show ?case
        unfolding I_def
      proof (rule tripleI, elim conjE, goal_cases)
        case (1 c x c')
        from tripleD[OF match_arm[OF E _ _ assms(2)[OF \<open>arm \<in> set arms\<close>] assms(2)[OF \<open>arm \<in> set arms\<close>]] 1(3) 1(1)]
        show ?case using 1(2) by (auto simp: insert_commute Un_commute)
      qed
    next
      case (3 c)
      then show ?case
        using reached_start[of base ?S ?T] \<open>reached c0 L E ?S ?T base\<close> usable
        by (auto simp: I_def reached_def grows_def)
    next
      case (2 ends)
      show ?case
        unfolding I_def
      proof (rule tripleI, elim conjE, goal_cases)
        case (1 c x c')
        have "triple (reached base (labelled {res} ends) E ?S ?T)
           (ebind (emit (L_Fail no_arm) l) (\<lambda>_. ebind (eiter mark_label ends) (\<lambda>_. eret res)))
           (\<lambda>r. reached base {} E (insert r ?S) T)"
        proof (rule triple_bind[where R = "\<lambda>_. reached base (labelled {res} ends \<union> {}) E (?S \<union> ?T) ?T"])
          show "triple (reached base (labelled {res} ends) E ?S ?T) (emit (L_Fail no_arm) l)
              (\<lambda>_. reached base (labelled {res} ends \<union> {}) E (?S \<union> ?T) ?T)"
            unfolding emit_def by (rule triple_weaken[OF triple_push_plain]) auto
          show "triple (reached base (labelled {res} ends \<union> {}) E (?S \<union> ?T) ?T)
             (ebind (eiter mark_label ends) (\<lambda>_. eret res)) (\<lambda>r. reached base {} E (insert r ?S) T)"
            by (rule triple_bind[OF triple_marks[where S' = "insert res ?S"]])
               (use 1(2) usable in \<open>auto intro!: triple_eret elim: reached_weaken\<close>)
        qed
        from tripleD[OF this 1(3) 1(1)] show ?case .
      qed
    qed auto
  qed (auto elim: reached_weaken)
qed

text \<open>In tail position an arm ends the code itself.\<close>

lemma tail_match_arm:
  assumes E: "ran E \<subseteq> S" and v: "v \<in> S"
    and guard: "\<And>e. arm_guard arm = Some e \<Longrightarrow> sound_value (ce e)" and val: "sound_tail (ct (arm_value arm))"
  shows "triple (reached c0 L E S T)
    (with_environment (
         ebind (compile_arm_test ce arm v) (\<lambda>failures.
         ebind (ct (arm_value arm)) (\<lambda>_.
         eiter mark_label failures))))
    (\<lambda>_. reached c0 L E S T)"
    (is "triple _ (with_environment ?m) _")
proof (rule with_environment_reached, rule tripleI)
  fix c x d assume c: "reached c0 L E S T c" and run: "?m c = (Inr x, d)"
  from c have S: "S \<subseteq> usable c" by (simp add: reached_def)
  have arm: "triple (matching c S T ([], {} :: string set)) ?m
      (\<lambda>_ d. reached c {} E S T (d\<lparr> cp_environment := E \<rparr>))"
  proof (rule triple_bind[OF arm_test_matching], rule v, rule guard, assumption,
      rule triple_matching, unfold fst_conv, rule triple_bind[OF sound_tailD[OF val]], assumption, goal_cases)
    case (1 fs E' S' T' u)
    have "triple (reached c (labelled {} fs \<union> {}) E' (S' \<union> T') T') (eiter mark_label fs)
        (\<lambda>_. reached c {} E' S T')"
      by (rule triple_marks) (use 1 S in auto)
    then show ?case
      by (rule triple_weaken) (use 1(2) in \<open>auto intro: reached_weaken[OF reached_environment]\<close>)
  qed
  from reached_trans[OF c tripleD[OF arm matching_start[OF c E] run]]
  show "reached c0 L E S T (d\<lparr> cp_environment := E \<rparr>)" by simp
qed

lemma sound_tail_match:
  assumes "sound_value (ce scrutinee)"
    and "\<And>arm e. arm \<in> set arms \<Longrightarrow> arm_guard arm = Some e \<Longrightarrow> sound_value (ce e)"
    and "\<And>arm. arm \<in> set arms \<Longrightarrow> sound_tail (ct (arm_value arm))"
  shows "sound_tail (compile_tail_match ce ct scrutinee arms l)"
  unfolding compile_tail_match_def sound_tail_def
proof (intro allI impI, rule triple_bind[OF sound_valueD[OF assms(1)]], assumption, goal_cases)
  case (1 c0 L E S T v)
  from 1 have E: "ran E \<subseteq> insert v S" by auto
  show ?case
  proof (rule triple_bind[OF triple_eiter], rule tail_match_arm[where S = "insert v S"], goal_cases)
    case (5 u)
    have "triple (reached c0 L E (insert v S) T) (emit (L_Fail no_arm) l)
        (\<lambda>_. reached c0 L E (insert v S \<union> T) T)"
      unfolding emit_def by (rule triple_weaken[OF triple_push_plain]) auto
    then show ?case
      by (fastforce simp: triple_def emit_def push_item_def result_simps ends_code_def elim: reached_weaken)
  qed (use E assms(2,3) in auto)
qed

section \<open>Expressions\<close>

text \<open>A value that is handed to an operation that ends the code, or to one without a result.\<close>

lemma sound_push_end:
  assumes "sound_value m" and "\<And>r. op_reads (f r) = [unat r] \<and> op_writes (f r) = [] \<and> op_ends (f r) \<and>
      operation_registers (f r) = [unat r] \<and> operation_labels (f r) = [] \<and> operation_constants (f r) = [] \<and>
      set_operation (f r) = {}"
  shows "sound_value (ebind m (\<lambda>r. ebind (push_item (L_Operation (f r) origin)) (\<lambda>_. eret r)))"
    and "sound_tail (ebind m (\<lambda>r. push_item (L_Operation (f r) origin)))"
proof -
  have push: "triple (reached c0 L E (insert r S) T) (push_item (L_Operation (f r) origin))
      (\<lambda>_ c. reached c0 L E (insert r S \<union> T) T c \<and> ends_code (cp_items c))" for c0 L E r S T
  proof (rule tripleI)
    fix c x c' assume c: "reached c0 L E (insert r S) T c"
      and run: "push_item (L_Operation (f r) origin) c = (Inr x, c')"
    have "triple (reached c0 L E (insert r S) T) (push_item (L_Operation (f r) origin))
      (\<lambda>_. reached c0 L E (if op_ends (f r) then insert r S \<union> T else insert r S) T)"
      by (rule triple_push_plain) (use assms(2)[of r] in auto)
    from tripleD[OF this c run] run assms(2)[of r]
    show "reached c0 L E (insert r S \<union> T) T c' \<and> ends_code (cp_items c')"
      by (auto simp: push_item_def result_simps ends_code_def)
  qed
  show "sound_value (ebind m (\<lambda>r. ebind (push_item (L_Operation (f r) origin)) (\<lambda>_. eret r)))"
    by (rule sound_valueI, rule triple_bind[OF sound_valueD[OF assms(1)]], assumption,
        rule triple_bind[OF push]) (auto intro!: triple_eret elim: reached_weaken)
  show "sound_tail (ebind m (\<lambda>r. push_item (L_Operation (f r) origin)))"
    unfolding sound_tail_def
    by (intro allI impI, rule triple_bind[OF sound_valueD[OF assms(1)]], assumption,
        rule triple_weaken[OF push]) (auto elim: reached_weaken)
qed

lemma sound_return: "sound_value m \<Longrightarrow> sound_tail (ebind m (\<lambda>r. emit_synthetic (L_Return r) l))"
  unfolding emit_synthetic_def by (rule sound_push_end(2)) auto

lemma sound_call:
  assumes "\<And>e. e \<in> insert f (set es) \<Longrightarrow> sound_value (ce e)"
  shows "sound_value (ebind (compile_call_window ce f es l) (\<lambda>(base, n). ebind (emit (L_Call base n) l) (\<lambda>_. eret base)))"
    and "sound_tail (ebind (compile_call_window ce f es l) (\<lambda>(base, n). emit (L_TailCall base n) l))"
proof -
  have call: "triple (\<lambda>c. window_at c0 L E S T base (unat n) c) (emit operation l)
      (\<lambda>_ c. reached c0 L E (if op_ends operation then S \<union> T else insert base S) T c \<and>
        (op_ends operation \<longrightarrow> ends_code (cp_items c)))"
    if "operation \<in> {L_Call base n, L_TailCall base n}" for c0 L E S T base n operation
    using window_operation[OF _ that] by (auto simp: triple_def emit_def push_item_def result_simps ends_code_def)
  show "sound_value (ebind (compile_call_window ce f es l) (\<lambda>(base, n). ebind (emit (L_Call base n) l) (\<lambda>_. eret base)))"
  proof (rule sound_valueI, rule triple_bind[OF triple_call_window[OF assms]], assumption, assumption, clarify)
    fix c0 L S T base n and E :: "string \<rightharpoonup> register_id"
    show "triple (window_at c0 L E S T base (unat n)) (ebind (emit (L_Call base n) l) (\<lambda>_. eret base))
        (\<lambda>r. reached c0 L E (insert r S) T)"
      by (rule triple_bind[OF call[where n = n]]) (auto intro: triple_eret)
  qed
  show "sound_tail (ebind (compile_call_window ce f es l) (\<lambda>(base, n). emit (L_TailCall base n) l))"
    unfolding sound_tail_def
  proof (intro allI impI, rule triple_bind[OF triple_call_window[OF assms]], assumption, assumption, clarify)
    fix c0 L S T base n and E :: "string \<rightharpoonup> register_id"
    show "triple (window_at c0 L E S T base (unat n)) (emit (L_TailCall base n) l)
        (\<lambda>_ c. reached c0 L E (S \<union> T) T c \<and> ends_code (cp_items c))"
      by (rule triple_weaken[OF call[where n = n]]) auto
  qed
qed

lemma sound_variable: "sound_value (compile_expr (Expr (E_Variable name) l))"
proof (rule sound_valueI)
  fix c0 L S T and E :: "string \<rightharpoonup> register_id" assume E: "ran E \<subseteq> S"
  show "triple (reached c0 L E S T) (compile_expr (Expr (E_Variable name) l)) (\<lambda>r. reached c0 L E (insert r S) T)"
  proof (rule tripleI)
    fix c r c' assume c: "reached c0 L E S T c" and run: "compile_expr (Expr (E_Variable name) l) c = (Inr r, c')"
    from c have env: "cp_environment c = E" by (simp add: reached_def)
    show "reached c0 L E (insert r S) T c'"
    proof (cases "cp_located_constants c (located_value name)")
      case (Some v)
      with run have "load_constant v l c = (Inr r, c')" by (simp add: result_simps)
      with tripleD[OF sound_valueD[OF sound_load_constant E] c] show ?thesis by blast
    next
      case None
      with run env obtain q where q: "E (located_value name) = Some q"
        by (auto simp: result_simps fail_at_def split: option.splits)
      then have "q \<in> S" using E by (auto simp: ran_def)
      then have "computes S (\<lambda>v. L_ReadUpLink v q)" by (auto simp: computes_def)
      from tripleD[OF triple_emit_value[OF this order_refl] c] run q c None env \<open>q \<in> S\<close>
      show ?thesis by (auto simp: result_simps reached_def insert_absorb split: if_splits)
    qed
  qed
qed

lemma sound_binary:
  assumes "sound_value m" and "sound_value n"
  shows "sound_value (ebind m (\<lambda>left. ebind n (\<lambda>right. ebind allocate_register (\<lambda>dst.
     case binary_operation operator dst left right of
       None \<Rightarrow> fail_at l message
     | Some operation \<Rightarrow> ebind (emit operation l) (\<lambda>_. eret dst)))))"
proof (rule sound_valueI, rule triple_bind[OF sound_valueD[OF assms(1)]], assumption,
    rule triple_bind[OF sound_valueD[OF assms(2)]], blast, goal_cases)
  case (1 c0 L E S T x y)
  have "triple (reached c0 L E (insert y (insert x S)) T) (emit_to (\<lambda>dst. the (binary_operation operator dst x y)) l)
      (\<lambda>r. reached c0 L E (insert r S) T)" if "operator \<notin> {B_And, B_Or}"
    by (rule triple_emit_value) (use that in \<open>auto simp: computes_def split: binary_operator.splits, (cases operator; auto)+\<close>)
  then show ?case
    by (cases operator) (auto simp: emit_to_def triple_def fail_at_def result_simps)
qed

lemma sound_fail [simp]: "sound_value (fail_at l message)"
  by (simp add: sound_value_def)

text \<open>The recursion.\<close>

lemma sound_step:
  assumes IH: "\<And>e. size e < size (Expr k l) \<Longrightarrow> sound_value (compile_expr e) \<and> sound_tail (compile_tail_expr e)"
  shows "sound_value (compile_expr (Expr k l))"
proof -
  have sub: "sound_value (compile_expr e)" "sound_tail (compile_tail_expr e)" if "e \<in> subexprs k" for e
    using IH[OF size_sub[OF that]] by auto
  show ?thesis
  proof (cases k)
    case (E_InterpolatedString parts)
    show ?thesis
      unfolding E_InterpolatedString compile_expr.simps
    proof (rule sound_collect_emit, goal_cases)
      case (1 p)
      have "sound_value (compile_expr e)" if "located_value p = SP_Expression e" for e
        using IH size_spread(3)[OF 1 part_located[OF that]] unfolding E_InterpolatedString by blast
      then show ?case by (auto split: string_part_kind.split intro: sound_load_constant)
    qed (rule computes_list)
  next
    case (E_Array items)
    show ?thesis
      unfolding E_Array compile_expr.simps
      by (rule sound_array) (use sub IH size_spread(1) in \<open>auto simp del: expr.size expr_kind.size simp: E_Array\<close>)
  next
    case (E_Dict fs)
    show ?thesis
      unfolding E_Dict compile_expr.simps
      by (rule sound_dict) (use IH size_spread(2,4) in \<open>auto simp del: expr.size expr_kind.size simp: E_Dict\<close>)
  next
    case (E_Block b)
    show ?thesis unfolding E_Block compile_expr.simps by (rule sound_block(1)) (use sub E_Block in auto)
  next
    case (E_Closure ps r b)
    show ?thesis
      unfolding E_Closure compile_expr.simps
      by (rule sound_closure, rule sound_block(2)) (use sub E_Closure in auto)
  next
    case (E_If c t e)
    show ?thesis
      unfolding E_If compile_expr.simps
      by (rule sound_if; (rule sound_block(1))?) (use sub E_If in auto)
  next
    case (E_Match v arms)
    show ?thesis
      unfolding E_Match compile_expr.simps
      by (rule sound_match) (use sub E_Match in \<open>auto intro: all_heldI\<close>)
  next
    case (E_Call f es)
    show ?thesis unfolding E_Call compile_expr.simps by (rule sound_call(1)) (use sub E_Call in auto)
  next
    case (E_Binary operator x y)
    show ?thesis unfolding E_Binary compile_expr.simps by (rule sound_binary) (use sub E_Binary in auto)
  qed (use sub in \<open>auto simp: sound_load_constant emit_def computes_def sound_variable
      simp del: compile_expr.simps(7) split: unary_operator.split
      intro!: sound_bind_emit sound_many computes_list sound_push_end(1)[where f = L_Return]
        sound_push_end(1)[where f = L_Panic] sound_push_end(1)[where f = L_Raise]\<close>)
qed

lemma emit_unit: "ebind (emit operation l) eret = emit operation l"
  by (rule ext) (simp add: emit_def push_item_def emodify_def eret_def ebind_def)

lemma sound_tail_step:
  assumes IH: "\<And>e. size e < size (Expr k l) \<Longrightarrow> sound_value (compile_expr e) \<and> sound_tail (compile_tail_expr e)"
  shows "sound_tail (compile_tail_expr (Expr k l))"
proof -
  have sub: "sound_value (compile_expr e)" "sound_tail (compile_tail_expr e)" if "e \<in> subexprs k" for e
    using IH[OF size_sub[OF that]] by auto
  have val: "sound_value (compile_expr (Expr k l))" by (rule sound_step[OF IH])
  show ?thesis
  proof (cases k)
    case (E_Block b)
    show ?thesis unfolding E_Block compile_tail_expr.simps by (rule sound_block(2)) (use sub E_Block in auto)
  next
    case (E_If c t e)
    show ?thesis
      unfolding E_If compile_tail_expr.simps
      by (rule sound_tail_if; (rule sound_block(2))?) (use sub E_If in auto)
  next
    case (E_Match v arms)
    show ?thesis
      unfolding E_Match compile_tail_expr.simps
      by (rule sound_tail_match) (use sub E_Match in \<open>auto intro: all_heldI\<close>)
  next
    case (E_Call f es)
    show ?thesis unfolding E_Call compile_tail_expr.simps by (rule sound_call(2)) (use sub E_Call in auto)
  next
    case (E_Return e)
    have "sound_tail (ebind (compile_expr e) (\<lambda>v. emit (L_Return v) l))"
      unfolding emit_def by (rule sound_push_end(2)) (use sub E_Return in auto)
    then show ?thesis
      unfolding E_Return by (simp add: ebind_assoc emit_unit)
  qed (insert val, (simp only: compile_tail_expr.simps, rule sound_return, assumption)+)
qed

theorem compiled_sound: "sound_value (compile_expr e) \<and> sound_tail (compile_tail_expr e)"
proof (induction e rule: measure_induct_rule[where f = size])
  case (less e)
  show ?case by (cases e) (use less sound_step sound_tail_step in blast)
qed

end
