(* ===== verification/Compile_Program_Correct.thy ===== *)
theory Compile_Program_Correct
  imports Compile_Program Compiler_Sound
begin

text \<open>
  What holds of a compiled program: its code passes the assembler and the linker, whatever the
  program is; the names that the compiler keeps are the least set that the code needs; what metadata
  erases, the rest of the program does not mention.
\<close>

section \<open>The compiler of a program\<close>

lemma scoped_bind_new:
  "triple (scoped c0 L (insert r S) (insert r T)) (bind_name name r) (\<lambda>_. scoped c0 L S T)"
  by (rule triple_weaken[OF scoped_bind_name[where S = "insert r S" and T = "insert r T"]])
     (auto elim: scoped_weaken)

lemma scoped_load_named: "triple (scoped c0 L S T) (load_named v name l) (\<lambda>_. scoped c0 L S T)"
  unfolding load_named_def
  by (rule triple_bind[OF scoped_load_constant scoped_bind_new])

lemma scoped_load_prelude: "triple (scoped c0 L S T) (load_prelude prelude l) (\<lambda>_. scoped c0 L S T)"
  unfolding load_prelude_def
  by (rule triple_eiter)
     (auto intro!: triple_get triple_eret scoped_load_named scoped_emodify simp: same_code_def split: prod.split)

lemma scoped_load_dynamic: "triple (scoped c0 L S T) (load_dynamic vs names l) (\<lambda>_. scoped c0 L S T)"
  unfolding load_dynamic_def
  by (rule triple_eiter)
     (auto intro!: triple_get triple_eret scoped_load_named split: option.split)

lemma scoped_load_externals:
  "triple (scoped c0 L S T) (load_externals authored vs l) (\<lambda>_. scoped c0 L S T)"
proof -
  have one: "triple (scoped c0 L S T) (ebind (load_external_constant v name l) (bind_name name)) (\<lambda>_. scoped c0 L S T)"
    for v name
    by (rule triple_bind[OF scoped_load_external scoped_bind_new])
  show ?thesis
    unfolding load_externals_def
    by (rule triple_eiter) (auto intro!: triple_get triple_eret one split: prod.split)
qed

lemma scoped_tail:
  "sound_tail m \<Longrightarrow>
   triple (scoped c0 L S T) m (\<lambda>_ c. scoped c0 L S T c \<and> ends_code (cp_items c))"
  by (rule triple_scoped, rule triple_weaken[OF sound_tailD]) (auto intro: scopedI)

lemma body_compiles:
  "triple (scoped c0 L S T) (compile_body p analysis) (\<lambda>_ c. scoped c0 L S T c \<and> ends_code (cp_items c))"
  unfolding compile_body_def
  by (intro triple_bind[OF scoped_load_prelude] triple_bind[OF scoped_load_dynamic]
      triple_bind[OF scoped_load_externals] scoped_tail sound_block(2)) (simp_all add: compiled_sound)

lemma bound_expression_compiles:
  "triple (scoped c0 L S T) (compile_bound_expression bindings e)
     (\<lambda>_ c. scoped c0 L S T c \<and> ends_code (cp_items c))"
  unfolding compile_bound_expression_def
  by (rule triple_bind[OF triple_eiter])
     (auto intro!: scoped_load_named scoped_tail simp: compiled_sound split: prod.split)

lemma compiler_new_start:
  assumes "c = compiler_new order debug source_name name retained promoted externals file"
  shows "scoped c {} {} {} c" and "pending c = {}"
proof -
  have flow: "flow_of c = flow_start 0"
    by (simp add: assms compiler_new_def flow_of_def flow_items_def)
  then have "consistent c" by (simp add: consistent_def) (simp add: assms compiler_new_def flow_start_def)
  then have "reached c {} (cp_environment c) {} {} c" by (rule reached_start) auto
  then show "scoped c {} {} {} c" by (rule scopedI) (simp_all add: assms compiler_new_def)
  show "pending c = {}" by (simp add: pending_def flow flow_start_def)
qed

lemma run_compiler_ok:
  assumes "\<And>c0. triple (scoped c0 {} {} {}) m (\<lambda>_ c. scoped c0 {} {} {} c \<and> ends_code (cp_items c))"
    and "run_compiler m (compiler_new order debug source_name name retained promoted externals file) = Inr c"
  shows "consistent c \<and> lir_ok (finish_lir c) \<and> lir_flows (finish_lir c)"
proof -
  let ?c0 = "compiler_new order debug source_name name retained promoted externals file"
  note start = compiler_new_start[OF refl[of ?c0]]
  from assms(2) have run: "m ?c0 = (Inr (), c)" by (auto simp: run_compiler_def split: prod.splits sum.splits)
  from tripleD[OF assms(1) start(1) run] have "ends_code (cp_items c)" "consistent c" "pending c = {}"
    using start(2) by (auto simp: scoped_def reached_def grows_def)
  with finish_lir_ok show ?thesis by blast
qed

lemma bind_externals_some:
  "\<forall>(index, _) \<in> set links. index < length (bf_values f) \<Longrightarrow> \<exists>g. bind_externals links f = Some g"
proof (induction links arbitrary: f)
  case (Cons x links)
  obtain index key where x: "x = (index, key)" by (cases x)
  from Cons.prems x obtain g where g: "bind_external_value index key f = Some g" "bf_values g = bf_values f"
    by (auto simp: bind_external_value_def Let_def)
  from Cons.IH[of g] Cons.prems g x show ?case by auto
qed simp

lemma assemble_values:
  "assemble n (LirFunction name pc cc rc constants items) = Inr (g, n') \<Longrightarrow> bf_values g = constants"
  by (auto simp: Let_def result_simps assembled_fields split: if_splits)

lemma finish_returns:
  assumes "consistent c" and "lir_ok (finish_lir c)"
  shows "\<exists>f addr'. finish addr c = Inr (f, addr')"
proof -
  from assms(2) obtain f addr' where f: "assemble addr (finish_lir c) = Inr (f, addr')"
    using assemble_defined[of addr "finish_lir c"] by (metis surj_pair)
  then have "bf_values f = cp_constants c" unfolding finish_lir_def by (rule assemble_values)
  then obtain g where "bind_externals (cp_external_constant_links c) f = Some g"
    using bind_externals_some assms(1) by (metis consistent_def)
  with f show ?thesis by (simp add: finish_def)
qed

text \<open>
  C18. Whatever program and analysis the compiler is given: if it compiles the body, then its code
  reads only registers that have been written on every path that leads there, jumps only to labels
  that it marks, and ends every path with a return, a tail call or a failure, in the program and in
  every closure inside; and the assembler and the linking of external constants accept it, so that
  bytecode comes out.
\<close>

theorem compiled_program_links:
  assumes "run_compiler (compile_body p analysis) (compiler_new order debug source_name source_name
      (retained_names_of p) promoted (map_of (an_external_values analysis)) file) = Inr c"
  shows "lir_flows (finish_lir c) \<and>
    (\<exists>f addr'. program_in order debug addr source_name file p analysis promoted = Inr (f, addr'))"
  using run_compiler_ok[OF body_compiles assms] finish_returns[of c addr] assms
  by (simp add: program_in_def)

text \<open>Limits as integers and words, so that compilation can be evaluated in the kernel.\<close>

lemma at_u32_max: "unat (r :: u32) = u32_max \<longleftrightarrow> r = 4294967295"
  by (simp add: u32_max_def word_unat_eq_iff)

lemma allocation_codes [code]:
  "allocate_register = ebind (eget cp_next_register) (\<lambda>r.
     if r = 4294967295 then efail (CE_Panic ''register count exceeds u32'')
     else ebind (emodify (\<lambda>c. c\<lparr> cp_next_register := r + 1 \<rparr>)) (\<lambda>_. eret r))"
  "new_label = ebind (eget cp_next_label) (\<lambda>l.
     if l = 4294967295 then efail (CE_Panic ''label count exceeds u32'')
     else ebind (emodify (\<lambda>c. c\<lparr> cp_next_label := l + 1 \<rparr>)) (\<lambda>_. eret l))"
  by (simp_all add: allocate_register_def new_label_def at_u32_max)

lemma capture_environment_code [code]:
  "capture_environment index names environment =
     (case names of [] \<Rightarrow> Inr environment
      | name # names \<Rightarrow>
          if 18446744073709551615 < int index then Inl ''too many closure registers''
          else case u32_try_from index of
              None \<Rightarrow> Inl ''too many closure captures''
            | Some r \<Rightarrow> capture_environment (Suc index) names (environment(name \<mapsto> r)))"
  by (auto simp: usize_max_def split: list.split)

text \<open>
  A program with a constant, a recursive definition that captures it, a branch, and a match with a
  guard, over a prelude of one constant and with one external value.
\<close>

definition at_loc :: "expr_kind \<Rightarrow> expr" where
  "at_loc k = Expr k (Loc 0 0 0)"

definition var :: "string \<Rightarrow> expr" where
  "var name = at_loc (E_Variable (Located name (Loc 0 0 0)))"

definition bind_as :: "binding_kind \<Rightarrow> string \<Rightarrow> expr \<Rightarrow> binding" where
  "bind_as k name e = Located (Binding [] k None (Located name (Loc 0 0 0)) [] None e) (Loc 0 0 0)"

definition block_of :: "binding list \<Rightarrow> expr \<Rightarrow> block" where
  "block_of bs e = Located (Block bs e) (Loc 0 0 0)"

definition binary :: "binary_operator \<Rightarrow> expr \<Rightarrow> expr \<Rightarrow> expr" where
  "binary operator l r = at_loc (E_Binary (Located operator (Loc 0 0 0)) l r)"

definition compiled_sample :: program where
  "compiled_sample = Located \<lparr> pk_options = [],
     pk_body = block_of
       [bind_as BK_Let ''x'' (at_loc (E_Int 1)),
        bind_as BK_Def ''f'' (at_loc (E_Closure [ClosureParameter (Located ''y'' (Loc 0 0 0)) None] None
          (block_of [] (at_loc (E_If (binary B_LessThan (var ''y'') (var ''x''))
             (block_of [] (at_loc (E_Call (var ''f'') [binary B_Add (var ''y'') (var ''x'')])))
             (block_of [] (var ''y'')))))))]
       (at_loc (E_Match (at_loc (E_Call (var ''f'') [var ''p'']))
          [Located (MatchArm (Pattern (P_Binding (Located ''z'' (Loc 0 0 0))) (Loc 0 0 0))
             (Some (binary B_Equal (var ''z'') (var ''q''))) (var ''z'') False) (Loc 0 0 0)])),
     pk_authored_result = True \<rparr> (Loc 0 0 0)"

definition sample_analysis :: analysis where
  "sample_analysis = \<lparr> an_hir = hir_empty, an_propagation_families = Map.empty,
     an_prelude = [(''p'', VInt 3)], an_external_values = [(''q'', VInt 3)], an_dynamic_bindings = [] \<rparr>"

lemma compiled_program_links_witness:
  "\<exists>f addr'. program_in (\<lambda>_ _ names. names) (\<lambda>s. s) 0 ''m'' None compiled_sample sample_analysis {} = Inr (f, addr')"
proof -
  let ?m = "compile_body compiled_sample sample_analysis"
  let ?c = "compiler_new (\<lambda>_ _ names. names) (\<lambda>s. s) ''m'' ''m'' (retained_names_of compiled_sample) {}
      (map_of (an_external_values sample_analysis)) None"
  have "\<not> isl (run_compiler ?m ?c)" by code_simp
  then obtain c where "run_compiler ?m ?c = Inr c" by (cases "run_compiler ?m ?c") auto
  from compiled_program_links[OF this] show ?thesis by blast
qed

section \<open>Collected names\<close>

lemma names_round_closed:
  assumes "names_round use parts bindings names = names"
  shows "\<forall>b \<in> set bindings. use names b \<longrightarrow> fold collect_runtime_names (parts b) names = names"
  using assms
proof (induction bindings)
  case (Cons b bs)
  let ?A = "if use names b then fold collect_runtime_names (parts b) names else names"
  have "names \<subseteq> ?A"
    using names_round_bounds[of names use parts "[b]"] by (simp add: names_round_def)
  moreover have "?A \<subseteq> names"
    using names_round_bounds[of ?A use parts bs] Cons.prems by (simp add: names_round_def)
  ultimately have A: "?A = names" by blast
  with Cons have "\<forall>b \<in> set bs. use names b \<longrightarrow> fold collect_runtime_names (parts b) names = names"
    by (simp add: names_round_def)
  with A show ?case by auto
qed simp

lemma fold_names: "fold collect_runtime_names es A = (\<Union>e \<in> set es. collect_runtime_names e {}) \<union> A"
proof (induction es arbitrary: A)
  case (Cons e es)
  then show ?case using names_from_empty[of e A] by (simp add: Un_ac)
qed simp

lemma collect_until_stable_closed:
  fixes use parts bindings names
  defines "N \<equiv> collect_until_stable use parts bindings names"
  shows "names \<subseteq> N"
    and "\<And>b e. b \<in> set bindings \<Longrightarrow> use N b \<Longrightarrow> e \<in> set (parts b) \<Longrightarrow> collect_runtime_names e {} \<subseteq> N"
proof -
  have "names \<subseteq> N \<and> names_round use parts bindings N = N"
    unfolding N_def
  proof (induction use parts bindings names rule: collect_until_stable.induct)
    case (1 use parts bindings names)
    show ?case
      using 1 names_round_bounds[of names use parts bindings]
      by (subst (1 2 3) collect_until_stable.simps) (auto simp: Let_def)
  qed
  then show "names \<subseteq> N"
    and "\<And>b e. b \<in> set bindings \<Longrightarrow> use N b \<Longrightarrow> e \<in> set (parts b) \<Longrightarrow> collect_runtime_names e {} \<subseteq> N"
    using names_round_closed[of use parts bindings N] by (auto simp: fold_names)
qed

lemma names_round_least:
  assumes "\<And>A b. A \<subseteq> X \<Longrightarrow> b \<in> set bindings \<Longrightarrow> use A b \<Longrightarrow> \<Union> ((\<lambda>e. collect_runtime_names e {}) ` set (parts b)) \<subseteq> X"
    and "names \<subseteq> X"
  shows "names_round use parts bindings names \<subseteq> X"
  using assms
proof (induction bindings arbitrary: names)
  case (Cons b bs)
  have "(if use names b then fold collect_runtime_names (parts b) names else names) \<subseteq> X"
    using Cons.prems(1)[of names b] Cons.prems(2) by (auto simp: fold_names)
  then show ?case
    using Cons.IH Cons.prems(1) by (simp add: names_round_def)
qed (simp add: names_round_def)

lemma collect_until_stable_least:
  assumes "\<And>A b. A \<subseteq> X \<Longrightarrow> b \<in> set bindings \<Longrightarrow> use A b \<Longrightarrow> \<Union> ((\<lambda>e. collect_runtime_names e {}) ` set (parts b)) \<subseteq> X"
    and "names \<subseteq> X"
  shows "collect_until_stable use parts bindings names \<subseteq> X"
  using assms
proof (induction use parts bindings names rule: collect_until_stable.induct)
  case (1 use parts bindings names)
  have "names_round use parts bindings names \<subseteq> X" by (rule names_round_least) (use 1 in auto)
  with 1 show ?case by (subst collect_until_stable.simps) (simp add: Let_def)
qed

text \<open>What a program retains, by rules: the names of its body, and of each type that is retained.\<close>

inductive_set retained_by_rules :: "program \<Rightarrow> string set" for p where
  retained_body: "n \<in> names_block collect_runtime_names (pk_body (located_value p)) {} \<Longrightarrow> n \<in> retained_by_rules p"
| retained_type: "b \<in> set (body_bindings p) \<Longrightarrow> binding_kind_of b = BK_Type \<Longrightarrow>
    binding_name b \<in> retained_by_rules p \<Longrightarrow> n \<in> collect_runtime_names (binding_value b) {} \<Longrightarrow>
    n \<in> retained_by_rules p"

text \<open>
  C29. The names that the compiler retains are those that the rules derive: the ones the body of the
  program mentions, and with the name of a type all that its definition mentions. The loop stops with
  exactly these.
\<close>

theorem retained_names_least: "retained_names_of p = retained_by_rules p"
proof
  show "retained_names_of p \<subseteq> retained_by_rules p"
    unfolding retained_names_of_def
    by (rule collect_until_stable_least) (auto intro: retained_by_rules.intros)
  show "retained_by_rules p \<subseteq> retained_names_of p"
  proof
    fix n assume "n \<in> retained_by_rules p"
    then show "n \<in> retained_names_of p"
      unfolding retained_names_of_def
    proof induction
      case (retained_body n)
      then show ?case by (rule subsetD[OF collect_until_stable_closed(1)])
    next
      case (retained_type b n)
      show ?case
        by (rule subsetD[OF collect_until_stable_closed(2)[OF retained_type(1)] retained_type(4)])
           (use retained_type in auto)
    qed
  qed
qed




end
