(* ===== verification/Elaboration_Correct.thy ===== *)
theory Elaboration_Correct
  imports Elaboration
begin

text \<open>
  What the pass leaves: only forms that the compiler knows (\<open>core\<close>), the location of every expression,
  and the names that an expression takes from its surroundings (\<open>free_expr\<close>, from which the compiler
  computes the captures of a closure).
\<close>

section \<open>Results of the pass\<close>

definition returns :: "('a \<Rightarrow> bool) \<Rightarrow> 'a elaborating \<Rightarrow> bool" where
  "returns Q m \<longleftrightarrow> eff_ok (\<lambda>_ _. True) Q m"

lemma returnsD: "returns Q m \<Longrightarrow> m s = (Inr x, s') \<Longrightarrow> Q x"
  unfolding returns_def by (erule eff_okD(2), assumption, rule refl)

lemma returns_eret [simp]: "Q x \<Longrightarrow> returns Q (eret x)"
  by (simp add: returns_def eff_ok_pure)

lemma returns_fail [simp]: "returns Q (efail e)"
  by (simp add: returns_def eff_ok_pure)

lemma returns_bind: "returns P m \<Longrightarrow> (\<And>x. P x \<Longrightarrow> returns Q (f x)) \<Longrightarrow> returns Q (ebind m f)"
  unfolding returns_def by (rule eff_ok_ebind[where P = P]) auto

lemma returns_weaken: "returns P m \<Longrightarrow> (\<And>x. P x \<Longrightarrow> Q x) \<Longrightarrow> returns Q m"
  unfolding returns_def by (rule eff_ok_weaken)

lemma returns_collect:
  assumes "\<And>x. x \<in> set xs \<Longrightarrow> returns (R x) (f x)"
  shows "returns (list_all2 R xs) (ecollect f xs)"
  using assms
proof (induction xs)
  case (Cons x xs)
  show ?case
    unfolding ecollect.simps
    by (rule returns_bind[OF Cons.prems], simp, rule returns_bind[OF Cons.IH]) (auto simp: Cons.prems)
qed simp

lemma returns_option:
  "(\<And>e. x = Some e \<Longrightarrow> returns (R e) (ee e)) \<Longrightarrow> returns (rel_option R x) (elaborate_option ee x)"
  by (auto simp: elaborate_option_def split: option.split intro: returns_bind)

section \<open>Which expression became which\<close>

text \<open>
  The pass as a relation between trees: \<open>R\<close> for the expressions that a part holds, and the rest of the
  part unchanged.
\<close>

definition same_binding :: "(expr \<Rightarrow> expr \<Rightarrow> bool) \<Rightarrow> binding \<Rightarrow> binding \<Rightarrow> bool" where
  "same_binding R b c \<longleftrightarrow> binding_kind_of c = binding_kind_of b \<and> binding_name c = binding_name b \<and>
     located_at c = located_at b \<and> rel_option R (binding_annotation b) (binding_annotation c) \<and>
     R (binding_value b) (binding_value c)"

definition same_block :: "(expr \<Rightarrow> expr \<Rightarrow> bool) \<Rightarrow> block \<Rightarrow> block \<Rightarrow> bool" where
  "same_block R b c \<longleftrightarrow> located_at c = located_at b \<and>
     list_all2 (same_binding R) (block_bindings b) (block_bindings c) \<and> R (block_result b) (block_result c)"

definition same_arm :: "(expr \<Rightarrow> expr \<Rightarrow> bool) \<Rightarrow> match_arm \<Rightarrow> match_arm \<Rightarrow> bool" where
  "same_arm R a b \<longleftrightarrow> located_at b = located_at a \<and> arm_pattern b = arm_pattern a \<and>
     rel_option R (arm_guard a) (arm_guard b) \<and> R (arm_value a) (arm_value b)"

lemmas part_defs = binding_kind_of_def binding_name_def binding_annotation_def binding_value_def
  block_bindings_def block_result_def arm_pattern_def arm_guard_def arm_value_def located_map_def
  field_value_def field_name_def part_expression_def argument_expression_def

lemma returns_binding:
  assumes "\<And>e. e \<in> held set_binding_data b \<Longrightarrow> returns (R e) (ee e)"
  shows "returns (same_binding R b) (elaborate_binding ee b)"
proof -
  have held: "binding_value b \<in> held set_binding_data b"
    "binding_annotation b = Some e \<Longrightarrow> e \<in> held set_binding_data b" for e
    by (cases "located_value b"; auto simp: held_def part_defs)+
  show ?thesis
    unfolding elaborate_binding_def
    by (rule returns_bind[OF returns_option], rule assms, erule held,
        rule returns_bind[OF assms[OF held(1)]]) (auto simp: same_binding_def part_defs)
qed

lemma returns_block:
  assumes "\<And>e. e \<in> block_exprs b \<Longrightarrow> returns (R e) (ee e)"
  shows "returns (same_block R b) (elaborate_block ee b)"
proof -
  have held: "e \<in> block_exprs b" if "d \<in> set (block_bindings b)" "e \<in> held set_binding_data d" for d e
    using that by (cases "located_value b"; cases d) (auto simp: held_def part_defs set_located_value)
  show ?thesis
    unfolding elaborate_block_def
    by (rule returns_bind[OF returns_collect[OF returns_binding]], rule assms, erule held, assumption,
        rule returns_bind[OF assms[OF block_exprs_parts(1)]]) (auto simp: same_block_def part_defs)
qed

lemma returns_arm:
  assumes "\<And>e. e \<in> held set_match_arm_kind a \<Longrightarrow> returns (R e) (ee e)"
  shows "returns (same_arm R a) (elaborate_arm ee a)"
  unfolding elaborate_arm_def
  by (rule returns_bind[OF returns_option], rule assms, erule held_parts,
      rule returns_bind[OF assms[OF held_parts(3)]]) (auto simp: same_arm_def part_defs)

lemma returns_parts:
  "(\<And>e. e \<in> held set_string_part_kind p \<Longrightarrow> returns (R e) (ee e)) \<Longrightarrow>
   returns (\<lambda>q. located_at q = located_at p \<and> (part_expression p = None \<longrightarrow> q = p) \<and>
     rel_option R (part_expression p) (part_expression q)) (elaborate_part ee p)"
  "(\<And>e. e \<in> held set_dict_field_kind f \<Longrightarrow> returns (R e) (ee e)) \<Longrightarrow>
   returns (\<lambda>g. located_at g = located_at f \<and> field_name g = field_name f \<and>
     R (field_value f) (field_value g)) (elaborate_field ee f)"
  "(\<And>e. e \<in> held set_type_argument_kind a \<Longrightarrow> returns (R e) (ee e)) \<Longrightarrow>
   returns (\<lambda>b. located_at b = located_at a \<and> rel_option R (argument_expression a) (argument_expression b))
     (elaborate_argument ee a)"
  "(\<And>e. e \<in> set_closure_parameter q \<Longrightarrow> returns (R e) (ee e)) \<Longrightarrow>
   returns (\<lambda>r. cp_name r = cp_name q \<and> rel_option R (cp_annotation q) (cp_annotation r))
     (elaborate_parameter ee q)"
proof goal_cases
  case 1
  show ?case
  proof (cases "part_expression p")
    case (Some e)
    then show ?thesis
      by (simp add: elaborate_part_def, intro returns_bind[OF 1[OF held_parts(1)[OF Some]]]) (simp add: part_defs)
  qed (simp add: elaborate_part_def)
next
  case 2
  show ?case
    unfolding elaborate_field_def by (rule returns_bind[OF 2[OF held_parts(2)]]) (auto simp: part_defs)
next
  case 3
  show ?case
  proof (cases "argument_expression a")
    case (Some e)
    then show ?thesis
      by (simp add: elaborate_argument_def, intro returns_bind[OF 3[OF held_more(1)[OF Some]]]) (simp add: part_defs)
  qed (simp add: elaborate_argument_def)
next
  case 4
  show ?case
    unfolding elaborate_parameter_def by (rule returns_bind[OF returns_option[OF 4]]) auto
qed

section \<open>Free names are a set\<close>

text \<open>
  Collecting free names only adds names to a sorted list, so the order in which parts are visited
  does not matter.
\<close>

lemma insort_insert_commute:
  "insort_insert x (insort_insert y free) = insort_insert y (insort_insert x (free :: string list))"
proof (cases "x = y")
  case False
  then show ?thesis
    by (cases "x \<in> set free"; cases "y \<in> set free")
       (simp_all add: insort_insert_key_def set_insort_key insort_left_comm)
qed simp

definition adds :: "(string list \<Rightarrow> string list) \<Rightarrow> bool" where
  "adds h \<longleftrightarrow> (\<forall>x free. h (insort_insert x free) = insort_insert x (h free))"

lemma addsD: "adds h \<Longrightarrow> insort_insert x (h free) = h (insort_insert x free)"
  by (simp add: adds_def)

lemma fold_commute:
  "(\<And>x free. x \<in> set xs \<Longrightarrow> f x (h free) = h (f x free)) \<Longrightarrow> fold f xs (h free) = h (fold f xs free)"
  by (induction xs arbitrary: free) auto

lemma free_block_commute:
  assumes "\<And>e bound free. e \<in> block_exprs b \<Longrightarrow> fe e bound (h free) = h (fe e bound free)"
  shows "free_block fe b bound (h free) = h (free_block fe b bound free)"
proof -
  let ?step = "\<lambda>d (bound, free). (insert (binding_name d) bound,
      if binding_kind_of d \<in> {BK_Decl, BK_Native} then free else fe (binding_value d) bound free)"
  have "fold ?step ds (bound, h free) = (case fold ?step ds (bound, free) of (b, f) \<Rightarrow> (b, h f))"
    if "\<And>d bound free. d \<in> set ds \<Longrightarrow> fe (binding_value d) bound (h free) = h (fe (binding_value d) bound free)"
    for ds bound free
    using that by (induction ds arbitrary: bound free) auto
  from this[of "block_bindings b"] assms show ?thesis
    by (simp add: free_block_def Let_def split_beta)
qed

lemma free_commute:
  assumes "adds h"
  shows "free_expr e bound (h free) = h (free_expr e bound free)"
proof (induction e arbitrary: bound free rule: expr_induct)
  case (Expr k l)
  have block: "free_block free_expr b B (h f) = h (free_block free_expr b B f)"
    if "\<And>e. e \<in> block_exprs b \<Longrightarrow> e \<in> subexprs k" for b B f
    by (rule free_block_commute) (use that Expr in auto)
  show ?case
  proof (cases k)
    case (E_Closure ps r b)
    then show ?thesis
      using assms by (auto intro!: fold_commute simp: addsD)
  next
    case (E_InterpolatedString parts)
    then show ?thesis by (auto intro!: fold_commute Expr all_held_parts(1) split: option.split)
  next
    case (E_Match v arms)
    have arm: "free_expr (arm_value a) B (h f) = h (free_expr (arm_value a) B f)"
      "arm_guard a = Some g \<Longrightarrow> free_expr g B (h f) = h (free_expr g B f)" if "a \<in> set arms" for a g B f
      using that by (auto intro!: Expr simp: E_Match)
    have "fold (\<lambda>a free. let arm_bound = bind_pattern (arm_pattern a) bound in
         free_expr (arm_value a) arm_bound
           (case arm_guard a of None \<Rightarrow> free | Some g \<Rightarrow> free_expr g arm_bound free)) arms (h f) =
        h (fold (\<lambda>a free. let arm_bound = bind_pattern (arm_pattern a) bound in
         free_expr (arm_value a) arm_bound
           (case arm_guard a of None \<Rightarrow> free | Some g \<Rightarrow> free_expr g arm_bound free)) arms f)" for f
      by (rule fold_commute) (auto simp: Let_def arm split: option.split)
    then show ?thesis using Expr by (simp add: E_Match)
  next
    case (E_Dict fs)
    then show ?thesis by (auto intro!: fold_commute Expr)
  qed (use Expr in \<open>auto intro!: fold_commute simp: block addsD[OF assms]\<close>)
qed

lemma adds_free:
  "adds (free_expr e bound)"
  using free_commute[of "insort_insert x" for x] by (simp add: adds_def insort_insert_commute)

lemma free_blocks_commute:
  "free_block free_expr b B (free_block free_expr c C free) = free_block free_expr c C (free_block free_expr b B free)"
proof (rule free_block_commute)
  fix e bound free
  show "free_expr e bound (free_block free_expr c C free) = free_block free_expr c C (free_expr e bound free)"
    by (rule free_block_commute[symmetric], rule free_commute[OF adds_free])
qed

section \<open>Core forms\<close>

text \<open>The expressions that the pass visits, and the forms that are left.\<close>

definition option_list :: "'a option \<Rightarrow> 'a list" where
  "option_list x = (case x of None \<Rightarrow> [] | Some y \<Rightarrow> [y])"

definition block_parts :: "block \<Rightarrow> expr list" where
  "block_parts b = concat (map (\<lambda>d. option_list (binding_annotation d) @ [binding_value d]) (block_bindings b)) @
     [block_result b]"

fun visited :: "expr_kind \<Rightarrow> expr list" where
  "visited (E_InterpolatedString parts) = concat (map (option_list \<circ> part_expression) parts)"
| "visited (E_Array items) = items"
| "visited (E_Tuple items) = items"
| "visited (E_Spread e) = [e]"
| "visited (E_Dict fs) = map field_value fs"
| "visited (E_Block b) = block_parts b"
| "visited (E_Unary _ e) = [e]"
| "visited (E_Propagate e) = [e]"
| "visited (E_Return e) = [e]"
| "visited (E_Panic e) = [e]"
| "visited (E_Raise e) = [e]"
| "visited (E_Binary _ x y) = [x, y]"
| "visited (E_Field e _) = [e]"
| "visited (E_Call f args) = f # args"
| "visited (E_TypeApply f args) = f # concat (map (option_list \<circ> argument_expression) args)"
| "visited (E_Interpreter x y) = [x, y]"
| "visited (E_Closure ps r b) =
     concat (map (option_list \<circ> cp_annotation) ps) @ option_list r @ block_parts b"
| "visited (E_If c t e) = c # block_parts t @ block_parts e"
| "visited (E_IfLet _ v t e) = v # block_parts t @ block_parts e"
| "visited (E_LetElse _ v e b) = v # block_parts e @ block_parts b"
| "visited (E_Match v arms) = v # concat (map (\<lambda>a. option_list (arm_guard a) @ [arm_value a]) arms)"
| "visited _ = []"

fun core_kind :: "expr_kind \<Rightarrow> bool" where
  "core_kind (E_Propagate _) = False"
| "core_kind (E_IfLet _ _ _ _) = False"
| "core_kind (E_LetElse _ _ _ _) = False"
| "core_kind (E_Binary operator _ _) = (located_value operator \<notin> {B_And, B_Or})"
| "core_kind _ = True"

lemma set_option_list [simp]: "set (option_list x) = set_option x"
  by (auto simp: option_list_def split: option.split)

lemma block_parts_sub: "e \<in> set (block_parts b) \<Longrightarrow> e \<in> block_exprs b"
  by (auto simp: block_parts_def)

lemma visited_sub: "e \<in> set (visited k) \<Longrightarrow> e \<in> subexprs k"
  by (cases k) (auto dest: block_parts_sub intro: all_heldI)

function core :: "expr \<Rightarrow> bool" where
  "core (Expr k l) \<longleftrightarrow> core_kind k \<and> list_all core (visited k)"
  by pat_completeness auto
termination
  by (relation "measure size") (auto simp del: expr.size expr_kind.size intro: size_sub visited_sub)

declare core.simps [simp del]

section \<open>The pass is correct\<close>

text \<open>
  \<open>e\<close> became \<open>e'\<close>: a core form at the same location with the same free names. The shape of a closure,
  on which the compiler decides which definitions get a link, is kept.
\<close>

definition became :: "expr \<Rightarrow> expr \<Rightarrow> bool" where
  "became e e' \<longleftrightarrow> core e' \<and> expr_location e' = expr_location e \<and>
     (\<forall>bound free. free_expr e' bound free = free_expr e bound free)"

lemma list_all_concat_map: "list_all P (concat (map f xs)) \<longleftrightarrow> (\<forall>x \<in> set xs. list_all P (f x))"
  by (induction xs) auto

lemma list_all_option [simp]: "list_all P (option_list x) \<longleftrightarrow> pred_option P x"
  by (cases x) (auto simp: option_list_def)

lemma rel_option_pred: "rel_option R x y \<Longrightarrow> (\<And>a b. R a b \<Longrightarrow> P b) \<Longrightarrow> pred_option P y"
  by (cases x; cases y) auto

lemma became_block:
  assumes "same_block became b c"
  shows "list_all core (block_parts c)" and "located_at c = located_at b"
    and "free_block free_expr c bound free = free_block free_expr b bound free"
proof -
  from assms have ds: "list_all2 (same_binding became) (block_bindings b) (block_bindings c)"
    and result: "became (block_result b) (block_result c)" by (auto simp: same_block_def)
  from ds have "\<forall>d \<in> set (block_bindings c). pred_option core (binding_annotation d) \<and> core (binding_value d)"
    by (induction rule: list_all2_induct) (auto simp: same_binding_def became_def elim: rel_option_pred)
  with result show "list_all core (block_parts c)"
    by (auto simp: block_parts_def became_def list_all_concat_map)
  show "located_at c = located_at b" using assms by (simp add: same_block_def)
  have declared: "binding_name ` set (filter (\<lambda>d. binding_kind_of d \<in> {BK_Decl, BK_Native}) (block_bindings c)) =
      binding_name ` set (filter (\<lambda>d. binding_kind_of d \<in> {BK_Decl, BK_Native}) (block_bindings b))"
    using ds by (induction rule: list_all2_induct) (auto simp: same_binding_def)
  have "fold (\<lambda>d (bound, free). (insert (binding_name d) bound,
        if binding_kind_of d \<in> {BK_Decl, BK_Native} then free else free_expr (binding_value d) bound free))
        (block_bindings c) s =
      fold (\<lambda>d (bound, free). (insert (binding_name d) bound,
        if binding_kind_of d \<in> {BK_Decl, BK_Native} then free else free_expr (binding_value d) bound free))
        (block_bindings b) s" for s
    using ds by (induction arbitrary: s rule: list_all2_induct) (auto simp: same_binding_def became_def split_beta)
  with declared result show "free_block free_expr c bound free = free_block free_expr b bound free"
    by (simp add: free_block_def became_def)
qed

lemma fold_same:
  assumes "list_all2 R xs ys" and "\<And>x y s. R x y \<Longrightarrow> g y s = f x s"
  shows "fold g ys s = fold f xs s"
  using assms(1) by (induction arbitrary: s rule: list_all2_induct) (simp_all add: assms(2))

lemma list_all2_all: "list_all2 R xs ys \<Longrightarrow> (\<And>x y. R x y \<Longrightarrow> P y) \<Longrightarrow> y \<in> set ys \<Longrightarrow> P y"
  by (induction rule: list_all2_induct) auto

lemma became_list:
  assumes "list_all2 became xs ys"
  shows "list_all core ys" and "fold (\<lambda>e. free_expr e bound) ys free = fold (\<lambda>e. free_expr e bound) xs free"
proof -
  show "list_all core ys" using list_all2_all[OF assms, of core] by (auto simp: became_def list_all_iff)
  show "fold (\<lambda>e. free_expr e bound) ys free = fold (\<lambda>e. free_expr e bound) xs free"
    by (rule fold_same[OF assms]) (simp add: became_def)
qed

lemma propagation_core: "core operand \<Longrightarrow> returns (\<lambda>k. core (Expr k l) \<and>
    (\<forall>bound free. free_expr (Expr k l) bound free = free_expr operand bound free)) (propagation operand family l)"
  unfolding propagation_def returns_def eff_ok_def
  by (cases family)
     (auto simp: ebind_def eget_def emodify_def eret_def Let_def core.simps block_parts_def part_defs
        option_list_def free_block_def)

lemma became_intro:
  "core_kind k' \<Longrightarrow> list_all core (visited k') \<Longrightarrow>
   (\<And>bound free. free_expr (Expr k' l) bound free = free_expr (Expr k l) bound free) \<Longrightarrow>
   became (Expr k l) (Expr k' l)"
  by (simp add: became_def core.simps)

lemma became_simps: "became e e' \<Longrightarrow> core e'" "became e e' \<Longrightarrow> free_expr e' bound free = free_expr e bound free"
  by (simp_all add: became_def)

lemma became_arms:
  assumes "list_all2 (same_arm became) xs ys"
  shows "list_all core (visited (E_Match v ys)) \<longleftrightarrow> core v"
    and "free_expr (Expr (E_Match v ys) l) bound free = free_expr (Expr (E_Match v xs) l) bound free"
proof -
  have "\<forall>a \<in> set ys. pred_option core (arm_guard a) \<and> core (arm_value a)"
    using assms
    by (induction rule: list_all2_induct) (auto simp: same_arm_def became_def elim: rel_option_pred)
  then show "list_all core (visited (E_Match v ys)) \<longleftrightarrow> core v" by (auto simp: list_all_concat_map)
  have "fold (\<lambda>a free. let arm_bound = bind_pattern (arm_pattern a) bound in
         free_expr (arm_value a) arm_bound
           (case arm_guard a of None \<Rightarrow> free | Some g \<Rightarrow> free_expr g arm_bound free)) ys f =
      fold (\<lambda>a free. let arm_bound = bind_pattern (arm_pattern a) bound in
         free_expr (arm_value a) arm_bound
           (case arm_guard a of None \<Rightarrow> free | Some g \<Rightarrow> free_expr g arm_bound free)) xs f" for f
    by (rule fold_same[OF assms])
       (auto simp: same_arm_def Let_def became_simps(2) rel_option_iff split: option.splits)
  then show "free_expr (Expr (E_Match v ys) l) bound free = free_expr (Expr (E_Match v xs) l) bound free"
    by simp
qed

lemma became_two_arms:
  assumes "same_block became b c" and "same_block became o' d"
  shows "list_all core (visited (E_Match v (two_arms p c d l))) \<longleftrightarrow> core v"
    and "free_expr (Expr (E_Match v (two_arms p c d l)) l) bound free =
      free_block free_expr o' bound (free_block free_expr b (bind_pattern p bound) (free_expr v bound free))"
  using became_block[OF assms(1)] became_block[OF assms(2)]
  by (auto simp: two_arms_def part_defs core.simps option_list_def Let_def)

lemmas if_let_free = free_expr.simps(20)
lemmas let_else_free = free_expr.simps(21) free_blocks_commute

theorem elaborate_became: "returns (became e) (elaborate_expr F e)"
proof (induction e rule: expr_induct)
  case (Expr k l)
  have block: "returns (same_block became b) (elaborate_block (elaborate_expr F) b)"
    if "block_exprs b \<subseteq> subexprs k" for b
    by (rule returns_block) (use that Expr in auto)
  show ?case
  proof (cases k)
    case (E_Propagate e)
    have e: "returns (became e) (elaborate_expr F e)" by (rule Expr) (simp add: E_Propagate)
    show ?thesis
    proof (cases "F l")
      case (Some family)
      show ?thesis
        unfolding E_Propagate elaborate_expr.simps Some option.case
        by (rule returns_bind[OF e], rule returns_bind[OF propagation_core[of _ l]])
           (auto simp: became_def)
    qed (use E_Propagate in \<open>auto intro: returns_bind[OF e]\<close>)
  next
    case (E_Binary operator x y)
    have sub: "returns (became x) (elaborate_expr F x)" "returns (became y) (elaborate_expr F y)"
      by (rule Expr; simp add: E_Binary)+
    show ?thesis
      unfolding E_Binary elaborate_expr.simps
      by (rule returns_bind[OF sub(1)], rule returns_bind[OF sub(2)], rule returns_eret, rule became_intro)
         (auto simp: became_def short_circuit_def result_block_def block_parts_def part_defs core.simps
            free_block_def Let_def split: binary_operator.split)
  next
    case (E_IfLet p v t e)
    have v: "returns (became v) (elaborate_expr F v)" by (rule Expr) (simp add: E_IfLet)
    have bs: "returns (same_block became t) (elaborate_block (elaborate_expr F) t)"
      "returns (same_block became e) (elaborate_block (elaborate_expr F) e)"
      by (rule block; auto simp: E_IfLet)+
    show ?thesis
      unfolding E_IfLet elaborate_expr.simps
      by (rule returns_bind[OF v], rule returns_bind[OF bs(1)], rule returns_bind[OF bs(2)],
          rule returns_eret, rule became_intro)
         (auto simp only: became_two_arms became_simps core_kind.simps if_let_free)
  next
    case (E_LetElse p v e b)
    have v: "returns (became v) (elaborate_expr F v)" by (rule Expr) (simp add: E_LetElse)
    have bs: "returns (same_block became e) (elaborate_block (elaborate_expr F) e)"
      "returns (same_block became b) (elaborate_block (elaborate_expr F) b)"
      by (rule block; auto simp: E_LetElse)+
    show ?thesis
      unfolding E_LetElse elaborate_expr.simps
      by (rule returns_bind[OF v], rule returns_bind[OF bs(1)], rule returns_bind[OF bs(2)],
          rule returns_eret, rule became_intro)
         (auto simp only: became_two_arms became_simps core_kind.simps let_else_free)
  next
    case (E_Match v arms)
    have v: "returns (became v) (elaborate_expr F v)" by (rule Expr) (simp add: E_Match)
    have arms: "returns (list_all2 (same_arm became) arms) (ecollect (elaborate_arm (elaborate_expr F)) arms)"
      by (rule returns_collect, rule returns_arm, rule Expr) (auto simp: E_Match intro: all_heldI)
    show ?thesis
      unfolding E_Match elaborate_expr.simps
    proof (rule returns_bind[OF v], rule returns_bind[OF arms], rule returns_eret, rule became_intro)
      fix v' arms' bound free assume v': "became v v'" and arms': "list_all2 (same_arm became) arms arms'"
      have "free_expr (Expr (E_Match v' arms) l) bound free = free_expr (Expr (E_Match v arms) l) bound free"
        using v' by (simp add: became_simps(2))
      with became_arms(2)[OF arms', of v' l bound free]
      show "free_expr (Expr (E_Match v' arms') l) bound free = free_expr (Expr (E_Match v arms) l) bound free"
        by simp
    qed (auto simp only: became_arms became_simps core_kind.simps)
  next
    case (E_Block b)
    have b: "returns (same_block became b) (elaborate_block (elaborate_expr F) b)"
      by (rule block) (simp add: E_Block)
    show ?thesis
      unfolding E_Block elaborate_expr.simps
      by (rule returns_bind[OF b], rule returns_eret, rule became_intro) (simp_all add: became_block)
  next
    case (E_If c t e)
    have c: "returns (became c) (elaborate_expr F c)" by (rule Expr) (simp add: E_If)
    have bs: "returns (same_block became t) (elaborate_block (elaborate_expr F) t)"
      "returns (same_block became e) (elaborate_block (elaborate_expr F) e)"
      by (rule block; auto simp: E_If)+
    show ?thesis
      unfolding E_If elaborate_expr.simps
      by (rule returns_bind[OF c], rule returns_bind[OF bs(1)], rule returns_bind[OF bs(2)],
          rule returns_eret, rule became_intro) (simp_all add: became_block became_simps)
  next
    case (E_Closure ps r b)
    have b: "returns (same_block became b) (elaborate_block (elaborate_expr F) b)"
      by (rule block) (auto simp: E_Closure)
    have ps: "returns (list_all2 (\<lambda>q r. cp_name r = cp_name q \<and> rel_option became (cp_annotation q) (cp_annotation r)) ps)
        (ecollect (elaborate_parameter (elaborate_expr F)) ps)"
      by (rule returns_collect, rule returns_parts(4), rule Expr) (auto simp: E_Closure intro: all_heldI)
    have r: "returns (rel_option became r) (elaborate_option (elaborate_expr F) r)"
      by (rule returns_option, rule Expr) (simp add: E_Closure)
    show ?thesis
      unfolding E_Closure elaborate_expr.simps
    proof (rule returns_bind[OF ps], rule returns_bind[OF r], rule returns_bind[OF b], rule returns_eret,
        rule became_intro)
      fix ps' r' b' bound free
      assume ps': "list_all2 (\<lambda>q r. cp_name r = cp_name q \<and> rel_option became (cp_annotation q) (cp_annotation r)) ps ps'"
        and r': "rel_option became r r'" and b': "same_block became b b'"
      from ps' have "map (\<lambda>p. located_value (cp_name p)) ps' = map (\<lambda>p. located_value (cp_name p)) ps"
        by (induction rule: list_all2_induct) auto
      then show "free_expr (Expr (E_Closure ps' r' b') l) bound free = free_expr (Expr (E_Closure ps r b) l) bound free"
        by (simp only: free_expr.simps became_block(3)[OF b'])
      have "\<forall>p \<in> set ps'. pred_option core (cp_annotation p)"
        using ps' by (induction rule: list_all2_induct) (auto simp: became_def elim: rel_option_pred)
      moreover have "pred_option core r'" using r' by (rule rel_option_pred) (simp add: became_def)
      ultimately show "list_all core (visited (E_Closure ps' r' b'))"
        using became_block(1)[OF b'] by (simp add: list_all_concat_map)
    qed simp
  next
    case (E_InterpolatedString parts)
    have parts: "returns (list_all2 (\<lambda>p q. located_at q = located_at p \<and> (part_expression p = None \<longrightarrow> q = p) \<and>
        rel_option became (part_expression p) (part_expression q)) parts)
        (ecollect (elaborate_part (elaborate_expr F)) parts)"
      by (rule returns_collect, rule returns_parts(1), rule Expr) (auto simp: E_InterpolatedString intro: all_heldI)
    show ?thesis
      unfolding E_InterpolatedString elaborate_expr.simps
    proof (rule returns_bind[OF parts], rule returns_eret, rule became_intro)
      fix qs bound free
      assume qs: "list_all2 (\<lambda>p q. located_at q = located_at p \<and> (part_expression p = None \<longrightarrow> q = p) \<and>
        rel_option became (part_expression p) (part_expression q)) parts qs"
      then have "\<forall>q \<in> set qs. pred_option core (part_expression q)"
        by (induction rule: list_all2_induct) (auto simp: became_def elim: rel_option_pred)
      then show "list_all core (visited (E_InterpolatedString qs))" by (simp add: list_all_concat_map)
      show "free_expr (Expr (E_InterpolatedString qs) l) bound free =
          free_expr (Expr (E_InterpolatedString parts) l) bound free"
        unfolding free_expr.simps
        by (rule fold_same[OF qs]) (auto simp: rel_option_iff became_simps split: option.splits)
    qed simp
  next
    case (E_Dict fs)
    have fs: "returns (list_all2 (\<lambda>f g. located_at g = located_at f \<and> field_name g = field_name f \<and>
        became (field_value f) (field_value g)) fs) (ecollect (elaborate_field (elaborate_expr F)) fs)"
      by (rule returns_collect, rule returns_parts(2), rule Expr) (auto simp: E_Dict intro: all_heldI)
    show ?thesis
      unfolding E_Dict elaborate_expr.simps
    proof (rule returns_bind[OF fs], rule returns_eret, rule became_intro)
      fix gs bound free
      assume gs: "list_all2 (\<lambda>f g. located_at g = located_at f \<and> field_name g = field_name f \<and>
        became (field_value f) (field_value g)) fs gs"
      then have "\<forall>g \<in> set gs. core (field_value g)"
        by (induction rule: list_all2_induct) (auto simp: became_def)
      then show "list_all core (visited (E_Dict gs))" by (simp add: list_all_iff)
      show "free_expr (Expr (E_Dict gs) l) bound free = free_expr (Expr (E_Dict fs) l) bound free"
        unfolding free_expr.simps by (rule fold_same[OF gs]) (simp add: became_simps)
    qed simp
  next
    case (E_TypeApply f args)
    have f: "returns (became f) (elaborate_expr F f)" by (rule Expr) (simp add: E_TypeApply)
    have args: "returns (list_all2 (\<lambda>a b. located_at b = located_at a \<and>
        rel_option became (argument_expression a) (argument_expression b)) args)
        (ecollect (elaborate_argument (elaborate_expr F)) args)"
      by (rule returns_collect, rule returns_parts(3), rule Expr) (auto simp: E_TypeApply intro: all_heldI)
    show ?thesis
      unfolding E_TypeApply elaborate_expr.simps
    proof (rule returns_bind[OF f], rule returns_bind[OF args], rule returns_eret, rule became_intro)
      fix f' bs bound free
      assume f': "became f f'" and bs: "list_all2 (\<lambda>a b. located_at b = located_at a \<and>
        rel_option became (argument_expression a) (argument_expression b)) args bs"
      from bs have "\<forall>b \<in> set bs. pred_option core (argument_expression b)"
        by (induction rule: list_all2_induct) (auto simp: became_def elim: rel_option_pred)
      with f' show "list_all core (visited (E_TypeApply f' bs))"
        by (simp add: list_all_concat_map became_simps)
      show "free_expr (Expr (E_TypeApply f' bs) l) bound free = free_expr (Expr (E_TypeApply f args) l) bound free"
        using f' by (simp add: became_simps)
    qed simp
  next
    case (E_Array items)
    show ?thesis
      unfolding E_Array elaborate_expr.simps
      by (rule returns_bind[OF returns_collect[OF Expr]], simp add: E_Array, rule returns_eret, rule became_intro)
         (simp_all add: became_list)
  next
    case (E_Tuple items)
    show ?thesis
      unfolding E_Tuple elaborate_expr.simps
      by (rule returns_bind[OF returns_collect[OF Expr]], simp add: E_Tuple, rule returns_eret, rule became_intro)
         (simp_all add: became_list)
  next
    case (E_Call f args)
    have f: "returns (became f) (elaborate_expr F f)" by (rule Expr) (simp add: E_Call)
    show ?thesis
      unfolding E_Call elaborate_expr.simps
      by (rule returns_bind[OF f], rule returns_bind[OF returns_collect[OF Expr]], simp add: E_Call,
          rule returns_eret, rule became_intro) (simp_all add: became_list became_simps)
  qed (use Expr in \<open>auto simp: became_def core.simps intro!: returns_bind\<close>)
qed

section \<open>The pass returns where inference left a family\<close>

function question_marks :: "expr \<Rightarrow> loc list" where
  "question_marks (Expr k l) =
     concat (map question_marks (visited k)) @ (case k of E_Propagate _ \<Rightarrow> [l] | _ \<Rightarrow> [])"
  by pat_completeness auto
termination
  by (relation "measure size") (auto simp del: expr.size expr_kind.size intro: size_sub visited_sub)

declare question_marks.simps [simp del]

text \<open>
  \<open>numbers F ls m\<close>: the computation uses the families of \<open>ls\<close>, one number for each, and panics where
  one is missing.
\<close>

definition numbers :: "families \<Rightarrow> loc list \<Rightarrow> 'a elaborating \<Rightarrow> bool" where
  "numbers F ls m \<longleftrightarrow> (\<forall>n. if list_all (\<lambda>l. F l \<noteq> None) ls
     then \<exists>x. m n = (Inr x, n + of_nat (length ls)) else \<exists>panic n'. m n = (Inl panic, n'))"

lemma numbers_eret [simp]: "numbers F [] (eret x)"
  by (simp add: numbers_def eret_def)

lemma numbers_bind:
  assumes "numbers F ks m" and "\<And>x. numbers F ls (f x)"
  shows "numbers F (ks @ ls) (ebind m f)"
  unfolding numbers_def
proof
  fix n
  show "if list_all (\<lambda>l. F l \<noteq> None) (ks @ ls) then \<exists>x. ebind m f n = (Inr x, n + of_nat (length (ks @ ls)))
    else \<exists>panic n'. ebind m f n = (Inl panic, n')"
  proof (cases "list_all (\<lambda>l. F l \<noteq> None) ks")
    case True
    with assms(1) obtain x where x: "m n = (Inr x, n + of_nat (length ks))" by (auto simp: numbers_def)
    with True assms(2)[of x] show ?thesis
      by (auto simp: numbers_def ebind_def add.assoc dest!: spec[of _ "n + of_nat (length ks)"])
  next
    case False
    with assms(1) obtain panic n' where "m n = (Inl panic, n')" unfolding numbers_def by meson
    with False show ?thesis by (auto simp: ebind_def)
  qed
qed

lemma numbers_then: "numbers F ks m \<Longrightarrow> numbers F ks (ebind m (\<lambda>x. eret (g x)))"
  using numbers_bind[of F ks m "[]" "\<lambda>x. eret (g x)"] by simp

lemma concat_map_parts [simp]: "concat (map q (concat (map h xs))) = concat (map (\<lambda>x. concat (map q (h x))) xs)"
  by (induction xs) auto

lemma numbers_collect:
  "(\<And>x. x \<in> set xs \<Longrightarrow> numbers F (q x) (f x)) \<Longrightarrow> numbers F (concat (map q xs)) (ecollect f xs)"
proof (induction xs)
  case (Cons x xs)
  then show ?case by (simp add: numbers_bind numbers_then)
qed simp

lemma numbers_option:
  "(\<And>e. x = Some e \<Longrightarrow> numbers F (q e) (ee e)) \<Longrightarrow>
   numbers F (concat (map q (option_list x))) (elaborate_option ee x)"
  by (cases x) (auto simp: elaborate_option_def option_list_def intro: numbers_then)

lemma numbers_block:
  assumes "\<And>e. e \<in> block_exprs b \<Longrightarrow> numbers F (q e) (ee e)"
  shows "numbers F (concat (map q (block_parts b))) (elaborate_block ee b)"
proof -
  have "numbers F (concat (map q (option_list (binding_annotation d) @ [binding_value d]))) (elaborate_binding ee d)"
    if "d \<in> set (block_bindings b)" for d
    using that unfolding elaborate_binding_def
    by (auto intro!: numbers_bind numbers_option numbers_then assms)
  from numbers_bind[OF numbers_collect[OF this] numbers_then[OF assms[OF block_exprs_parts(1)]]]
  show ?thesis
    by (simp add: elaborate_block_def block_parts_def)
qed

lemma elaborate_numbers: "numbers F (question_marks e) (elaborate_expr F e)"
proof (induction e rule: expr_induct)
  case (Expr k l)
  have block: "numbers F (concat (map question_marks (block_parts b))) (elaborate_block (elaborate_expr F) b)"
    if "\<And>e. e \<in> block_exprs b \<Longrightarrow> e \<in> subexprs k" for b
    by (rule numbers_block) (use that Expr in auto)
  show ?case
  proof (cases k)
    case (E_Propagate e)
    have e: "numbers F (question_marks e) (elaborate_expr F e)" by (rule Expr) (simp add: E_Propagate)
    have "numbers F [l] (case F l of None \<Rightarrow> efail ''no entry found for key''
      | Some family \<Rightarrow> ebind (propagation operand family l) (\<lambda>k. eret (Expr k l)))" for operand
      by (cases "F l") (auto simp: numbers_def propagation_def ebind_def eget_def emodify_def eret_def efail_def Let_def)
    from numbers_bind[OF e this] show ?thesis by (simp add: E_Propagate question_marks.simps)
  next
    case (E_InterpolatedString parts)
    have "numbers F (concat (map question_marks (option_list (part_expression p)))) (elaborate_part (elaborate_expr F) p)"
      if "p \<in> set parts" for p
      using that Expr[OF _] unfolding elaborate_part_def
      by (auto simp: E_InterpolatedString option_list_def split: option.split intro!: numbers_then Expr all_held_parts(1))
    from numbers_then[OF numbers_collect[OF this]] show ?thesis
      by (simp add: E_InterpolatedString question_marks.simps comp_def)
  next
    case (E_Dict fs)
    have "numbers F (question_marks (field_value f)) (elaborate_field (elaborate_expr F) f)" if "f \<in> set fs" for f
      unfolding elaborate_field_def by (rule numbers_then, rule Expr) (use that in \<open>auto simp: E_Dict\<close>)
    from numbers_then[OF numbers_collect[OF this]] show ?thesis
      by (simp add: E_Dict question_marks.simps comp_def)
  next
    case (E_TypeApply f args)
    have "numbers F (concat (map question_marks (option_list (argument_expression a)))) (elaborate_argument (elaborate_expr F) a)"
      if "a \<in> set args" for a
      using that unfolding elaborate_argument_def
      by (auto simp: E_TypeApply option_list_def split: option.split intro!: numbers_then Expr all_heldI)
    from numbers_bind[OF _ numbers_then[OF numbers_collect[OF this]], of "question_marks f" "elaborate_expr F f"]
    show ?thesis using Expr[of f] by (simp add: E_TypeApply question_marks.simps comp_def)
  next
    case (E_Closure ps r b)
    have ps: "numbers F (concat (map question_marks (option_list (cp_annotation p)))) (elaborate_parameter (elaborate_expr F) p)"
      if "p \<in> set ps" for p
      unfolding elaborate_parameter_def
      by (rule numbers_then, rule numbers_option, rule Expr) (use that in \<open>auto simp: E_Closure intro: all_heldI\<close>)
    have r: "numbers F (concat (map question_marks (option_list r))) (elaborate_option (elaborate_expr F) r)"
      by (rule numbers_option, rule Expr) (simp add: E_Closure)
    have b: "numbers F (concat (map question_marks (block_parts b))) (elaborate_block (elaborate_expr F) b)"
      by (rule block) (auto simp: E_Closure)
    from numbers_bind[OF numbers_collect[OF ps] numbers_bind[OF r numbers_then[OF b]]] show ?thesis
      by (simp add: E_Closure question_marks.simps comp_def)
  next
    case (E_Match v arms)
    have arm: "numbers F (concat (map question_marks (option_list (arm_guard a) @ [arm_value a])))
        (elaborate_arm (elaborate_expr F) a)" if "a \<in> set arms" for a
      using that unfolding elaborate_arm_def
      by (auto intro!: numbers_bind numbers_option numbers_then Expr simp: E_Match)
    from numbers_bind[OF _ numbers_then[OF numbers_collect[OF arm]], of "question_marks v" "elaborate_expr F v"]
    show ?thesis using Expr[of v] by (simp add: E_Match question_marks.simps comp_def)
  qed (use Expr in \<open>auto simp: question_marks.simps intro!: numbers_bind numbers_then numbers_collect block\<close>)
qed

section \<open>Programs\<close>

abbreviation body_of :: "program \<Rightarrow> block" where
  "body_of p \<equiv> pk_body (located_value p)"

lemma elaborate_program_became:
  assumes "elaborate_program p families = Inr q"
  shows "same_block became (body_of p) (body_of q) \<and> located_at q = located_at p"
proof -
  from assms obtain n where run: "elaborate_block (elaborate_expr families) (body_of p) 0 = (Inr (body_of q), n)"
    and q: "located_at q = located_at p"
    by (auto simp: elaborate_program_def located_map_def split: prod.splits sum.splits)
  have "returns (same_block became (body_of p)) (elaborate_block (elaborate_expr families) (body_of p))"
    by (rule returns_block) (rule elaborate_became)
  from returnsD[OF this run] q show ?thesis by simp
qed

text \<open>
  C19. Elaboration removes every form that the compiler does not know, wherever it is nested, and
  changes neither the location of the program nor the names that its body takes from outside: the
  names that it makes up for a propagation are bound where they are used.
\<close>

theorem elaboration_core:
  assumes "elaborate_program p families = Inr q"
  shows "list_all core (block_parts (body_of q)) \<and> located_at q = located_at p \<and>
    free_block free_expr (body_of q) bound free = free_block free_expr (body_of p) bound free"
  using elaborate_program_became[OF assms] became_block[of "body_of p" "body_of q"] by simp

text \<open>\<open>a? and b\<close>, with a match on a pattern inside.\<close>

definition sample_loc :: "u32 \<Rightarrow> loc" where
  "sample_loc n = Loc 0 n n"

definition sample_name :: "string \<Rightarrow> u32 \<Rightarrow> expr" where
  "sample_name name n = Expr (E_Variable (Located name (sample_loc n))) (sample_loc n)"

definition sample_program :: program where
  "sample_program = Located \<lparr> pk_options = [],
     pk_body = Located (Block []
       (Expr (E_Binary (Located B_And (sample_loc 1))
         (Expr (E_Propagate (sample_name ''a'' 2)) (sample_loc 3))
         (Expr (E_IfLet (Pattern (P_Binding (Located ''x'' (sample_loc 4))) (sample_loc 4))
            (sample_name ''b'' 5)
            (result_block (sample_name ''x'' 6) (sample_loc 6))
            (result_block (sample_name ''c'' 7) (sample_loc 7))) (sample_loc 8))) (sample_loc 9))) (sample_loc 0),
     pk_authored_result = True \<rparr> (sample_loc 0)"

lemma elaboration_core_witness:
  "list_all core (block_parts (body_of (projr (elaborate_program sample_program (\<lambda>_. Some PF_Result))))) \<and>
   free_block free_expr (body_of (projr (elaborate_program sample_program (\<lambda>_. Some PF_Result)))) {} [] =
     [''a'', ''b'', ''c'']"
proof -
  have names: "free_block free_expr (body_of sample_program) {} [] = [''a'', ''b'', ''c'']"
    by code_simp
  have "\<not> isl (elaborate_program sample_program (\<lambda>_. Some PF_Result))" by code_simp
  then obtain q where q: "elaborate_program sample_program (\<lambda>_. Some PF_Result) = Inr q"
    by (cases "elaborate_program sample_program (\<lambda>_. Some PF_Result)") auto
  from elaboration_core[OF q, of "{}" "[]"] names show ?thesis by (simp add: q)
qed

text \<open>
  C20. Elaboration returns a program exactly if inference has left a family for every \<open>?\<close> in it, and
  otherwise panics; it uses one number for each of them.
\<close>

theorem elaboration_returns:
  "(\<exists>q. elaborate_program p families = Inr q) \<longleftrightarrow>
     list_all (\<lambda>l. families l \<noteq> None) (concat (map question_marks (block_parts (body_of p))))"
proof -
  have "numbers families (concat (map question_marks (block_parts (body_of p))))
      (elaborate_block (elaborate_expr families) (body_of p))"
    by (rule numbers_block) (rule elaborate_numbers)
  then show ?thesis
    unfolding numbers_def elaborate_program_def
    by (force split: prod.splits sum.splits if_splits dest: spec[of _ 0])
qed

end
