(* ===== verification/Compile_Errors.thy ===== *)
theory Compile_Errors
  imports Compile_Program_Correct Elaboration_Correct
begin

text \<open>
  Elaboration and compilation together: the compiler has four errors for forms that elaboration
  should have removed, and on a program that was elaborated it reports none of them.
\<close>

section \<open>Methods that never report an unelaborated form\<close>

definition unelaborated_messages :: "string set" where
  "unelaborated_messages =
     {''unelaborated propagation expression'', ''unelaborated short-circuit expression'',
      ''unelaborated if let expression'', ''unelaborated let else expression''}"

definition unelaborated :: "compile_error \<Rightarrow> bool" where
  "unelaborated e \<longleftrightarrow> (case e of CE_Frontend e \<Rightarrow> fe_message e \<in> unelaborated_messages | CE_Panic _ \<Rightarrow> False)"

definition elaborated_only :: "('s, compile_error, 'a) eff \<Rightarrow> bool" where
  "elaborated_only m \<longleftrightarrow> (\<forall>s e s'. m s = (Inl e, s') \<longrightarrow> \<not> unelaborated e)"

named_theorems elaborated_rules \<open>methods that never report an unelaborated form\<close>

lemma elaborated_basic [elaborated_rules]:
  "elaborated_only (eret x)" "elaborated_only (eget f)" "elaborated_only (emodify g)"
  "elaborated_only (efail (CE_Panic message))"
  by (auto simp: elaborated_only_def eret_def eget_def emodify_def efail_def unelaborated_def)

lemma elaborated_bind [elaborated_rules]:
  "elaborated_only m \<Longrightarrow> (\<And>x. elaborated_only (f x)) \<Longrightarrow> elaborated_only (ebind m f)"
  unfolding elaborated_only_def ebind_def by (auto split: prod.splits sum.splits)

lemma elaborated_get: "(\<And>c. elaborated_only (f (g c))) \<Longrightarrow> elaborated_only (ebind (eget g) f)"
  by (auto simp: elaborated_only_def ebind_def eget_def)

lemma elaborated_fail [elaborated_rules]:
  "(\<And>c. message c \<notin> unelaborated_messages) \<Longrightarrow> elaborated_only (fail_plain message)"
  "(\<And>c. message c \<notin> unelaborated_messages) \<Longrightarrow> elaborated_only (fail_at l message)"
  by (auto simp: elaborated_only_def fail_plain_def fail_at_def error_at_def unelaborated_def ebind_def
      eget_def efail_def frontend_error_of_def frontend_error_new_def Let_def split: option.splits)

lemma elaborated_if [elaborated_rules]:
  "(b \<Longrightarrow> elaborated_only m) \<Longrightarrow> (\<not> b \<Longrightarrow> elaborated_only n) \<Longrightarrow> elaborated_only (if b then m else n)"
  by simp

lemma elaborated_cases [elaborated_rules]:
  "(x = None \<Longrightarrow> elaborated_only m) \<Longrightarrow> (\<And>y. x = Some y \<Longrightarrow> elaborated_only (f y)) \<Longrightarrow>
   elaborated_only (case x of None \<Rightarrow> m | Some y \<Rightarrow> f y)"
  "(\<And>a b. p = (a, b) \<Longrightarrow> elaborated_only (g a b)) \<Longrightarrow> elaborated_only (case p of (a, b) \<Rightarrow> g a b)"
  by (auto split: option.split prod.split)

lemma elaborated_efold [elaborated_rules]:
  "(\<And>x a. x \<in> set xs \<Longrightarrow> elaborated_only (f x a)) \<Longrightarrow> elaborated_only (efold f xs a)"
  by (induction xs arbitrary: a) (auto intro: elaborated_rules)

lemma elaborated_eiter [elaborated_rules]:
  "(\<And>x. x \<in> set xs \<Longrightarrow> elaborated_only (f x)) \<Longrightarrow> elaborated_only (eiter f xs)"
  unfolding eiter_def by (rule elaborated_efold)

lemma elaborated_collect [elaborated_rules]:
  "(\<And>x. x \<in> set xs \<Longrightarrow> elaborated_only (f x)) \<Longrightarrow> elaborated_only (ecollect f xs)"
  by (induction xs) (auto intro: elaborated_rules)

section \<open>The methods\<close>

lemma elaborated_emit [elaborated_rules]:
  "elaborated_only (push_item x)" "elaborated_only (emit operation l)" "elaborated_only (emit_synthetic operation l)"
  "elaborated_only (mark_label label)" "elaborated_only allocate_register" "elaborated_only new_label"
  "elaborated_only (emit_to f l)" "elaborated_only (load_constant v l)"
  "elaborated_only (load_external_constant v name l)" "elaborated_only (bind_name name r)"
  "elaborated_only (jump_if_false r l labels)" "elaborated_only (emit_pattern_equality r q l labels)"
  unfolding emit_pattern_equality_def jump_if_false_def load_external_constant_def load_constant_def emit_to_def
    bind_name_def emit_def emit_synthetic_def mark_label_def allocate_register_def new_label_def push_item_def
  by (intro elaborated_rules)+

lemma elaborated_fail_if [elaborated_rules]:
  "(\<And>c. message c \<notin> unelaborated_messages) \<Longrightarrow> elaborated_only (fail_if p l message)"
  unfolding fail_if_def by (intro elaborated_rules)

lemma elaborated_environment [elaborated_rules]: "elaborated_only m \<Longrightarrow> elaborated_only (with_environment m)"
  unfolding with_environment_def by (intro elaborated_rules)

lemma elaborated_pattern [elaborated_rules]: "elaborated_only (compile_pattern p r acc)"
proof (induction p r acc rule: compile_pattern.induct)
  case (7 tag payload l v acc)
  show ?case unfolding compile_pattern.simps by (intro elaborated_rules 7)
next
  case (8 items l v acc)
  have item: "elaborated_only (compile_pattern item r acc)" if "(i, item) \<in> set (enumerate 0 items)" for i item r acc
    using 8[OF that refl] .
  show ?case
    unfolding compile_pattern.simps
    by (intro elaborated_rules; clarsimp; intro elaborated_rules item; assumption)
next
  case (9 fs l v acc)
  have item: "elaborated_only (compile_pattern item r acc)" if "(name, item) \<in> set fs" for name item r acc
    using 9[OF that refl, of "{}" r "fst acc" acc] by simp
  show ?case
    unfolding compile_pattern.simps
    by (intro elaborated_rules; clarsimp; intro elaborated_rules conjI impI item; assumption?)
       (simp_all add: unelaborated_messages_def)
qed (simp_all add: elaborated_rules pattern_literal_def unelaborated_messages_def)

lemma elaborated_many [elaborated_rules]:
  "(\<And>e. e \<in> set es \<Longrightarrow> elaborated_only (ce e)) \<Longrightarrow> elaborated_only (compile_many ce es)"
  unfolding compile_many_def by (rule elaborated_collect)

lemma elaborated_array:
  assumes "\<And>e i. i \<in> set es \<Longrightarrow> e = i \<or> spread_operand i = Some e \<Longrightarrow> elaborated_only (ce e)"
  shows "elaborated_only (compile_array ce es l)"
  using assms unfolding compile_array_def compile_spread_array_def
  by (auto intro!: elaborated_rules)

lemma elaborated_dict:
  assumes "\<And>e f. f \<in> set fs \<Longrightarrow> e = field_value f \<or> spread_operand (field_value f) = Some e \<Longrightarrow>
    elaborated_only (ce e)"
  shows "elaborated_only (compile_dict ce fs l)"
  using assms unfolding compile_dict_def compile_spread_dict_def duplicate_field_def
  by (auto intro!: elaborated_rules simp: unelaborated_messages_def)

lemma elaborated_window:
  assumes "\<And>e. e \<in> insert f (set es) \<Longrightarrow> elaborated_only (ce e)"
  shows "elaborated_only (compile_call_window ce f es l)"
  using assms unfolding compile_call_window_def
  by (auto intro!: elaborated_rules simp: unelaborated_messages_def)

lemma parameter_message:
  "parameter_environment c k names E = Inl message \<Longrightarrow> message \<notin> unelaborated_messages"
  by (induction c k names E rule: parameter_environment.induct)
     (auto simp: unelaborated_messages_def split: option.splits if_splits)

lemma capture_message: "capture_environment k names E = Inl message \<Longrightarrow> message \<notin> unelaborated_messages"
  by (induction k names E rule: capture_environment.induct)
     (auto simp: unelaborated_messages_def split: option.splits if_splits)

lemma nested_message:
  "nested_compiler c name ps cs ul df = Inl message \<Longrightarrow> message \<notin> unelaborated_messages"
  by (auto simp: nested_compiler_def result_simps ok_or_def split: option.splits if_splits
      dest: parameter_message capture_message) (simp_all add: unelaborated_messages_def)

lemma elaborated_nested: "elaborated_only m \<Longrightarrow> elaborated_only (elift (run_nested m d))"
  by (auto simp: elaborated_only_def elift_def run_nested_def split: prod.splits sum.splits)

lemma elaborated_closure:
  assumes "elaborated_only m"
  shows "elaborated_only (compile_closure m ps b l)"
proof -
  have "elaborated_only (capture_register l name)" for name
    unfolding capture_register_def unknown_binding_def
    by (auto intro!: elaborated_rules simp: unelaborated_messages_def)
  then show ?thesis
    unfolding compile_closure_def Let_def
    by (auto intro!: elaborated_rules elaborated_get elaborated_nested assms
        simp: unelaborated_messages_def split: sum.split dest!: nested_message)
qed

lemma elaborated_passes:
  "elaborated_only (check_natives bs)" "elaborated_only (check_native_conflicts natives bs)"
  "elaborated_only (declare_links outer bs)" "elaborated_only (link_types bs)"
  "elaborated_only (check_definition_counts l bs)" "elaborated_only (check_declared_conflicts declared bs)"
  "elaborated_only (assert_ready links)" "elaborated_only (compile_external d)" "elaborated_only (restore_scope c)"
  unfolding check_natives_def check_native_conflicts_def declare_links_def link_types_def make_link_def
    check_definition_counts_def check_declared_conflicts_def assert_ready_def compile_external_def
    restore_scope_def iterated_def Let_def
  by (auto intro!: elaborated_rules simp: unelaborated_messages_def)

lemma elaborated_binding:
  assumes "elaborated_only (ce (binding_value d))"
  shows "elaborated_only (compile_binding ce declared links d)"
  using assms unfolding compile_binding_def compile_definition_def compile_type_def Let_def
  by (auto intro!: elaborated_rules elaborated_passes simp: unelaborated_messages_def split: binding_kind.split)

lemma elaborated_block:
  assumes "\<And>e. e \<in> set (block_parts b) \<Longrightarrow> elaborated_only (ce e) \<and> elaborated_only (ct e)"
  shows "elaborated_only (compile_block ce ct b)" and "elaborated_only (compile_tail_block ce ct b)"
proof -
  have "elaborated_only (compile_binding ce declared links d)" if "d \<in> set (block_bindings b)" for declared links d
    by (rule elaborated_binding) (use assms that in \<open>auto simp: block_parts_def\<close>)
  moreover have "elaborated_only (ce (block_result b))" "elaborated_only (ct (block_result b))"
    using assms by (auto simp: block_parts_def)
  ultimately have "elaborated_only (compile_block_inner ce ct b tail)" for tail
    unfolding compile_block_inner_def Let_def
    by (auto intro!: elaborated_rules elaborated_passes)
  then show "elaborated_only (compile_block ce ct b)" "elaborated_only (compile_tail_block ce ct b)"
    unfolding compile_block_def compile_tail_block_def
    by (auto intro!: elaborated_rules simp: unelaborated_messages_def)
qed

lemma elaborated_match:
  assumes "elaborated_only (ce v)"
    and "\<And>a e. a \<in> set arms \<Longrightarrow> e = arm_value a \<or> arm_guard a = Some e \<Longrightarrow>
      elaborated_only (ce e) \<and> elaborated_only (ct e)"
  shows "elaborated_only (compile_match ce v arms l)" and "elaborated_only (compile_tail_match ce ct v arms l)"
proof -
  have "elaborated_only (compile_arm_test ce a r)" if "a \<in> set arms" for a r
    using assms(2)[OF that] unfolding compile_arm_test_def by (auto intro!: elaborated_rules)
  with assms show "elaborated_only (compile_match ce v arms l)" "elaborated_only (compile_tail_match ce ct v arms l)"
    unfolding compile_match_def compile_tail_match_def by (auto intro!: elaborated_rules)
qed

section \<open>Expressions\<close>

lemma core_step:
  assumes IH: "\<And>e. size e < size (Expr k l) \<Longrightarrow> core e \<Longrightarrow>
      elaborated_only (compile_expr e) \<and> elaborated_only (compile_tail_expr e)"
    and "core (Expr k l)"
  shows "elaborated_only (compile_expr (Expr k l)) \<and> elaborated_only (compile_tail_expr (Expr k l))"
proof -
  have kind: "core_kind k" and parts: "list_all core (visited k)" using assms(2) by (simp_all add: core.simps)
  have sub: "elaborated_only (compile_expr e) \<and> elaborated_only (compile_tail_expr e)"
    if "e \<in> set (visited k)" for e
    using IH[OF size_sub[OF visited_sub[OF that]]] parts that by (auto simp: list_all_iff)
  have match: "elaborated_only (compile_match compile_expr v arms l)"
    "elaborated_only (compile_tail_match compile_expr compile_tail_expr v arms l)" if k: "k = E_Match v arms" for v arms
  proof -
    have v: "v \<in> set (visited k)" by (simp add: k)
    have arm: "e \<in> set (visited k)" if "a \<in> set arms" "e = arm_value a \<or> arm_guard a = Some e" for a e
      using that by (auto simp: k)
    show "elaborated_only (compile_match compile_expr v arms l)"
      "elaborated_only (compile_tail_match compile_expr compile_tail_expr v arms l)"
      by (rule elaborated_match[where ct = compile_tail_expr], simp add: sub[OF v], rule sub[OF arm]; assumption)+
  qed
  have "elaborated_only (compile_expr (Expr k l))"
  proof (cases k)
    case (E_Array es)
    show ?thesis
      unfolding E_Array compile_expr.simps
    proof (rule elaborated_array)
      fix e i assume i: "i \<in> set es" and e: "e = i \<or> spread_operand i = Some e"
      have "core i" using parts i by (auto simp: E_Array list_all_iff)
      with e have "core e" by (cases i) (auto simp: spread_operand_def core.simps split: expr_kind.splits)
      moreover have "size e < size (Expr k l)"
        using e i size_spread(1)[of i es e] size_sub[OF visited_sub[of i k]] by (auto simp: E_Array)
      ultimately show "elaborated_only (compile_expr e)" using IH by blast
    qed
  next
    case (E_Dict fs)
    show ?thesis
      unfolding E_Dict compile_expr.simps
    proof (rule elaborated_dict)
      fix e f assume f: "f \<in> set fs" and e: "e = field_value f \<or> spread_operand (field_value f) = Some e"
      have "core (field_value f)" using parts f by (auto simp: E_Dict list_all_iff)
      with e have "core e"
        by (cases "field_value f") (auto simp: spread_operand_def core.simps split: expr_kind.splits)
      moreover have "size e < size (Expr k l)"
        using e f size_spread(2,4)[of f fs] by (auto simp: E_Dict)
      ultimately show "elaborated_only (compile_expr e)" using IH by blast
    qed
  next
    case (E_Match v arms)
    then show ?thesis using match by simp
  next
    case (E_Binary operator x y)
    then show ?thesis using kind sub
      by (cases "located_value operator") (auto intro!: elaborated_rules)
  next
    case (E_InterpolatedString parts)
    have "elaborated_only (compile_expr e)" if "p \<in> set parts" "located_value p = SP_Expression e" for p e
      using sub that part_located[OF that(2)] by (force simp: E_InterpolatedString option_list_def)
    then show ?thesis
      unfolding E_InterpolatedString compile_expr.simps
      by (auto intro!: elaborated_rules split: string_part_kind.split)
  qed (use sub kind in \<open>auto intro!: elaborated_rules elaborated_window elaborated_block elaborated_closure
      simp: compile_if_def unelaborated_messages_def unknown_binding_def split: unary_operator.split\<close>)
  moreover from this have "elaborated_only (compile_tail_expr (Expr k l))"
    by (cases k) (use sub match in \<open>auto intro!: elaborated_rules elaborated_window elaborated_block
        simp: compile_tail_if_def simp del: compile_expr.simps\<close>)
  ultimately show ?thesis ..
qed

theorem core_compiles:
  "core e \<Longrightarrow> elaborated_only (compile_expr e) \<and> elaborated_only (compile_tail_expr e)"
proof (induction e rule: measure_induct_rule[where f = size])
  case (less e)
  obtain k l where e: "e = Expr k l" by (cases e)
  show ?case unfolding e by (rule core_step) (use less e in blast)+
qed

section \<open>Programs\<close>

lemma body_elaborated:
  assumes "list_all core (block_parts (body_of p))"
  shows "elaborated_only (compile_body p analysis)"
proof -
  have load: "elaborated_only (load_named v name l)" for v name l
    unfolding load_named_def by (intro elaborated_rules)
  have "elaborated_only (compile_tail_block compile_expr compile_tail_expr (body_of p))"
    using assms by (intro elaborated_block(2)) (auto simp: list_all_iff core_compiles)
  then show ?thesis
    unfolding compile_body_def load_prelude_def load_dynamic_def load_externals_def
    by (auto intro!: elaborated_rules load split: prod.split)
qed

text \<open>
  C22. A program that has been elaborated is compiled, or rejected for another reason: the compiler
  never reports a form that elaboration should have removed.
\<close>

theorem compiler_sees_core:
  assumes "compile_program_with_promoted_types order debug addr file p analysis promoted_types erased = Inl e"
  shows "\<not> unelaborated e"
proof -
  have never: "\<not> unelaborated (CE_Panic message)" for message by (simp add: unelaborated_def)
  from assms consider "validate_hir debug file (an_hir analysis) = Inl e"
    | q where "elaborate_program (without_erased erased p) (an_propagation_families analysis) = Inr q"
        "program_in order debug addr (sf_name file) (Some file) q analysis promoted_types = Inl e"
    | message where "e = CE_Panic message"
    unfolding compile_program_with_promoted_types_def panicking_def
    by (auto simp: result_simps split: sum.splits)
  then show ?thesis
  proof cases
    case 1
    then show ?thesis
      by (auto simp: validate_hir_def unelaborated_def unelaborated_messages_def Let_def split: list.splits)
  next
    case (2 q)
    let ?c = "compiler_new order debug (sf_name file) (sf_name file) (retained_names_of q) promoted_types
        (map_of (an_external_values analysis)) (Some file)"
    have "\<not> isl (program_in order debug addr (sf_name file) (Some file) q analysis promoted_types)"
      if "run_compiler (compile_body q analysis) ?c = Inr c" for c
      using run_compiler_ok[OF body_compiles that] finish_returns[of c addr] that by (auto simp: program_in_def)
    with 2(2) have "run_compiler (compile_body q analysis) ?c = Inl e"
      by (cases "run_compiler (compile_body q analysis) ?c") (auto simp: program_in_def)
    moreover have "list_all core (block_parts (body_of q))"
      using elaborate_program_became[OF 2(1)] by (intro became_block(1)[where b = "body_of (without_erased erased p)"]) simp
    ultimately show ?thesis
      using body_elaborated[of q analysis] by (auto simp: elaborated_only_def run_compiler_def split: prod.splits sum.splits)
  next
    case 3
    then show ?thesis by (simp add: never)
  qed
qed

lemma compiler_sees_core_witness:
  "\<exists>e. compile_program_with_promoted_types (\<lambda>_ _ names. names) (\<lambda>s. s) 0
       \<lparr> sf_id = 0, sf_name = ''m'', sf_position = \<lambda>_. \<lparr> pos_line = 1, pos_column = 1 \<rparr> \<rparr> sample_program
       (sample_analysis\<lparr> an_propagation_families := \<lambda>_. Some PF_Result \<rparr>) {} {} = Inl e \<and> \<not> unelaborated e"
proof -
  let ?r = "compile_program_with_promoted_types (\<lambda>_ _ names. names) (\<lambda>s. s) 0
       \<lparr> sf_id = 0, sf_name = ''m'', sf_position = \<lambda>_. \<lparr> pos_line = 1, pos_column = 1 \<rparr> \<rparr> sample_program
       (sample_analysis\<lparr> an_propagation_families := \<lambda>_. Some PF_Result \<rparr>) {} {}"
  have "isl ?r" by code_simp
  then obtain e where "?r = Inl e" by (cases ?r) auto
  from compiler_sees_core[OF this] this show ?thesis by blast
qed

end
