(* ===== verification/Compiler_Findings.thy ===== *)
theory Compiler_Findings
  imports Compile_Program_Correct
begin

text \<open>
  Four small programs that the code does not treat the way it means to, run through the model of the
  compiler: each of them resolves in HIR.
\<close>

definition compile_sample :: "program \<Rightarrow> compile_error + compiler" where
  "compile_sample p = run_compiler (compile_body p sample_analysis)
     (compiler_new (\<lambda>_ _ names. names) (\<lambda>s. s) ''m'' ''m'' (retained_names_of p) {}
       (map_of (an_external_values sample_analysis)) None)"

definition resolves :: "program \<Rightarrow> bool" where
  "resolves p \<longleftrightarrow> (case hir_resolve p {''p'', ''q''} of Inr h \<Rightarrow> hir_unresolved h = [] | Inl _ \<Rightarrow> False)"

definition rejected_with :: "string \<Rightarrow> compile_error + 'a \<Rightarrow> bool" where
  "rejected_with message r \<longleftrightarrow> (case r of Inl (CE_Frontend e) \<Rightarrow> fe_message e = message | _ \<Rightarrow> False)"

definition program_of :: "binding list \<Rightarrow> expr \<Rightarrow> program" where
  "program_of bs e = Located \<lparr> pk_options = [], pk_body = block_of bs e, pk_authored_result = True \<rparr> (Loc 0 0 0)"

definition closure :: "string \<Rightarrow> binding list \<Rightarrow> expr \<Rightarrow> expr" where
  "closure parameter bs e =
     at_loc (E_Closure [ClosureParameter (Located parameter (Loc 0 0 0)) None] None (block_of bs e))"

section \<open>A prelude constant inside a closure\<close>

text \<open>\<open>def f = fn(x) { p }\<close> where the prelude has the constant \<open>p\<close>.\<close>

definition constant_in_closure :: program where
  "constant_in_closure = program_of [bind_as BK_Def ''f'' (closure ''x'' [] (var ''p''))] (var ''f'')"

lemma constant_in_closure_rejected:
  "resolves constant_in_closure \<and> rejected_with ''unknown binding p'' (compile_sample constant_in_closure)"
  by code_simp

section \<open>A recursive definition inside a closure\<close>

text \<open>\<open>def f = fn(y) { def g = fn(z) { g(z) }; g(y) }\<close>.\<close>

definition recursion_in_closure :: program where
  "recursion_in_closure = program_of
     [bind_as BK_Def ''f'' (closure ''y''
        [bind_as BK_Def ''g'' (closure ''z'' [] (at_loc (E_Call (var ''g'') [var ''z''])))]
        (at_loc (E_Call (var ''g'') [var ''y''])))]
     (var ''f'')"

lemma recursion_in_closure_rejected:
  "resolves recursion_in_closure \<and> rejected_with ''unknown binding g'' (compile_sample recursion_in_closure)"
  by code_simp

section \<open>A binding that shadows a prelude constant\<close>

text \<open>\<open>let p = 1; p\<close> returns the 3 of the prelude: the last constant that is loaded before the return.\<close>

definition shadowed_constant :: program where
  "shadowed_constant = program_of [bind_as BK_Let ''p'' (at_loc (E_Int 1))] (var ''p'')"

definition returns_constant :: "val \<Rightarrow> compiler \<Rightarrow> bool" where
  "returns_constant v c \<longleftrightarrow> (case rev (map fst (item_operations (cp_items c))) of
     L_Return r # L_LoadConst r' k # _ \<Rightarrow> r = r' \<and> cp_constants c ! unat k = v | _ \<Rightarrow> False)"

lemma shadowed_constant_ignored:
  "resolves shadowed_constant \<and>
   (case compile_sample shadowed_constant of Inr c \<Rightarrow> returns_constant (VInt 3) c | Inl _ \<Rightarrow> False)"
  by code_simp

section \<open>A pattern variable that shadows a definition\<close>

text \<open>\<open>def g = fn(x) { x }; match 1 { g => g }\<close> reads the integer as an up-link.\<close>

definition shadowing_pattern :: program where
  "shadowing_pattern = program_of
     [bind_as BK_Def ''g'' (closure ''x'' [] (var ''x''))]
     (at_loc (E_Match (at_loc (E_Int 1))
        [Located (MatchArm (Pattern (P_Binding (Located ''g'' (Loc 0 0 0))) (Loc 0 0 0)) None (var ''g'') False)
           (Loc 0 0 0)]))"

definition links_a_constant :: "compiler \<Rightarrow> bool" where
  "links_a_constant c \<longleftrightarrow> (let operations = map fst (item_operations (cp_items c)) in
     list_ex (\<lambda>x. case x of
         L_ReadUpLink _ link \<Rightarrow> list_ex (\<lambda>y. case y of L_LoadConst r _ \<Rightarrow> r = link | _ \<Rightarrow> False) operations
       | _ \<Rightarrow> False) operations)"

lemma shadowing_pattern_misread:
  "resolves shadowing_pattern \<and>
   (case compile_sample shadowing_pattern of Inr c \<Rightarrow> links_a_constant c | Inl _ \<Rightarrow> False)"
  by code_simp

end
