(* ===== verification/Evaluation.thy ===== *)
theory Evaluation
  imports Source
begin

text \<open>
  Best-effort evaluation (\<open>crates/telora-core/src/evaluation.rs\<close>): plans of units in the order of their
  dependencies, the arena of failures with the causes of a propagated one, and the session that runs
  a plan. What the caller gives, the checkpoint and the execution of a unit, are computations over a
  state of the caller's own; a panic is an error of its own.
\<close>

section \<open>Plans\<close>

type_synonym failure_id = u32
type_synonym evaluation_unit_id = u32

datatype failure_class = FC_Recoverable | FC_Terminal

datatype failure_operation =
    FO_Unary | FO_Binary | FO_Field | FO_Index | FO_Call | FO_NativeCall | FO_Condition | FO_Match
  | FO_Array | FO_Tuple | FO_Tagged | FO_Dict | FO_Interpolation | FO_Binding | FO_ModuleResult
  | FO_Other

datatype evaluation_unit_kind =
    EU_Binding | EU_DefinitionGroup | EU_ContainerChild | EU_ModuleResult | EU_Metadata

fun unit_failure_operation :: "evaluation_unit_kind \<Rightarrow> failure_operation" where
  "unit_failure_operation EU_Binding = FO_Binding"
| "unit_failure_operation EU_DefinitionGroup = FO_Binding"
| "unit_failure_operation EU_Metadata = FO_Binding"
| "unit_failure_operation EU_ContainerChild = FO_Other"
| "unit_failure_operation EU_ModuleResult = FO_ModuleResult"

record evaluation_unit =
  eu_id :: evaluation_unit_id
  eu_kind :: evaluation_unit_kind
  eu_location :: loc
  eu_dependencies :: "evaluation_unit_id list"

record evaluation_plan =
  ep_units :: "evaluation_unit list"

datatype plan_error =
    PE_Empty | PE_NonSequentialId | PE_DependencyNotPrior | PE_DuplicateDependency
  | PE_DependencyNotOrdered | PE_MissingModuleResult | PE_MultipleModuleResults
  | PE_ModuleResultNotLast

fun check_dependencies ::
    "nat \<Rightarrow> evaluation_unit_id option \<Rightarrow> evaluation_unit_id list \<Rightarrow> plan_error + unit" where
  "check_dependencies index previous [] = Inr ()"
| "check_dependencies index previous (dependency # dependencies) =
     (if index \<le> unat dependency then Inl PE_DependencyNotPrior
      else if previous = Some dependency then Inl PE_DuplicateDependency
      else if (case previous of Some p \<Rightarrow> dependency < p | None \<Rightarrow> False) then Inl PE_DependencyNotOrdered
      else check_dependencies index (Some dependency) dependencies)"

fun check_units :: "nat \<Rightarrow> nat option \<Rightarrow> evaluation_unit list \<Rightarrow> plan_error + nat option" where
  "check_units index module_result [] = Inr module_result"
| "check_units index module_result (u # units) =
     (if unat (eu_id u) \<noteq> index then Inl PE_NonSequentialId
      else
        rbind (check_dependencies index None (eu_dependencies u)) (\<lambda>_.
        if eu_kind u = EU_ModuleResult then
          if module_result \<noteq> None then Inl PE_MultipleModuleResults
          else check_units (Suc index) (Some index) units
        else check_units (Suc index) module_result units))"

definition plan_new :: "evaluation_unit list \<Rightarrow> plan_error + evaluation_plan" where
  "plan_new units =
     (if units = [] then Inl PE_Empty
      else
        rbind (check_units 0 None units) (\<lambda>module_result. case module_result of
          None \<Rightarrow> Inl PE_MissingModuleResult
        | Some index \<Rightarrow>
            if index + 1 \<noteq> length units then Inl PE_ModuleResultNotLast
            else Inr \<lparr> ep_units = units \<rparr>))"

section \<open>Failures\<close>

record failure_limits =
  fl_max_propagated_nodes :: nat
  fl_max_causes_per_node :: nat
  fl_max_render_depth :: nat

datatype 'a eval_outcome = OC_Value 'a | OC_Never failure_id

fun outcome_map :: "('a \<Rightarrow> 'b) \<Rightarrow> 'a eval_outcome \<Rightarrow> 'b eval_outcome" where
  "outcome_map f (OC_Value v) = OC_Value (f v)"
| "outcome_map f (OC_Never failure) = OC_Never failure"

fun outcome_failure :: "'a eval_outcome \<Rightarrow> failure_id option" where
  "outcome_failure (OC_Value _) = None"
| "outcome_failure (OC_Never failure) = Some failure"

datatype 'r failure_node =
    FN_Root 'r
  | FN_Propagated failure_operation "loc option" "failure_id list"
  | FN_Truncated "failure_id list"

record propagation_key =
  pk_operation :: failure_operation
  pk_location :: "loc option"
  pk_causes :: "failure_id list"

datatype 'r lineage_step = LS_Root 'r | LS_Propagated failure_operation "loc option" | LS_Truncated

record 'r failure_arena =
  fa_nodes :: "'r failure_node list"
  fa_propagated :: "propagation_key \<rightharpoonup> failure_id"
  fa_propagated_count :: nat
  fa_truncated :: "failure_id option"
  fa_limits :: failure_limits

definition arena_new :: "failure_limits \<Rightarrow> 'r failure_arena" where
  "arena_new limits = \<lparr> fa_nodes = [], fa_propagated = Map.empty, fa_propagated_count = 0,
     fa_truncated = None, fa_limits = limits \<rparr>"

text \<open>An error of the session, or a panic of the code.\<close>

datatype 'r stop = Stop_Failure 'r | Stop_Panic string

definition arena_push ::
    "'r failure_node \<Rightarrow> 'r failure_arena \<Rightarrow> 'r stop + failure_id \<times> 'r failure_arena" where
  "arena_push node arena =
     (case u32_try_from (length (fa_nodes arena)) of
        None \<Rightarrow> Inl (Stop_Panic ''failure arena exceeds u32::MAX nodes'')
      | Some index \<Rightarrow> Inr (index, arena\<lparr> fa_nodes := fa_nodes arena @ [node] \<rparr>))"

definition arena_root ::
    "failure_class \<Rightarrow> 'r \<Rightarrow> 'r failure_arena \<Rightarrow> 'r stop + unit eval_outcome \<times> 'r failure_arena" where
  "arena_root class failure arena =
     (if class = FC_Terminal then Inl (Stop_Failure failure)
      else rbind (arena_push (FN_Root failure) arena) (\<lambda>(i, arena). Inr (OC_Never i, arena)))"

fun normalize_from :: "failure_id list \<Rightarrow> failure_id list \<Rightarrow> nat \<Rightarrow> failure_id list" where
  "normalize_from normalized [] limit = normalized"
| "normalize_from normalized (cause # causes) limit =
     (if cause \<in> set normalized then normalize_from normalized causes limit
      else if length normalized = limit then normalized
      else normalize_from (normalized @ [cause]) causes limit)"

definition normalize_causes :: "failure_id list \<Rightarrow> nat \<Rightarrow> failure_id list" where
  "normalize_causes causes limit = normalize_from [] causes limit"

definition propagate_causes ::
    "failure_operation \<Rightarrow> loc option \<Rightarrow> failure_id list \<Rightarrow> 'r failure_arena \<Rightarrow>
     'r stop + failure_id \<times> 'r failure_arena" where
  "propagate_causes operation location causes arena =
     (let causes = normalize_causes causes (fl_max_causes_per_node (fa_limits arena)) in
      if causes = [] then Inl (Stop_Panic ''propagation requires a Never cause'')
      else
        let key = \<lparr> pk_operation = operation, pk_location = location, pk_causes = causes \<rparr> in
        case fa_propagated arena key of
          Some i \<Rightarrow> Inr (i, arena)
        | None \<Rightarrow>
            if fl_max_propagated_nodes (fa_limits arena) \<le> fa_propagated_count arena then
              (case fa_truncated arena of
                 Some i \<Rightarrow> Inr (i, arena)
               | None \<Rightarrow>
                   rbind (arena_push (FN_Truncated causes) arena) (\<lambda>(i, arena).
                   Inr (i, arena\<lparr> fa_truncated := Some i \<rparr>)))
            else
              rbind (arena_push (FN_Propagated operation location causes) arena) (\<lambda>(i, arena).
              Inr (i, arena\<lparr> fa_propagated := (fa_propagated arena)(key \<mapsto> i),
                fa_propagated_count := fa_propagated_count arena + 1 \<rparr>)))"

definition propagate ::
    "failure_operation \<Rightarrow> loc option \<Rightarrow> 'a eval_outcome list \<Rightarrow> 'r failure_arena \<Rightarrow>
     'r stop + unit eval_outcome option \<times> 'r failure_arena" where
  "propagate operation location inputs arena =
     (let causes = List.map_filter outcome_failure inputs in
      if causes = [] then Inr (None, arena)
      else rbind (propagate_causes operation location causes arena) (\<lambda>(i, arena).
        Inr (Some (OC_Never i), arena)))"

definition failure_node :: "'r failure_arena \<Rightarrow> failure_id \<Rightarrow> 'r failure_node option" where
  "failure_node arena i = nth_opt (fa_nodes arena) (unat i)"

fun lineage_from :: "'r failure_arena \<Rightarrow> nat \<Rightarrow> failure_id \<Rightarrow> 'r lineage_step list" where
  "lineage_from arena 0 current = [LS_Truncated]"
| "lineage_from arena (Suc depth) current =
     (case failure_node arena current of
        Some (FN_Root failure) \<Rightarrow> [LS_Root failure]
      | Some (FN_Propagated operation location causes) \<Rightarrow>
          LS_Propagated operation location # (case causes of
            [] \<Rightarrow> [LS_Truncated]
          | cause # _ \<Rightarrow> lineage_from arena depth cause)
      | Some (FN_Truncated causes) \<Rightarrow>
          LS_Truncated # (case causes of [] \<Rightarrow> [] | cause # _ \<Rightarrow> lineage_from arena depth cause)
      | None \<Rightarrow> [LS_Truncated])"

definition lineage :: "'r failure_arena \<Rightarrow> failure_id \<Rightarrow> 'r lineage_step list" where
  "lineage arena start = lineage_from arena (fl_max_render_depth (fa_limits arena)) start"

section \<open>Sessions\<close>

record 'r unit_failure =
  uf_class :: failure_class
  uf_failure :: 'r

datatype 'v unit_state = US_Pending | US_Value 'v | US_Never failure_id

record ('v, 'r) session =
  ss_states :: "'v unit_state list"
  ss_root_failures :: "failure_id list"
  ss_arena :: "'r failure_arena"
  ss_root_budget_exhausted :: bool

definition session_new :: "failure_limits \<Rightarrow> ('v, 'r) session" where
  "session_new limits = \<lparr> ss_states = [], ss_root_failures = [], ss_arena = arena_new limits,
     ss_root_budget_exhausted = False \<rparr>"

text \<open>The values of the dependencies, and the failures of those that have none.\<close>

fun dependency_states ::
    "'v unit_state list \<Rightarrow> evaluation_unit_id list \<Rightarrow> 'r stop + 'v list \<times> failure_id list" where
  "dependency_states states [] = Inr ([], [])"
| "dependency_states states (dependency # dependencies) =
     (case nth_opt states (unat dependency) of
        None \<Rightarrow> Inl (Stop_Panic ''index out of bounds'')
      | Some US_Pending \<Rightarrow> Inl (Stop_Panic ''validated plans only depend on completed prior units'')
      | Some (US_Value v) \<Rightarrow>
          rbind (dependency_states states dependencies) (\<lambda>(values, failed). Inr (v # values, failed))
      | Some (US_Never failure) \<Rightarrow>
          rbind (dependency_states states dependencies) (\<lambda>(values, failed). Inr (values, failure # failed)))"

type_synonym ('w, 'r) checkpoint = "('w, 'r, unit) eff"
type_synonym ('w, 'v, 'r) execution = "evaluation_unit \<Rightarrow> 'v list \<Rightarrow> 'w \<Rightarrow> ('r unit_failure + 'v) \<times> 'w"

definition stopping :: "('w, 'r, 'a) eff \<Rightarrow> ('w, 'r stop, 'a) eff" where
  "stopping m = (\<lambda>w. case m w of (Inl e, w') \<Rightarrow> (Inl (Stop_Failure e), w') | (Inr x, w') \<Rightarrow> (Inr x, w'))"

definition keep_never :: "failure_id \<Rightarrow> 'r failure_arena \<Rightarrow> ('v, 'r) session \<Rightarrow> ('v, 'r) session" where
  "keep_never i arena s = s\<lparr> ss_arena := arena, ss_states := ss_states s @ [US_Never i] \<rparr>"

definition run_unit ::
    "('w, 'v, 'r) execution \<Rightarrow> evaluation_unit \<Rightarrow> 'v list \<Rightarrow> ('v, 'r) session \<Rightarrow>
     ('w, 'r stop, ('v, 'r) session) eff" where
  "run_unit execute u values s =
     ebind (\<lambda>w. case execute u values w of (r, w') \<Rightarrow> (Inr r, w')) (\<lambda>r. case r of
       Inr v \<Rightarrow> eret (s\<lparr> ss_states := ss_states s @ [US_Value v] \<rparr>)
     | Inl e \<Rightarrow>
         ebind (elift (arena_root (uf_class e) (uf_failure e) (ss_arena s))) (\<lambda>(outcome, arena).
         case outcome_failure outcome of
           None \<Rightarrow> efail (Stop_Panic ''recoverable root returns Never'')
         | Some i \<Rightarrow> eret (keep_never i arena (s\<lparr> ss_root_failures := ss_root_failures s @ [i] \<rparr>))))"

text \<open>The loop over the units; \<open>unit_count\<close> is their number.\<close>

fun run_units ::
    "('w, 'r) checkpoint \<Rightarrow> ('w, 'v, 'r) execution \<Rightarrow> nat \<Rightarrow> nat \<Rightarrow> evaluation_unit list \<Rightarrow>
     ('v, 'r) session \<Rightarrow> ('w, 'r stop, ('v, 'r) session) eff" where
  "run_units checkpoint execute unit_count max_root_failures [] s = eret s"
| "run_units checkpoint execute unit_count max_root_failures (u # units) s =
     ebind (stopping checkpoint) (\<lambda>_.
     ebind (elift (dependency_states (ss_states s) (eu_dependencies u))) (\<lambda>(values, failed).
     if failed \<noteq> [] then
       ebind (elift (propagate_causes (unit_failure_operation (eu_kind u)) (Some (eu_location u)) failed
         (ss_arena s))) (\<lambda>(i, arena).
       run_units checkpoint execute unit_count max_root_failures units (keep_never i arena s))
     else if max_root_failures \<le> length (ss_root_failures s) then
       eret (s\<lparr> ss_root_budget_exhausted := True,
         ss_states := take unit_count (ss_states s) @ replicate (unit_count - length (ss_states s)) US_Pending \<rparr>)
     else
       ebind (run_unit execute u values s) (\<lambda>s.
       run_units checkpoint execute unit_count max_root_failures units s)))"

definition session_run ::
    "evaluation_plan \<Rightarrow> failure_limits \<Rightarrow> nat \<Rightarrow> ('w, 'r) checkpoint \<Rightarrow> ('w, 'v, 'r) execution \<Rightarrow>
     ('w, 'r stop, ('v, 'r) session) eff" where
  "session_run plan limits max_root_failures checkpoint execute =
     ebind (run_units checkpoint execute (length (ep_units plan)) max_root_failures (ep_units plan)
       (session_new limits)) (\<lambda>s.
     ebind (stopping checkpoint) (\<lambda>_. eret s))"

definition session_output :: "('v, 'r) session \<Rightarrow> 'v option" where
  "session_output s =
     (if ss_root_failures s \<noteq> [] \<or> ss_root_budget_exhausted s then None
      else if ss_states s = [] then None
      else case last (ss_states s) of US_Value v \<Rightarrow> Some v | _ \<Rightarrow> None)"

end
