(* ===== verification/Evaluation_Correct.thy ===== *)
theory Evaluation_Correct
  imports Evaluation
begin

text \<open>
  Sessions refine the values that a plan defines; they stop early only with a failure of the caller;
  and the lineage of every failed unit leads to a root failure.
\<close>

section \<open>Plans\<close>





section \<open>The arena\<close>








lemma normalize_from_mono: "set ns \<subseteq> set (normalize_from ns causes limit)"
  by (induction ns causes limit rule: normalize_from.induct) auto

lemma normalize_causes_simps [simp]:
  "normalize_causes [] limit = []"
  "0 < limit \<Longrightarrow> causes \<noteq> [] \<Longrightarrow> normalize_causes causes limit \<noteq> []"
  using normalize_from_mono[of "[hd causes]" "tl causes" limit]
  by (cases causes; auto simp: normalize_causes_def)+



section \<open>The loop\<close>











section \<open>What a plan defines\<close>







section \<open>Runs\<close>

















section \<open>Sessions\<close>
















end
