(* ===== verification/Metadata.thy ===== *)
theory Metadata
  imports Types
begin

text \<open>
  Types as values (\<open>to_value\<close>, \<open>decode_type\<close> and \<open>infer_value\<close> of
  \<open>crates/telora-core/src/types.rs\<close>): the record that a program sees when it handles a type, and
  the decoder that reads such a record, with the attribute wrappers it sees through. A panic of the
  code is a fault of its own.
\<close>

section \<open>Faults\<close>

text \<open>
  An error that the code returns, a panic, and, for recursions over a heap that may be cyclic, a call
  that does not end.
\<close>

datatype fault = Reported string | Panicked string | Endless

definition expecting :: "string \<Rightarrow> 'a option \<Rightarrow> fault + 'a" where
  "expecting message = ok_or (Panicked message)"

lemma expecting_simps [simp]:
  "expecting m (Some x) = Inr x" "expecting m None = Inl (Panicked m)"
  "expecting m v = Inr x \<longleftrightarrow> v = Some x"
  by (simp_all add: expecting_def)

section \<open>Dicts\<close>

text \<open>
  \<open>Vm::make_dict\<close> sorts the entries and refuses a name that occurs twice. \<open>Dict::get\<close> on a dict of
  the tree representation; the shape and the values of a dict have the same length.
\<close>

definition value_dict :: "(string \<times> val) list \<Rightarrow> string + val" where
  "value_dict entries =
     (let sorted = sort_key fst entries
      in if \<not> distinct_adj (map fst sorted) then Inl ''Dict contains a duplicate field''
         else Inr (VDict (map fst sorted) (map snd sorted)))"

definition metadata_get :: "string list \<Rightarrow> val list \<Rightarrow> string \<Rightarrow> val option" where
  "metadata_get fs vs field = Option.bind (shape_field_index fs field) (nth_opt vs)"

definition metadata_entry :: "string list \<Rightarrow> val list \<Rightarrow> string \<Rightarrow> fault + val" where
  "metadata_entry fs vs field = expecting ''required field'' (metadata_get fs vs field)"

definition require_fields ::
    "(string \<Rightarrow> string) \<Rightarrow> string list \<Rightarrow> string \<Rightarrow> string list \<Rightarrow> fault + unit" where
  "require_fields quote actual path wanted =
     (if actual \<noteq> wanted then
        Inl (Reported (path @ '' has fields ['' @ join_with '', '' (map quote actual) @
          ''], expected ['' @ join_with '', '' (map quote wanted) @ '']''))
      else Inr ())"

lemma metadata_get_size [termination_simp]:
  "metadata_get fs vs field = Some v \<Longrightarrow> size v < Suc (size_list size vs)"
  by (auto simp: metadata_get_def bind_eq_Some_conv less_Suc_eq_le intro!: size_list_estimation' nth_mem)

lemma metadata_entry_size [termination_simp]:
  "metadata_entry fs vs field = Inr v \<Longrightarrow> size v < Suc (size_list size vs)"
  by (simp add: metadata_entry_def metadata_get_size)

section \<open>From types to values\<close>

definition kind_entry :: "string \<Rightarrow> string \<times> val" where
  "kind_entry kind = (''kind'', val_atom kind)"

definition metadata :: "(string \<times> val) list \<Rightarrow> fault + val" where
  "metadata entries = map_err (\<lambda>_. Panicked ''Type metadata fields are unique'') (value_dict entries)"

text \<open>The value of a type; an inference variable has none.\<close>

fun to_value :: "type_descriptor \<Rightarrow> fault + val" where
  "to_value (TBound p) = metadata [kind_entry ''Bound'', (''parameter'', VInt (ucast p))]"
| "to_value (TInference _) = Inl (Panicked ''inference variables are not runtime type metadata'')"
| "to_value TAny = metadata [kind_entry ''Any'']"
| "to_value TNever = metadata [kind_entry ''Never'']"
| "to_value TType = metadata [kind_entry ''Type'']"
| "to_value TDyn = metadata [kind_entry ''Dyn'']"
| "to_value (TTypeOf t) =
     rbind (to_value t) (\<lambda>v. metadata [kind_entry ''TypeOf'', (''instance'', v)])"
| "to_value TInt = metadata [kind_entry ''Int'']"
| "to_value TFloat = metadata [kind_entry ''Float'']"
| "to_value TString = metadata [kind_entry ''String'']"
| "to_value TBytes = metadata [kind_entry ''Bytes'']"
| "to_value (TOpaque n) = Inr (VNativeType n)"
| "to_value (TAtom a) = metadata [kind_entry ''Atom'', (''tag'', VAtom a)]"
| "to_value (TArray t) =
     rbind (to_value t) (\<lambda>v. metadata [kind_entry ''Array'', (''item'', v)])"
| "to_value (TDict t) =
     rbind (to_value t) (\<lambda>v. metadata [kind_entry ''Dict'', (''item'', v)])"
| "to_value (TTagged a t) =
     rbind (to_value t) (\<lambda>v. metadata [kind_entry ''Tagged'', (''tag'', VAtom a), (''payload'', v)])"
| "to_value (TTuple ts) =
     rbind (collect_results to_value ts) (\<lambda>vs. metadata [kind_entry ''Tuple'', (''items'', VArray vs)])"
| "to_value (TStruct fs) =
     rbind (collect_results (\<lambda>(name, t). rbind (to_value t) (\<lambda>v. Inr (name, v))) fs) (\<lambda>entries.
     rbind (map_err (\<lambda>_. Panicked ''Type Struct fields are unique'') (value_dict entries)) (\<lambda>v.
       metadata [kind_entry ''Struct'', (''fields'', v)]))"
| "to_value (TEnum vs) =
     rbind (collect_results (\<lambda>(name, payload). case payload of
         None \<Rightarrow> Inr (name, val_none)
       | Some t \<Rightarrow> rbind (to_value t) (\<lambda>v. Inr (name, v))) vs) (\<lambda>entries.
     rbind (map_err (\<lambda>_. Panicked ''Type Enum variants are unique'') (value_dict entries)) (\<lambda>v.
       metadata [kind_entry ''Enum'', (''variants'', v)]))"
| "to_value (TUnion ts) =
     rbind (collect_results to_value ts) (\<lambda>vs. metadata [kind_entry ''Union'', (''variants'', VArray vs)])"
| "to_value (TFunction ps r) =
     rbind (collect_results to_value ps) (\<lambda>vs. rbind (to_value r) (\<lambda>v.
       metadata [kind_entry ''Function'', (''parameters'', VArray vs), (''result'', v)]))"

section \<open>From values to types\<close>

definition is_wrapper :: "string list \<Rightarrow> val list \<Rightarrow> bool" where
  "is_wrapper fs vs = (case metadata_get fs vs ''kind'' of
     Some (VAtom kind) \<Rightarrow> atom_name kind = ''WithAttributes'' | _ \<Rightarrow> False)"

text \<open>The value inside a wrapper that has the three fields of one.\<close>

definition wrapped_value :: "(string \<Rightarrow> string) \<Rightarrow> string list \<Rightarrow> val list \<Rightarrow> string \<Rightarrow> fault + val" where
  "wrapped_value quote fs vs path =
     rbind (require_fields quote fs path [''attributes'', ''inner'', ''kind'']) (\<lambda>_.
     case metadata_get fs vs ''attributes'' of
       Some (VDict _ _) \<Rightarrow> metadata_entry fs vs ''inner''
     | _ \<Rightarrow> Inl (Reported (path @ ''.attributes must be a Dict'')))"

lemma wrapped_value_size [termination_simp]:
  "wrapped_value quote fs vs path = Inr v \<Longrightarrow> size v < Suc (size_list size vs)"
  by (auto simp: wrapped_value_def result_simps metadata_entry_size split: option.splits val.splits)

function (sequential) strip_attributes_value ::
    "(string \<Rightarrow> string) \<Rightarrow> string \<Rightarrow> val \<Rightarrow> fault + val" where
  "strip_attributes_value quote path (VDict fs vs) =
     (if \<not> is_wrapper fs vs then Inr (VDict fs vs)
      else rbind (wrapped_value quote fs vs path) (strip_attributes_value quote path))"
| "strip_attributes_value quote path v = Inr v"
  by pat_completeness auto
termination
  by (relation "measure (\<lambda>(_, _, v). size v)") (auto simp: termination_simp)

text \<open>The kinds without a component.\<close>

definition simple_kind :: "string \<Rightarrow> type_descriptor option" where
  "simple_kind kind = map_of
     [(''Any'', TAny), (''Never'', TNever), (''Type'', TType), (''Dyn'', TDyn), (''Int'', TInt),
      (''Float'', TFloat), (''String'', TString), (''Bytes'', TBytes)] kind"

definition array_of :: "string \<Rightarrow> val \<Rightarrow> fault + val list" where
  "array_of path v = (case v of
     VArray vs \<Rightarrow> Inr vs | _ \<Rightarrow> Inl (Reported (path @ '' must be an Array'')))"

definition dict_of :: "string \<Rightarrow> val \<Rightarrow> fault + (string list \<times> val list)" where
  "dict_of path v = (case v of
     VDict fs vs \<Rightarrow> Inr (fs, vs) | _ \<Rightarrow> Inl (Reported (path @ '' must be a Dict'')))"

definition atom_of_type :: "string \<Rightarrow> val \<Rightarrow> fault + atom" where
  "atom_of_type path v = (case v of
     VAtom a \<Rightarrow> Inr a | _ \<Rightarrow> Inl (Reported (path @ '' must be an Atom'')))"

definition indexed :: "string \<Rightarrow> nat \<Rightarrow> string" where
  "indexed path index = path @ ''['' @ show_nat index @ '']''"

lemma parts_of [simp]:
  "array_of path v = Inr items \<longleftrightarrow> v = VArray items"
  "dict_of path v = Inr (fs, vs) \<longleftrightarrow> v = VDict fs vs"
  "atom_of_type path v = Inr a \<longleftrightarrow> v = VAtom a"
  by (auto simp: array_of_def dict_of_def atom_of_type_def split: val.splits)

text \<open>The arms of the decoder that do not decode anything themselves.\<close>

definition bound_parameter :: "string list \<Rightarrow> val list \<Rightarrow> string \<Rightarrow> fault + type_descriptor" where
  "bound_parameter fs vs path = (case metadata_get fs vs ''parameter'' of
     Some (VInt i) \<Rightarrow>
       if 0 \<le> sint i \<and> sint i < 2 ^ 32 then Inr (TBound (ucast i))
       else Inl (Reported (path @ ''.parameter must be a non-negative Int''))
   | _ \<Rightarrow> Inl (Reported (path @ ''.parameter must be an Int'')))"

lemma size_nested [termination_simp]:
  "metadata_entry fs vs field = Inr (VArray items) \<Longrightarrow> x \<in> set items \<Longrightarrow>
     size x < Suc (size_list size vs)"
  "metadata_entry fs vs field = Inr (VDict gs items) \<Longrightarrow> x \<in> set items \<Longrightarrow>
     size x < Suc (size_list size vs)"
  by (drule metadata_entry_size; simp; drule size_list_estimation'[OF _ order_refl, where f = size]; simp)+

lemma size_stripped [termination_simp]:
  "strip_attributes_value quote path v = Inr w \<Longrightarrow> size w \<le> size v"
proof (induction quote path v rule: strip_attributes_value.induct)
  case (1 quote path fs vs)
  then show ?case
    by (fastforce simp: result_simps split: if_splits dest: wrapped_value_size)
qed auto

lemma size_entries [termination_simp]:
  "metadata_entry fs vs field = Inr (VArray items) \<Longrightarrow> (i, x) \<in> set (enumerate 0 items) \<Longrightarrow>
     size x < Suc (size_list size vs)"
  "metadata_entry fs vs field = Inr (VDict gs items) \<Longrightarrow> (name, x) \<in> set (zip gs items) \<Longrightarrow>
     size x < Suc (size_list size vs)"
  by (auto simp: in_set_enumerate_eq intro: size_nested dest: set_zip_rightD)

lemma size_stripped_entry [termination_simp]:
  assumes "metadata_entry fs vs field = Inr (VDict gs items)" "(name, x) \<in> set (zip gs items)"
    and "strip_attributes_value quote path x = Inr y"
  shows "size y < Suc (size_list size vs)"
  using size_entries(2)[OF assms(1,2)] size_stripped[OF assms(3)] by simp

text \<open>
  The decoder. Its caller gives the path that its messages name; the names of a dict are sorted, so
  the map it collects them into keeps their order.
\<close>

function (sequential) decode_type ::
    "(string \<Rightarrow> string) \<Rightarrow> val \<Rightarrow> string \<Rightarrow> fault + type_descriptor" where
  "decode_type quote (VNativeType n) path = Inr (TOpaque n)"
| "decode_type quote (VDict fs vs) path =
     (case metadata_get fs vs ''kind'' of
        None \<Rightarrow> Inl (Reported (path @ ''.kind is missing''))
      | Some value \<Rightarrow> rbind (atom_of_type (path @ ''.kind'') value) (\<lambda>a.
        let kind = atom_name a; require = require_fields quote fs path; entry = metadata_entry fs vs
        in
        if kind = ''WithAttributes'' then
          rbind (wrapped_value quote fs vs path) (\<lambda>v. decode_type quote v path)
        else if kind = ''Bound'' \<or> kind = CHR 0x27 # ''Bound'' then
          rbind (require [''kind'', ''parameter'']) (\<lambda>_. bound_parameter fs vs path)
        else if kind = ''TypeOf'' then
          rbind (require [''instance'', ''kind'']) (\<lambda>_.
          rbind (entry ''instance'') (\<lambda>v.
          rbind (decode_type quote v (path @ ''.instance'')) (\<lambda>t. Inr (TTypeOf t))))
        else if kind = ''Atom'' then
          rbind (require [''kind'', ''tag'']) (\<lambda>_.
          rbind (entry ''tag'') (\<lambda>v.
          rbind (atom_of_type (path @ ''.tag'') v) (\<lambda>tag. Inr (TAtom tag))))
        else if kind = ''Array'' then
          rbind (require [''item'', ''kind'']) (\<lambda>_.
          rbind (entry ''item'') (\<lambda>v.
          rbind (decode_type quote v (path @ ''.item'')) (\<lambda>t. Inr (TArray t))))
        else if kind = ''Dict'' then
          rbind (require [''item'', ''kind'']) (\<lambda>_.
          rbind (entry ''item'') (\<lambda>v.
          rbind (decode_type quote v (path @ ''.item'')) (\<lambda>t. Inr (TDict t))))
        else if kind = ''Tagged'' then
          rbind (require [''kind'', ''payload'', ''tag'']) (\<lambda>_.
          rbind (entry ''tag'') (\<lambda>v.
          rbind (atom_of_type (path @ ''.tag'') v) (\<lambda>tag.
          rbind (entry ''payload'') (\<lambda>payload.
          rbind (decode_type quote payload (path @ ''.payload'')) (\<lambda>t. Inr (TTagged tag t))))))
        else if kind = ''Tuple'' then
          rbind (require [''items'', ''kind'']) (\<lambda>_.
          rbind (entry ''items'') (\<lambda>v.
          rbind (array_of (path @ ''.items'') v) (\<lambda>items.
          rbind (collect_results (\<lambda>(index, item).
              decode_type quote item (indexed (path @ ''.items'') index)) (enumerate 0 items)) (\<lambda>ts.
          Inr (TTuple ts)))))
        else if kind = ''Struct'' then
          rbind (require [''fields'', ''kind'']) (\<lambda>_.
          rbind (entry ''fields'') (\<lambda>v.
          rbind (dict_of (path @ ''.fields'') v) (\<lambda>(names, values).
          rbind (collect_results (\<lambda>(name, field).
              rbind (decode_type quote field (path @ ''.fields.'' @ name)) (\<lambda>t. Inr (name, t)))
            (zip names values)) (\<lambda>entries.
          Inr (TStruct entries)))))
        else if kind = ''Enum'' then
          rbind (require [''kind'', ''variants'']) (\<lambda>_.
          rbind (entry ''variants'') (\<lambda>v.
          rbind (dict_of (path @ ''.variants'') v) (\<lambda>(names, values).
          if values = [] then Inl (Reported (path @ ''.variants must not be empty''))
          else
            rbind (collect_results (\<lambda>(name, variant).
                let variant_path = path @ ''.variants.'' @ name
                in rbind (strip_attributes_value quote variant_path variant) (\<lambda>inner.
                   if (case inner of VAtom a \<Rightarrow> atom_name a = ''None'' | _ \<Rightarrow> False)
                   then Inr (name, None)
                   else rbind (decode_type quote inner variant_path) (\<lambda>t. Inr (name, Some t))))
              (zip names values)) (\<lambda>entries.
            Inr (TEnum entries)))))
        else if kind = ''Union'' then
          rbind (require [''kind'', ''variants'']) (\<lambda>_.
          rbind (entry ''variants'') (\<lambda>v.
          rbind (array_of (path @ ''.variants'') v) (\<lambda>variants.
          if variants = [] then Inl (Reported (path @ ''.variants must not be empty''))
          else
            rbind (collect_results (\<lambda>(index, variant).
                decode_type quote variant (indexed (path @ ''.variants'') index))
              (enumerate 0 variants)) (\<lambda>ts.
            Inr (TUnion ts)))))
        else if kind = ''Function'' then
          rbind (require [''kind'', ''parameters'', ''result'']) (\<lambda>_.
          rbind (entry ''parameters'') (\<lambda>v.
          rbind (array_of (path @ ''.parameters'') v) (\<lambda>parameters.
          rbind (collect_results (\<lambda>(index, parameter).
              decode_type quote parameter (indexed (path @ ''.parameters'') index))
            (enumerate 0 parameters)) (\<lambda>ps.
          rbind (entry ''result'') (\<lambda>result.
          rbind (decode_type quote result (path @ ''.result'')) (\<lambda>r.
          Inr (TFunction ps r)))))))
        else (case simple_kind kind of
            Some t \<Rightarrow> rbind (require [''kind'']) (\<lambda>_. Inr t)
          | None \<Rightarrow> Inl (Reported (path @ ''.kind has unknown value '' @ CHR 0x27 # kind)))))"
| "decode_type quote value path = Inl (Reported (path @ '' must be a Dict''))"
  by pat_completeness auto
termination
  by (relation "measure (\<lambda>(_, v, _). size v)") (auto simp: termination_simp)

end
