(* ===== verification/Metadata_Correct.thy ===== *)
theory Metadata_Correct
  imports Metadata Assignability
begin

text \<open>
  What the values of types promise: the decoder reads back the type that a value was made from, and
  the attribute wrappers do not change what it reads.
\<close>

section \<open>Types with a value\<close>

text \<open>
  No inference variable is left in the type, its maps are in the order of their keys, and its unions
  and enums are not empty.
\<close>

definition own_describable :: "type_descriptor \<Rightarrow> bool" where
  "own_describable t = (case t of
     TInference _ \<Rightarrow> False
   | TStruct fs \<Rightarrow> sorted_wrt (<) (map fst fs)
   | TEnum vs \<Rightarrow> vs \<noteq> [] \<and> sorted_wrt (<) (map fst vs)
   | TUnion ts \<Rightarrow> ts \<noteq> []
   | _ \<Rightarrow> True)"

fun describable :: "type_descriptor \<Rightarrow> bool" where
  "describable t \<longleftrightarrow> own_describable t \<and> list_all describable (children t)"

declare describable.simps [simp del]

section \<open>Records\<close>

lemma distinct_adjacent: "distinct xs \<Longrightarrow> distinct_adj xs"
  by (induction xs rule: induct_list012) auto

lemma value_dict_sorted:
  assumes "sorted_wrt (<) (map fst entries)"
  shows "value_dict entries = Inr (VDict (map fst entries) (map snd entries))"
proof -
  have "sorted (map fst entries)" "distinct (map fst entries)"
    using assms by (auto simp: strict_sorted_iff)
  then have "sort_key fst entries = entries" "distinct_adj (map fst entries)"
    by (auto intro: properties_for_sort_key distinct_adjacent)
  then show ?thesis by (simp add: value_dict_def)
qed

lemma names_below [simp]:
  "''kind'' < ''parameter''" "''instance'' < ''kind''" "''kind'' < ''tag''" "''item'' < ''kind''"
  "''items'' < ''kind''" "''fields'' < ''kind''" "''kind'' < ''variants''" "''kind'' < ''payload''"
  "''payload'' < ''tag''" "''kind'' < ''parameters''" "''parameters'' < ''result''"
  "''kind'' < ''result''"
  by code_simp+

text \<open>Two or three entries are sorted when their order is known.\<close>

lemma value_dict_few:
  "value_dict [(a, u)] = Inr (VDict [a] [u])"
  "a < b \<Longrightarrow> value_dict [(a, u), (b, v)] = Inr (VDict [a, b] [u, v])"
  "a < b \<Longrightarrow> value_dict [(b, v), (a, u)] = Inr (VDict [a, b] [u, v])"
  "a < b \<Longrightarrow> b < c \<Longrightarrow> value_dict [(a, u), (b, v), (c, w)] = Inr (VDict [a, b, c] [u, v, w])"
  "a < b \<Longrightarrow> b < c \<Longrightarrow> value_dict [(a, u), (c, w), (b, v)] = Inr (VDict [a, b, c] [u, v, w])"
  by (auto simp: value_dict_def Let_def)

lemma metadata_get_map_of:
  assumes "sorted_wrt (<) fs" "length vs = length fs"
  shows "metadata_get fs vs field = map_of (zip fs vs) field"
proof -
  have "i < length fs" if "shape_field_index fs field = Some i" for i
    using that binary_search_by_cmp[of "\<lambda>x. x" fs "length fs" "\<lambda>c. cmp c field" field] assms(1)
    by (simp add: shape_field_index_def)
  then have "metadata_get fs vs field = dict_value_get fs vs field"
    using assms(2) by (auto simp: metadata_get_def dict_value_get_def split: option.splits Option.bind_splits)
  with dict_value_get_map_of[OF assms] show ?thesis by simp
qed

text \<open>The record of a kind, and what the decoder finds in it.\<close>

lemma described:
  "metadata [kind_entry kind] = Inr (VDict [''kind''] [val_atom kind])"
  "field < ''kind'' \<Longrightarrow>
     metadata [kind_entry kind, (field, v)] = Inr (VDict [field, ''kind''] [v, val_atom kind])"
  "''kind'' < field \<Longrightarrow>
     metadata [kind_entry kind, (field, v)] = Inr (VDict [''kind'', field] [val_atom kind, v])"
  "metadata [kind_entry kind, (''tag'', t), (''payload'', v)] =
     Inr (VDict [''kind'', ''payload'', ''tag''] [val_atom kind, v, t])"
  "metadata [kind_entry kind, (''parameters'', t), (''result'', v)] =
     Inr (VDict [''kind'', ''parameters'', ''result''] [val_atom kind, t, v])"
  by (simp_all add: metadata_def kind_entry_def value_dict_few)

text \<open>A value that the decoder reads as a type, and that no wrapper hides.\<close>

definition reads_as :: "(string \<Rightarrow> string) \<Rightarrow> type_descriptor \<Rightarrow> val \<Rightarrow> bool" where
  "reads_as quote t v \<longleftrightarrow> (\<forall>path. decode_type quote v path = Inr t) \<and>
     (\<forall>path. strip_attributes_value quote path v = Inr v) \<and> (\<forall>a. v \<noteq> VAtom a)"

lemma collect_results_related:
  assumes "\<And>x. x \<in> set xs \<Longrightarrow> \<exists>y. f x = Inr y \<and> R x y"
  shows "\<exists>ys. collect_results f xs = Inr ys \<and> list_all2 R xs ys"
  using assms
proof (induction xs)
  case (Cons x xs)
  then obtain y ys where "f x = Inr y" "R x y" "collect_results f xs = Inr ys" "list_all2 R xs ys"
    by (metis list.set_intros)
  then show ?case by simp
qed simp

lemma decode_items:
  "list_all2 (reads_as quote) ts vs \<Longrightarrow>
     collect_results (\<lambda>(index, v). decode_type quote v (indexed path index)) (enumerate n vs) = Inr ts"
  by (induction ts vs arbitrary: n rule: list_all2_induct) (auto simp: reads_as_def)

lemma decode_fields:
  "list_all2 (\<lambda>(k, t) (k', v). k' = k \<and> reads_as quote t v) fs entries \<Longrightarrow>
     collect_results (\<lambda>(name, field).
       rbind (decode_type quote field (path @ name)) (\<lambda>t. Inr (name, t))) entries = Inr fs"
  by (induction fs entries rule: list_all2_induct) (auto simp: reads_as_def)

lemma same_names:
  "list_all2 (\<lambda>(k, x) (k', y). k' = k \<and> R x y) fs entries \<Longrightarrow> map fst entries = map fst fs"
  by (induction fs entries rule: list_all2_induct) auto

lemmas decoding = reads_as_def metadata_get_map_of metadata_entry_def require_fields_def
  val_atom_def is_wrapper_def simple_kind_def atom_of_type_def

lemma simple_reads:
  "simple_kind kind = Some t \<Longrightarrow> reads_as quote t (VDict [''kind''] [val_atom kind])"
  by (auto simp: decoding split: if_splits)

section \<open>The round trip\<close>

lemma parameter_fits:
  fixes p :: u32
  shows "0 \<le> sint (ucast p :: i64)" "sint (ucast p :: i64) < 4294967296" "ucast (ucast p :: i64) = p"
proof -
  have "sint (ucast p :: i64) = uint p"
    by transfer (simp add: signed_take_bit_int_eq_self take_bit_int_less_exp[of 32, THEN less_trans]
      take_bit_nonnegative[THEN order.trans[rotated]])
  then show "0 \<le> sint (ucast p :: i64)" "sint (ucast p :: i64) < 4294967296"
    using uint_bounded[of p] by simp_all
  show "ucast (ucast p :: i64) = p" by transfer simp
qed

lemma reads_record:
  "reads_as quote t v \<Longrightarrow> reads_as quote (TTypeOf t) (VDict [''instance'', ''kind''] [v, val_atom ''TypeOf''])"
  "reads_as quote t v \<Longrightarrow> reads_as quote (TArray t) (VDict [''item'', ''kind''] [v, val_atom ''Array''])"
  "reads_as quote t v \<Longrightarrow> reads_as quote (TDict t) (VDict [''item'', ''kind''] [v, val_atom ''Dict''])"
  "reads_as quote (TAtom a) (VDict [''kind'', ''tag''] [val_atom ''Atom'', VAtom a])"
  "reads_as quote (TBound p) (VDict [''kind'', ''parameter''] [val_atom ''Bound'', VInt (ucast p)])"
  "reads_as quote t v \<Longrightarrow>
     reads_as quote (TTagged a t) (VDict [''kind'', ''payload'', ''tag''] [val_atom ''Tagged'', v, VAtom a])"
  "reads_as quote (TOpaque n) (VNativeType n)"
  by (auto simp: decoding bound_parameter_def parameter_fits)

lemma reads_items:
  assumes "list_all2 (reads_as quote) ts vs"
  shows "reads_as quote (TTuple ts) (VDict [''items'', ''kind''] [VArray vs, val_atom ''Tuple''])"
    "ts \<noteq> [] \<Longrightarrow>
       reads_as quote (TUnion ts) (VDict [''kind'', ''variants''] [val_atom ''Union'', VArray vs])"
    "reads_as quote r v \<Longrightarrow> reads_as quote (TFunction ts r)
       (VDict [''kind'', ''parameters'', ''result''] [val_atom ''Function'', VArray vs, v])"
  using assms decode_items[OF assms] by (auto simp: decoding array_of_def)

lemma reads_entries:
  assumes "list_all2 (\<lambda>(k, t) (k', v). k' = k \<and> reads_as quote t v) fs entries"
  shows "reads_as quote (TStruct fs)
    (VDict [''fields'', ''kind''] [VDict (map fst entries) (map snd entries), val_atom ''Struct''])"
  using decode_fields[OF assms, where path = "path @ ''.fields.''" for path]
  by (simp add: decoding dict_of_def zip_map_fst_snd)

definition reads_variant :: "(string \<Rightarrow> string) \<Rightarrow> type_descriptor option \<Rightarrow> val \<Rightarrow> bool" where
  "reads_variant quote payload v = (case payload of None \<Rightarrow> v = val_none | Some t \<Rightarrow> reads_as quote t v)"

lemma reads_variants:
  assumes "list_all2 (\<lambda>(k, p) (k', v). k' = k \<and> reads_variant quote p v) vs entries" "vs \<noteq> []"
  shows "reads_as quote (TEnum vs)
    (VDict [''kind'', ''variants''] [val_atom ''Enum'', VDict (map fst entries) (map snd entries)])"
proof -
  have "collect_results (\<lambda>(name, variant).
      rbind (strip_attributes_value quote (path @ name) variant) (\<lambda>inner.
        if (case inner of VAtom a \<Rightarrow> atom_name a = ''None'' | _ \<Rightarrow> False) then Inr (name, None)
        else rbind (decode_type quote inner (path @ name)) (\<lambda>t. Inr (name, Some t)))) entries = Inr vs"
    for path
    using assms(1)
  proof (induction vs entries rule: list_all2_induct)
    case (Cons x xs y ys)
    then show ?case
      by (cases x; cases y)
        (auto simp: reads_variant_def reads_as_def val_none_def split: option.splits val.splits)
  qed simp
  from this[where path = "path @ ''.variants.''" for path] assms show ?thesis
    by (auto simp: decoding dict_of_def zip_map_fst_snd Let_def cong: if_cong)
qed

text \<open>The value of a type exists and is read back.\<close>

lemma to_value_reads:
  "describable t \<Longrightarrow> \<exists>v. to_value t = Inr v \<and> reads_as quote t v"
proof (induction t rule: children_induct)
  case (node t)
  have own: "own_describable t" and sub: "list_all describable (children t)"
    using node.prems by (subst (asm) describable.simps; simp)+
  have child: "\<exists>v. to_value x = Inr v \<and> reads_as quote x v" if "x \<in> set (children t)" for x
    using node.IH[OF that] sub that by (simp add: list_all_iff)
  show ?case
  proof (cases t)
    case (TTuple ts)
    then obtain vs where "collect_results to_value ts = Inr vs" "list_all2 (reads_as quote) ts vs"
      using collect_results_related[of ts to_value "reads_as quote"] child by auto
    then show ?thesis by (simp add: TTuple described reads_items)
  next
    case (TUnion ts)
    then obtain vs where "collect_results to_value ts = Inr vs" "list_all2 (reads_as quote) ts vs"
      using collect_results_related[of ts to_value "reads_as quote"] child by auto
    then show ?thesis using own by (simp add: TUnion described reads_items own_describable_def)
  next
    case (TFunction ps r)
    then obtain vs where "collect_results to_value ps = Inr vs" "list_all2 (reads_as quote) ps vs"
      using collect_results_related[of ps to_value "reads_as quote"] child by auto
    moreover obtain v where "to_value r = Inr v" "reads_as quote r v" using child[of r] TFunction by auto
    ultimately show ?thesis by (simp add: TFunction described reads_items)
  next
    case (TStruct fs)
    let ?R = "\<lambda>(k, t) (k', v). k' = k \<and> reads_as quote t v"
    obtain entries where e: "collect_results (\<lambda>(name, t). rbind (to_value t) (\<lambda>v. Inr (name, v))) fs =
        Inr entries" "list_all2 ?R fs entries"
      using collect_results_related[of fs "\<lambda>(name, t). rbind (to_value t) (\<lambda>v. Inr (name, v))" ?R] child
      by (force simp: TStruct)
    then have "value_dict entries = Inr (VDict (map fst entries) (map snd entries))"
      using own by (intro value_dict_sorted) (simp add: TStruct own_describable_def same_names)
    with e show ?thesis by (simp add: TStruct described reads_entries)
  next
    case (TEnum vs)
    let ?R = "\<lambda>(k, p) (k', v). k' = k \<and> reads_variant quote p v"
    let ?f = "\<lambda>(name, payload). case payload of None \<Rightarrow> Inr (name, val_none)
      | Some t \<Rightarrow> rbind (to_value t) (\<lambda>v. Inr (name, v))"
    have "\<exists>y. ?f x = Inr y \<and> ?R x y" if "x \<in> set vs" for x
    proof -
      obtain k p where x: "x = (k, p)" by fastforce
      have "\<exists>v. to_value u = Inr v \<and> reads_as quote u v" if "p = Some u" for u
        using child[of u] \<open>x \<in> set vs\<close> that by (auto simp: TEnum set_payloads x)
      then show ?thesis by (cases p) (auto simp: x reads_variant_def)
    qed
    then obtain entries where e: "collect_results ?f vs = Inr entries" "list_all2 ?R vs entries"
      using collect_results_related[of vs ?f ?R] by blast
    then have "value_dict entries = Inr (VDict (map fst entries) (map snd entries))"
      using own by (intro value_dict_sorted) (simp add: TEnum own_describable_def same_names)
    with e own show ?thesis
      by (simp add: TEnum described reads_variants own_describable_def)
  qed (use own child in \<open>auto simp: described reads_record own_describable_def simple_reads simple_kind_def\<close>)
qed

text \<open>
  C25. A type that is turned into the value a program sees is read back as it was: \<open>to_value\<close> does
  not panic on a type without inference variables whose maps are in the order of their keys and whose
  unions and enums are not empty, and \<open>decode_type\<close> reads that very type from the value, whatever
  the path and however strings are quoted in messages.
\<close>

theorem type_metadata_roundtrip:
  assumes "describable t"
  shows "\<exists>v. to_value t = Inr v \<and> decode_type quote v path = Inr t"
  using to_value_reads[OF assms, of quote] by (auto simp: reads_as_def)

theorem type_metadata_roundtrip_witness:
  "\<exists>v. to_value (TEnum [(''Node'', Some (TStruct [(''next'', TOpaque \<lparr>nt_id = \<lparr>nti_module = 1, nti_local = 2\<rparr>,
       nt_qualified_name = ''m.T''\<rparr>), (''size'', TUnion [TInt, TBound 3])])), (''Stop'', None)]) = Inr v \<and>
     decode_type (\<lambda>s. s) v ''Type'' = Inr (TEnum [(''Node'', Some (TStruct [(''next'', TOpaque
       \<lparr>nt_id = \<lparr>nti_module = 1, nti_local = 2\<rparr>, nt_qualified_name = ''m.T''\<rparr>),
       (''size'', TUnion [TInt, TBound 3])])), (''Stop'', None)])"
  by (rule type_metadata_roundtrip) code_simp

end
