(* ===== verification/Patterns.thy ===== *)
theory Patterns
  imports Ast Types
begin

text \<open>
  What the type checker knows of a pattern (\<open>crates/telora-core/src/pattern.rs\<close>): whether it can
  match values of the type it is matched against, whether it matches all of them, which variants of
  an enum it covers, and the names it binds. How a string is quoted in a message is the parameter
  \<open>quote\<close>.
\<close>

datatype pattern_compatibility = PC_Compatible | PC_Incompatible | PC_Unknown

record pattern_binding =
  pb_name :: string
  pb_location :: loc
  pb_type :: type_descriptor

record duplicate_pattern_binding =
  db_name :: string
  db_location :: loc

record pattern_problem =
  pp_location :: loc
  pp_message :: string

record pattern_shape =
  ps_compatibility :: pattern_compatibility
  ps_irrefutable :: bool
  ps_covered :: "string set"
  ps_possible :: "string set"

record analysis_context =
  ac_names :: "string set"
  ac_bindings :: "pattern_binding list"
  ac_duplicates :: "duplicate_pattern_binding list"
  ac_problems :: "pattern_problem list"

record pattern_analysis =
  pa_bindings :: "pattern_binding list"
  pa_duplicates :: "duplicate_pattern_binding list"
  pa_problems :: "pattern_problem list"
  pa_compatibility :: pattern_compatibility
  pa_irrefutable :: bool
  pa_covered :: "string set"
  pa_possible :: "string set"

section \<open>Shapes\<close>

definition shape_new :: "pattern_compatibility \<Rightarrow> bool \<Rightarrow> pattern_shape" where
  "shape_new compatibility irrefutable =
     \<lparr>ps_compatibility = compatibility, ps_irrefutable = irrefutable,
      ps_covered = {}, ps_possible = {}\<rparr>"

definition pattern_combine ::
    "pattern_compatibility \<Rightarrow> pattern_compatibility \<Rightarrow> pattern_compatibility" where
  "pattern_combine left right =
     (if left = PC_Incompatible \<or> right = PC_Incompatible then PC_Incompatible
      else if left = PC_Unknown \<or> right = PC_Unknown then PC_Unknown
      else PC_Compatible)"

definition is_unknown :: "type_descriptor \<Rightarrow> bool" where
  "is_unknown t = (case t of
     TAny \<Rightarrow> True | TNever \<Rightarrow> True | TBound _ \<Rightarrow> True | TInference _ \<Rightarrow> True | TUnion _ \<Rightarrow> True
   | _ \<Rightarrow> False)"

definition catch_all :: "type_descriptor \<Rightarrow> pattern_shape" where
  "catch_all matched = (case matched of
     TEnum vs \<Rightarrow> (shape_new PC_Compatible True)
       \<lparr>ps_covered := set (map fst vs), ps_possible := set (map fst vs)\<rparr>
   | _ \<Rightarrow> shape_new PC_Compatible True)"

datatype primitive_pattern = PP_Int | PP_Float | PP_String

definition primitive_shape :: "type_descriptor \<Rightarrow> primitive_pattern \<Rightarrow> pattern_shape" where
  "primitive_shape matched pat =
     (let compatible = (pat = PP_Int \<and> matched = TInt) \<or> (pat = PP_Float \<and> matched = TFloat) \<or>
            (pat = PP_String \<and> matched = TString)
      in shape_new
           (if compatible then PC_Compatible else if is_unknown matched then PC_Unknown
            else PC_Incompatible) False)"

definition atom_shape :: "type_descriptor \<Rightarrow> string \<Rightarrow> pattern_shape" where
  "atom_shape matched tag = (case matched of
     TAtom a \<Rightarrow>
       if atom_name a = tag then shape_new PC_Compatible True else shape_new PC_Incompatible False
   | TEnum vs \<Rightarrow>
       let compatible = (map_of vs tag = Some None);
           shape = shape_new (if compatible then PC_Compatible else PC_Incompatible)
             (compatible \<and> length vs = 1)
       in if compatible then shape\<lparr>ps_covered := {tag}, ps_possible := {tag}\<rparr> else shape
   | _ \<Rightarrow> if is_unknown matched then shape_new PC_Unknown False
         else shape_new PC_Incompatible False)"

text \<open>The type of the payload of a tagged pattern, and what is known of the tag.\<close>

definition tagged_outer ::
    "type_descriptor \<Rightarrow> string \<Rightarrow> type_descriptor \<times> pattern_compatibility \<times> bool" where
  "tagged_outer matched tag = (case matched of
     TTagged matched_tag payload \<Rightarrow>
       if atom_name matched_tag = tag then (payload, PC_Compatible, True)
       else (TAny, PC_Incompatible, False)
   | TEnum vs \<Rightarrow> (case map_of vs tag of
       Some (Some payload) \<Rightarrow> (payload, PC_Compatible, length vs = 1)
     | Some None \<Rightarrow> (TAny, PC_Incompatible, length vs = 1)
     | None \<Rightarrow> (TAny, PC_Incompatible, False))
   | _ \<Rightarrow> if is_unknown matched then (TAny, PC_Unknown, False) else (TAny, PC_Incompatible, False))"

definition tagged_shape :: "type_descriptor \<Rightarrow> string \<Rightarrow> pattern_shape \<Rightarrow> pattern_shape" where
  "tagged_shape matched tag payload =
     (case tagged_outer matched tag of (_, outer, only_variant) \<Rightarrow>
      let shape = shape_new (pattern_combine outer (ps_compatibility payload))
            (only_variant \<and> outer = PC_Compatible \<and> ps_irrefutable payload)
      in if (case matched of TEnum _ \<Rightarrow> True | _ \<Rightarrow> False) \<and> outer = PC_Compatible
         then shape\<lparr>ps_possible := {tag},
                ps_covered := (if ps_irrefutable payload then {tag} else {})\<rparr>
         else shape)"

definition tuple_outer ::
    "type_descriptor \<Rightarrow> nat \<Rightarrow> type_descriptor list option \<times> pattern_compatibility" where
  "tuple_outer matched len = (case matched of
     TTuple ts \<Rightarrow> if length ts = len then (Some ts, PC_Compatible) else (None, PC_Incompatible)
   | _ \<Rightarrow> (None, if is_unknown matched then PC_Unknown else PC_Incompatible))"

definition struct_outer ::
    "type_descriptor \<Rightarrow> (string \<times> type_descriptor) list option \<times> pattern_compatibility" where
  "struct_outer matched = (case matched of
     TStruct fs \<Rightarrow> (Some fs, PC_Compatible)
   | _ \<Rightarrow> (None, if is_unknown matched then PC_Unknown else PC_Incompatible))"

section \<open>The analysis\<close>

definition context_default :: analysis_context where
  "context_default = \<lparr>ac_names = {}, ac_bindings = [], ac_duplicates = [], ac_problems = []\<rparr>"

definition add_problem :: "loc \<Rightarrow> string \<Rightarrow> analysis_context \<Rightarrow> analysis_context" where
  "add_problem location message c =
     c\<lparr>ac_problems := ac_problems c @ [\<lparr>pp_location = location, pp_message = message\<rparr>]\<rparr>"

text \<open>A name that is bound again is reported and keeps its first type.\<close>

definition bind_pattern_name :: "ident \<Rightarrow> type_descriptor \<Rightarrow> analysis_context \<Rightarrow> analysis_context" where
  "bind_pattern_name name matched c =
     (if located_value name \<in> ac_names c then
        c\<lparr>ac_duplicates := ac_duplicates c @
          [\<lparr>db_name = located_value name, db_location = located_at name\<rparr>]\<rparr>
      else
        c\<lparr>ac_names := insert (located_value name) (ac_names c),
          ac_bindings := ac_bindings c @
            [\<lparr>pb_name = located_value name, pb_location = located_at name, pb_type = matched\<rparr>]\<rparr>)"

type_synonym pattern_verdict = "pattern_compatibility \<times> bool"

text \<open>The verdict so far and what one more item or field adds to it.\<close>

definition add_verdict :: "pattern_verdict \<Rightarrow> pattern_shape \<Rightarrow> bool \<Rightarrow> pattern_verdict" where
  "add_verdict verdict shape known =
     (pattern_combine (fst verdict) (ps_compatibility shape),
      snd verdict \<and> ps_irrefutable shape \<and> known)"

definition item_type :: "type_descriptor list option \<Rightarrow> nat \<Rightarrow> type_descriptor" where
  "item_type matched_items index = (case Option.bind matched_items (\<lambda>ts. nth_opt ts index) of
     Some t \<Rightarrow> t | None \<Rightarrow> TAny)"

definition field_type :: "(string \<times> type_descriptor) list option \<Rightarrow> string \<Rightarrow> type_descriptor option" where
  "field_type matched_fields field = Option.bind matched_fields (\<lambda>ts. map_of ts field)"

text \<open>A field of a struct pattern before its pattern: the problems with its name.\<close>

definition enter_field :: "(string \<Rightarrow> string) \<Rightarrow> ident \<Rightarrow> (string \<times> type_descriptor) list option \<Rightarrow>
    string set \<Rightarrow> pattern_verdict \<Rightarrow> analysis_context \<Rightarrow> pattern_verdict \<times> analysis_context" where
  "enter_field q name matched_fields names verdict c =
     (let field = located_value name;
          c = (if field \<in> names then
              add_problem (located_at name) (''duplicate Struct pattern field '' @ q field) c else c)
      in if matched_fields \<noteq> None \<and> field_type matched_fields field = None then
           ((PC_Incompatible, False),
            add_problem (located_at name) (''Struct has no field '' @ q field) c)
         else (verdict, c))"

definition enter_struct :: "loc \<Rightarrow> type_descriptor \<Rightarrow> analysis_context \<Rightarrow> analysis_context" where
  "enter_struct location matched c =
     (if snd (struct_outer matched) = PC_Incompatible then
        add_problem location (''Struct pattern cannot match '' @ display_name matched) c
      else c)"

text \<open>
  The loops over the items of a tuple pattern and the fields of a struct pattern carry the
  compatibility and the irrefutability so far; the second also the field names it has met.
\<close>

function (sequential) analyze :: "(string \<Rightarrow> string) \<Rightarrow> pattern \<Rightarrow> type_descriptor \<Rightarrow>
      analysis_context \<Rightarrow> pattern_shape \<times> analysis_context"
and analyze_items :: "(string \<Rightarrow> string) \<Rightarrow> pattern list \<Rightarrow> type_descriptor list option \<Rightarrow> nat \<Rightarrow>
      pattern_verdict \<Rightarrow> analysis_context \<Rightarrow> pattern_verdict \<times> analysis_context"
and analyze_fields :: "(string \<Rightarrow> string) \<Rightarrow> (ident \<times> pattern) list \<Rightarrow>
      (string \<times> type_descriptor) list option \<Rightarrow> string set \<Rightarrow>
      pattern_verdict \<Rightarrow> analysis_context \<Rightarrow> pattern_verdict \<times> analysis_context" where
  "analyze q (Pattern kind location) matched c = (case kind of
     P_Wildcard \<Rightarrow> (catch_all matched, c)
   | P_Binding name \<Rightarrow> (catch_all matched, bind_pattern_name name matched c)
   | P_Int _ \<Rightarrow> (primitive_shape matched PP_Int, c)
   | P_Float _ \<Rightarrow> (primitive_shape matched PP_Float, c)
   | P_String _ \<Rightarrow> (primitive_shape matched PP_String, c)
   | P_Atom tag \<Rightarrow> (atom_shape matched tag, c)
   | P_Tagged tag payload \<Rightarrow>
       (case analyze q payload (fst (tagged_outer matched tag)) c of (shape, c) \<Rightarrow>
         (tagged_shape matched tag shape, c))
   | P_Tuple items \<Rightarrow>
       (case tuple_outer matched (length items) of (matched_items, outer) \<Rightarrow>
        case analyze_items q items matched_items 0 (outer, outer = PC_Compatible) c of
          ((compatibility, irrefutable), c) \<Rightarrow> (shape_new compatibility irrefutable, c))
   | P_Struct fs \<Rightarrow>
       (case struct_outer matched of (matched_fields, outer) \<Rightarrow>
        case analyze_fields q fs matched_fields {} (outer, outer = PC_Compatible)
            (enter_struct location matched c) of
          ((compatibility, irrefutable), c) \<Rightarrow> (shape_new compatibility irrefutable, c)))"
| "analyze_items q [] matched_items index verdict c = (verdict, c)"
| "analyze_items q (item # items) matched_items index verdict c =
     (case analyze q item (item_type matched_items index) c of (shape, c) \<Rightarrow>
        analyze_items q items matched_items (Suc index) (add_verdict verdict shape True) c)"
| "analyze_fields q [] matched_fields names verdict c = (verdict, c)"
| "analyze_fields q ((name, pat) # fs) matched_fields names verdict c =
     (case enter_field q name matched_fields names verdict c of (verdict, c) \<Rightarrow>
      let found = field_type matched_fields (located_value name) in
      case analyze q pat (case found of Some t \<Rightarrow> t | None \<Rightarrow> TAny) c of (shape, c) \<Rightarrow>
        analyze_fields q fs matched_fields (insert (located_value name) names)
          (add_verdict verdict shape (found \<noteq> None)) c)"
  by pat_completeness auto
termination
  by (relation "measure (\<lambda>x. case x of
        Inl (_, p, _) \<Rightarrow> size p
      | Inr (Inl (_, ps, _)) \<Rightarrow> size_list size ps
      | Inr (Inr (_, fs, _)) \<Rightarrow> size_list (size_prod (\<lambda>_. 0) size) fs)") auto

definition analyze_pattern :: "(string \<Rightarrow> string) \<Rightarrow> pattern \<Rightarrow> type_descriptor \<Rightarrow> pattern_analysis" where
  "analyze_pattern q pat matched =
     (case analyze q pat matched context_default of (shape, c) \<Rightarrow>
        \<lparr>pa_bindings = ac_bindings c, pa_duplicates = ac_duplicates c, pa_problems = ac_problems c,
         pa_compatibility = ps_compatibility shape, pa_irrefutable = ps_irrefutable shape,
         pa_covered = ps_covered shape, pa_possible = ps_possible shape\<rparr>)"

text \<open>\<open>bind_pattern_types\<close>: the names of a pattern, each with its type.\<close>

definition bind_pattern_types_from ::
    "(string \<Rightarrow> string) \<Rightarrow> pattern \<Rightarrow> type_descriptor \<Rightarrow> (string \<rightharpoonup> type_descriptor) \<Rightarrow>
     (string \<rightharpoonup> type_descriptor)" where
  "bind_pattern_types_from q pat matched env =
     fold (\<lambda>b env. env(pb_name b \<mapsto> pb_type b)) (pa_bindings (analyze_pattern q pat matched)) env"

section \<open>Where a pattern fails\<close>

fun first_some :: "('a \<Rightarrow> 'b option) \<Rightarrow> 'a list \<Rightarrow> 'b option" where
  "first_some f [] = None"
| "first_some f (x # xs) = (case f x of Some y \<Rightarrow> Some y | None \<Rightarrow> first_some f xs)"

lemma first_some_cong [fundef_cong]:
  "xs = ys \<Longrightarrow> (\<And>x. x \<in> set ys \<Longrightarrow> f x = g x) \<Longrightarrow> first_some f xs = first_some g ys"
  by (induction ys arbitrary: xs) (auto split: option.splits)

definition or_at :: "loc \<Rightarrow> loc option \<Rightarrow> loc option" where
  "or_at location found = (case found of Some l \<Rightarrow> Some l | None \<Rightarrow> Some location)"

lemma zipped_size [termination_simp]:
  "(x, y) \<in> set (zip xs ys) \<Longrightarrow> size x < Suc (size_list size xs)"
  by (drule set_zip_leftD) (simp add: less_Suc_eq_le size_list_estimation')

lemma field_pattern_size [termination_simp]:
  "(name, x) \<in> set fs \<Longrightarrow> size x < Suc (size_list (\<lambda>f. Suc (size (snd f))) fs)"
  by (induction fs) auto

function first_refutable_location :: "(string \<Rightarrow> string) \<Rightarrow> pattern \<Rightarrow> type_descriptor \<Rightarrow> loc option" where
  "first_refutable_location q (Pattern kind location) matched =
     (if pa_irrefutable (analyze_pattern q (Pattern kind location) matched) then None
      else case (kind, matched) of
        (P_Tuple items, TTuple ts) \<Rightarrow>
          if length items = length ts then
            or_at location
              (first_some (\<lambda>(item, t). first_refutable_location q item t) (zip items ts))
          else Some location
      | (P_Struct fs, TStruct ts) \<Rightarrow>
          or_at location (first_some (\<lambda>(name, pat). case map_of ts (located_value name) of
              Some t \<Rightarrow> first_refutable_location q pat t
            | None \<Rightarrow> Some (located_at name)) fs)
      | (P_Tagged tag payload, TTagged matched_tag t) \<Rightarrow>
          if atom_name matched_tag = tag then or_at location (first_refutable_location q payload t)
          else Some location
      | (P_Tagged tag payload, TEnum vs) \<Rightarrow>
          if length vs = 1 then
            or_at location (case map_of vs tag of
                Some (Some t) \<Rightarrow> first_refutable_location q payload t | _ \<Rightarrow> None)
          else Some location
      | _ \<Rightarrow> Some location)"
  by pat_completeness auto
termination
  by (relation "measure (\<lambda>(_, p, _). size p)") (auto simp: termination_simp)

function first_incompatible_location :: "(string \<Rightarrow> string) \<Rightarrow> pattern \<Rightarrow> type_descriptor \<Rightarrow> loc option"
where
  "first_incompatible_location q (Pattern kind location) matched =
     (if pa_compatibility (analyze_pattern q (Pattern kind location) matched) \<noteq> PC_Incompatible then None
      else case (kind, matched) of
        (P_Tuple items, TTuple ts) \<Rightarrow>
          if length items = length ts then
            or_at location
              (first_some (\<lambda>(item, t). first_incompatible_location q item t) (zip items ts))
          else Some location
      | (P_Struct fs, TStruct ts) \<Rightarrow>
          or_at location (first_some (\<lambda>(name, pat). case map_of ts (located_value name) of
              Some t \<Rightarrow> first_incompatible_location q pat t
            | None \<Rightarrow> Some (located_at name)) fs)
      | (P_Tagged tag payload, TTagged matched_tag t) \<Rightarrow>
          if atom_name matched_tag = tag then or_at location (first_incompatible_location q payload t)
          else Some location
      | (P_Tagged tag payload, TEnum vs) \<Rightarrow>
          or_at location (case map_of vs tag of
              Some (Some t) \<Rightarrow> first_incompatible_location q payload t | _ \<Rightarrow> None)
      | _ \<Rightarrow> Some location)"
  by pat_completeness auto
termination
  by (relation "measure (\<lambda>(_, p, _). size p)") (auto simp: termination_simp)

section \<open>The arms of a match\<close>

text \<open>
  What the checker knows after some arms of a match (the arm loop of \<open>GenericInference::infer\<close> in
  \<open>types.rs\<close>, without the inference of guards and bodies): the variants that the arms so far
  cover, whether they cover every value, and the diagnostics; the first one at a location is kept.
\<close>

type_synonym pattern_diagnostics = "loc \<rightharpoonup> string"

definition or_insert :: "loc \<Rightarrow> string \<Rightarrow> pattern_diagnostics \<Rightarrow> pattern_diagnostics" where
  "or_insert location message ds = (if ds location = None then ds(location \<mapsto> message) else ds)"

record match_coverage =
  mc_variants :: "string set"
  mc_all :: bool

definition coverage_start :: match_coverage where
  "coverage_start = \<lparr>mc_variants = {}, mc_all = False\<rparr>"

definition redundant_variants :: "pattern_analysis \<Rightarrow> match_coverage \<Rightarrow> string set" where
  "redundant_variants analysis cov = pa_possible analysis \<inter> mc_variants cov"

definition arm_unreachable :: "pattern_analysis \<Rightarrow> match_coverage \<Rightarrow> bool" where
  "arm_unreachable analysis cov \<longleftrightarrow> mc_all cov \<or>
     pa_possible analysis \<noteq> {} \<and>
     card (redundant_variants analysis cov) = card (pa_possible analysis)"

definition variant_label :: "string \<Rightarrow> string" where
  "variant_label name = CHR 0x27 # name"

definition unreachable_message :: "pattern_analysis \<Rightarrow> match_coverage \<Rightarrow> string" where
  "unreachable_message analysis cov =
     (if mc_all cov then ''unreachable match arm; prior arms cover every value''
      else ''unreachable match arm; prior arms cover '' @
        join_with '', '' (map variant_label (sorted_list_of_set (redundant_variants analysis cov))))"

text \<open>An arm without a guard covers what its pattern covers.\<close>

definition cover_arm :: "type_descriptor \<Rightarrow> pattern_analysis \<Rightarrow> bool \<Rightarrow> match_coverage \<Rightarrow> match_coverage" where
  "cover_arm matched analysis guarded cov =
     (if guarded then cov
      else
        let variants = mc_variants cov \<union> pa_covered analysis
        in \<lparr>mc_variants = variants,
            mc_all = (mc_all cov \<or> pa_irrefutable analysis \<or>
              (case matched of TEnum vs \<Rightarrow> list_all (\<lambda>(name, _). name \<in> variants) vs | _ \<Rightarrow> False))\<rparr>)"

definition location_or :: "loc \<Rightarrow> loc option \<Rightarrow> loc" where
  "location_or location found = (case found of Some l \<Rightarrow> l | None \<Rightarrow> location)"

definition check_arm :: "(string \<Rightarrow> string) \<Rightarrow> type_descriptor \<Rightarrow> expr match_arm_kind \<Rightarrow>
    match_coverage \<times> pattern_diagnostics \<Rightarrow> match_coverage \<times> pattern_diagnostics" where
  "check_arm q matched arm = (\<lambda>(cov, ds).
     let pat = ma_pattern arm; location = pattern_location pat;
         analysis = analyze_pattern q pat matched;
         ds = (if pa_compatibility analysis = PC_Incompatible \<and> \<not> ma_irrefutable_required arm \<and>
                 pa_problems analysis = [] then
               or_insert (location_or location (first_incompatible_location q pat matched))
                 (''pattern cannot match '' @ display_name matched) ds else ds);
         ds = (if ma_irrefutable_required arm \<and> \<not> pa_irrefutable analysis then
               or_insert (location_or location (first_refutable_location q pat matched))
                 (''refutable let pattern for '' @ display_name matched) ds else ds);
         ds = (if arm_unreachable analysis cov then
               or_insert location (unreachable_message analysis cov) ds else ds);
         ds = fold (\<lambda>p. or_insert (pp_location p) (pp_message p)) (pa_problems analysis) ds;
         ds = fold (\<lambda>d. or_insert (db_location d)
               (''duplicate pattern binding '' @ q (db_name d))) (pa_duplicates analysis) ds
     in (cover_arm matched analysis (ma_guard arm \<noteq> None) cov, ds))"

definition missing_variants :: "(string \<times> type_descriptor option) list \<Rightarrow> match_coverage \<Rightarrow> string list" where
  "missing_variants vs cov =
     map (\<lambda>(name, payload). if payload = None then variant_label name else variant_label name @ ''(_)'')
       (filter (\<lambda>(name, _). name \<notin> mc_variants cov) vs)"

definition check_match :: "(string \<Rightarrow> string) \<Rightarrow> type_descriptor \<Rightarrow> loc \<Rightarrow> match_arm list \<Rightarrow>
    pattern_diagnostics \<Rightarrow> match_coverage \<times> pattern_diagnostics" where
  "check_match q matched location arms ds =
     (case fold (\<lambda>arm. check_arm q matched (located_value arm)) arms (coverage_start, ds) of (cov, ds) \<Rightarrow>
      (cov, case matched of
         TEnum vs \<Rightarrow>
           if missing_variants vs cov \<noteq> [] then
             or_insert location
               (''non-exhaustive match; missing '' @ join_with '', '' (missing_variants vs cov)) ds
           else ds
       | _ \<Rightarrow> ds))"

end
