(* ===== verification/Value_Ref.thy ===== *)
theory Value_Ref
  imports Heap_View Metadata
begin

text \<open>
  How native code reads a value of the heap (\<open>ValueRef\<close> of \<open>crates/telora-core/src/vm.rs\<close>): a value
  with the view in which its handles resolve. A part that does not resolve is no part: the readers
  drop the error of the heap.
\<close>

datatype value_kind =
    VK_Int | VK_Float | VK_String | VK_Bytes | VK_Type | VK_Opaque | VK_Dict | VK_Array | VK_Atom
  | VK_Tagged | VK_Tuple | VK_Func | VK_Dyn

text \<open>The derived \<open>Debug\<close> form.\<close>

fun value_kind_debug :: "value_kind \<Rightarrow> string" where
  "value_kind_debug VK_Int = ''Int''"
| "value_kind_debug VK_Float = ''Float''"
| "value_kind_debug VK_String = ''String''"
| "value_kind_debug VK_Bytes = ''Bytes''"
| "value_kind_debug VK_Type = ''Type''"
| "value_kind_debug VK_Opaque = ''Opaque''"
| "value_kind_debug VK_Dict = ''Dict''"
| "value_kind_debug VK_Array = ''Array''"
| "value_kind_debug VK_Atom = ''Atom''"
| "value_kind_debug VK_Tagged = ''Tagged''"
| "value_kind_debug VK_Tuple = ''Tuple''"
| "value_kind_debug VK_Func = ''Func''"
| "value_kind_debug VK_Dyn = ''Dyn''"

record value_ref =
  vr_value :: rich_value
  vr_view :: heap_view

definition result_ok :: "'e + 'a \<Rightarrow> 'a option" where
  "result_ok r = (case r of Inl _ \<Rightarrow> None | Inr x \<Rightarrow> Some x)"

lemma result_ok_eq_Some [simp]: "result_ok r = Some x \<longleftrightarrow> r = Inr x"
  by (auto simp: result_ok_def split: sum.splits)

abbreviation vr_runtime :: "value_ref \<Rightarrow> runtime_value" where
  "vr_runtime v \<equiv> rv_value (vr_value v)"

definition vr_persistent :: "persistent_value \<Rightarrow> heap \<Rightarrow> value_ref" where
  "vr_persistent v h = \<lparr>vr_value = v, vr_view = \<lparr>hv_current = h, hv_background = None\<rparr>\<rparr>"

definition vr_hidden_up_link_handle :: "value_ref \<Rightarrow> handle option" where
  "vr_hidden_up_link_handle v = (case vr_runtime v of RUpLink handle \<Rightarrow> Some handle | _ \<Rightarrow> None)"

definition vr_object_handle :: "value_ref \<Rightarrow> handle option" where
  "vr_object_handle v = (case vr_runtime v of
     RString handle \<Rightarrow> Some handle
   | RBytes handle \<Rightarrow> Some handle
   | ROpaque handle \<Rightarrow> Some handle
   | RNativeType handle \<Rightarrow> Some handle
   | RArray handle \<Rightarrow> Some handle
   | RTagged handle \<Rightarrow> Some handle
   | RTuple handle \<Rightarrow> Some handle
   | RDict handle \<Rightarrow> Some handle
   | RFunc handle \<Rightarrow> Some handle
   | RDyn handle \<Rightarrow> Some handle
   | _ \<Rightarrow> None)"

definition vr_is_hidden_up_link :: "value_ref \<Rightarrow> bool" where
  "vr_is_hidden_up_link v = (case vr_runtime v of RUpLink _ \<Rightarrow> True | _ \<Rightarrow> False)"

fun heap_error_text :: "heap_error \<Rightarrow> string" where
  "heap_error_text (HeapError message) = message"

definition vr_resolve_hidden_up_link :: "value_ref \<Rightarrow> fault + value_ref" where
  "vr_resolve_hidden_up_link v = (case vr_runtime v of
     RUpLink handle \<Rightarrow>
       rbind (map_err (\<lambda>e. Reported (heap_error_text e)) (view_up_link (vr_view v) handle)) (\<lambda>target.
       case target of
         None \<Rightarrow> Inl (Reported ''recursive type link is not initialized'')
       | Some value \<Rightarrow> Inr (v\<lparr>vr_value := value\<rparr>))
   | _ \<Rightarrow> Inr v)"

text \<open>An up-link has no kind: native code never sees one.\<close>

definition vr_kind :: "value_ref \<Rightarrow> fault + value_kind" where
  "vr_kind v = (case vr_runtime v of
     RInt _ \<Rightarrow> Inr VK_Int
   | RFloat _ \<Rightarrow> Inr VK_Float
   | RShortString _ \<Rightarrow> Inr VK_String
   | RString _ \<Rightarrow> Inr VK_String
   | RBytes _ \<Rightarrow> Inr VK_Bytes
   | RNativeType _ \<Rightarrow> Inr VK_Type
   | ROpaque _ \<Rightarrow> Inr VK_Opaque
   | RDict _ \<Rightarrow> Inr VK_Dict
   | RArray _ \<Rightarrow> Inr VK_Array
   | RBuiltinAtom _ \<Rightarrow> Inr VK_Atom
   | RAtom _ \<Rightarrow> Inr VK_Atom
   | RTagged _ \<Rightarrow> Inr VK_Tagged
   | RTuple _ \<Rightarrow> Inr VK_Tuple
   | RFunc _ \<Rightarrow> Inr VK_Func
   | RDyn _ \<Rightarrow> Inr VK_Dyn
   | RUpLink _ \<Rightarrow> Inl (Panicked ''up-links are private VM values''))"

definition vr_as_atom :: "value_ref \<Rightarrow> string option" where
  "vr_as_atom v = (case vr_runtime v of
     RBuiltinAtom a \<Rightarrow> Some (builtin_atom_name a)
   | RAtom i \<Rightarrow> result_ok (view_text (vr_view v) i)
   | _ \<Rightarrow> None)"

definition vr_as_int :: "value_ref \<Rightarrow> i64 option" where
  "vr_as_int v = (case vr_runtime v of RInt i \<Rightarrow> Some i | _ \<Rightarrow> None)"

definition vr_as_float :: "value_ref \<Rightarrow> f64 option" where
  "vr_as_float v = (case vr_runtime v of RFloat f \<Rightarrow> Some f | _ \<Rightarrow> None)"

definition vr_as_str :: "value_ref \<Rightarrow> string option" where
  "vr_as_str v = (case vr_runtime v of
     RShortString i \<Rightarrow> result_ok (view_text (vr_view v) i)
   | RString handle \<Rightarrow> (case result_ok (view_object (vr_view v) handle) of
       Some (OString t) \<Rightarrow> Some t | _ \<Rightarrow> None)
   | _ \<Rightarrow> None)"

definition vr_as_bytes :: "value_ref \<Rightarrow> u8 list option" where
  "vr_as_bytes v = (case vr_runtime v of
     RBytes handle \<Rightarrow> (case result_ok (view_object (vr_view v) handle) of
       Some (OBytes bytes) \<Rightarrow> Some bytes | _ \<Rightarrow> None)
   | _ \<Rightarrow> None)"

definition vr_as_native_type :: "value_ref \<Rightarrow> native_type option" where
  "vr_as_native_type v = (case vr_runtime v of
     RNativeType handle \<Rightarrow> (case result_ok (view_object (vr_view v) handle) of
       Some (ONativeType n) \<Rightarrow> Some n | _ \<Rightarrow> None)
   | _ \<Rightarrow> None)"

definition vr_opaque_native_type :: "value_ref \<Rightarrow> native_type option" where
  "vr_opaque_native_type v = (case vr_runtime v of
     ROpaque handle \<Rightarrow> (case result_ok (view_object (vr_view v) handle) of
       Some (OOpaque value) \<Rightarrow> Some (ov_native_type value) | _ \<Rightarrow> None)
   | _ \<Rightarrow> None)"

definition vr_sequence :: "value_ref \<Rightarrow> rich_value list option" where
  "vr_sequence v = (case vr_runtime v of
     RArray handle \<Rightarrow> result_ok (view_sequence (vr_view v) handle False)
   | RTuple handle \<Rightarrow> result_ok (view_sequence (vr_view v) handle True)
   | _ \<Rightarrow> None)"

definition vr_sequence_len :: "value_ref \<Rightarrow> nat option" where
  "vr_sequence_len v = map_option length (vr_sequence v)"

definition vr_sequence_get :: "value_ref \<Rightarrow> nat \<Rightarrow> value_ref option" where
  "vr_sequence_get v index =
     Option.bind (vr_sequence v) (\<lambda>values.
       map_option (\<lambda>value. v\<lparr>vr_value := value\<rparr>) (nth_opt values index))"

definition vr_tagged_parts :: "value_ref \<Rightarrow> (value_ref \<times> value_ref) option" where
  "vr_tagged_parts v = (case vr_runtime v of
     RTagged handle \<Rightarrow>
       map_option (\<lambda>(tag, payload). (v\<lparr>vr_value := tag\<rparr>, v\<lparr>vr_value := payload\<rparr>))
         (result_ok (view_tagged (vr_view v) handle))
   | _ \<Rightarrow> None)"

definition vr_dict_fields :: "value_ref \<Rightarrow> string list option" where
  "vr_dict_fields v = (case vr_runtime v of
     RDict handle \<Rightarrow> result_ok (view_dict_fields (vr_view v) handle)
   | _ \<Rightarrow> None)"

definition vr_dict_get :: "value_ref \<Rightarrow> string \<Rightarrow> value_ref option" where
  "vr_dict_get v field = (case vr_runtime v of
     RDict handle \<Rightarrow>
       map_option (\<lambda>value. v\<lparr>vr_value := value\<rparr>)
         (Option.bind (result_ok (view_dict_get_text (vr_view v) handle field)) (\<lambda>found. found))
   | _ \<Rightarrow> None)"

definition vr_function_arity :: "value_ref \<Rightarrow> nat option" where
  "vr_function_arity v = (case vr_runtime v of
     RFunc handle \<Rightarrow> result_ok (function_arity (vr_view v) handle)
   | _ \<Rightarrow> None)"

end
