(* ===== verification/Validate.thy ===== *)
theory Validate
  imports Value_Ref
begin

text \<open>
  Checking a value of the heap against a type (\<open>decode_type_ref\<close>, \<open>strip_attributes_ref\<close> and
  \<open>validate_value_ref\<close> of \<open>crates/telora-core/src/types.rs\<close>). A type in the heap may be cyclic
  through an up-link, and the code then decodes it for ever; the fuel of the model is the depth of
  the recursion, and running out of it is the fault \<open>Endless\<close>.
\<close>

section \<open>Loops that stop at a fault\<close>

definition check_each :: "('a \<Rightarrow> fault + unit) \<Rightarrow> 'a list \<Rightarrow> fault + unit" where
  "check_each f xs = rbind (collect_results f xs) (\<lambda>_. Inr ())"

text \<open>\<open>iter().any(|x| f(x).is_ok())\<close>: a panic is not an error that the loop sees.\<close>

fun any_accepts :: "('a \<Rightarrow> fault + unit) \<Rightarrow> 'a list \<Rightarrow> fault + bool" where
  "any_accepts f [] = Inr False"
| "any_accepts f (x # xs) = (case f x of
     Inr _ \<Rightarrow> Inr True
   | Inl (Reported _) \<Rightarrow> any_accepts f xs
   | Inl e \<Rightarrow> Inl e)"

lemma check_each_cong [fundef_cong]:
  "xs = ys \<Longrightarrow> (\<And>x. x \<in> set ys \<Longrightarrow> f x = g x) \<Longrightarrow> check_each f xs = check_each g ys"
  by (simp add: check_each_def cong: collect_results_cong)

lemma any_accepts_cong [fundef_cong]:
  "xs = ys \<Longrightarrow> (\<And>x. x \<in> set ys \<Longrightarrow> f x = g x) \<Longrightarrow> any_accepts f xs = any_accepts g ys"
  by (induction ys arbitrary: xs) (auto split: sum.splits fault.splits)

lemma check_each_ok [simp]: "check_each f xs = Inr () \<longleftrightarrow> (\<forall>x \<in> set xs. f x = Inr ())"
  by (induction xs) (auto simp: check_each_def result_simps)

lemma any_accepts_ok: "any_accepts f xs = Inr True \<Longrightarrow> \<exists>x \<in> set xs. f x = Inr ()"
  by (induction xs) (auto split: sum.splits fault.splits)

section \<open>Decoding a type of the heap\<close>

text \<open>A component that is there, and the atom it is.\<close>

definition ref_entry :: "value_ref \<Rightarrow> string \<Rightarrow> string \<Rightarrow> fault + value_ref" where
  "ref_entry v path field =
     ok_or (Reported (path @ ''.'' @ field @ '' is missing'')) (vr_dict_get v field)"

definition ref_atom :: "value_ref \<Rightarrow> string \<Rightarrow> string \<Rightarrow> fault + string" where
  "ref_atom v path field =
     ok_or (Reported (path @ ''.'' @ field @ '' must be an Atom''))
       (Option.bind (vr_dict_get v field) vr_as_atom)"

definition ref_parameter :: "value_ref \<Rightarrow> string \<Rightarrow> fault + u32" where
  "ref_parameter v path =
     ok_or (Reported (path @ ''.parameter must be a non-negative Int''))
       (Option.bind (Option.bind (vr_dict_get v ''parameter'') vr_as_int) (\<lambda>i.
         if 0 \<le> sint i \<and> sint i < 2 ^ 32 then Some (ucast i) else None))"

definition ref_component ::
    "value_ref \<Rightarrow> string \<Rightarrow> string \<Rightarrow> (value_ref \<Rightarrow> string \<Rightarrow> fault + 'a) \<Rightarrow> fault + 'a" where
  "ref_component v path field f =
     rbind (ref_entry v path field) (\<lambda>part. f part (path @ ''.'' @ field))"

text \<open>The value that a wrapper with the right fields wraps.\<close>

definition ref_unwrapped :: "value_ref \<Rightarrow> string list \<Rightarrow> string \<Rightarrow> fault + value_ref" where
  "ref_unwrapped v names path =
     (if names \<noteq> [''attributes'', ''inner'', ''kind''] then
        Inl (Reported (path @
          '' WithAttributes wrapper must have exactly attributes, inner, and kind fields''))
      else
        rbind (expecting ''validated wrapper field'' (vr_dict_get v ''attributes'')) (\<lambda>attributes.
        rbind (vr_kind attributes) (\<lambda>kind.
        if kind \<noteq> VK_Dict then Inl (Reported (path @ ''.attributes must be a Dict''))
        else expecting ''validated wrapper field'' (vr_dict_get v ''inner''))))"

fun strip_attributes_ref :: "nat \<Rightarrow> value_ref \<Rightarrow> string \<Rightarrow> fault + value_ref" where
  "strip_attributes_ref 0 v path = Inl Endless"
| "strip_attributes_ref (Suc n) v path = (case vr_dict_fields v of
     None \<Rightarrow> Inr v
   | Some names \<Rightarrow>
       if Option.bind (vr_dict_get v ''kind'') vr_as_atom \<noteq> Some ''WithAttributes'' then Inr v
       else rbind (ref_unwrapped v names path) (\<lambda>inner. strip_attributes_ref n inner path))"

text \<open>The items of an array, each with its index.\<close>

definition ref_items :: "value_ref \<Rightarrow> fault + value_ref list" where
  "ref_items v =
     rbind (expecting ''Array has a length'' (vr_sequence_len v)) (\<lambda>len.
     collect_results (\<lambda>index. expecting ''valid Array index'' (vr_sequence_get v index)) [0..<len])"

definition ref_array :: "value_ref \<Rightarrow> string \<Rightarrow> fault + value_ref list" where
  "ref_array v path =
     rbind (vr_kind v) (\<lambda>kind.
     if kind \<noteq> VK_Array then Inl (Reported (path @ '' must be an Array'')) else ref_items v)"

definition ref_names :: "value_ref \<Rightarrow> string \<Rightarrow> fault + string list" where
  "ref_names v path = ok_or (Reported (path @ '' must be a Dict'')) (vr_dict_fields v)"

fun decode_type_ref :: "nat \<Rightarrow> value_ref \<Rightarrow> string \<Rightarrow> fault + type_descriptor" where
  "decode_type_ref 0 v path = Inl Endless"
| "decode_type_ref (Suc n) v path =
     rbind (vr_resolve_hidden_up_link v) (\<lambda>v.
     case vr_as_native_type v of
       Some native \<Rightarrow> Inr (TOpaque native)
     | None \<Rightarrow>
       rbind (ref_names v path) (\<lambda>names.
       rbind (ref_atom v path ''kind'') (\<lambda>kind.
       let require = (\<lambda>wanted. if names = wanted then Inr ()
             else Inl (Reported (path @ '' has invalid fields for '' @ kind)));
           items = (\<lambda>part place. rbind (ref_array part place) (\<lambda>parts.
             collect_results (\<lambda>(index, item). decode_type_ref n item (indexed place index))
               (enumerate 0 parts)))
       in
       if kind = ''WithAttributes'' then
         rbind (ref_unwrapped v names path) (\<lambda>inner. decode_type_ref n inner path)
       else if kind = ''Bound'' \<or> kind = CHR 0x27 # ''Bound'' then
         rbind (require [''kind'', ''parameter'']) (\<lambda>_.
         rbind (ref_parameter v path) (\<lambda>p. Inr (TBound p)))
       else if kind = ''TypeOf'' then
         rbind (require [''instance'', ''kind'']) (\<lambda>_.
         rbind (ref_component v path ''instance'' (decode_type_ref n)) (\<lambda>t. Inr (TTypeOf t)))
       else if kind = ''Atom'' then
         rbind (require [''kind'', ''tag'']) (\<lambda>_.
         rbind (ref_atom v path ''tag'') (\<lambda>tag. Inr (TAtom (atom_from_name tag))))
       else if kind = ''Array'' then
         rbind (require [''item'', ''kind'']) (\<lambda>_.
         rbind (ref_component v path ''item'' (decode_type_ref n)) (\<lambda>t. Inr (TArray t)))
       else if kind = ''Dict'' then
         rbind (require [''item'', ''kind'']) (\<lambda>_.
         rbind (ref_component v path ''item'' (decode_type_ref n)) (\<lambda>t. Inr (TDict t)))
       else if kind = ''Tagged'' then
         rbind (require [''kind'', ''payload'', ''tag'']) (\<lambda>_.
         rbind (ref_atom v path ''tag'') (\<lambda>tag.
         rbind (ref_component v path ''payload'' (decode_type_ref n)) (\<lambda>t.
         Inr (TTagged (atom_from_name tag) t))))
       else if kind = ''Tuple'' then
         rbind (require [''items'', ''kind'']) (\<lambda>_.
         rbind (ref_component v path ''items'' items) (\<lambda>ts. Inr (TTuple ts)))
       else if kind = ''Union'' then
         rbind (require [''kind'', ''variants'']) (\<lambda>_.
         rbind (ref_component v path ''variants'' items) (\<lambda>ts.
         if ts = [] then Inl (Reported (path @ ''.variants must not be empty''))
         else Inr (TUnion ts)))
       else if kind = ''Struct'' then
         rbind (require [''fields'', ''kind'']) (\<lambda>_.
         rbind (ref_component v path ''fields'' (\<lambda>part place.
           rbind (ref_names part place) (\<lambda>fields.
           collect_results (\<lambda>name.
             rbind (expecting ''Dict field exists'' (vr_dict_get part name)) (\<lambda>field.
             rbind (decode_type_ref n field (place @ ''.'' @ name)) (\<lambda>t. Inr (name, t)))) fields)))
           (\<lambda>fields. Inr (TStruct fields)))
       else if kind = ''Enum'' then
         rbind (require [''kind'', ''variants'']) (\<lambda>_.
         rbind (ref_component v path ''variants'' (\<lambda>part place.
           rbind (ref_names part place) (\<lambda>variants.
           if variants = [] then Inl (Reported (place @ '' must not be empty''))
           else collect_results (\<lambda>name.
             rbind (expecting ''Dict field exists'' (vr_dict_get part name)) (\<lambda>variant.
             rbind (strip_attributes_ref n variant (place @ ''.'' @ name)) (\<lambda>inner.
             if vr_as_atom inner = Some ''None'' then Inr (name, None)
             else rbind (decode_type_ref n inner (place @ ''.'' @ name)) (\<lambda>t. Inr (name, Some t)))))
             variants)))
           (\<lambda>variants. Inr (TEnum variants)))
       else if kind = ''Function'' then
         rbind (require [''kind'', ''parameters'', ''result'']) (\<lambda>_.
         rbind (ref_component v path ''parameters'' items) (\<lambda>ps.
         rbind (ref_component v path ''result'' (decode_type_ref n)) (\<lambda>r. Inr (TFunction ps r))))
       else (case simple_kind kind of
           Some t \<Rightarrow> rbind (require [''kind'']) (\<lambda>_. Inr t)
         | None \<Rightarrow> Inl (Reported (path @ ''.kind has unknown value '' @ CHR 0x27 # kind))))))"

declare decode_type_ref.simps [simp del]

section \<open>Validating a value\<close>

definition refuse :: "string \<Rightarrow> string \<Rightarrow> fault + 'a" where
  "refuse path reason = Inl (Reported (path @ reason))"

text \<open>The last arm: the value is of the wrong kind.\<close>

definition wrong_kind :: "type_descriptor \<Rightarrow> value_ref \<Rightarrow> string \<Rightarrow> fault + unit" where
  "wrong_kind t v path =
     rbind (vr_kind v) (\<lambda>kind.
       refuse path ('' must be '' @ display_name t @ '', got '' @ value_kind_debug kind))"

definition validate_kind :: "value_kind \<Rightarrow> type_descriptor \<Rightarrow> value_ref \<Rightarrow> string \<Rightarrow> fault + unit" where
  "validate_kind wanted t v path =
     rbind (vr_kind v) (\<lambda>kind. if kind = wanted then Inr () else wrong_kind t v path)"

definition validate_opaque :: "native_type \<Rightarrow> value_ref \<Rightarrow> string \<Rightarrow> fault + unit" where
  "validate_opaque expected v path =
     rbind (vr_kind v) (\<lambda>kind.
     if kind \<noteq> VK_Opaque then wrong_kind (TOpaque expected) v path
     else rbind (expecting ''ValueKind checked'' (vr_opaque_native_type v)) (\<lambda>actual.
       if native_type_eq actual expected then Inr ()
       else refuse path ('' must be '' @ nt_qualified_name expected @ '', got '' @
         nt_qualified_name actual)))"

definition validate_type_of :: "nat \<Rightarrow> type_descriptor \<Rightarrow> value_ref \<Rightarrow> string \<Rightarrow> fault + unit" where
  "validate_type_of fuel expected v path =
     rbind (decode_type_ref fuel v path) (\<lambda>actual.
     if assignable actual expected \<and> assignable expected actual then Inr ()
     else refuse path ('' must describe '' @ display_name expected @ '', got '' @
       display_name actual))"

definition validate_function ::
    "type_descriptor list \<Rightarrow> type_descriptor \<Rightarrow> value_ref \<Rightarrow> string \<Rightarrow> fault + unit" where
  "validate_function ps r v path =
     (if vr_function_arity v = Some (length ps) then Inr ()
      else rbind (vr_kind v) (\<lambda>kind.
        if kind = VK_Func then
          refuse path ('' must accept '' @ show_nat (length ps) @ '' arguments'')
        else wrong_kind (TFunction ps r) v path))"

text \<open>The tag of a tagged value whose tag is an atom, and its payload.\<close>

definition enum_parts :: "value_ref \<Rightarrow> string \<Rightarrow> fault + (string \<times> value_ref)" where
  "enum_parts v path = (case vr_tagged_parts v of
     None \<Rightarrow> refuse path '' must be a unit Atom or a Tagged value''
   | Some (tag_value, payload) \<Rightarrow> (case vr_as_atom tag_value of
       None \<Rightarrow> refuse path '' Tagged tag must be an Atom''
     | Some tag \<Rightarrow> Inr (tag, payload)))"

text \<open>A unit variant of an enum.\<close>

definition validate_unit_variant ::
    "(string \<times> type_descriptor option) list \<Rightarrow> string \<Rightarrow> string \<Rightarrow> fault + unit" where
  "validate_unit_variant vs tag path = (case map_of vs tag of
     Some None \<Rightarrow> Inr ()
   | Some (Some _) \<Rightarrow> refuse path ('' variant '' @ CHR 0x27 # tag @ '' requires a payload'')
   | None \<Rightarrow> refuse path ('' has unknown Enum variant '' @ CHR 0x27 # tag))"

lemma map_of_variant [termination_simp]:
  "map_of vs k = Some (Some t) \<Longrightarrow> f t < Suc (size_list (\<lambda>x. Suc (size_option f (snd x))) vs)"
  by (auto dest: map_of_SomeD intro: size_variant)

lemma enumerated_size [termination_simp]:
  "(i, t) \<in> set (enumerate n ts) \<Longrightarrow> f t < Suc (size_list f ts)"
  by (auto simp: in_set_enumerate_eq less_Suc_eq_le intro!: size_list_estimation'[of "ts ! (i - n)"])

function (sequential) validate_value_ref ::
    "nat \<Rightarrow> type_descriptor \<Rightarrow> value_ref \<Rightarrow> string \<Rightarrow> fault + unit" where
  "validate_value_ref fuel TAny v path = Inr ()"
| "validate_value_ref fuel TNever v path = refuse path '' cannot have type Never''"
| "validate_value_ref fuel TType v path = rbind (decode_type_ref fuel v path) (\<lambda>_. Inr ())"
| "validate_value_ref fuel TDyn v path = validate_kind VK_Dyn TDyn v path"
| "validate_value_ref fuel (TTypeOf expected) v path = validate_type_of fuel expected v path"
| "validate_value_ref fuel TInt v path = validate_kind VK_Int TInt v path"
| "validate_value_ref fuel TFloat v path = validate_kind VK_Float TFloat v path"
| "validate_value_ref fuel TString v path = validate_kind VK_String TString v path"
| "validate_value_ref fuel TBytes v path = validate_kind VK_Bytes TBytes v path"
| "validate_value_ref fuel (TOpaque expected) v path = validate_opaque expected v path"
| "validate_value_ref fuel (TAtom expected) v path =
     (if vr_as_atom v = Some (atom_name expected) then Inr ()
      else refuse path ('' must be '' @ CHR 0x27 # atom_name expected))"
| "validate_value_ref fuel (TArray t) v path =
     rbind (ref_array v path) (\<lambda>items.
     check_each (\<lambda>(index, item). validate_value_ref fuel t item (indexed path index))
       (enumerate 0 items))"
| "validate_value_ref fuel (TDict t) v path =
     rbind (ref_names v path) (\<lambda>names.
     check_each (\<lambda>name.
       rbind (expecting ''Dict field exists'' (vr_dict_get v name)) (\<lambda>item.
         validate_value_ref fuel t item (path @ ''.'' @ name))) names)"
| "validate_value_ref fuel (TTagged tag t) v path = (case vr_tagged_parts v of
     None \<Rightarrow> refuse path '' must be a Tagged value''
   | Some (actual_tag, payload) \<Rightarrow>
       if vr_as_atom actual_tag \<noteq> Some (atom_name tag) then
         refuse path ('' must have tag '' @ CHR 0x27 # atom_name tag)
       else validate_value_ref fuel t payload (path @ ''.payload''))"
| "validate_value_ref fuel (TTuple ts) v path =
     rbind (vr_kind v) (\<lambda>kind.
     if kind \<noteq> VK_Tuple then refuse path '' must be a Tuple''
     else if vr_sequence_len v \<noteq> Some (length ts) then
       refuse path ('' must have '' @ show_nat (length ts) @ '' tuple items'')
     else check_each (\<lambda>(index, t).
       rbind (expecting ''valid Tuple index'' (vr_sequence_get v index)) (\<lambda>item.
         validate_value_ref fuel t item (path @ ''.'' @ show_nat index))) (enumerate 0 ts))"
| "validate_value_ref fuel (TStruct fs) v path =
     rbind (ref_names v path) (\<lambda>names.
     if map fst fs \<noteq> names then refuse path '' has a different field shape''
     else check_each (\<lambda>(name, t).
       rbind (expecting ''matching shape'' (vr_dict_get v name)) (\<lambda>item.
         validate_value_ref fuel t item (path @ ''.'' @ name))) fs)"
| "validate_value_ref fuel (TEnum vs) v path = (case vr_as_atom v of
     Some tag \<Rightarrow> validate_unit_variant vs tag path
   | None \<Rightarrow>
       rbind (enum_parts v path) (\<lambda>(tag, payload). case map_of vs tag of
         Some (Some t) \<Rightarrow> validate_value_ref fuel t payload (path @ ''.'' @ tag)
       | Some None \<Rightarrow> refuse path ('' variant '' @ CHR 0x27 # tag @ '' does not accept a payload'')
       | None \<Rightarrow> refuse path ('' has unknown Enum variant '' @ CHR 0x27 # tag)))"
| "validate_value_ref fuel (TUnion ts) v path =
     rbind (any_accepts (\<lambda>t. validate_value_ref fuel t v path) ts) (\<lambda>accepted.
     if accepted then Inr () else refuse path '' does not match any Union variant'')"
| "validate_value_ref fuel (TFunction ps r) v path = validate_function ps r v path"
| "validate_value_ref fuel t v path = wrong_kind t v path"
  by pat_completeness auto
termination
  by (relation "measure (\<lambda>(_, t, _). size t)") (auto simp: termination_simp)

end
