(* ===== verification/Patterns_Correct.thy ===== *)
theory Patterns_Correct
  imports Patterns Validate
begin

text \<open>
  The analysis of patterns is right about the values that the run-time check accepts: a pattern that
  it calls irrefutable matches each of them, a pattern that it rejects matches none, and the variants
  it counts as covered and as possible are those. So a match without missing variants has an arm for
  every value.
\<close>

section \<open>When a pattern matches\<close>

text \<open>
  The tests that \<open>compile_pattern\<close> emits, read on the heap: equality with a literal, the tag of a
  tagged value, the length of a tuple, the fields of a dict.
\<close>

fun matches :: "pattern \<Rightarrow> value_ref \<Rightarrow> bool" where
  "matches (Pattern P_Wildcard _) v = True"
| "matches (Pattern (P_Binding _) _) v = True"
| "matches (Pattern (P_Int i) _) v = (vr_as_int v = Some i)"
| "matches (Pattern (P_Float f) _) v = (case vr_as_float v of Some g \<Rightarrow> f64_eq g f | None \<Rightarrow> False)"
| "matches (Pattern (P_String s) _) v = (vr_as_str v = Some s)"
| "matches (Pattern (P_Atom a) _) v = (vr_as_atom v = Some a)"
| "matches (Pattern (P_Tagged tag p) _) v = (case vr_tagged_parts v of
     Some (t, payload) \<Rightarrow> vr_as_atom t = Some tag \<and> matches p payload | None \<Rightarrow> False)"
| "matches (Pattern (P_Tuple ps) _) v \<longleftrightarrow>
     vr_kind v = Inr VK_Tuple \<and> vr_sequence_len v = Some (length ps) \<and>
     list_all (\<lambda>(i, p). case vr_sequence_get v i of Some w \<Rightarrow> matches p w | None \<Rightarrow> False)
       (enumerate 0 ps)"
| "matches (Pattern (P_Struct fs) _) v \<longleftrightarrow>
     vr_kind v = Inr VK_Dict \<and>
     list_all (\<lambda>(name, p). case vr_dict_get v (located_value name) of
       Some w \<Rightarrow> matches p w | None \<Rightarrow> False) fs"

text \<open>The values that the check of a type accepts, with whatever fuel and path.\<close>

definition accepts :: "type_descriptor \<Rightarrow> value_ref \<Rightarrow> bool" where
  "accepts t v \<longleftrightarrow> (\<exists>fuel path. validate_value_ref fuel t v path = Inr ())"

section \<open>The values of a type\<close>

lemma result_unit [simp]: "refuse path reason = Inr x \<longleftrightarrow> False" "wrong_kind t v path = Inr () \<longleftrightarrow> False"
  by (auto simp: refuse_def wrong_kind_def result_simps)

lemma kind_cases:
  "vr_kind v = Inr VK_Int \<longleftrightarrow> (\<exists>i. vr_runtime v = RInt i)"
  "vr_kind v = Inr VK_Float \<longleftrightarrow> (\<exists>i. vr_runtime v = RFloat i)"
  "vr_kind v = Inr VK_String \<longleftrightarrow> (\<exists>i. vr_runtime v = RShortString i) \<or> (\<exists>i. vr_runtime v = RString i)"
  "vr_kind v = Inr VK_Tuple \<longleftrightarrow> (\<exists>i. vr_runtime v = RTuple i)"
  "vr_kind v = Inr VK_Dict \<longleftrightarrow> (\<exists>i. vr_runtime v = RDict i)"
  by (auto simp: vr_kind_def split: runtime_value.splits)

lemma decoded_runtime:
  assumes "decode_type_ref n v path = Inr t"
  shows "(\<exists>h. vr_runtime v = RUpLink h) \<or> (\<exists>h. vr_runtime v = RNativeType h) \<or> (\<exists>h. vr_runtime v = RDict h)"
proof (cases n)
  case (Suc m)
  with assms show ?thesis
    by (auto simp: decode_type_ref.simps result_simps vr_resolve_hidden_up_link_def
        vr_as_native_type_def ref_names_def vr_dict_fields_def
        split: runtime_value.splits option.splits object.splits)
qed (use assms in \<open>simp add: decode_type_ref.simps\<close>)

text \<open>What the run-time value of an accepted value is.\<close>

definition of_kind :: "type_descriptor \<Rightarrow> runtime_value \<Rightarrow> bool" where
  "of_kind t r = (case t of
     TType \<Rightarrow> (\<exists>h. r = RUpLink h \<or> r = RNativeType h \<or> r = RDict h)
   | TTypeOf _ \<Rightarrow> (\<exists>h. r = RUpLink h \<or> r = RNativeType h \<or> r = RDict h)
   | TDyn \<Rightarrow> (\<exists>h. r = RDyn h)
   | TInt \<Rightarrow> (\<exists>i. r = RInt i)
   | TFloat \<Rightarrow> (\<exists>i. r = RFloat i)
   | TString \<Rightarrow> (\<exists>h. r = RString h) \<or> (\<exists>i. r = RShortString i)
   | TBytes \<Rightarrow> (\<exists>h. r = RBytes h)
   | TOpaque _ \<Rightarrow> (\<exists>h. r = ROpaque h)
   | TAtom _ \<Rightarrow> (\<exists>a. r = RBuiltinAtom a) \<or> (\<exists>i. r = RAtom i)
   | TArray _ \<Rightarrow> (\<exists>h. r = RArray h)
   | TDict _ \<Rightarrow> (\<exists>h. r = RDict h)
   | TTagged _ _ \<Rightarrow> (\<exists>h. r = RTagged h)
   | TTuple _ \<Rightarrow> (\<exists>h. r = RTuple h)
   | TStruct _ \<Rightarrow> (\<exists>h. r = RDict h)
   | TEnum _ \<Rightarrow> (\<exists>a. r = RBuiltinAtom a) \<or> (\<exists>i. r = RAtom i) \<or> (\<exists>h. r = RTagged h)
   | TFunction _ _ \<Rightarrow> (\<exists>h. r = RFunc h)
   | _ \<Rightarrow> True)"

lemma accepts_kind:
  assumes "accepts t v"
  shows "of_kind t (vr_runtime v)"
proof -
  obtain fuel path where "validate_value_ref fuel t v path = Inr ()"
    using assms by (auto simp: accepts_def)
  then show ?thesis
    by (cases t)
      (auto simp: of_kind_def validate_kind_def validate_opaque_def validate_type_of_def
        validate_function_def enum_parts_def ref_array_def ref_names_def result_simps kind_cases
        vr_kind_def vr_as_atom_def vr_tagged_parts_def vr_dict_fields_def vr_function_arity_def
        dest!: decoded_runtime
        split: if_splits option.splits runtime_value.splits)
qed

text \<open>The parts of an accepted value are accepted.\<close>

lemma accepts_any: "accepts TAny v"
  by (simp add: accepts_def)

lemma accepts_atom: "accepts (TAtom a) v \<longleftrightarrow> vr_as_atom v = Some (atom_name a)"
  by (simp add: accepts_def)

lemma accepts_tagged:
  "accepts (TTagged tag t) v \<Longrightarrow> \<exists>tv w. vr_tagged_parts v = Some (tv, w) \<and>
     vr_as_atom tv = Some (atom_name tag) \<and> accepts t w"
  by (auto simp: accepts_def split: option.splits if_splits)

lemma accepts_tuple:
  assumes "accepts (TTuple ts) v"
  shows "vr_kind v = Inr VK_Tuple" "vr_sequence_len v = Some (length ts)"
    "i < length ts \<Longrightarrow> \<exists>w. vr_sequence_get v i = Some w \<and> accepts (ts ! i) w"
proof -
  obtain fuel path where "vr_kind v = Inr VK_Tuple" "vr_sequence_len v = Some (length ts)"
    and items: "\<forall>x \<in> set (enumerate 0 ts). (case x of (index, t) \<Rightarrow>
      rbind (expecting ''valid Tuple index'' (vr_sequence_get v index)) (\<lambda>item.
        validate_value_ref fuel t item (path @ ''.'' @ show_nat index))) = Inr ()"
    using assms by (auto simp: accepts_def result_simps split: if_splits)
  then show "vr_kind v = Inr VK_Tuple" "vr_sequence_len v = Some (length ts)" by auto
  assume "i < length ts"
  then have "(i, ts ! i) \<in> set (enumerate 0 ts)" by (simp add: in_set_enumerate_eq)
  from bspec[OF items this] show "\<exists>w. vr_sequence_get v i = Some w \<and> accepts (ts ! i) w"
    by (auto simp: accepts_def result_simps)
qed

lemma accepts_struct:
  assumes "accepts (TStruct fs) v"
  shows "vr_kind v = Inr VK_Dict"
    "(name, t) \<in> set fs \<Longrightarrow> \<exists>w. vr_dict_get v name = Some w \<and> accepts t w"
proof -
  show "vr_kind v = Inr VK_Dict" using accepts_kind[OF assms] by (simp add: of_kind_def kind_cases)
  obtain fuel path where fields: "\<forall>x \<in> set fs. (case x of (name, t) \<Rightarrow>
      rbind (expecting ''matching shape'' (vr_dict_get v name)) (\<lambda>item.
        validate_value_ref fuel t item (path @ ''.'' @ name))) = Inr ()"
    using assms by (auto simp: accepts_def result_simps split: if_splits)
  assume "(name, t) \<in> set fs"
  from bspec[OF fields this] show "\<exists>w. vr_dict_get v name = Some w \<and> accepts t w"
    by (auto simp: accepts_def result_simps)
qed

lemma accepts_enum:
  assumes "accepts (TEnum vs) v"
  obtains (unit_variant) tag where "vr_as_atom v = Some tag" "map_of vs tag = Some None"
  | (payload) tv w tag t where "vr_as_atom v = None" "vr_tagged_parts v = Some (tv, w)"
      "vr_as_atom tv = Some tag" "map_of vs tag = Some (Some t)" "accepts t w"
proof (cases "vr_as_atom v")
  case (Some tag)
  with assms unit_variant show ?thesis
    by (auto simp: accepts_def validate_unit_variant_def split: option.splits)
next
  case None
  obtain fuel path tag w where e: "enum_parts v path = Inr (tag, w)" and p: "(case map_of vs tag of
        Some (Some t) \<Rightarrow> validate_value_ref fuel t w (path @ ''.'' @ tag)
      | Some None \<Rightarrow> refuse path ('' variant '' @ CHR 0x27 # tag @ '' does not accept a payload'')
      | None \<Rightarrow> refuse path ('' has unknown Enum variant '' @ CHR 0x27 # tag)) = Inr ()"
    using assms None by (auto simp: accepts_def rbind_eq_Inr simp del: split_paired_Ex)
  obtain tv where parts: "vr_tagged_parts v = Some (tv, w)" "vr_as_atom tv = Some tag"
    using e by (auto simp: enum_parts_def split: option.splits)
  show ?thesis
  proof (cases "map_of vs tag")
    case (Some payload_type)
    with p obtain t where "payload_type = Some t" "validate_value_ref fuel t w (path @ ''.'' @ tag) = Inr ()"
      by (auto split: option.splits)
    with Some parts None payload[of tv w tag t] show ?thesis by (auto simp: accepts_def)
  qed (use p in simp)
qed

text \<open>The variant of a value.\<close>

definition variant_of :: "value_ref \<Rightarrow> string option" where
  "variant_of v = (case vr_as_atom v of
     Some tag \<Rightarrow> Some tag
   | None \<Rightarrow> Option.bind (vr_tagged_parts v) (\<lambda>(tv, _). vr_as_atom tv))"

section \<open>The analysis is sound\<close>

text \<open>The analysis only adds problems.\<close>

definition more_problems :: "analysis_context \<Rightarrow> analysis_context \<Rightarrow> bool" where
  "more_problems c c' \<longleftrightarrow> (\<exists>new. ac_problems c' = ac_problems c @ new)"

lemma more_problems_trans: "more_problems a b \<Longrightarrow> more_problems b c \<Longrightarrow> more_problems a c"
  by (auto simp: more_problems_def)

lemma more_problems_same:
  assumes "more_problems a b" "more_problems b c" "ac_problems c = ac_problems a"
  shows "ac_problems b = ac_problems a" "ac_problems c = ac_problems b"
proof -
  obtain new new' where "ac_problems b = ac_problems a @ new" "ac_problems c = ac_problems b @ new'"
    using assms(1,2) unfolding more_problems_def by blast
  with assms(3) show "ac_problems b = ac_problems a" "ac_problems c = ac_problems b" by simp_all
qed

lemma more_problems_steps:
  "more_problems c c" "more_problems c (bind_pattern_name name t c)" "more_problems c (add_problem l m c)"
  "more_problems c (enter_struct l t c)"
  "more_problems c (snd (enter_field q name ts names verdict c))"
proof -
  show "more_problems c c" by (simp add: more_problems_def)
  show "more_problems c (bind_pattern_name name t c)"
    by (simp add: more_problems_def bind_pattern_name_def)
  show "more_problems c (add_problem l m c)" by (simp add: more_problems_def add_problem_def)
  show "more_problems c (enter_struct l t c)"
    by (simp add: more_problems_def add_problem_def enter_struct_def)
  show "more_problems c (snd (enter_field q name ts names verdict c))"
    by (simp add: more_problems_def add_problem_def enter_field_def Let_def)
qed

text \<open>Induction over the patterns that a pattern holds.\<close>

fun subpatterns :: "pattern_kind \<Rightarrow> pattern list" where
  "subpatterns (P_Tagged _ p) = [p]"
| "subpatterns (P_Tuple ps) = ps"
| "subpatterns (P_Struct fs) = map snd fs"
| "subpatterns _ = []"

lemma subpattern_size: "p \<in> set (subpatterns kind) \<Longrightarrow> size p < size (Pattern kind location)"
proof (cases kind)
  case (P_Struct fs)
  assume "p \<in> set (subpatterns kind)"
  then obtain name where "(name, p) \<in> set fs" by (auto simp: P_Struct)
  then have "size p \<le> size_list (size_prod (\<lambda>_. 0) size) fs"
    by (intro size_list_estimation'[of "(name, p)"]) auto
  then show ?thesis by (simp add: P_Struct)
next
  case (P_Tuple ps)
  assume "p \<in> set (subpatterns kind)"
  then have "size p \<le> size_list size ps" by (intro size_list_estimation'[of p]) (auto simp: P_Tuple)
  then show ?thesis by (simp add: P_Tuple)
qed auto

lemma pattern_induct [case_names pattern]:
  assumes "\<And>kind location. (\<And>p. p \<in> set (subpatterns kind) \<Longrightarrow> P p) \<Longrightarrow> P (Pattern kind location)"
  shows "P p"
proof (induction p rule: measure_induct_rule[of size])
  case (less p)
  obtain kind location where "p = Pattern kind location" by (cases p)
  with less assms[of kind location] subpattern_size[of _ kind location] show ?case by blast
qed

definition adds_problems :: "(string \<Rightarrow> string) \<Rightarrow> pattern \<Rightarrow> bool" where
  "adds_problems q p \<longleftrightarrow> (\<forall>t c. more_problems c (snd (analyze q p t c)))"

lemma items_add_problems:
  "(\<forall>p \<in> set ps. adds_problems q p) \<Longrightarrow> more_problems c (snd (analyze_items q ps ts i verdict c))"
proof (induction ps arbitrary: i verdict c)
  case (Cons p ps)
  obtain s d where d: "analyze q p (item_type ts i) c = (s, d)" by (cases "analyze q p (item_type ts i) c")
  then have "more_problems c d" using Cons.prems by (simp add: adds_problems_def) (metis snd_conv)
  moreover have "more_problems d (snd (analyze_items q ps ts (Suc i) verdict' d))" for verdict'
    using Cons by simp
  ultimately show ?case using d by simp (blast intro: more_problems_trans)
qed (simp add: more_problems_steps)

lemma fields_add_problems:
  "(\<forall>(name, p) \<in> set fs. adds_problems q p) \<Longrightarrow>
     more_problems c (snd (analyze_fields q fs gs names verdict c))"
proof (induction fs arbitrary: names verdict c)
  case (Cons f fs)
  obtain name p where f: "f = (name, p)" by fastforce
  obtain verdict' e where e: "enter_field q name gs names verdict c = (verdict', e)" by fastforce
  let ?t = "case field_type gs (located_value name) of Some t \<Rightarrow> t | None \<Rightarrow> TAny"
  obtain s d where d: "analyze q p ?t e = (s, d)" by fastforce
  have "more_problems e d" using Cons.prems d by (simp add: adds_problems_def f) (metis snd_conv)
  moreover have "more_problems c e"
    using more_problems_steps(5)[of c q name gs names verdict] e by simp
  moreover have "more_problems d (snd (analyze_fields q fs gs names' r d))" for names' r
    using Cons by (simp add: f)
  ultimately show ?case using d e by (simp add: f Let_def) (blast intro: more_problems_trans)
qed (simp add: more_problems_steps)

lemma analyze_adds_problems: "adds_problems q p"
proof (induction p rule: pattern_induct)
  case (pattern kind location)
  have "more_problems c (snd (analyze q (Pattern kind location) t c))" for t c
  proof (cases kind)
    case (P_Tagged tag p)
    then show ?thesis using pattern[of p]
      by (auto simp: adds_problems_def split: prod.splits) (metis snd_conv)
  next
    case (P_Tuple ps)
    then have "more_problems c (snd (analyze_items q ps ts 0 verdict c))" for ts verdict
      using pattern by (intro items_add_problems) auto
    then show ?thesis by (auto simp: P_Tuple split: prod.splits) (metis snd_conv)
  next
    case (P_Struct fs)
    have "more_problems (enter_struct location t c)
        (snd (analyze_fields q fs gs {} verdict (enter_struct location t c)))" for gs verdict
      using pattern by (intro fields_add_problems) (force simp: P_Struct)
    then have "more_problems c (snd (analyze_fields q fs gs {} verdict (enter_struct location t c)))"
      for gs verdict by (rule more_problems_trans[OF more_problems_steps(4)])
    then show ?thesis by (auto simp: P_Struct split: prod.splits) (metis snd_conv)
  qed (simp_all add: more_problems_steps)
  then show ?case by (simp add: adds_problems_def)
qed

lemma analyze_more_problems: "more_problems c (snd (analyze q p t c))"
  using analyze_adds_problems[of q p] by (simp add: adds_problems_def)

lemma items_more_problems: "more_problems c (snd (analyze_items q ps ts i verdict c))"
  by (simp add: items_add_problems analyze_adds_problems)

lemma fields_more_problems: "more_problems c (snd (analyze_fields q fs gs names verdict c))"
  by (intro fields_add_problems) (simp add: analyze_adds_problems case_prod_beta)

text \<open>
  A judgement about a pattern: if it is called irrefutable it matches every accepted value, and if it
  is called incompatible it matches none, unless a problem with the pattern was reported.
\<close>

definition judges :: "pattern \<Rightarrow> type_descriptor \<Rightarrow> pattern_compatibility \<Rightarrow> bool \<Rightarrow> bool \<Rightarrow> bool" where
  "judges p t compatibility irrefutable clean \<longleftrightarrow> (\<forall>v. accepts t v \<longrightarrow>
     (irrefutable \<longrightarrow> matches p v) \<and>
     (clean \<and> compatibility = PC_Incompatible \<longrightarrow> \<not> matches p v))"

definition sound_pattern :: "(string \<Rightarrow> string) \<Rightarrow> pattern \<Rightarrow> bool" where
  "sound_pattern q p \<longleftrightarrow> (\<forall>t c s c'. analyze q p t c = (s, c') \<longrightarrow>
     judges p t (ps_compatibility s) (ps_irrefutable s) (ac_problems c' = ac_problems c))"

lemma combine_incompatible [simp]:
  "pattern_combine a b = PC_Incompatible \<longleftrightarrow> a = PC_Incompatible \<or> b = PC_Incompatible"
  by (auto simp: pattern_combine_def)

lemma shape_new_simps [simp]:
  "ps_compatibility (shape_new k i) = k" "ps_irrefutable (shape_new k i) = i"
  "ps_covered (shape_new k i) = {}" "ps_possible (shape_new k i) = {}"
  by (simp_all add: shape_new_def)

lemma catch_all_simps [simp]:
  "ps_compatibility (catch_all t) = PC_Compatible" "ps_irrefutable (catch_all t)"
  by (simp_all add: catch_all_def split: descr.splits)

text \<open>The items of a tuple pattern from an index on.\<close>

lemma items_judged:
  assumes "\<forall>p \<in> set ps. sound_pattern q p"
    and "analyze_items q ps ts i (k, irr) c = ((k', irr'), c')"
  shows "(irr' \<longrightarrow> irr \<and> (\<forall>j < length ps. \<forall>v. accepts (item_type ts (i + j)) v \<longrightarrow> matches (ps ! j) v)) \<and>
    (ac_problems c' = ac_problems c \<longrightarrow> k' = PC_Incompatible \<longrightarrow> k = PC_Incompatible \<or>
      (\<exists>j < length ps. \<forall>v. accepts (item_type ts (i + j)) v \<longrightarrow> \<not> matches (ps ! j) v))"
  using assms
proof (induction ps arbitrary: i k irr c)
  case (Cons p ps)
  obtain s d where d: "analyze q p (item_type ts i) c = (s, d)" by fastforce
  have rest: "analyze_items q ps ts (Suc i)
      (pattern_combine k (ps_compatibility s), irr \<and> ps_irrefutable s) d = ((k', irr'), c')"
    using Cons.prems(2) d by (simp add: add_verdict_def)
  have head: "judges p (item_type ts i) (ps_compatibility s) (ps_irrefutable s)
      (ac_problems d = ac_problems c)"
    using Cons.prems(1) d by (simp add: sound_pattern_def)
  have "more_problems c d" using analyze_more_problems[of c q p "item_type ts i"] d by simp
  moreover have "more_problems d c'" using items_more_problems[of d q ps ts "Suc i"] rest by (metis snd_conv)
  ultimately have same: "ac_problems d = ac_problems c" "ac_problems c' = ac_problems d"
    if "ac_problems c' = ac_problems c"
    using more_problems_same that by blast+
  have "\<forall>p \<in> set ps. sound_pattern q p" using Cons.prems(1) by simp
  note IH = Cons.IH[OF this rest]
  show ?case
  proof (intro conjI impI)
    assume irr': "irr'"
    with IH have "irr \<and> ps_irrefutable s" by simp
    then show "irr" by simp
    show "\<forall>j < length (p # ps). \<forall>v. accepts (item_type ts (i + j)) v \<longrightarrow> matches ((p # ps) ! j) v"
    proof (intro allI impI)
      fix j v assume "j < length (p # ps)" "accepts (item_type ts (i + j)) v"
      with IH irr' head \<open>irr \<and> ps_irrefutable s\<close> show "matches ((p # ps) ! j) v"
        by (cases j) (auto simp: judges_def)
    qed
  next
    assume clean: "ac_problems c' = ac_problems c" and "k' = PC_Incompatible"
    then have "pattern_combine k (ps_compatibility s) = PC_Incompatible \<or>
        (\<exists>j < length ps. \<forall>v. accepts (item_type ts (Suc i + j)) v \<longrightarrow> \<not> matches (ps ! j) v)"
      using IH same(2) by blast
    then consider "k = PC_Incompatible" | "ps_compatibility s = PC_Incompatible"
      | j where "j < length ps" "\<forall>v. accepts (item_type ts (Suc i + j)) v \<longrightarrow> \<not> matches (ps ! j) v"
      by (auto simp del: add_Suc)
    then show "k = PC_Incompatible \<or> (\<exists>j < length (p # ps). \<forall>v.
        accepts (item_type ts (i + j)) v \<longrightarrow> \<not> matches ((p # ps) ! j) v)"
    proof cases
      case 2
      with head same(1)[OF clean] have "\<forall>v. accepts (item_type ts (i + 0)) v \<longrightarrow> \<not> matches ((p # ps) ! 0) v"
        by (simp add: judges_def)
      then show ?thesis by (intro disjI2 exI[of _ 0]) simp
    next
      case (3 j)
      then have "Suc j < length (p # ps)" "\<forall>v. accepts (item_type ts (i + Suc j)) v \<longrightarrow>
          \<not> matches ((p # ps) ! Suc j) v" by simp_all
      then show ?thesis by blast
    qed simp
  qed
qed simp

text \<open>The fields of a struct pattern: a missing field is a problem.\<close>

definition known_type :: "(string \<times> type_descriptor) list option \<Rightarrow> string \<Rightarrow> type_descriptor" where
  "known_type gs name = (case field_type gs name of Some t \<Rightarrow> t | None \<Rightarrow> TAny)"

lemma enter_field_verdict:
  assumes "enter_field q name gs names (k, irr) c = ((k', irr'), c')"
  shows "irr' \<Longrightarrow> irr" "ac_problems c' = ac_problems c \<Longrightarrow> k' = k"
  using assms by (simp_all add: enter_field_def add_problem_def Let_def split: if_splits) auto

lemma fields_judged:
  assumes "\<forall>(name, p) \<in> set fs. sound_pattern q p"
    and "analyze_fields q fs gs names (k, irr) c = ((k', irr'), c')"
  shows "(irr' \<longrightarrow> irr \<and> (\<forall>(name, p) \<in> set fs. field_type gs (located_value name) \<noteq> None \<and>
      (\<forall>v. accepts (known_type gs (located_value name)) v \<longrightarrow> matches p v))) \<and>
    (ac_problems c' = ac_problems c \<longrightarrow> k' = PC_Incompatible \<longrightarrow> k = PC_Incompatible \<or>
      (\<exists>(name, p) \<in> set fs. \<forall>v. accepts (known_type gs (located_value name)) v \<longrightarrow> \<not> matches p v))"
  using assms
proof (induction fs arbitrary: names k irr c)
  case (Cons f fs)
  obtain name p where f: "f = (name, p)" by fastforce
  let ?n = "located_value name"
  obtain k1 irr1 e where e: "enter_field q name gs names (k, irr) c = ((k1, irr1), e)"
    by (metis prod.collapse)
  obtain s d where d: "analyze q p (known_type gs ?n) e = (s, d)" by fastforce
  have rest: "analyze_fields q fs gs (insert ?n names) (pattern_combine k1 (ps_compatibility s),
      irr1 \<and> ps_irrefutable s \<and> field_type gs ?n \<noteq> None) d = ((k', irr'), c')"
    using Cons.prems(2) d e by (simp add: f Let_def add_verdict_def known_type_def)
  have "sound_pattern q p" "\<forall>(name, p) \<in> set fs. sound_pattern q p" using Cons.prems(1) by (simp_all add: f)
  note IH = Cons.IH[OF this(2) rest]
  have head: "judges p (known_type gs ?n) (ps_compatibility s) (ps_irrefutable s)
      (ac_problems d = ac_problems e)"
    using \<open>sound_pattern q p\<close> d by (simp add: sound_pattern_def)
  have "more_problems c e" using more_problems_steps(5)[of c q name gs names "(k, irr)"] e by simp
  moreover have ed: "more_problems e d"
    using analyze_more_problems[of e q p "known_type gs ?n"] d by simp
  moreover have dc: "more_problems d c'"
    using fields_more_problems[of d q fs gs "insert ?n names"] rest by (metis snd_conv)
  ultimately have ec: "ac_problems e = ac_problems c" "ac_problems c' = ac_problems e"
    if "ac_problems c' = ac_problems c"
    using more_problems_same[OF _ more_problems_trans] that by blast+
  show ?case
  proof (intro conjI impI)
    assume irr': "irr'"
    with IH have i: "irr1" "ps_irrefutable s" "field_type gs ?n \<noteq> None"
      "\<forall>(name, p) \<in> set fs. field_type gs (located_value name) \<noteq> None \<and>
        (\<forall>v. accepts (known_type gs (located_value name)) v \<longrightarrow> matches p v)" by blast+
    then show "irr" using enter_field_verdict(1)[OF e] by simp
    have "\<forall>v. accepts (known_type gs ?n) v \<longrightarrow> matches p v" using head i(2) by (simp add: judges_def)
    with i(3,4) show "\<forall>(name, p) \<in> set (f # fs). field_type gs (located_value name) \<noteq> None \<and>
        (\<forall>v. accepts (known_type gs (located_value name)) v \<longrightarrow> matches p v)" by (simp add: f)
  next
    assume clean: "ac_problems c' = ac_problems c" and k': "k' = PC_Incompatible"
    note ec = ec[OF clean]
    have same: "ac_problems d = ac_problems e" "ac_problems c' = ac_problems d"
      using more_problems_same[OF ed dc ec(2)] .
    have "pattern_combine k1 (ps_compatibility s) = PC_Incompatible \<or>
        (\<exists>(name, p) \<in> set fs. \<forall>v. accepts (known_type gs (located_value name)) v \<longrightarrow> \<not> matches p v)"
      using IH same(2) k' by blast
    moreover have "k1 = k" using enter_field_verdict(2)[OF e ec(1)] .
    moreover have "\<forall>v. accepts (known_type gs ?n) v \<longrightarrow> \<not> matches p v"
      if "ps_compatibility s = PC_Incompatible"
      using head same(1) that by (simp add: judges_def)
    ultimately show "k = PC_Incompatible \<or> (\<exists>(name, p) \<in> set (f # fs).
        \<forall>v. accepts (known_type gs (located_value name)) v \<longrightarrow> \<not> matches p v)"
      by (simp add: f) blast
  qed
qed simp

text \<open>The patterns without parts.\<close>

lemma primitive_judged:
  "judges (Pattern (P_Int i) l) t (ps_compatibility (primitive_shape t PP_Int))
     (ps_irrefutable (primitive_shape t PP_Int)) clean"
  "judges (Pattern (P_Float f) l) t (ps_compatibility (primitive_shape t PP_Float))
     (ps_irrefutable (primitive_shape t PP_Float)) clean"
  "judges (Pattern (P_String s) l) t (ps_compatibility (primitive_shape t PP_String))
     (ps_irrefutable (primitive_shape t PP_String)) clean"
  by (cases t; auto simp: judges_def primitive_shape_def is_unknown_def of_kind_def vr_as_int_def
    vr_as_float_def vr_as_str_def dest!: accepts_kind)+

lemma atom_judged:
  "judges (Pattern (P_Atom a) l) t (ps_compatibility (atom_shape t a)) (ps_irrefutable (atom_shape t a)) clean"
proof (cases "(\<exists>b. t = TAtom b) \<or> (\<exists>vs. t = TEnum vs)")
  case True
  then consider (atom) b where "t = TAtom b" | (enum) vs where "t = TEnum vs" by blast
  then show ?thesis
  proof cases
    case enum
    have "vr_as_atom v \<noteq> Some a" if "accepts t v" "map_of vs a \<noteq> Some None" for v
      using that by (auto simp: enum elim!: accepts_enum)
    moreover have "vr_as_atom v = Some a" if "accepts t v" "map_of vs a = Some None" "length vs = 1" for v
      using that by (cases vs) (auto simp: enum elim!: accepts_enum split: if_splits)
    ultimately show ?thesis by (auto simp: judges_def atom_shape_def enum Let_def)
  qed (auto simp: judges_def atom_shape_def accepts_atom)
next
  case False
  then show ?thesis
    by (cases t) (auto simp: judges_def atom_shape_def is_unknown_def of_kind_def vr_as_atom_def
      dest!: accepts_kind)
qed

text \<open>A tagged pattern, given its payload.\<close>

lemma tagged_not_atom: "vr_tagged_parts v = Some parts \<Longrightarrow> vr_as_atom v = None"
  by (auto simp: vr_tagged_parts_def vr_as_atom_def split: runtime_value.splits)

lemma tagged_outer_unknown:
  "tagged_outer t tag = (u, outer, only) \<Longrightarrow> outer \<noteq> PC_Compatible \<Longrightarrow> u = TAny"
  by (auto simp: tagged_outer_def split: descr.splits option.splits if_splits)

lemma tagged_outer_payload:
  assumes "tagged_outer t tag = (u, PC_Compatible, only)" "accepts t v"
    and "vr_tagged_parts v = Some (tv, w)" "vr_as_atom tv = Some tag"
  shows "accepts u w"
proof (cases t)
  case (TTagged b p)
  with assms show ?thesis using accepts_tagged[of b p v] by (auto simp: tagged_outer_def split: if_splits)
next
  case (TEnum vs)
  with assms have "map_of vs tag = Some (Some u)"
    by (auto simp: tagged_outer_def split: option.splits)
  with assms show ?thesis by (auto simp: TEnum tagged_not_atom elim!: accepts_enum)
qed (use assms in \<open>auto simp: tagged_outer_def is_unknown_def split: if_splits\<close>)

lemma tagged_outer_incompatible:
  assumes "tagged_outer t tag = (u, PC_Incompatible, only)" "accepts t v"
    and "vr_tagged_parts v = Some (tv, w)"
  shows "vr_as_atom tv \<noteq> Some tag"
proof -
  have tagged: "\<exists>h. vr_runtime v = RTagged h"
    using assms(3) by (auto simp: vr_tagged_parts_def split: runtime_value.splits)
  show ?thesis
  proof (cases t)
    case (TTagged b p)
    with assms show ?thesis using accepts_tagged[of b p v] by (auto simp: tagged_outer_def split: if_splits)
  next
    case (TEnum vs)
    with assms have "\<nexists>u. map_of vs tag = Some (Some u)"
      by (auto simp: tagged_outer_def split: option.splits)
    with assms show ?thesis by (auto simp: TEnum tagged_not_atom elim!: accepts_enum)
  qed (use assms(1) accepts_kind[OF assms(2)] tagged in
    \<open>auto simp: tagged_outer_def is_unknown_def of_kind_def split: if_splits\<close>)
qed

lemma tagged_outer_only:
  assumes "tagged_outer t tag = (u, PC_Compatible, True)" "accepts t v"
  obtains tv w where "vr_tagged_parts v = Some (tv, w)" "vr_as_atom tv = Some tag"
proof (cases t)
  case (TTagged b p)
  with assms that show ?thesis using accepts_tagged[of b p v] by (auto simp: tagged_outer_def split: if_splits)
next
  case (TEnum vs)
  with assms(1) have "map_of vs tag = Some (Some u)" "length vs = 1"
    by (auto simp: tagged_outer_def split: option.splits)
  then have "vs = [(tag, Some u)]" by (cases vs) (auto split: if_splits)
  with assms(2) that show ?thesis by (auto simp: TEnum elim!: accepts_enum split: if_splits)
qed (use assms in \<open>auto simp: tagged_outer_def is_unknown_def split: if_splits\<close>)

lemma tagged_judged:
  assumes "judges p (fst (tagged_outer t tag)) (ps_compatibility s) (ps_irrefutable s) clean"
  shows "judges (Pattern (P_Tagged tag p) l) t (ps_compatibility (tagged_shape t tag s))
    (ps_irrefutable (tagged_shape t tag s)) clean"
proof -
  obtain u outer only where o: "tagged_outer t tag = (u, outer, only)" by (metis prod.collapse)
  have shape: "ps_compatibility (tagged_shape t tag s) = pattern_combine outer (ps_compatibility s)"
    "ps_irrefutable (tagged_shape t tag s) \<longleftrightarrow> only \<and> outer = PC_Compatible \<and> ps_irrefutable s"
    by (simp_all add: tagged_shape_def o Let_def)
  have payload: "accepts u w" if "accepts t v" "vr_tagged_parts v = Some (tv, w)" "vr_as_atom tv = Some tag"
    for v tv w
    using tagged_outer_payload[of t tag u only v tv w] tagged_outer_unknown[OF o] that o accepts_any
    by (cases "outer = PC_Compatible") auto
  show ?thesis
    unfolding judges_def
  proof (intro allI impI conjI)
    fix v assume v: "accepts t v" and "ps_irrefutable (tagged_shape t tag s)"
    then have i: "only" "outer = PC_Compatible" "ps_irrefutable s" by (simp_all add: shape)
    obtain tv w where "vr_tagged_parts v = Some (tv, w)" "vr_as_atom tv = Some tag"
      using tagged_outer_only[of t tag u v] o i v by auto
    with payload[OF v this] assms i(3) show "matches (Pattern (P_Tagged tag p) l) v"
      by (simp add: judges_def o)
  next
    fix v assume v: "accepts t v"
      and bad: "clean \<and> ps_compatibility (tagged_shape t tag s) = PC_Incompatible"
    show "\<not> matches (Pattern (P_Tagged tag p) l) v"
    proof
      assume "matches (Pattern (P_Tagged tag p) l) v"
      then obtain tv w where w: "vr_tagged_parts v = Some (tv, w)" "vr_as_atom tv = Some tag" "matches p w"
        by (auto split: option.splits)
      then have "outer \<noteq> PC_Incompatible"
        using tagged_outer_incompatible[of t tag u only v tv w] o v by auto
      with bad have "ps_compatibility s = PC_Incompatible" by (simp add: shape)
      with payload[OF v w(1,2)] assms bad w(3) show False by (simp add: judges_def o)
    qed
  qed
qed

lemma item_type_nth: "j < length us \<Longrightarrow> item_type (Some us) j = us ! j"
  by (simp add: item_type_def nth_opt_def)

text \<open>A tuple pattern and a struct pattern, given their parts.\<close>

lemma tuple_item_accepted:
  assumes "accepts t v" "vr_kind v = Inr VK_Tuple" "vr_sequence_len v = Some n" "j < n"
    and "tuple_outer t n = (ts, outer)" "vr_sequence_get v j = Some w"
  shows "accepts (item_type ts j) w"
proof (cases ts)
  case (Some us)
  with assms(5) have "t = TTuple us" "length us = n"
    by (auto simp: tuple_outer_def split: descr.splits if_splits)
  with accepts_tuple(3)[of us v j] assms Some show ?thesis by (auto simp: item_type_nth)
qed (simp add: item_type_def accepts_any)

lemma tuple_judged:
  assumes parts: "\<forall>p \<in> set ps. sound_pattern q p"
    and run: "analyze q (Pattern (P_Tuple ps) l) t c = (s, c')"
  shows "judges (Pattern (P_Tuple ps) l) t (ps_compatibility s) (ps_irrefutable s)
    (ac_problems c' = ac_problems c)"
proof -
  obtain ts outer where o: "tuple_outer t (length ps) = (ts, outer)" by fastforce
  obtain k irr where r: "analyze_items q ps ts 0 (outer, outer = PC_Compatible) c = ((k, irr), c')"
    and s: "ps_compatibility s = k" "ps_irrefutable s = irr"
    using run o by (auto split: prod.splits)
  note items = items_judged[OF parts r]
  show ?thesis
    unfolding judges_def s
  proof (intro allI impI conjI)
    fix v assume v: "accepts t v" and "irr"
    with items have i: "outer = PC_Compatible"
      "\<forall>j < length ps. \<forall>v. accepts (item_type ts j) v \<longrightarrow> matches (ps ! j) v" by auto
    with o obtain us where t: "t = TTuple us" "length us = length ps" "ts = Some us"
      by (auto simp: tuple_outer_def is_unknown_def split: descr.splits if_splits)
    have "\<exists>w. vr_sequence_get v j = Some w \<and> matches (ps ! j) w" if "j < length ps" for j
      using accepts_tuple(3)[of us v j] v t i(2) that by (auto simp: item_type_nth)
    with accepts_tuple(1,2)[of us v] v t show "matches (Pattern (P_Tuple ps) l) v"
      by (fastforce simp: list_all_iff in_set_enumerate_eq)
  next
    fix v assume v: "accepts t v" and bad: "ac_problems c' = ac_problems c \<and> k = PC_Incompatible"
    show "\<not> matches (Pattern (P_Tuple ps) l) v"
    proof
      assume m: "matches (Pattern (P_Tuple ps) l) v"
      then have kind: "vr_kind v = Inr VK_Tuple" "vr_sequence_len v = Some (length ps)" by auto
      have get: "\<exists>w. vr_sequence_get v j = Some w \<and> matches (ps ! j) w" if "j < length ps" for j
      proof -
        have "(j, ps ! j) \<in> set (enumerate 0 ps)" using that by (simp add: in_set_enumerate_eq)
        with m show ?thesis by (fastforce simp: list_all_iff split: option.splits)
      qed
      have "outer \<noteq> PC_Incompatible"
        using o kind v accepts_kind[OF v] accepts_tuple(2)[of _ v]
        by (auto simp: tuple_outer_def is_unknown_def of_kind_def kind_cases split: descr.splits if_splits)
      then obtain j where j: "j < length ps" "\<forall>v. accepts (item_type ts j) v \<longrightarrow> \<not> matches (ps ! j) v"
        using items bad by auto
      with get[OF j(1)] tuple_item_accepted[OF v kind j(1) o] show False by blast
    qed
  qed
qed

lemma struct_field_accepted:
  assumes "accepts t v" "struct_outer t = (gs, outer)" "vr_dict_get v name = Some w"
  shows "accepts (known_type gs name) w"
proof (cases "field_type gs name")
  case (Some u)
  then obtain ts where ts: "gs = Some ts" "map_of ts name = Some u"
    by (auto simp: field_type_def bind_eq_Some_conv)
  with assms(2) have "t = TStruct ts" by (auto simp: struct_outer_def split: descr.splits)
  with accepts_struct(2)[of ts v name u] assms ts Some show ?thesis
    by (auto simp: known_type_def dest: map_of_SomeD)
qed (simp add: known_type_def accepts_any)

lemma struct_judged:
  assumes parts: "\<forall>(name, p) \<in> set fs. sound_pattern q p"
    and run: "analyze q (Pattern (P_Struct fs) l) t c = (s, c')"
  shows "judges (Pattern (P_Struct fs) l) t (ps_compatibility s) (ps_irrefutable s)
    (ac_problems c' = ac_problems c)"
proof -
  obtain gs outer where o: "struct_outer t = (gs, outer)" by fastforce
  obtain k irr where r: "analyze_fields q fs gs {} (outer, outer = PC_Compatible)
      (enter_struct l t c) = ((k, irr), c')"
    and s: "ps_compatibility s = k" "ps_irrefutable s = irr"
    using run o by (auto split: prod.splits)
  note fields = fields_judged[OF parts r]
  have step: "more_problems c (enter_struct l t c)" "more_problems (enter_struct l t c) c'"
    using more_problems_steps(4) fields_more_problems[of "enter_struct l t c" q fs gs "{}"] r
    by (blast, metis snd_conv)
  show ?thesis
    unfolding judges_def s
  proof (intro allI impI conjI)
    fix v assume v: "accepts t v" and "irr"
    with fields have i: "outer = PC_Compatible" "\<forall>(name, p) \<in> set fs.
        field_type gs (located_value name) \<noteq> None \<and>
        (\<forall>v. accepts (known_type gs (located_value name)) v \<longrightarrow> matches p v)" by auto
    with o obtain us where t: "t = TStruct us" "gs = Some us"
      by (auto simp: struct_outer_def is_unknown_def split: descr.splits if_splits)
    have "\<exists>w. vr_dict_get v (located_value name) = Some w \<and> matches p w" if "(name, p) \<in> set fs" for name p
    proof -
      have "field_type gs (located_value name) \<noteq> None" using i(2) that by blast
      then obtain u where u: "map_of us (located_value name) = Some u" using t by (auto simp: field_type_def)
      with accepts_struct(2)[of us v "located_value name" u] v t i(2) that show ?thesis
        by (fastforce simp: known_type_def field_type_def dest: map_of_SomeD)
    qed
    with accepts_struct(1)[of us v] v t show "matches (Pattern (P_Struct fs) l) v"
      by (fastforce simp: list_all_iff)
  next
    fix v assume v: "accepts t v" and bad: "ac_problems c' = ac_problems c \<and> k = PC_Incompatible"
    show "\<not> matches (Pattern (P_Struct fs) l) v"
    proof
      assume m: "matches (Pattern (P_Struct fs) l) v"
      then have get: "\<exists>w. vr_dict_get v (located_value name) = Some w \<and> matches p w"
        if "(name, p) \<in> set fs" for name p
        using that by (fastforce simp: list_all_iff split: option.splits)
      have clean: "ac_problems (enter_struct l t c) = ac_problems c"
        "ac_problems c' = ac_problems (enter_struct l t c)"
        using more_problems_same[OF step] bad by blast+
      then have "outer \<noteq> PC_Incompatible" using o by (auto simp: enter_struct_def add_problem_def)
      then obtain name p where "(name, p) \<in> set fs"
        "\<forall>v. accepts (known_type gs (located_value name)) v \<longrightarrow> \<not> matches p v"
        using fields bad clean(2) by auto
      with get struct_field_accepted[OF v o] show False by blast
    qed
  qed
qed

text \<open>Every pattern.\<close>

lemma analyze_sound: "sound_pattern q p"
proof (induction p rule: pattern_induct)
  case (pattern kind l)
  have "judges (Pattern kind l) t (ps_compatibility s) (ps_irrefutable s) (ac_problems c' = ac_problems c)"
    if run: "analyze q (Pattern kind l) t c = (s, c')" for t c s c'
  proof (cases kind)
    case (P_Tagged tag p)
    obtain s1 where r: "analyze q p (fst (tagged_outer t tag)) c = (s1, c')" and s: "s = tagged_shape t tag s1"
      using run by (auto simp: P_Tagged split: prod.splits)
    have "sound_pattern q p" using pattern by (simp add: P_Tagged)
    with r have "judges p (fst (tagged_outer t tag)) (ps_compatibility s1) (ps_irrefutable s1)
        (ac_problems c' = ac_problems c)" by (simp add: sound_pattern_def)
    then show ?thesis unfolding s P_Tagged by (rule tagged_judged)
  next
    case (P_Tuple ps)
    with pattern run show ?thesis using tuple_judged[of ps q l t c s c'] by simp
  next
    case (P_Struct fs)
    then have "\<forall>(name, p) \<in> set fs. sound_pattern q p" using pattern by force
    with run show ?thesis using struct_judged[of fs q l t c s c'] by (simp add: P_Struct)
  next
    case P_Wildcard
    then show ?thesis using run by (auto simp: judges_def)
  next
    case (P_Binding name)
    then show ?thesis using run by (auto simp: judges_def)
  qed (use run in \<open>auto simp: primitive_judged atom_judged\<close>)
  then show ?case by (auto simp: sound_pattern_def)
qed

section \<open>Variants\<close>

text \<open>The variants that a pattern counts for an enum.\<close>

lemma variant_of_enum:
  assumes "accepts (TEnum vs) v"
  obtains tag where "variant_of v = Some tag" "tag \<in> set (map fst vs)"
  using assms
proof (cases rule: accepts_enum)
  case (unit_variant tag)
  with that[of tag] show ?thesis by (force simp: variant_of_def dest: map_of_SomeD)
next
  case (payload tv w tag t)
  with that[of tag] show ?thesis by (force simp: variant_of_def dest: map_of_SomeD)
qed

lemma enum_kinds:
  assumes "accepts (TEnum vs) v"
  shows "vr_as_int v = None" "vr_as_float v = None" "vr_as_str v = None"
    "vr_kind v \<noteq> Inr VK_Tuple" "vr_kind v \<noteq> Inr VK_Dict"
  using accepts_kind[OF assms]
  by (auto simp: of_kind_def vr_as_int_def vr_as_float_def vr_as_str_def kind_cases)

lemma enum_atom:
  assumes "accepts (TEnum vs) v" "variant_of v = Some tag"
  shows "vr_as_atom v = Some a \<longleftrightarrow> map_of vs a = Some None \<and> tag = a"
  using assms(1)
proof (cases rule: accepts_enum)
  case (unit_variant b)
  with assms(2) show ?thesis by (auto simp: variant_of_def)
next
  case (payload tv w b t)
  with assms(2) show ?thesis by (auto simp: variant_of_def)
qed

lemma enum_payload:
  assumes "accepts (TEnum vs) v" "variant_of v = Some tag" "map_of vs tag = Some (Some t)"
  obtains tv w where "vr_tagged_parts v = Some (tv, w)" "vr_as_atom tv = Some tag" "accepts t w"
  using assms(1)
proof (cases rule: accepts_enum)
  case (unit_variant b)
  with assms(2,3) show ?thesis by (simp add: variant_of_def)
next
  case (payload tv w b u)
  with assms(2,3) that[of tv w] show ?thesis by (simp add: variant_of_def)
qed

lemma tagged_shape_enum:
  "ps_covered (tagged_shape (TEnum vs) tag s) =
     (case map_of vs tag of Some (Some _) \<Rightarrow> if ps_irrefutable s then {tag} else {} | _ \<Rightarrow> {})"
  "ps_possible (tagged_shape (TEnum vs) tag s) =
     (case map_of vs tag of Some (Some _) \<Rightarrow> {tag} | _ \<Rightarrow> {})"
  by (auto simp: tagged_shape_def tagged_outer_def Let_def split: option.splits)

lemma tagged_variants:
  assumes v: "accepts (TEnum vs) v" "variant_of v = Some tag"
    and r: "analyze q p (fst (tagged_outer (TEnum vs) a)) c = (s, c')"
  shows "tag \<in> ps_covered (tagged_shape (TEnum vs) a s) \<Longrightarrow> matches (Pattern (P_Tagged a p) l) v"
    and "matches (Pattern (P_Tagged a p) l) v \<Longrightarrow> tag \<in> ps_possible (tagged_shape (TEnum vs) a s)"
proof -
  assume "tag \<in> ps_covered (tagged_shape (TEnum vs) a s)"
  then obtain u where u: "map_of vs a = Some (Some u)" "ps_irrefutable s" "tag = a"
    by (auto simp: tagged_shape_enum split: option.splits if_splits)
  obtain tv w where w: "vr_tagged_parts v = Some (tv, w)" "vr_as_atom tv = Some a" "accepts u w"
    using enum_payload[OF v] u by auto
  have "judges p u (ps_compatibility s) (ps_irrefutable s) (ac_problems c' = ac_problems c)"
    using analyze_sound[of q p] r u(1) by (simp add: sound_pattern_def tagged_outer_def)
  with w u(2) show "matches (Pattern (P_Tagged a p) l) v" by (simp add: judges_def)
next
  assume "matches (Pattern (P_Tagged a p) l) v"
  then obtain tv w where w: "vr_tagged_parts v = Some (tv, w)" "vr_as_atom tv = Some a"
    by (auto split: option.splits)
  with v(2) tagged_not_atom[OF w(1)] have "tag = a" by (simp add: variant_of_def)
  moreover have "\<exists>u. map_of vs a = Some (Some u)"
    using v(1) w tagged_not_atom[OF w(1)] by (cases rule: accepts_enum) auto
  ultimately show "tag \<in> ps_possible (tagged_shape (TEnum vs) a s)" by (auto simp: tagged_shape_enum)
qed

lemma pattern_variants:
  assumes v: "accepts (TEnum vs) v" "variant_of v = Some tag"
    and run: "analyze q (Pattern kind l) (TEnum vs) c = (s, c')"
  shows "tag \<in> ps_covered s \<Longrightarrow> matches (Pattern kind l) v"
    "matches (Pattern kind l) v \<Longrightarrow> tag \<in> ps_possible s"
proof -
  have tag: "tag \<in> set (map fst vs)" using variant_of_enum[OF v(1)] v(2) by auto
  note kinds = enum_kinds[OF v(1)]
  have "(tag \<in> ps_covered s \<longrightarrow> matches (Pattern kind l) v) \<and>
    (matches (Pattern kind l) v \<longrightarrow> tag \<in> ps_possible s)"
  proof (cases kind)
    case (P_Atom a)
    with run show ?thesis
      by (auto simp: atom_shape_def Let_def enum_atom[OF v] split: if_splits)
  next
    case (P_Tagged a p)
    obtain s1 where "analyze q p (fst (tagged_outer (TEnum vs) a)) c = (s1, c')"
      "s = tagged_shape (TEnum vs) a s1"
      using run by (auto simp: P_Tagged split: prod.splits)
    with tagged_variants[OF v this(1)] show ?thesis by (simp add: P_Tagged)
  next
    case (P_Tuple ps)
    then have "ps_covered s = {}" using run by (auto split: prod.splits)
    with kinds(4) show ?thesis by (simp add: P_Tuple)
  next
    case (P_Struct fs)
    then have "ps_covered s = {}" using run by (auto split: prod.splits)
    with kinds(5) show ?thesis by (simp add: P_Struct)
  next
    case P_Wildcard
    with run have "s = catch_all (TEnum vs)" by auto
    with tag show ?thesis by (simp add: catch_all_def P_Wildcard)
  next
    case (P_Binding name)
    with run have "s = catch_all (TEnum vs)" by auto
    with tag show ?thesis by (simp add: catch_all_def P_Binding)
  qed (use run kinds(1-3) in \<open>auto simp: primitive_shape_def\<close>)
  then show "tag \<in> ps_covered s \<Longrightarrow> matches (Pattern kind l) v"
    "matches (Pattern kind l) v \<Longrightarrow> tag \<in> ps_possible s" by blast+
qed

text \<open>The possible variants of a pattern are finitely many, and only an enum has some.\<close>

lemma possible_finite:
  assumes "analyze q (Pattern kind l) t c = (s, c')"
  shows "finite (ps_possible s)" "ps_possible s \<noteq> {} \<Longrightarrow> \<exists>vs. t = TEnum vs"
proof -
  have "finite (ps_possible s) \<and> (ps_possible s \<noteq> {} \<longrightarrow> (\<exists>vs. t = TEnum vs))"
    using assms
    by (cases kind)
      (auto simp: catch_all_def atom_shape_def primitive_shape_def tagged_shape_def Let_def
        split: prod.splits descr.splits if_splits)
  then show "finite (ps_possible s)" "ps_possible s \<noteq> {} \<Longrightarrow> \<exists>vs. t = TEnum vs" by blast+
qed

text \<open>What the analysis of a pattern says of a value.\<close>

definition analysis_right :: "pattern_analysis \<Rightarrow> pattern \<Rightarrow> type_descriptor \<Rightarrow> value_ref \<Rightarrow> bool" where
  "analysis_right a p t v \<longleftrightarrow>
     (pa_irrefutable a \<longrightarrow> matches p v) \<and>
     (pa_compatibility a = PC_Incompatible \<and> pa_problems a = [] \<longrightarrow> \<not> matches p v) \<and>
     (\<forall>vs tag. t = TEnum vs \<and> variant_of v = Some tag \<longrightarrow>
        (tag \<in> pa_covered a \<longrightarrow> matches p v) \<and> (matches p v \<longrightarrow> tag \<in> pa_possible a))"

lemma accepted_analysis:
  assumes "accepts t v"
  shows "analysis_right (analyze_pattern q p t) p t v"
proof -
  obtain kind l where p: "p = Pattern kind l" by (cases p)
  obtain s c' where r: "analyze q p t context_default = (s, c')" by fastforce
  have "judges p t (ps_compatibility s) (ps_irrefutable s) (ac_problems c' = ac_problems context_default)"
    using analyze_sound[of q p] r by (simp add: sound_pattern_def)
  with assms r pattern_variants[of _ v _ q kind l context_default s c'] show ?thesis
    by (auto simp: analysis_right_def analyze_pattern_def judges_def p context_default_def)
qed


section \<open>The arms of a match\<close>

text \<open>An arm without a guard whose pattern matches.\<close>

definition takes :: "match_arm \<Rightarrow> value_ref \<Rightarrow> bool" where
  "takes arm v \<longleftrightarrow> ma_guard (located_value arm) = None \<and> matches (ma_pattern (located_value arm)) v"

text \<open>What the coverage after some arms says of a value.\<close>

definition coverage_right :: "type_descriptor \<Rightarrow> value_ref \<Rightarrow> match_coverage \<Rightarrow> bool \<Rightarrow> bool" where
  "coverage_right t v cov taken \<longleftrightarrow> (mc_all cov \<longrightarrow> taken) \<and>
     (\<forall>vs tag. t = TEnum vs \<and> variant_of v = Some tag \<and> tag \<in> mc_variants cov \<longrightarrow> taken)"

abbreviation arm_coverage ::
    "(string \<Rightarrow> string) \<Rightarrow> type_descriptor \<Rightarrow> match_arm \<Rightarrow> match_coverage \<times> pattern_diagnostics \<Rightarrow>
     match_coverage \<times> pattern_diagnostics" where
  "arm_coverage q t arm \<equiv> check_arm q t (located_value arm)"

lemma cover_arm_right:
  assumes "coverage_right t v cov taken" "accepts t v"
  shows "coverage_right t v (fst (arm_coverage q t arm (cov, ds))) (taken \<or> takes arm v)"
proof -
  let ?a = "analyze_pattern q (ma_pattern (located_value arm)) t"
  have right: "analysis_right ?a (ma_pattern (located_value arm)) t v"
    using accepted_analysis[OF assms(2)] .
  have cov: "fst (arm_coverage q t arm (cov, ds)) =
      cover_arm t ?a (ma_guard (located_value arm) \<noteq> None) cov"
    by (simp add: check_arm_def Let_def)
  show ?thesis
  proof (cases "ma_guard (located_value arm)")
    case None
    have step: "taken \<or> takes arm v" if "t = TEnum vs" "variant_of v = Some tag"
        "tag \<in> mc_variants cov \<or> tag \<in> pa_covered ?a" for vs tag
      using that assms(1) right None by (auto simp: coverage_right_def analysis_right_def takes_def)
    have "taken \<or> takes arm v" if "t = TEnum vs"
        "list_all (\<lambda>(name, _). name \<in> mc_variants cov \<union> pa_covered ?a) vs" for vs
    proof -
      have "accepts (TEnum vs) v" using assms(2) that(1) by simp
      then obtain tag where tag: "variant_of v = Some tag" "tag \<in> set (map fst vs)"
        by (rule variant_of_enum)
      then show ?thesis using step[OF that(1) tag(1)] that(2) by (auto simp: list_all_iff)
    qed
    with step right assms(1) show ?thesis
      unfolding cov
      by (auto simp: cover_arm_def None coverage_right_def analysis_right_def takes_def Let_def
          split: descr.splits)
  next
    case (Some g)
    with assms(1) show ?thesis unfolding cov by (auto simp: cover_arm_def coverage_right_def)
  qed
qed

lemma arms_right:
  assumes "coverage_right t v (fst start) taken" "accepts t v"
  shows "coverage_right t v (fst (fold (arm_coverage q t) arms start)) (taken \<or> (\<exists>arm \<in> set arms. takes arm v))"
  using assms(1)
proof (induction arms arbitrary: start taken)
  case (Cons arm arms)
  obtain cov ds where start: "start = (cov, ds)" by fastforce
  have "coverage_right t v (fst (arm_coverage q t arm start)) (taken \<or> takes arm v)"
    using cover_arm_right[OF _ assms(2)] Cons.prems by (simp add: start)
  from Cons.IH[OF this] show ?case by (simp add: disj_assoc)
qed simp

lemma coverage_start_right: "coverage_right t v coverage_start False"
  by (simp add: coverage_right_def coverage_start_def)

lemma missing_none: "missing_variants vs cov = [] \<longleftrightarrow> set (map fst vs) \<subseteq> mc_variants cov"
  by (auto simp: missing_variants_def filter_empty_conv)

lemma unreachable_taken:
  assumes "coverage_right t v cov taken" "accepts t v"
    and "arm_unreachable (analyze_pattern q p t) cov" "matches p v"
  shows "taken"
proof (cases "mc_all cov")
  case False
  obtain kind l where p: "p = Pattern kind l" by (cases p)
  obtain s c' where r: "analyze q p t context_default = (s, c')" by fastforce
  then have possible: "pa_possible (analyze_pattern q p t) = ps_possible s" by (simp add: analyze_pattern_def)
  note finite = possible_finite[OF r[unfolded p]]
  have "ps_possible s \<noteq> {}" "card (ps_possible s \<inter> mc_variants cov) = card (ps_possible s)"
    using assms(3) False by (simp_all add: arm_unreachable_def redundant_variants_def possible)
  with finite obtain vs where vs: "t = TEnum vs" and sub: "ps_possible s \<subseteq> mc_variants cov"
    by (metis card_subset_eq inf.cobounded1 inf.orderI)
  have "accepts (TEnum vs) v" using assms(2) vs by simp
  then obtain tag where "variant_of v = Some tag" by (rule variant_of_enum)
  with accepted_analysis[OF assms(2), of q p] assms(1,4) vs sub possible show ?thesis
    by (auto simp: analysis_right_def coverage_right_def)
qed (use assms(1) in \<open>simp add: coverage_right_def\<close>)

text \<open>
  C23. The coverage of a match is right about every value that the run-time check of its type accepts.
  If the arms cover every value, or the type is an enum of which no variant is reported as missing,
  an arm without a guard matches the value. If an arm is reported as unreachable and its pattern
  matches the value, an earlier arm without a guard matches it too.
\<close>

theorem match_coverage_sound:
  assumes "validate_value_ref fuel t v path = Inr ()"
    and "check_match q t location (before @ arm # after) ds = (cov, ds')"
  shows "(mc_all cov \<or> (\<exists>vs. t = TEnum vs \<and> missing_variants vs cov = []) \<longrightarrow>
      (\<exists>a \<in> set (before @ arm # after). takes a v)) \<and>
    (arm_unreachable (analyze_pattern q (ma_pattern (located_value arm)) t)
        (fst (fold (\<lambda>a. check_arm q t (located_value a)) before (coverage_start, ds))) \<and>
      matches (ma_pattern (located_value arm)) v \<longrightarrow> (\<exists>a \<in> set before. takes a v))"
proof (intro conjI impI)
  have v: "accepts t v" using assms(1) by (auto simp: accepts_def)
  let ?arms = "before @ arm # after"
  have start: "coverage_right t v (fst (coverage_start, ds)) False" by (simp add: coverage_start_right)
  have cov: "cov = fst (fold (arm_coverage q t) ?arms (coverage_start, ds))"
    using assms(2) by (auto simp: check_match_def split: prod.splits)
  have right: "coverage_right t v cov (\<exists>a \<in> set ?arms. takes a v)"
    unfolding cov using arms_right[OF start v, of q ?arms] by simp
  show "\<exists>a \<in> set ?arms. takes a v"
    if "mc_all cov \<or> (\<exists>vs. t = TEnum vs \<and> missing_variants vs cov = [])"
  proof (cases "mc_all cov")
    case False
    with that obtain vs where vs: "t = TEnum vs" "missing_variants vs cov = []" by blast
    have "accepts (TEnum vs) v" using v vs(1) by simp
    then obtain tag where "variant_of v = Some tag" "tag \<in> set (map fst vs)" by (rule variant_of_enum)
    with right vs show ?thesis by (auto simp: coverage_right_def missing_none)
  qed (use right in \<open>simp add: coverage_right_def\<close>)
  show "\<exists>a \<in> set before. takes a v"
    if "arm_unreachable (analyze_pattern q (ma_pattern (located_value arm)) t)
        (fst (fold (arm_coverage q t) before (coverage_start, ds))) \<and>
      matches (ma_pattern (located_value arm)) v"
    using unreachable_taken[OF arms_right[OF start v, of q before] v conjunct1[OF that] conjunct2[OF that]]
    by simp
qed

section \<open>A concrete value\<close>

text \<open>The option \<open>'Some(3)\<close> in the heap of an execution, its type, and the arms of a match on it.\<close>

definition sample_option :: value_ref where
  "sample_option =
     \<lparr>vr_value = rich_unknown (RTagged (Handle Work 0)),
      vr_view = \<lparr>hv_current = heap_work\<lparr>heap_objects :=
          [OTagged (rich_unknown (RBuiltinAtom BA_Some)) (rich_unknown (RInt 3))]\<rparr>,
        hv_background = None\<rparr>\<rparr>"

definition option_type :: type_descriptor where
  "option_type = TEnum [(''None'', None), (''Some'', Some TInt)]"

definition sample_location :: "u32 \<Rightarrow> loc" where
  "sample_location n = Loc 0 n (n + 1)"

definition some_pattern :: "pattern_kind \<Rightarrow> pattern" where
  "some_pattern kind = Pattern (P_Tagged ''Some'' (Pattern kind (sample_location 5))) (sample_location 4)"

definition sample_arm :: "pattern \<Rightarrow> match_arm" where
  "sample_arm p = Located (MatchArm p None (Expr (E_Int 1) (sample_location 9)) False) (sample_location 4)"

definition sample_arms :: "match_arm list" where
  "sample_arms = [sample_arm (some_pattern P_Wildcard),
     sample_arm (Pattern (P_Atom ''None'') (sample_location 6)), sample_arm (some_pattern (P_Int 3))]"

lemma sample_validated: "validate_value_ref 0 option_type sample_option ''value'' = Inr ()"
  by code_simp



theorem match_coverage_sound_witness:
  "(\<exists>a \<in> set sample_arms. takes a sample_option) \<and>
   (\<exists>a \<in> set (take 2 sample_arms). takes a sample_option)"
proof -
  let ?last = "sample_arm (some_pattern (P_Int 3))"
  have arms: "sample_arms = take 2 sample_arms @ ?last # []" by (simp add: sample_arms_def)
  obtain cov ds where m: "check_match (\<lambda>s. s) option_type (sample_location 1)
      (take 2 sample_arms @ ?last # []) Map.empty = (cov, ds)" by (metis prod.collapse)
  have "mc_all (fst (check_match (\<lambda>s. s) option_type (sample_location 1)
      (take 2 sample_arms @ ?last # []) Map.empty))" by code_simp
  moreover have "arm_unreachable (analyze_pattern (\<lambda>s. s) (ma_pattern (located_value ?last)) option_type)
      (fst (fold (\<lambda>a. check_arm (\<lambda>s. s) option_type (located_value a)) (take 2 sample_arms)
        (coverage_start, Map.empty)))" by code_simp
  moreover have "matches (ma_pattern (located_value ?last)) sample_option" by code_simp
  ultimately show ?thesis
    using match_coverage_sound[OF sample_validated m] m arms by simp
qed

end
