(* ===== verification/Spec2Isabelle.thy ===== *)
theory Spec2Isabelle
  imports Lir_Correct Sha256 Operations Frames Import_Export Assignability Hir_Correct
    Compile_Errors Compiler_Findings Evaluation_Correct Metadata_Correct Patterns_Correct
begin

text \<open>
  A model of the core of Telora (\<open>crates/telora-core\<close>): the path from the syntax tree of a program,
  through name resolution, elaboration and compilation to register-level code, its linked bytecode
  and its objects in the heap, to its run on the virtual machine and the value that comes back; with
  the theorems that make it correct.

  \<^bold>\<open>The program.\<close> A Telora module is parsed to a syntax tree; \<open>hir.rs\<close> resolves its names, inference
  types it, \<open>elaboration.rs\<close> replaces the forms that are only notation, and \<open>compiler.rs\<close> makes
  the register-level form of \<open>lir.rs\<close> of it. The assembler of \<open>lir.rs\<close> and \<open>bytecode.rs\<close> turns it into functions whose operands are
  indices into registers, constants, texts and prototypes. \<open>heap.rs\<close> links a function into the heap
  of one execution, the Work heap, behind which lies a shared Main heap that is only read, and
  publishes results from the one to the other. \<open>vm.rs\<close> runs linked code under quotas of fuel and of
  allocated bytes, calls native functions and reports errors with a trace.

  \<^bold>\<open>The theories\<close>, in the order in which they import each other.

    \<^item> \<open>Prelude\<close>: machine integers, results, computations over a state that can fail, and facts
      about them.
    \<^item> \<open>Source\<close> (\<open>source.rs\<close>): ranges, locations, origins, diagnostics.
    \<^item> \<open>Opcodes\<close>, \<open>Bytecode\<close> (\<open>bytecode.rs\<close>): instructions, linked opcodes, the linking tables.
      Linking is undone by reading the tables; a text is in the table once.
    \<^item> \<open>Natives\<close>, \<open>Value\<close> (\<open>value.rs\<close>): the native operations with their names and arities, atoms,
      values outside a heap. \<open>Float64\<close>: the arithmetic of \<open>f64\<close> on its bits.
    \<^item> \<open>Lir\<close> (\<open>lir.rs\<close>), \<open>Lir_Correct\<close>: the assembler, which functions it accepts, and what it
      promises of the code: operands in bounds, jumps to their labels, origins kept.
    \<^item> \<open>Sha256\<close> (\<open>sha256.rs\<close>): the streaming hash, its typed protocol, its schedule.
    \<^item> \<open>Query\<close> (\<open>query.rs\<close>): revisions and cancellation.
    \<^item> \<open>Heap\<close>, \<open>Heap_View\<close>, \<open>Publish\<close> (\<open>heap.rs\<close>): objects, interning, import; reading, equality,
      export; publication.
    \<^item> \<open>Machine\<close>, \<open>Array_Natives\<close>, \<open>Dict_Natives\<close>, \<open>Vm\<close>, \<open>Interpreter\<close>, \<open>Run\<close>, \<open>World\<close> (\<open>vm.rs\<close>):
      accounts, errors and registers; the natives and their continuations; calls and returns; the
      opcodes; the loop; the entry points.
    \<^item> \<open>Native_Effects\<close>, \<open>Machine_Steps\<close>, \<open>Frames\<close>: what natives, opcodes and whole runs keep.
    \<^item> \<open>Operations\<close>, \<open>Graph_Walks\<close>, \<open>Import_Export\<close>: what single operations compute, and that
      the walks over the object graph end and are inverse to import.
    \<^item> \<open>Types\<close>, \<open>Assignability\<close> (\<open>types.rs\<close>): type descriptors and schemes, canonical unions, joins,
      assignability and the paths of differences.
    \<^item> \<open>Metadata\<close>, \<open>Metadata_Correct\<close> (\<open>types.rs\<close>): the record that stands for a type as a value and
      its decoder, which reads back the type that the record was made from.
    \<^item> \<open>Value_Ref\<close> (\<open>ValueRef\<close> of \<open>vm.rs\<close>), \<open>Validate\<close> (\<open>types.rs\<close>): how native code reads a value
      of the heap; decoding a type of the heap and checking a value against it.
    \<^item> \<open>Patterns\<close>, \<open>Patterns_Correct\<close> (\<open>pattern.rs\<close> and the arms of a match in \<open>types.rs\<close>): what the
      checker knows of a pattern, and the coverage of a match; both are right about the values that
      \<open>validate_value_ref\<close> accepts.
    \<^item> \<open>Ast\<close> (\<open>ast.rs\<close>), \<open>Frontend\<close> (\<open>lexer.rs\<close>): the syntax tree, with an induction rule over the
      expressions that an expression holds; the errors of the front end; loops over a state.
    \<^item> \<open>Runtime_Names\<close>, \<open>Compiler\<close>, \<open>Compile_Program\<close> (\<open>compiler.rs\<close>): the free names of an
      expression; the struct \<open>Compiler\<close> and its methods, one definition each, and one per phase of
      \<open>compile_block_inner\<close> and \<open>program_in\<close>; the entry points.
    \<^item> \<open>Compiler_Flow\<close>: when code is well-formed, by a walk over its items that tracks which registers
      are written; the assertion \<open>reached\<close> on the state of a compilation and its rules.
      \<open>Compiler_Correct\<close>, \<open>Compiler_Sound\<close>: every method keeps it, with \<open>compiled_sound\<close> for
      expressions. \<open>Compile_Program_Correct\<close>: what follows for programs; the names that are retained
      and erased. \<open>Compile_Errors\<close>: the compiler after elaboration. \<open>Compiler_Findings\<close>: four small
      programs that the code does not treat as it means to.
    \<^item> \<open>Elaboration\<close>, \<open>Elaboration_Correct\<close> (\<open>elaboration.rs\<close>): the pass; what it removes, what it
      keeps, when it panics.
    \<^item> \<open>Hir\<close>, \<open>Hir_Correct\<close> (\<open>hir.rs\<close>): the resolver and the renumbering by location; its tables are
      always consistent.
    \<^item> \<open>Evaluation\<close>, \<open>Evaluation_Correct\<close> (\<open>evaluation.rs\<close>): best-effort evaluation of a plan of
      units; a session refines the values that its plan defines, and failures lead back to their roots.
    \<^item> \<open>Samples\<close>: concrete inputs.

  \<^bold>\<open>How the code is modelled.\<close> A \<open>Result\<close> is a sum with the error on the left; a function with
  \<open>&mut\<close> parameters is a computation over the record of what it can change and keeps what it did
  before an error. \<open>u8\<close>, \<open>u32\<close>, \<open>u64\<close> and \<open>i64\<close> in data are words; an index is a natural number,
  cast to \<open>u32\<close> where the code casts it. A string is the list of its UTF-8 bytes as characters, so
  \<open>length\<close> is the number of bytes and the order of lists is the order of strings. A handle is a
  storage and a slot, and the heap is the explicit store that gives shared objects their identity;
  the address of an \<open>Arc\<close> that the code compares by pointer is an explicit number. Panics are the
  failures of class \<open>VmPanic\<close>.

  \<^bold>\<open>Interfaces.\<close> \<open>interner\<close> is the contract of the two interning tables of a heap, interpreted by the
  texts and the shapes. \<open>native_steps\<close> and \<open>instruction_steps\<close> say which primitive steps a relation
  between machine states has to contain for natives and for data opcodes to stay inside it, and
  \<open>machine_steps\<close> for whole runs; they are interpreted by ``the frames are the same'', ``the account
  stays within its quota'' and ``the heap has only grown''.

  \<^bold>\<open>Bounds and fuel.\<close> The loop of the machine is a total function: every turn lowers the measure of
  \<open>turn_makes_progress\<close>. Equality, export and publication recurse over cyclic graphs; their fuel is
  larger than the number of pairs of objects (of objects) of the view, and \<open>values_equal_ends\<close> and
  \<open>export_ends\<close> show that more changes nothing and that it never runs out. The passes over syntax
  trees recurse on the size of the tree and need no fuel; \<open>decode_type_ref\<close> recurses over the heap and
  does not end on a type that is cyclic, so running out of its fuel is the fault \<open>Endless\<close>; the loops that collect names until nothing
  is new end because the names of the program are finitely many.

  \<^bold>\<open>Parameters.\<close> Natives that are not modelled, and the callbacks of a host, are the functions
  \<open>env_native\<close> and \<open>env_callback\<close> of the environment; what theorems need of them is a named
  hypothesis (\<open>host_respects\<close>), which the sample host satisfies. What a running query reads from its
  atomics is the observation \<open>env_observe\<close>; the sizes of the two value types and the debug form of a
  string are parameters too. So are the order in which the compiler iterates over a hash map
  (\<open>cp_iteration\<close>), the line and column of an offset (\<open>sf_position\<close>), and what inference tells the
  compiler: the families of the propagations and the record \<open>analysis\<close>. The theorems hold for all
  of them.

  \<^bold>\<open>Not modelled.\<close> The lexers and parsers of Telora, JSON, TOML and YAML, which rest on the
  third-party crates \<open>logos\<close> and \<open>lelwel\<close>, on scalar parsers of crates and on code that the build
  generates, and with them \<open>compile_source\<close> and \<open>run_source\<close>; inference over expressions in
  \<open>types.rs\<close>, except what a match says of its patterns; modules, semantic queries and the workspace, which are file system, caching and
  concurrency around these passes; the documents and formatters over third-party ropes and syntax
  trees; the natives over type descriptors, codecs, JSON, attributes, models, strings and paths and
  the registers of the call context of a host, which the machine sees through \<open>env_native\<close> and \<open>env_callback\<close>; the
  command line and the language server. The cache of exported shapes and the pretty printing of
  values are left out.
\<close>

end
